(* ===== verification/Prelude.thy ===== *)
theory Prelude
  imports Main "HOL-Library.List_Lexorder" "HOL-Library.Product_Lexorder" "HOL-Library.Multiset" "HOL-Library.Code_Target_Nat"
begin

text \<open>
  What every component of the development shares: Python strings as lists of code points,
  exceptions as values, the standard-library operations the sources use (\<open>str.strip\<close>,
  \<open>str.split\<close>, \<open>str.join\<close>, \<open>dict.fromkeys\<close>, \<open>dict.setdefault(k, []).append(v)\<close>,
  \<open>sorted\<close> with and without \<open>reverse\<close>, \<open>next\<close>), and the lemmas about them that the
  component proofs use. The collections \<open>result_simps\<close> and \<open>dict_simps\<close> carry the
  rewriting of exceptions and of insertion-ordered dictionaries.
\<close>

named_theorems result_simps
named_theorems dict_simps

section \<open>Strings\<close>

text \<open>
  A Python string is a sequence of Unicode code points, compared lexicographically: a list of
  natural numbers under the lexicographic order of \<open>List_Lexorder\<close>. An ASCII literal of the
  sources is written \<open>cp ''text''\<close>.
\<close>

type_synonym pystr = "nat list"

definition cp :: "string \<Rightarrow> pystr" where
  "cp s = map of_char s"

definition py_isspace :: "nat \<Rightarrow> bool" where
  "py_isspace c \<longleftrightarrow> c \<in> set [9, 10, 11, 12, 13, 28, 29, 30, 31, 32, 133, 160, 5760,
     8192, 8193, 8194, 8195, 8196, 8197, 8198, 8199, 8200, 8201, 8202, 8232, 8233, 8239, 8287, 12288]"

definition py_lstrip :: "pystr \<Rightarrow> pystr" where
  "py_lstrip s = dropWhile py_isspace s"

definition py_strip :: "pystr \<Rightarrow> pystr" where
  "py_strip s = rev (dropWhile py_isspace (rev (py_lstrip s)))"

text \<open>\<open>s.split(sep)\<close> for a one-character separator: never empty.\<close>

fun py_split :: "nat \<Rightarrow> pystr \<Rightarrow> pystr list" where
  "py_split sep [] = [[]]"
| "py_split sep (c # cs) =
     (if c = sep then [] # py_split sep cs
      else (case py_split sep cs of [] \<Rightarrow> [[c]] | t # ts \<Rightarrow> (c # t) # ts))"

text \<open>\<open>sep.join(parts)\<close>.\<close>

fun py_join :: "pystr \<Rightarrow> pystr list \<Rightarrow> pystr" where
  "py_join sep [] = []"
| "py_join sep [t] = t"
| "py_join sep (t # ts) = t @ sep @ py_join sep ts"

text \<open>\<open>needle in haystack\<close> and \<open>s.startswith(p)\<close> on strings.\<close>

fun py_startswith :: "pystr \<Rightarrow> pystr \<Rightarrow> bool" where
  "py_startswith s [] = True"
| "py_startswith [] (p # ps) = False"
| "py_startswith (c # cs) (p # ps) = (c = p \<and> py_startswith cs ps)"

fun py_contains :: "pystr \<Rightarrow> pystr \<Rightarrow> bool" where
  "py_contains [] needle = (needle = [])"
| "py_contains (c # cs) needle = (py_startswith (c # cs) needle \<or> py_contains cs needle)"

section \<open>Exceptions as values\<close>

text \<open>The exceptions the modelled code raises, with the message or payload it raises them with.\<close>

datatype py_error =
    KeyError pystr
  | ValueError string
  | TypeError string
  | RuntimeError string
  | IndexError
  | AssertionError
  | StopIteration
  | TimeoutError
  | DecimalOverflow
  | DecimalInvalidOperation
  | NormalizationContractError pystr pystr
  | RatingNotComparableError
  | RatingRegistryConfigurationError string

type_synonym 'a result = "py_error + 'a"

definition rbind :: "'a result \<Rightarrow> ('a \<Rightarrow> 'b result) \<Rightarrow> 'b result" where
  "rbind r f = (case r of Inl e \<Rightarrow> Inl e | Inr x \<Rightarrow> f x)"

text \<open>\<open>if condition: raise error\<close>.\<close>

definition raise_if :: "bool \<Rightarrow> py_error \<Rightarrow> unit result" where
  "raise_if b e = (if b then Inl e else Inr ())"

text \<open>A comprehension whose body may raise: the first exception ends it.\<close>

fun traverse :: "('a \<Rightarrow> 'b result) \<Rightarrow> 'a list \<Rightarrow> 'b list result" where
  "traverse f [] = Inr []"
| "traverse f (x # xs) =
     (case f x of Inl e \<Rightarrow> Inl e
      | Inr y \<Rightarrow> (case traverse f xs of Inl e \<Rightarrow> Inl e | Inr ys \<Rightarrow> Inr (y # ys)))"

text \<open>\<open>next(generator, None)\<close> and \<open>next(generator)\<close>.\<close>

fun next_or_none :: "('a \<Rightarrow> bool) \<Rightarrow> 'a list \<Rightarrow> 'a option" where
  "next_or_none p [] = None"
| "next_or_none p (x # xs) = (if p x then Some x else next_or_none p xs)"

definition next_or_raise :: "'a list \<Rightarrow> 'a result" where
  "next_or_raise xs = (case xs of [] \<Rightarrow> Inl StopIteration | x # _ \<Rightarrow> Inr x)"

section \<open>Insertion-ordered dictionaries and sorting\<close>

text \<open>\<open>dict.fromkeys(xs)\<close>, read as its keys: the first occurrence of each element, in order.\<close>

fun fromkeys :: "'a list \<Rightarrow> 'a list" where
  "fromkeys [] = []"
| "fromkeys (x # xs) = x # removeAll x (fromkeys xs)"

text \<open>\<open>d.setdefault(k, []).append(v)\<close>, and the loop that fills \<open>d\<close> from a sequence.\<close>

fun setdefault_append :: "('k \<times> 'a list) list \<Rightarrow> 'k \<Rightarrow> 'a \<Rightarrow> ('k \<times> 'a list) list" where
  "setdefault_append [] k v = [(k, [v])]"
| "setdefault_append ((k', vs) # d) k v =
     (if k' = k then (k', vs @ [v]) # d else (k', vs) # setdefault_append d k v)"

fun group_into :: "('k \<times> 'a list) list \<Rightarrow> ('a \<Rightarrow> 'k) \<Rightarrow> 'a list \<Rightarrow> ('k \<times> 'a list) list" where
  "group_into d key [] = d"
| "group_into d key (x # xs) = group_into (setdefault_append d (key x) x) key xs"

text \<open>\<open>d[k] = v\<close>: overwrite in place or append.\<close>

fun dict_set :: "('k \<times> 'v) list \<Rightarrow> 'k \<Rightarrow> 'v \<Rightarrow> ('k \<times> 'v) list" where
  "dict_set [] k v = [(k, v)]"
| "dict_set ((k', v') # d) k v = (if k' = k then (k, v) # d else (k', v') # dict_set d k v)"

text \<open>\<open>sorted(xs, key=f)\<close> is stable; so is \<open>sorted(xs, key=f, reverse=True)\<close>.\<close>

definition py_sorted :: "('a \<Rightarrow> 'k::linorder) \<Rightarrow> 'a list \<Rightarrow> 'a list" where
  "py_sorted f xs = sort_key f xs"

definition py_sorted_desc :: "('a \<Rightarrow> 'k::linorder) \<Rightarrow> 'a list \<Rightarrow> 'a list" where
  "py_sorted_desc f xs = rev (sort_key f (rev xs))"

definition py_sorted_by :: "bool \<Rightarrow> ('a \<Rightarrow> 'k::linorder) \<Rightarrow> 'a list \<Rightarrow> 'a list" where
  "py_sorted_by descending f xs = (if descending then py_sorted_desc f xs else py_sorted f xs)"

text \<open>\<open>min(xs, key=f)\<close> and \<open>max(xs, key=f)\<close>: the first extremal element; \<open>None\<close> where they raise.\<close>

fun min_by :: "('a \<Rightarrow> 'k::linorder) \<Rightarrow> 'a list \<Rightarrow> 'a option" where
  "min_by f [] = None"
| "min_by f (x # xs) = Some (foldl (\<lambda>m y. if f y < f m then y else m) x xs)"

fun max_by :: "('a \<Rightarrow> 'k::linorder) \<Rightarrow> 'a list \<Rightarrow> 'a option" where
  "max_by f [] = None"
| "max_by f (x # xs) = Some (foldl (\<lambda>m y. if f m < f y then y else m) x xs)"

section \<open>Lemmas on strings\<close>

lemma cp_eq_iff [simp]: "cp s = cp t \<longleftrightarrow> s = t"
proof -
  have "inj (of_char :: char \<Rightarrow> nat)" by (rule injI) simp
  then show ?thesis by (simp add: cp_def inj_map_eq_map)
qed

lemma cp_Nil [simp]: "cp [] = []"
  by (simp add: cp_def)

lemma cp_eq_Nil [simp]: "cp s = [] \<longleftrightarrow> s = []" "[] = cp s \<longleftrightarrow> s = []"
  by (auto simp: cp_def)

lemma cp_append: "cp (s @ t) = cp s @ cp t"
  by (simp add: cp_def)

lemma set_dropWhile_rev_last: "dropWhile p (rev xs) = rev ys \<Longrightarrow> ys \<noteq> [] \<Longrightarrow> \<not> p (last ys)"
  by (metis hd_dropWhile hd_rev rev_is_Nil_conv rev_rev_ident)

lemma py_strip_eq_Nil_iff: "py_strip s = [] \<longleftrightarrow> (\<forall>c \<in> set s. py_isspace c)"
  by (auto simp: py_strip_def py_lstrip_def dropWhile_eq_Nil_conv dest: set_dropWhileD)
     (metis dropWhile_eq_Nil_conv hd_dropWhile hd_in_set)

lemma dropWhile_rev_prefix: "\<exists>zs. xs = rev (dropWhile p (rev xs)) @ zs"
  by (metis rev_append rev_rev_ident takeWhile_dropWhile_id)

lemma py_strip_hd: "py_strip s \<noteq> [] \<Longrightarrow> \<not> py_isspace (hd (py_strip s))"
proof -
  assume ne: "py_strip s \<noteq> []"
  obtain zs where zs: "py_lstrip s = py_strip s @ zs"
    using dropWhile_rev_prefix [of "py_lstrip s" py_isspace] by (auto simp: py_strip_def)
  with ne have "hd (py_strip s) = hd (py_lstrip s)" "py_lstrip s \<noteq> []" by simp_all
  then show ?thesis by (simp add: py_lstrip_def hd_dropWhile)
qed

lemma py_strip_last: "py_strip s \<noteq> [] \<Longrightarrow> \<not> py_isspace (last (py_strip s))"
  by (rule set_dropWhile_rev_last [of _ "py_lstrip s"]) (simp_all add: py_strip_def)

lemma py_strip_id: "s = [] \<or> (\<not> py_isspace (hd s) \<and> \<not> py_isspace (last s)) \<Longrightarrow> py_strip s = s"
proof (cases s)
  case (Cons c cs)
  moreover assume "s = [] \<or> (\<not> py_isspace (hd s) \<and> \<not> py_isspace (last s))"
  ultimately have "dropWhile py_isspace s = s" "dropWhile py_isspace (rev s) = rev s"
    by (simp, metis dropWhile_eq_self_iff hd_rev list.distinct(1) rev_rev_ident)
  then show ?thesis by (simp add: py_strip_def py_lstrip_def)
qed (simp add: py_strip_def py_lstrip_def)

lemma py_strip_idem [simp]: "py_strip (py_strip s) = py_strip s"
  by (rule py_strip_id) (use py_strip_hd py_strip_last in blast)

lemma py_split_not_Nil [simp]: "py_split sep s \<noteq> []"
  by (induction s) (auto split: list.splits)

lemma py_join_split: "py_join [sep] (py_split sep s) = s"
proof (induction s)
  case (Cons c cs)
  then show ?case
    by (cases "py_split sep cs" rule: list.exhaust) (auto, cases "tl (py_split sep cs)", auto)
qed simp

lemma py_split_no_sep: "t \<in> set (py_split sep s) \<Longrightarrow> sep \<notin> set t"
  by (induction s arbitrary: t) (auto split: if_splits list.splits)

lemma py_startswith_iff: "py_startswith s p \<longleftrightarrow> (\<exists>t. s = p @ t)"
  by (induction s p rule: py_startswith.induct) auto

lemma py_contains_iff: "py_contains s p \<longleftrightarrow> (\<exists>u t. s = u @ p @ t)"
proof (induction s)
  case (Cons c cs)
  show ?case
  proof
    assume "py_contains (c # cs) p"
    then consider "\<exists>t. c # cs = p @ t" | "\<exists>u t. cs = u @ p @ t"
      using Cons by (auto simp: py_startswith_iff)
    then show "\<exists>u t. c # cs = u @ p @ t"
      by cases (metis append_Nil, metis append_Cons)
  next
    assume "\<exists>u t. c # cs = u @ p @ t"
    then obtain u t where "c # cs = u @ p @ t" by blast
    then show "py_contains (c # cs) p"
    proof (cases u)
      case Nil
      with \<open>c # cs = u @ p @ t\<close> have "py_startswith (c # cs) p"
        by (auto simp: py_startswith_iff)
      then show ?thesis by simp
    qed (use Cons in auto)
  qed
qed simp

section \<open>Lemmas on exceptions\<close>

lemma rbind_Inl [simp, result_simps]: "rbind (Inl e) f = Inl e"
  by (simp add: rbind_def)

lemma rbind_Inr [simp, result_simps]: "rbind (Inr x) f = f x"
  by (simp add: rbind_def)

lemma rbind_eq_Inr_iff [result_simps]: "rbind r f = Inr y \<longleftrightarrow> (\<exists>x. r = Inr x \<and> f x = Inr y)"
  by (cases r) simp_all

lemma rbind_eq_Inl_iff [result_simps]:
  "rbind r f = Inl e \<longleftrightarrow> r = Inl e \<or> (\<exists>x. r = Inr x \<and> f x = Inl e)"
  by (cases r) simp_all

lemma raise_if_eq_Inr_iff [simp, result_simps]: "raise_if b e = Inr u \<longleftrightarrow> \<not> b"
  by (simp add: raise_if_def)

lemma raise_if_False [simp]: "raise_if False e = Inr ()"
  by (simp add: raise_if_def)

lemma raise_if_True [simp]: "raise_if True e = Inl e"
  by (simp add: raise_if_def)

lemma successively_strict: "successively (<) (xs :: 'a :: linorder list) \<Longrightarrow> sorted_wrt (<) xs"
  by (subst (asm) successively_iff_sorted_wrt_strong) auto

lemma traverse_eq_Inr_iff:
  "traverse f xs = Inr ys \<longleftrightarrow> list_all2 (\<lambda>x y. f x = Inr y) xs ys"
proof (induction xs arbitrary: ys)
  case (Cons x xs)
  have "traverse f (x # xs) = Inr ys \<longleftrightarrow>
      (\<exists>y zs. f x = Inr y \<and> traverse f xs = Inr zs \<and> ys = y # zs)"
    by (cases "f x"; cases "traverse f xs") auto
  then show ?case by (auto simp: Cons.IH list_all2_Cons1)
qed auto

lemma traverse_Inr_total:
  assumes "\<And>x. x \<in> set xs \<Longrightarrow> \<exists>y. f x = Inr y"
  shows "\<exists>ys. traverse f xs = Inr ys"
  using assms by (induction xs) (auto, fastforce)

lemma traverse_all:
  assumes "\<And>x. x \<in> set xs \<Longrightarrow> \<exists>y. f x = Inr y \<and> P y"
  shows "\<exists>ys. traverse f xs = Inr ys \<and> (\<forall>y \<in> set ys. P y)"
  using assms
proof (induction xs)
  case (Cons x xs)
  from Cons.prems [of x] obtain y where "f x = Inr y" "P y" by auto
  moreover from Cons obtain ys where "traverse f xs = Inr ys" "\<forall>y \<in> set ys. P y" by auto
  ultimately show ?case by simp
qed simp

lemma traverse_length: "traverse f xs = Inr ys \<Longrightarrow> length ys = length xs"
  by (simp add: traverse_eq_Inr_iff list_all2_lengthD)

lemma traverse_member: "traverse f xs = Inr ys \<Longrightarrow> y \<in> set ys \<Longrightarrow> \<exists>x \<in> set xs. f x = Inr y"
  unfolding traverse_eq_Inr_iff by (auto simp: list_all2_conv_all_nth in_set_conv_nth) (metis nth_mem)

lemma traverse_image: "traverse f xs = Inr ys \<Longrightarrow> x \<in> set xs \<Longrightarrow> \<exists>y \<in> set ys. f x = Inr y"
  unfolding traverse_eq_Inr_iff by (auto simp: list_all2_conv_all_nth in_set_conv_nth)

lemma traverse_Inr_map: "traverse (\<lambda>x. Inr (g x)) xs = Inr (map g xs)"
  by (induction xs) simp_all

lemma traverse_cong_Inr:
  assumes "\<And>x. x \<in> set xs \<Longrightarrow> f x = Inr (g x)"
  shows "traverse f xs = Inr (map g xs)"
  using assms by (induction xs) simp_all

lemma next_or_none_Some_iff:
  "next_or_none p xs = Some x \<Longrightarrow> x \<in> set xs \<and> p x"
  by (induction xs) (auto split: if_splits)

lemma next_or_none_None_iff: "next_or_none p xs = None \<longleftrightarrow> (\<forall>x \<in> set xs. \<not> p x)"
  by (induction xs) auto

lemma rbind_total:
  "\<exists>x. r = Inr x \<Longrightarrow> (\<And>x. r = Inr x \<Longrightarrow> \<exists>y. f x = Inr y) \<Longrightarrow> \<exists>y. rbind r f = Inr y"
  by auto

section \<open>Lemmas on dictionaries and sorting\<close>

lemma foldl_min_by:
  "foldl (\<lambda>m y. if f y < f m then y else m) x xs \<in> set (x # xs) \<and>
   (\<forall>y \<in> set (x # xs). f (foldl (\<lambda>m y. if f y < f m then y else m) x xs) \<le> (f y :: 'k::linorder))"
proof (induction xs arbitrary: x)
  case (Cons y ys)
  show ?case
    using Cons [of "if f y < f x then y else x"] by (auto split: if_splits)
qed simp

lemma min_by_Some: "min_by f xs = Some m \<Longrightarrow> m \<in> set xs \<and> (\<forall>y \<in> set xs. f m \<le> f y)"
  using foldl_min_by [of f] by (cases xs) auto

lemma min_by_defined: "xs \<noteq> [] \<Longrightarrow> \<exists>m. min_by f xs = Some m"
  by (cases xs) auto

lemma foldl_max_by:
  "foldl (\<lambda>m y. if f m < f y then y else m) x xs \<in> set (x # xs) \<and>
   (\<forall>y \<in> set (x # xs). (f y :: 'k::linorder) \<le> f (foldl (\<lambda>m y. if f m < f y then y else m) x xs))"
proof (induction xs arbitrary: x)
  case (Cons y ys)
  show ?case
    using Cons [of "if f x < f y then y else x"] by (auto split: if_splits)
qed simp

lemma max_by_Some: "max_by f xs = Some m \<Longrightarrow> m \<in> set xs \<and> (\<forall>y \<in> set xs. f y \<le> f m)"
  using foldl_max_by [of f] by (cases xs) auto

lemma max_by_defined: "xs \<noteq> [] \<Longrightarrow> \<exists>m. max_by f xs = Some m"
  by (cases xs) auto

text \<open>With distinct keys the minimal element does not depend on the order of the elements.\<close>

lemma min_by_mset_cong:
  assumes "mset xs = mset ys" and "inj_on f (set xs)"
  shows "min_by f xs = min_by f ys"
proof (cases "xs = []")
  case False
  with assms(1) have "ys \<noteq> []" by auto
  with False obtain a b where ab: "min_by f xs = Some a" "min_by f ys = Some b"
    using min_by_defined by blast
  have "set ys = set xs" using assms(1) by (metis set_mset_mset)
  with min_by_Some [OF ab(1)] min_by_Some [OF ab(2)] have "f a = f b" "a \<in> set xs" "b \<in> set xs"
    by (auto intro: antisym)
  with assms(2) ab show ?thesis by (simp add: inj_on_eq_iff)
qed (use assms in simp)

lemma card_image_eq_1:
  assumes "x \<in> A"
  shows "card (f ` A) = 1 \<longleftrightarrow> (\<forall>y \<in> A. \<forall>z \<in> A. f y = f z)"
proof
  assume "card (f ` A) = 1"
  then obtain c where "f ` A = {c}" by (auto simp: card_1_singleton_iff)
  then show "\<forall>y \<in> A. \<forall>z \<in> A. f y = f z" by (metis imageI singletonD)
next
  assume "\<forall>y \<in> A. \<forall>z \<in> A. f y = f z"
  with assms have "f ` A = {f x}" by blast
  then show "card (f ` A) = 1" by simp
qed

lemma set_fromkeys [simp, dict_simps]: "set (fromkeys xs) = set xs"
  by (induction xs) auto

lemma distinct_fromkeys [simp, dict_simps]: "distinct (fromkeys xs)"
  by (induction xs) (auto simp: distinct_removeAll)

lemma fromkeys_id: "distinct xs \<Longrightarrow> fromkeys xs = xs"
  by (induction xs) auto

lemma fromkeys_removeAll: "fromkeys (removeAll x xs) = removeAll x (fromkeys xs)"
  by (induction xs) (auto simp: removeAll_filter_not_eq conj_commute)

lemma fromkeys_snoc: "fromkeys (xs @ [x]) = (if x \<in> set xs then fromkeys xs else fromkeys xs @ [x])"
  by (induction xs) (auto simp: removeAll_filter_not_eq)

lemma setdefault_append_present:
  assumes "distinct (map fst d)" and "k \<in> set (map fst d)"
  shows "setdefault_append d k v = map (\<lambda>(k', vs). (k', if k' = k then vs @ [v] else vs)) d"
  using assms
proof (induction d)
  case (Cons p d)
  obtain k' vs where p: "p = (k', vs)" by (cases p)
  show ?case
  proof (cases "k' = k")
    case True
    with Cons.prems p have "k \<notin> fst ` set d" by simp
    then have "map (\<lambda>(k', vs). (k', if k' = k then vs @ [v] else vs)) d = d"
      by (intro map_idI) (auto simp: image_iff)
    with True p show ?thesis by simp
  qed (use Cons p in auto)
qed simp

lemma setdefault_append_absent:
  "k \<notin> set (map fst d) \<Longrightarrow> setdefault_append d k v = d @ [(k, [v])]"
  by (induction d) auto

text \<open>The grouping loop computes, for every key in order of first appearance, the elements with it.\<close>

definition group_by_key :: "('a \<Rightarrow> 'k) \<Rightarrow> 'a list \<Rightarrow> ('k \<times> 'a list) list" where
  "group_by_key key xs = map (\<lambda>k. (k, filter (\<lambda>x. key x = k) xs)) (fromkeys (map key xs))"

lemma map_fst_group_by_key: "map fst (group_by_key key xs) = fromkeys (map key xs)"
  by (simp add: group_by_key_def comp_def)

lemma group_by_key_snoc:
  "setdefault_append (group_by_key key xs) (key x) x = group_by_key key (xs @ [x])"
proof (cases "key x \<in> set (map key xs)")
  case True
  then have "key x \<in> set (map fst (group_by_key key xs))"
    by (simp only: map_fst_group_by_key set_fromkeys)
  moreover have "distinct (map fst (group_by_key key xs))"
    by (simp only: map_fst_group_by_key distinct_fromkeys)
  ultimately show ?thesis
    using True by (simp add: setdefault_append_present) (auto simp: group_by_key_def fromkeys_snoc)
next
  case False
  then have "key x \<notin> set (map fst (group_by_key key xs))"
    by (simp only: map_fst_group_by_key set_fromkeys) simp
  then have "setdefault_append (group_by_key key xs) (key x) x = group_by_key key xs @ [(key x, [x])]"
    by (rule setdefault_append_absent)
  then show ?thesis
    using False by (auto simp: group_by_key_def fromkeys_snoc filter_empty_conv image_iff)
qed

lemma group_into_group_by_key: "group_into (group_by_key key xs) key ys = group_by_key key (xs @ ys)"
  by (induction ys arbitrary: xs) (simp_all add: group_by_key_snoc)

lemma group_into_eq: "group_into [] key xs = group_by_key key xs"
  using group_into_group_by_key [of key "[]" xs] by (simp add: group_by_key_def)

lemma mset_concat_filter_keys:
  assumes "distinct ks" and "set (map key xs) \<subseteq> set ks"
  shows "mset (concat (map (\<lambda>k. filter (\<lambda>x. key x = k) xs) ks)) = mset xs"
  using assms
proof (induction ks arbitrary: xs)
  case (Cons k ks)
  let ?rest = "filter (\<lambda>x. key x \<noteq> k) xs"
  have eq: "filter (\<lambda>x. key x = k') ?rest = filter (\<lambda>x. key x = k') xs" if "k' \<in> set ks" for k'
    using Cons.prems(1) that by (auto simp: filter_filter intro: filter_cong)
  have "mset (concat (map (\<lambda>k'. filter (\<lambda>x. key x = k') ?rest) ks)) = mset ?rest"
    using Cons.prems by (intro Cons.IH) auto
  with eq have "mset (concat (map (\<lambda>k'. filter (\<lambda>x. key x = k') xs) ks)) = mset ?rest"
    by (simp cong: map_cong)
  then show ?case by (simp add: union_filter_mset_complement)
qed simp

lemma mset_group_by_key: "mset (concat (map snd (group_by_key key xs))) = mset xs"
  using mset_concat_filter_keys [of "fromkeys (map key xs)" key xs]
  by (simp add: group_by_key_def comp_def)

lemma mset_py_sorted [simp]: "mset (py_sorted f xs) = mset xs"
  by (simp add: py_sorted_def)

lemma set_py_sorted [simp]: "set (py_sorted f xs) = set xs"
  by (simp add: py_sorted_def)

lemma length_py_sorted [simp]: "length (py_sorted f xs) = length xs"
  by (simp add: py_sorted_def)

lemma mset_py_sorted_desc [simp]: "mset (py_sorted_desc f xs) = mset xs"
  by (simp add: py_sorted_desc_def)

lemma mset_py_sorted_by [simp]: "mset (py_sorted_by d f xs) = mset xs"
  by (simp add: py_sorted_by_def)

lemma set_py_sorted_by [simp]: "set (py_sorted_by d f xs) = set xs"
  by (metis mset_py_sorted_by set_mset_mset)

lemma length_py_sorted_by [simp]: "length (py_sorted_by d f xs) = length xs"
  by (metis mset_py_sorted_by size_mset)

lemma sorted_py_sorted: "sorted (map f (py_sorted f xs))"
  by (simp add: py_sorted_def)

lemma sorted_py_sorted_desc: "sorted (rev (map f (py_sorted_desc f xs)))"
  by (simp add: py_sorted_desc_def rev_map [symmetric])

lemma py_sorted_by_stable:
  "filter (\<lambda>y. f y = k) (py_sorted_by d f xs) = filter (\<lambda>y. f y = k) xs"
proof -
  have "filter (\<lambda>y. f y = k) (sort_key f (rev xs)) = filter (\<lambda>y. f y = k) (rev xs)"
    by (rule sort_key_stable)
  then have "filter (\<lambda>y. f y = k) (py_sorted_desc f xs) = filter (\<lambda>y. f y = k) xs"
    by (simp add: py_sorted_desc_def rev_filter [symmetric])
  then show ?thesis by (simp add: py_sorted_by_def py_sorted_def sort_key_stable)
qed

lemma sorted_mset_unique: "mset xs = mset ys \<Longrightarrow> sorted xs \<Longrightarrow> sorted ys \<Longrightarrow> xs = ys"
  by (metis properties_for_sort sorted_sort_id)

text \<open>Sorting by a key that is injective on the elements does not depend on their order.\<close>

lemma py_sorted_mset_cong:
  assumes "mset xs = mset ys" and "inj_on f (set xs)"
  shows "py_sorted f xs = py_sorted f ys"
proof -
  have m: "mset (map f (sort_key f xs)) = mset (map f (sort_key f ys))"
    using assms(1) by simp
  have "map f (sort_key f xs) = map f (sort_key f ys)"
    by (rule sorted_mset_unique [OF m]) simp_all
  moreover have "set ys = set xs" using assms(1) by (metis set_mset_mset)
  ultimately show ?thesis
    using assms(2) by (auto simp: py_sorted_def intro: map_inj_on)
qed

end
