(* ===== verification/Sha256.thy ===== *)
theory Sha256
  imports Prelude "HOL-Library.Word"
begin

text \<open>
  \<open>hashlib.sha256(text.encode("utf-8")).hexdigest()\<close>, which the sources use for issue
  identities and payload checksums: UTF-8 encoding (a lone surrogate raises), the SHA-256
  compression over 32-bit words, and the lower-case hexadecimal digest.
\<close>

unbundle bit_operations_syntax

type_synonym w32 = "32 word"

definition utf8_char :: "nat \<Rightarrow> nat list" where
  "utf8_char c =
     (if c < 128 then [c]
      else if c < 2048 then [192 + c div 64, 128 + c mod 64]
      else if c < 65536 then [224 + c div 4096, 128 + c div 64 mod 64, 128 + c mod 64]
      else [240 + c div 262144, 128 + c div 4096 mod 64, 128 + c div 64 mod 64, 128 + c mod 64])"

definition encodable :: "pystr \<Rightarrow> bool" where
  "encodable s \<longleftrightarrow> list_all (\<lambda>c. c < 55296 \<or> 57343 < c) s"

definition utf8_encode :: "pystr \<Rightarrow> nat list result" where
  "utf8_encode s =
     (if encodable s then Inr (concat (map utf8_char s))
      else Inl (ValueError ''surrogates not allowed''))"

text \<open>
  The constants of the hash are fractional parts of roots of the first primes: the cube roots of
  the first 64 for the rounds and the square roots of the first eight for the initial state. The
  root is found bit by bit, from the highest.
\<close>

fun int_root :: "nat \<Rightarrow> nat \<Rightarrow> nat \<Rightarrow> nat \<Rightarrow> nat" where
  "int_root e 0 n acc = acc"
| "int_root e (Suc b) n acc = int_root e b n (if (acc + 2 ^ b) ^ e \<le> n then acc + 2 ^ b else acc)"

definition small_primes :: "nat list" where
  "small_primes = filter (\<lambda>p. list_all (\<lambda>d. p mod d \<noteq> 0) [2..<p]) [2..<312]"

definition root_fraction :: "nat \<Rightarrow> nat \<Rightarrow> w32" where
  "root_fraction e p = word_of_nat (int_root e 40 (p * 2 ^ (32 * e)) 0 mod 2 ^ 32)"

definition sha_k :: "w32 list" where
  "sha_k = map (root_fraction 3) small_primes"

definition sha_init :: "w32 list" where
  "sha_init = map (root_fraction 2) [2, 3, 5, 7, 11, 13, 17, 19]"

definition sha_rotr :: "nat \<Rightarrow> w32 \<Rightarrow> w32" where
  "sha_rotr n x = drop_bit n x OR push_bit (32 - n) x"

definition sha_pad :: "nat list \<Rightarrow> nat list" where
  "sha_pad bs =
     (let n = length bs; z = (119 - n mod 64) mod 64
      in bs @ [128] @ replicate z 0 @ map (\<lambda>i. (8 * n) div 256 ^ (7 - i) mod 256) [0..<8])"

fun sha_words :: "nat list \<Rightarrow> w32 list" where
  "sha_words (a # b # c # d # r) =
     word_of_nat (((a * 256 + b) * 256 + c) * 256 + d) # sha_words r"
| "sha_words _ = []"

text \<open>The message schedule, newest word first.\<close>

fun sha_extend :: "nat \<Rightarrow> w32 list \<Rightarrow> w32 list" where
  "sha_extend 0 ws = ws"
| "sha_extend (Suc k) ws =
     (let x = ws ! 14; y = ws ! 1;
          s0 = sha_rotr 7 x XOR sha_rotr 18 x XOR drop_bit 3 x;
          s1 = sha_rotr 17 y XOR sha_rotr 19 y XOR drop_bit 10 y
      in sha_extend k ((ws ! 15 + s0 + ws ! 6 + s1) # ws))"

fun sha_round :: "w32 list \<Rightarrow> w32 \<times> w32 \<Rightarrow> w32 list" where
  "sha_round [a, b, c, d, e, f, g, h] (k, w) =
     (let s1 = sha_rotr 6 e XOR sha_rotr 11 e XOR sha_rotr 25 e;
          ch = (e AND f) XOR (NOT e AND g);
          t1 = h + s1 + ch + k + w;
          s0 = sha_rotr 2 a XOR sha_rotr 13 a XOR sha_rotr 22 a;
          maj = (a AND b) XOR (a AND c) XOR (b AND c)
      in [t1 + s0 + maj, a, b, c, d + t1, e, f, g])"
| "sha_round st _ = st"

definition sha_block :: "w32 list \<Rightarrow> w32 list \<Rightarrow> w32 list" where
  "sha_block st ws =
     map2 (+) st (foldl sha_round st (zip sha_k (rev (sha_extend 48 (rev ws)))))"

fun sha_blocks :: "nat \<Rightarrow> w32 list \<Rightarrow> w32 list \<Rightarrow> w32 list" where
  "sha_blocks 0 st ws = st"
| "sha_blocks (Suc n) st ws = sha_blocks n (sha_block st (take 16 ws)) (drop 16 ws)"

definition hex_digit :: "nat \<Rightarrow> nat" where
  "hex_digit n = (if n < 10 then 48 + n else 87 + n)"

definition hex_word :: "w32 \<Rightarrow> pystr" where
  "hex_word w = map (\<lambda>i. hex_digit (unat w div 16 ^ (7 - i) mod 16)) [0..<8]"

definition sha256_hex :: "nat list \<Rightarrow> pystr" where
  "sha256_hex bs =
     (let ws = sha_words (sha_pad bs)
      in concat (map hex_word (sha_blocks (length ws div 16) sha_init ws)))"

definition sha256_text :: "pystr \<Rightarrow> pystr result" where
  "sha256_text s = rbind (utf8_encode s) (\<lambda>bs. Inr (sha256_hex bs))"

text \<open>The pattern \<open>^[0-9a-f]{64}$\<close>.\<close>

definition is_sha256_hex :: "pystr \<Rightarrow> bool" where
  "is_sha256_hex s \<longleftrightarrow> length s = 64 \<and> list_all (\<lambda>c. (48 \<le> c \<and> c \<le> 57) \<or> (97 \<le> c \<and> c \<le> 102)) s"

section \<open>Every digest has the pattern the contracts require\<close>

lemma length_hex_word [simp]: "length (hex_word w) = 8"
  by (simp add: hex_word_def)

lemma hex_word_digits: "c \<in> set (hex_word w) \<Longrightarrow> (48 \<le> c \<and> c \<le> 57) \<or> (97 \<le> c \<and> c \<le> 102)"
proof -
  have "n < 16 \<Longrightarrow> (48 \<le> hex_digit n \<and> hex_digit n \<le> 57) \<or> (97 \<le> hex_digit n \<and> hex_digit n \<le> 102)" for n
    by (auto simp: hex_digit_def)
  then have d: "(48 \<le> hex_digit (m mod 16) \<and> hex_digit (m mod 16) \<le> 57) \<or>
      (97 \<le> hex_digit (m mod 16) \<and> hex_digit (m mod 16) \<le> 102)" for m
    by simp
  assume "c \<in> set (hex_word w)"
  then obtain m where "c = hex_digit (m mod 16)" by (auto simp: hex_word_def)
  with d [of m] show ?thesis by simp
qed

lemma length_sha_round: "length (sha_round st kw) = length st"
  by (induction st kw rule: sha_round.induct) (simp_all add: Let_def)

lemma length_sha_rounds: "length (foldl sha_round st kws) = length st"
  by (induction kws arbitrary: st) (simp_all add: length_sha_round)

lemma length_sha_blocks: "length (sha_blocks n st ws) = length st"
  by (induction n st ws rule: sha_blocks.induct) (simp_all add: sha_block_def length_sha_rounds)

lemma length_concat_const:
  "(\<And>x. x \<in> set xs \<Longrightarrow> length (f x) = n) \<Longrightarrow> length (concat (map f xs)) = n * length xs"
  by (induction xs) simp_all

lemma is_sha256_hex_digest: "is_sha256_hex (sha256_hex bs)"
proof -
  have "length (sha256_hex bs) = 8 * length sha_init"
    by (simp add: sha256_hex_def Let_def length_concat_const length_sha_blocks)
  moreover have "length sha_init = 8" by (simp add: sha_init_def)
  moreover have "list_all (\<lambda>c. (48 \<le> c \<and> c \<le> 57) \<or> (97 \<le> c \<and> c \<le> 102)) (sha256_hex bs)"
    by (auto simp: list_all_iff sha256_hex_def Let_def dest: hex_word_digits)
  ultimately show ?thesis by (simp add: is_sha256_hex_def)
qed

lemma sha256_text_total: "encodable s \<Longrightarrow> \<exists>h. sha256_text s = Inr h \<and> is_sha256_hex h"
  by (simp add: sha256_text_def utf8_encode_def is_sha256_hex_digest)

lemma encodable_append [simp]: "encodable (s @ t) \<longleftrightarrow> encodable s \<and> encodable t"
  by (simp add: encodable_def)

lemma encodable_Cons [simp]: "encodable (c # s) \<longleftrightarrow> (c < 55296 \<or> 57343 < c) \<and> encodable s"
  by (simp add: encodable_def)

lemma encodable_Nil [simp]: "encodable []"
  by (simp add: encodable_def)

lemma encodable_cp [simp]: "encodable (cp s)"
proof -
  have "(of_char c :: nat) < 55296" for c
    by (rule less_trans [OF nat_of_char_less_256]) simp
  then show ?thesis by (auto simp: encodable_def cp_def list_all_iff)
qed

lemma encodable_join: "encodable sep \<Longrightarrow> list_all encodable ts \<Longrightarrow> encodable (py_join sep ts)"
  by (induction sep ts rule: py_join.induct) simp_all

end
