(* ===== verification/Py_Decimal.thy ===== *)
theory Py_Decimal
  imports Prelude Complex_Main
begin

text \<open>
  The finite values of Python's \<open>decimal.Decimal\<close> and the operations the sources call on them:
  construction from a string, exact comparison, \<open>adjusted\<close>, \<open>to_integral_value\<close>, \<open>int\<close>,
  \<open>sum\<close>, true division and \<open>quantize\<close> under a context of a given precision (rounding half
  even, exponent limits 999999, traps for overflow and invalid operations), and \<open>str\<close>.
  A decimal keeps the sign, coefficient and exponent Python keeps; \<open>dval\<close> is its exact
  value, which is what Python's comparisons compare.
\<close>

datatype decimal = Dec (dneg: bool) (dcoeff: nat) (dexp: int)

definition signed_int :: "bool \<Rightarrow> nat \<Rightarrow> int" where
  "signed_int neg c = (if neg then - int c else int c)"

definition pow10 :: "int \<Rightarrow> rat" where
  "pow10 e = (if 0 \<le> e then 10 ^ nat e else 1 / 10 ^ nat (- e))"

definition dval :: "decimal \<Rightarrow> rat" where
  "dval d = of_int (signed_int (dneg d) (dcoeff d)) * pow10 (dexp d)"

definition dec_of_int :: "int \<Rightarrow> decimal" where
  "dec_of_int n = Dec (n < 0) (nat \<bar>n\<bar>) 0"

definition dec_zero :: decimal where
  "dec_zero = Dec False 0 0"

section \<open>Digits and rounding\<close>

fun ndigits :: "nat \<Rightarrow> nat" where
  "ndigits n = (if n < 10 then 1 else Suc (ndigits (n div 10)))"

declare ndigits.simps [simp del]

definition adjusted :: "decimal \<Rightarrow> int" where
  "adjusted d = dexp d + int (ndigits (dcoeff d)) - 1"

text \<open>Drop the last \<open>k\<close> digits, rounding half to even.\<close>

definition round_half_even :: "nat \<Rightarrow> nat \<Rightarrow> nat" where
  "round_half_even n k =
     (let p = 10 ^ k; q = n div p; r = n mod p
      in if 2 * r > p \<or> (2 * r = p \<and> odd q) then q + 1 else q)"

definition Emax :: int where "Emax = 999999"
definition Emin :: int where "Emin = -999999"

text \<open>The context's finishing step: round to \<open>prec\<close> digits and check the exponent range.\<close>

definition dec_fix :: "nat \<Rightarrow> decimal \<Rightarrow> decimal result" where
  "dec_fix prec d =
     (let etiny = Emin - int prec + 1; etop = Emax - int prec + 1;
          low = int (ndigits (dcoeff d)) + dexp d - int prec
      in if dcoeff d = 0 then Inr (Dec (dneg d) 0 (min (max (dexp d) etiny) Emax))
         else if low > etop then Inl DecimalOverflow
         else let exp_min = max low etiny
              in if dexp d < exp_min
                 then let q = round_half_even (dcoeff d) (nat (exp_min - dexp d))
                      in if ndigits q > prec
                         then (if exp_min + 1 > etop then Inl DecimalOverflow
                               else Inr (Dec (dneg d) (q div 10) (exp_min + 1)))
                         else Inr (Dec (dneg d) q exp_min)
                 else Inr d)"

definition dec_rescale :: "decimal \<Rightarrow> int \<Rightarrow> decimal" where
  "dec_rescale d e =
     (if e \<le> dexp d then Dec (dneg d) (dcoeff d * 10 ^ nat (dexp d - e)) e
      else Dec (dneg d) (round_half_even (dcoeff d) (nat (e - dexp d))) e)"

section \<open>Arithmetic\<close>

text \<open>The exact sum at the smaller exponent, and the sum under a context.\<close>

definition dec_add_exact :: "decimal \<Rightarrow> decimal \<Rightarrow> decimal" where
  "dec_add_exact a b =
     (let e = min (dexp a) (dexp b);
          x = signed_int (dneg a) (dcoeff a) * 10 ^ nat (dexp a - e)
            + signed_int (dneg b) (dcoeff b) * 10 ^ nat (dexp b - e)
      in Dec (if x = 0 then dneg a \<and> dneg b else x < 0) (nat \<bar>x\<bar>) e)"

definition dec_add :: "nat \<Rightarrow> decimal \<Rightarrow> decimal \<Rightarrow> decimal result" where
  "dec_add prec a b = dec_fix prec (dec_add_exact a b)"

text \<open>Unary minus rounds to the context and never gives a negative zero.\<close>

definition dec_neg :: "nat \<Rightarrow> decimal \<Rightarrow> decimal result" where
  "dec_neg prec d = dec_fix prec (Dec (dcoeff d \<noteq> 0 \<and> \<not> dneg d) (dcoeff d) (dexp d))"

text \<open>\<open>sum(values, start)\<close>.\<close>

fun dec_sum :: "nat \<Rightarrow> decimal \<Rightarrow> decimal list \<Rightarrow> decimal result" where
  "dec_sum prec acc [] = Inr acc"
| "dec_sum prec acc (d # ds) = rbind (dec_add prec acc d) (\<lambda>s. dec_sum prec s ds)"

text \<open>Dropping trailing zeros of an exact quotient while the exponent is below the ideal one.\<close>

fun strip_zeros :: "nat \<Rightarrow> nat \<Rightarrow> nat \<times> nat" where
  "strip_zeros 0 c = (c, 0)"
| "strip_zeros (Suc room) c =
     (if c mod 10 = 0 then let (c', k) = strip_zeros room (c div 10) in (c', Suc k) else (c, 0))"

text \<open>\<open>d / n\<close> for a positive Python integer \<open>n\<close>.\<close>

definition dec_div_nat :: "nat \<Rightarrow> decimal \<Rightarrow> nat \<Rightarrow> decimal result" where
  "dec_div_nat prec d n =
     (if dcoeff d = 0 then dec_fix prec (Dec (dneg d) 0 (dexp d))
      else
       (let shift = int (ndigits n) - int (ndigits (dcoeff d)) + int prec + 1;
            num = (if 0 \<le> shift then dcoeff d * 10 ^ nat shift else dcoeff d);
            den = (if 0 \<le> shift then n else n * 10 ^ nat (- shift));
            q = num div den; r = num mod den; e = dexp d - shift
        in if r \<noteq> 0 then dec_fix prec (Dec (dneg d) (if q mod 5 = 0 then q + 1 else q) e)
           else let (c, k) = strip_zeros (nat shift) q
                in dec_fix prec (Dec (dneg d) c (e + int k))))"

text \<open>\<open>d.quantize(Decimal("1e<e>"), rounding=ROUND_HALF_EVEN)\<close>.\<close>

definition dec_quantize :: "nat \<Rightarrow> decimal \<Rightarrow> int \<Rightarrow> decimal result" where
  "dec_quantize prec d e =
     (if \<not> (Emin - int prec + 1 \<le> e \<and> e \<le> Emax) then Inl DecimalInvalidOperation
      else if dcoeff d = 0 then dec_fix prec (Dec (dneg d) 0 e)
      else if adjusted d > Emax \<or> adjusted d - e + 1 > int prec then Inl DecimalInvalidOperation
      else let a = dec_rescale d e
           in if adjusted a > Emax \<or> ndigits (dcoeff a) > prec then Inl DecimalInvalidOperation
              else dec_fix prec a)"

section \<open>Integers\<close>

definition dec_to_integral :: "decimal \<Rightarrow> decimal" where
  "dec_to_integral d = (if 0 \<le> dexp d then d else dec_rescale d 0)"

definition dec_to_int :: "decimal \<Rightarrow> int" where
  "dec_to_int d =
     signed_int (dneg d)
       (if 0 \<le> dexp d then dcoeff d * 10 ^ nat (dexp d) else dcoeff d div 10 ^ nat (- dexp d))"

section \<open>Construction from text\<close>

text \<open>The code points of the digit zero of every Unicode decimal digit block (Unicode 15).\<close>

definition unicode_zeros :: "nat list" where
  "unicode_zeros =
     [48, 1632, 1776, 1984, 2406, 2534, 2662, 2790, 2918, 3046, 3174, 3302, 3430, 3558, 3664,
      3792, 3872, 4160, 4240, 6112, 6160, 6470, 6608, 6784, 6800, 6992, 7088, 7232, 7248, 42528,
      43216, 43264, 43472, 43504, 43600, 44016, 65296, 66720, 68912, 69734, 69872, 69942, 70096,
      70384, 70736, 70864, 71248, 71360, 71472, 71904, 72016, 72784, 73040, 73120, 73552, 92768,
      92864, 93008, 120782, 120792, 120802, 120812, 120822, 123200, 123632, 124144, 125264, 130032]"

definition unicode_decimal :: "nat \<Rightarrow> nat option" where
  "unicode_decimal c = map_option (\<lambda>z. c - z) (next_or_none (\<lambda>z. z \<le> c \<and> c < z + 10) unicode_zeros)"

definition is_digit :: "nat \<Rightarrow> bool" where
  "is_digit c \<longleftrightarrow> 48 \<le> c \<and> c \<le> 57"

text \<open>Digits of any script become ASCII, underscores are dropped, other non-ASCII text is rejected.\<close>

fun numeric_as_ascii :: "pystr \<Rightarrow> pystr option" where
  "numeric_as_ascii [] = Some []"
| "numeric_as_ascii (c # cs) =
     (case numeric_as_ascii cs of
        None \<Rightarrow> None
      | Some r \<Rightarrow>
         if c = 95 then Some r
         else if 0 < c \<and> c < 128 then Some (c # r)
         else if py_isspace c then Some (32 # r)
         else (case unicode_decimal c of None \<Rightarrow> None | Some v \<Rightarrow> Some ((48 + v) # r)))"

fun digits_value :: "nat \<Rightarrow> pystr \<Rightarrow> nat" where
  "digits_value acc [] = acc"
| "digits_value acc (c # cs) = digits_value (10 * acc + (c - 48)) cs"

definition split_sign :: "pystr \<Rightarrow> bool \<times> pystr" where
  "split_sign s =
     (case s of c # cs \<Rightarrow> if c = 45 then (True, cs) else if c = 43 then (False, cs) else (False, s)
      | [] \<Rightarrow> (False, []))"

text \<open>The exponent part: absent, or \<open>e\<close>, an optional sign and at least one digit to the end.\<close>

definition parse_exponent :: "pystr \<Rightarrow> int option" where
  "parse_exponent s =
     (case s of [] \<Rightarrow> Some 0
      | c # cs \<Rightarrow>
         if c = 101 \<or> c = 69
         then (let (neg, ds) = split_sign cs
               in if ds \<noteq> [] \<and> list_all is_digit ds then Some (signed_int neg (digits_value 0 ds))
                  else None)
         else None)"

definition parse_unsigned :: "bool \<Rightarrow> pystr \<Rightarrow> decimal option" where
  "parse_unsigned neg s =
     (let whole = takeWhile is_digit s; rest = dropWhile is_digit s;
          frac = (case rest of c # cs \<Rightarrow> if c = 46 then takeWhile is_digit cs else [] | [] \<Rightarrow> []);
          tail = (case rest of c # cs \<Rightarrow> if c = 46 then dropWhile is_digit cs else rest | [] \<Rightarrow> [])
      in if whole @ frac = [] then None
         else map_option (\<lambda>e. Dec neg (digits_value 0 (whole @ frac)) (e - int (length frac)))
                (parse_exponent tail))"

text \<open>A conversion is exact or refused: the exponent must lie in the widest context.\<close>

definition in_widest_context :: "decimal \<Rightarrow> bool" where
  "in_widest_context d \<longleftrightarrow>
     -1999999999999999997 \<le> dexp d \<and>
     (if dcoeff d = 0 then dexp d else adjusted d) \<le> 999999999999999999"

definition lower_ascii :: "pystr \<Rightarrow> pystr" where
  "lower_ascii s = map (\<lambda>c. if 65 \<le> c \<and> c \<le> 90 then c + 32 else c) s"

definition is_special :: "pystr \<Rightarrow> bool" where
  "is_special s =
     (let t = lower_ascii s
      in t = cp ''inf'' \<or> t = cp ''infinity''
       \<or> (py_startswith t (cp ''nan'') \<and> list_all is_digit (drop 3 t))
       \<or> (py_startswith t (cp ''snan'') \<and> list_all is_digit (drop 4 t)))"

text \<open>\<open>Decimal(text)\<close>: \<open>None\<close> when it raises, otherwise a finite number, an infinity or a NaN.\<close>

datatype decimal_literal = Finite decimal | NotFinite

definition decimal_of_str :: "pystr \<Rightarrow> decimal_literal option" where
  "decimal_of_str s =
     (case numeric_as_ascii (py_strip s) of
        None \<Rightarrow> None
      | Some t \<Rightarrow>
         (let (neg, u) = split_sign t
          in if is_special u then Some NotFinite
             else (case parse_unsigned neg u of
                     None \<Rightarrow> None
                   | Some d \<Rightarrow> if in_widest_context d then Some (Finite d) else None)))"

section \<open>Printing\<close>

fun nat_digits :: "nat \<Rightarrow> pystr" where
  "nat_digits n = (if n < 10 then [48 + n] else nat_digits (n div 10) @ [48 + n mod 10])"

declare nat_digits.simps [simp del]

definition int_str :: "int \<Rightarrow> pystr" where
  "int_str n = (if n < 0 then 45 # nat_digits (nat (- n)) else nat_digits (nat n))"

text \<open>\<open>str(d)\<close>: plain notation for small negative exponents, scientific notation otherwise.\<close>

definition dec_str :: "decimal \<Rightarrow> pystr" where
  "dec_str d =
     (let ds = nat_digits (dcoeff d); n = int (length ds); left = dexp d + n;
          dot = (if dexp d \<le> 0 \<and> left > -6 then left else 1);
          mant = (if dot \<le> 0 then cp ''0.'' @ replicate (nat (- dot)) 48 @ ds
                  else if dot \<ge> n then ds @ replicate (nat (dot - n)) 48
                  else take (nat dot) ds @ cp ''.'' @ drop (nat dot) ds)
      in (if dneg d then [45] else []) @ mant
         @ (if left = dot then []
            else cp ''E'' @ (if left - dot \<ge> 0 then [43] else []) @ int_str (left - dot)))"

section \<open>Lemmas\<close>

lemma pow10_add: "pow10 (a + b) = pow10 a * pow10 b"
proof -
  have key: "pow10 e = (10 :: rat) powi e" for e
    by (simp add: pow10_def power_int_def field_simps)
  show ?thesis by (simp add: key power_int_add)
qed

lemma pow10_pos [simp]: "0 < pow10 e"
  by (simp add: pow10_def)

lemma pow10_nonneg [simp]: "0 \<le> pow10 e"
  by (rule less_imp_le [OF pow10_pos])

lemma signed_int_parts: "signed_int (if x = 0 then s else x < 0) (nat \<bar>x\<bar>) = x"
  by (auto simp: signed_int_def)

lemma pow10_nonzero [simp]: "pow10 e \<noteq> 0"
  by (simp add: less_imp_neq [OF pow10_pos, symmetric])

lemma pow10_nat: "0 \<le> e \<Longrightarrow> pow10 e = 10 ^ nat e"
  by (simp add: pow10_def)

lemma pow10_mono: "a \<le> b \<Longrightarrow> pow10 a \<le> pow10 b"
proof -
  assume "a \<le> b"
  then have "pow10 b = pow10 a * 10 ^ nat (b - a)"
    using pow10_add [of a "b - a"] by (simp add: pow10_nat)
  moreover have "pow10 a * 1 \<le> pow10 a * 10 ^ nat (b - a)"
    by (intro mult_left_mono) simp_all
  ultimately show ?thesis by simp
qed

lemma dval_eq_0_iff [simp]: "dval d = 0 \<longleftrightarrow> dcoeff d = 0"
  by (auto simp: dval_def signed_int_def)

lemma dval_dec_of_int [simp]: "dval (dec_of_int n) = of_int n"
  by (auto simp: dval_def dec_of_int_def signed_int_def pow10_def)

lemma dval_dec_zero [simp]: "dval dec_zero = 0"
  by (simp add: dec_zero_def)

lemma dval_dec_add_exact: "dval (dec_add_exact a b) = dval a + dval b"
proof -
  let ?e = "min (dexp a) (dexp b)"
  let ?x = "signed_int (dneg a) (dcoeff a) * 10 ^ nat (dexp a - ?e)
            + signed_int (dneg b) (dcoeff b) * 10 ^ nat (dexp b - ?e)"
  have shift: "pow10 (dexp d) = 10 ^ nat (dexp d - ?e) * pow10 ?e" if "?e \<le> dexp d" for d
    using that pow10_add [of "dexp d - ?e" ?e] by (simp add: pow10_nat)
  have "dval (dec_add_exact a b) = of_int ?x * pow10 ?e"
    by (simp add: dval_def dec_add_exact_def Let_def signed_int_parts del: of_int_add)
  also have "\<dots> = dval a + dval b"
    by (simp add: dval_def shift [of a] shift [of b] algebra_simps)
  finally show ?thesis .
qed

lemma ndigits_pos: "0 < ndigits n"
  by (subst ndigits.simps) simp

lemma ndigits_bound: "n < 10 ^ ndigits n"
proof (induction n rule: ndigits.induct)
  case (1 n)
  show ?case
  proof (cases "n < 10")
    case False
    then have "n div 10 < 10 ^ ndigits (n div 10)" using 1 by simp
    with False show ?thesis by (subst ndigits.simps) (simp add: div_less_iff_less_mult mult.commute)
  qed (subst ndigits.simps, simp)
qed

lemma ndigits_lower: "0 < n \<Longrightarrow> 10 ^ (ndigits n - 1) \<le> n"
proof (induction n rule: ndigits.induct)
  case (1 n)
  show ?case
  proof (cases "n < 10")
    case False
    then have le: "10 ^ (ndigits (n div 10) - 1) \<le> n div 10" using 1 by simp
    obtain k where k: "ndigits (n div 10) = Suc k"
      using ndigits_pos [of "n div 10"] by (cases "ndigits (n div 10)") auto
    from le k have "10 ^ k * 10 \<le> n" by (simp add: less_eq_div_iff_mult_less_eq)
    with False k show ?thesis by (subst ndigits.simps) (simp add: mult.commute)
  qed (use 1 in \<open>subst ndigits.simps, simp\<close>)
qed

text \<open>A result that fits the precision and the exponent range is returned unchanged.\<close>

lemma dec_fix_exact:
  assumes "ndigits (dcoeff d) \<le> prec" and "Emin - int prec + 1 \<le> dexp d" and "dexp d \<le> Emax - int prec + 1"
  shows "dec_fix prec d = Inr d"
  using assms ndigits_pos [of "dcoeff d"]
  by (cases d) (auto simp: dec_fix_def Let_def min_def max_def)

lemma dec_neg_exact:
  assumes "ndigits (dcoeff d) \<le> prec" and "Emin - int prec + 1 \<le> dexp d" and "dexp d \<le> Emax - int prec + 1"
  shows "\<exists>m. dec_neg prec d = Inr m \<and> dval m = - dval d"
  using assms by (simp add: dec_neg_def dec_fix_exact dval_def signed_int_def)

lemma dval_rescale_down: "e \<le> dexp d \<Longrightarrow> dval (dec_rescale d e) = dval d"
  using pow10_add [of "dexp d - e" e]
  by (simp add: dval_def dec_rescale_def signed_int_def pow10_nat)

lemma round_half_even_error:
  "\<bar>(of_nat (round_half_even n k) :: rat) * 10 ^ k - of_nat n\<bar> \<le> 10 ^ k / 2"
proof -
  define p q r where "p = (10 :: nat) ^ k" and "q = n div p" and "r = n mod p"
  have n: "n = q * p + r" and r: "r < p"
    by (simp_all add: p_def q_def r_def div_mult_mod_eq)
  have P: "(10 :: rat) ^ k = of_nat p" by (simp add: p_def)
  have nr: "(of_nat n :: rat) = of_nat q * of_nat p + of_nat r" by (simp add: n)
  show ?thesis
  proof (cases "2 * r > p \<or> (2 * r = p \<and> odd q)")
    case True
    then have "round_half_even n k = q + 1" by (simp add: round_half_even_def Let_def p_def q_def r_def)
    moreover have "(of_nat p :: rat) \<le> 2 * of_nat r" using True by (metis less_imp_le of_nat_mono of_nat_mult of_nat_numeral order_refl)
    moreover have "(of_nat r :: rat) < of_nat p" using r by simp
    ultimately show ?thesis unfolding P nr by (simp add: algebra_simps abs_if)
  next
    case False
    then have "round_half_even n k = q" by (auto simp: round_half_even_def Let_def p_def q_def r_def)
    moreover have "2 * (of_nat r :: rat) \<le> of_nat p"
      using False by (metis not_less of_nat_le_iff of_nat_mult of_nat_numeral)
    ultimately show ?thesis unfolding P nr by (simp add: algebra_simps)
  qed
qed

lemma round_half_even_exact: "10 ^ k dvd n \<Longrightarrow> round_half_even n k = n div 10 ^ k"
  by (simp add: round_half_even_def Let_def)

text \<open>Rescaling to a coarser exponent is off by at most half a unit of that exponent.\<close>

lemma dval_rescale_error: "\<bar>dval (dec_rescale d e) - dval d\<bar> \<le> pow10 e / 2"
proof (cases "e \<le> dexp d")
  case True
  then show ?thesis by (simp add: dval_rescale_down)
next
  case False
  let ?k = "nat (e - dexp d)" and ?r = "round_half_even (dcoeff d) (nat (e - dexp d))"
  have pe: "pow10 e = 10 ^ ?k * pow10 (dexp d)"
    using False pow10_add [of "e - dexp d" "dexp d"] by (simp add: pow10_nat)
  define g :: rat where "g = (if dneg d then -1 else 1)"
  have r: "dval (dec_rescale d e) = g * (of_nat ?r * 10 ^ ?k * pow10 (dexp d))"
    using False by (simp add: dval_def dec_rescale_def signed_int_def pe g_def mult.assoc)
  have d: "dval d = g * (of_nat (dcoeff d) * pow10 (dexp d))"
    by (simp add: dval_def signed_int_def g_def)
  have "\<bar>dval (dec_rescale d e) - dval d\<bar> = \<bar>g\<bar> * \<bar>of_nat ?r * 10 ^ ?k - of_nat (dcoeff d)\<bar> * pow10 (dexp d)"
    unfolding r d
    by (simp only: left_diff_distrib [symmetric] right_diff_distrib [symmetric] abs_mult
        abs_of_pos [OF pow10_pos] mult.assoc [of "\<bar>g\<bar>"])
  also have "\<dots> = \<bar>of_nat ?r * 10 ^ ?k - of_nat (dcoeff d)\<bar> * pow10 (dexp d)" by (simp add: g_def)
  also have "\<dots> \<le> (10 ^ ?k / 2) * pow10 (dexp d)"
    by (intro mult_right_mono round_half_even_error) (simp add: less_imp_le)
  finally show ?thesis by (simp add: pe)
qed

lemma dec_to_integral_eq_iff:
  "dval (dec_to_integral d) = dval d \<longleftrightarrow> 0 \<le> dexp d \<or> 10 ^ nat (- dexp d) dvd dcoeff d"
proof (cases "0 \<le> dexp d")
  case False
  let ?k = "nat (- dexp d)" and ?r = "round_half_even (dcoeff d) (nat (- dexp d))"
  have "dval (dec_to_integral d) = dval d \<longleftrightarrow>
      (of_int (signed_int (dneg d) ?r) :: rat) = of_int (signed_int (dneg d) (dcoeff d)) / 10 ^ ?k"
    using False by (simp add: dec_to_integral_def dec_rescale_def dval_def pow10_def)
  also have "\<dots> \<longleftrightarrow> (of_nat (?r * 10 ^ ?k) :: rat) = of_nat (dcoeff d)"
    by (auto simp: signed_int_def field_simps)
  also have "\<dots> \<longleftrightarrow> ?r * 10 ^ ?k = dcoeff d" by (simp only: of_nat_eq_iff)
  also have "\<dots> \<longleftrightarrow> 10 ^ ?k dvd dcoeff d"
    by (metis dvd_div_mult_self dvd_triv_right round_half_even_exact)
  finally show ?thesis using False by simp
qed (simp add: dec_to_integral_def)

lemma dec_to_int_value:
  assumes "dval (dec_to_integral d) = dval d"
  shows "of_int (dec_to_int d) = dval d"
proof (cases "0 \<le> dexp d")
  case True
  then show ?thesis by (simp add: dec_to_int_def dval_def signed_int_def pow10_nat)
next
  case False
  with assms obtain q where "dcoeff d = 10 ^ nat (- dexp d) * q"
    by (auto simp: dec_to_integral_eq_iff dvd_def)
  with False show ?thesis by (simp add: dec_to_int_def dval_def signed_int_def pow10_def)
qed

text \<open>Bounds on the value from the adjusted exponent.\<close>

lemma dval_abs: "\<bar>dval d\<bar> = of_nat (dcoeff d) * pow10 (dexp d)"
  by (simp add: dval_def signed_int_def abs_mult less_imp_le)

lemma dval_less_pow10: "\<bar>dval d\<bar> < pow10 (adjusted d + 1)"
proof -
  have "(of_nat (dcoeff d) :: rat) < 10 ^ ndigits (dcoeff d)"
    using ndigits_bound [of "dcoeff d"] by (metis of_nat_less_iff of_nat_numeral of_nat_power)
  then have "of_nat (dcoeff d) * pow10 (dexp d) < 10 ^ ndigits (dcoeff d) * pow10 (dexp d)"
    by (intro mult_strict_right_mono) simp_all
  moreover have "10 ^ ndigits (dcoeff d) * pow10 (dexp d) = pow10 (adjusted d + 1)"
    using pow10_add [of "int (ndigits (dcoeff d))" "dexp d"]
    by (simp add: adjusted_def pow10_nat add.commute)
  ultimately show ?thesis by (simp add: dval_abs)
qed

end
