(* ===== verification/Py_Date.thy ===== *)
theory Py_Date
  imports Py_Decimal
begin

text \<open>
  Python's \<open>datetime.date\<close> and timezone-naive \<open>datetime.datetime\<close>: validity, the order, the
  proleptic ordinal behind date subtraction, \<open>strptime\<close> for the two formats the sources use,
  \<open>date.fromisoformat\<close> and \<open>isoformat\<close>.
\<close>

datatype date = Date (date_year: int) (date_month: int) (date_day: int)

instantiation date :: linorder
begin
definition less_eq_date :: "date \<Rightarrow> date \<Rightarrow> bool" where
  "less_eq_date a b \<longleftrightarrow>
     (date_year a, date_month a, date_day a) \<le> (date_year b, date_month b, date_day b)"
definition less_date :: "date \<Rightarrow> date \<Rightarrow> bool" where
  "less_date a b \<longleftrightarrow>
     (date_year a, date_month a, date_day a) < (date_year b, date_month b, date_day b)"
instance
  by intro_classes (auto simp: less_eq_date_def less_date_def date.expand)
end

datatype datetime = DateTime (dt_date: date) (dt_hour: int) (dt_minute: int) (dt_second: int)

definition is_leap :: "int \<Rightarrow> bool" where
  "is_leap y \<longleftrightarrow> y mod 4 = 0 \<and> (y mod 100 \<noteq> 0 \<or> y mod 400 = 0)"

definition days_in_month :: "int \<Rightarrow> int \<Rightarrow> int" where
  "days_in_month y m =
     (if m = 2 then (if is_leap y then 29 else 28)
      else if m = 4 \<or> m = 6 \<or> m = 9 \<or> m = 11 then 30 else 31)"

definition valid_date :: "date \<Rightarrow> bool" where
  "valid_date d \<longleftrightarrow>
     1 \<le> date_year d \<and> date_year d \<le> 9999 \<and> 1 \<le> date_month d \<and> date_month d \<le> 12 \<and>
     1 \<le> date_day d \<and> date_day d \<le> days_in_month (date_year d) (date_month d)"

definition make_date :: "int \<Rightarrow> int \<Rightarrow> int \<Rightarrow> date option" where
  "make_date y m d = (if valid_date (Date y m d) then Some (Date y m d) else None)"

definition days_before_year :: "int \<Rightarrow> int" where
  "days_before_year y = (y - 1) * 365 + (y - 1) div 4 - (y - 1) div 100 + (y - 1) div 400"

definition days_before_month :: "int \<Rightarrow> int \<Rightarrow> int" where
  "days_before_month y m =
     ([0, 31, 59, 90, 120, 151, 181, 212, 243, 273, 304, 334] ! nat (m - 1))
       + (if 2 < m \<and> is_leap y then 1 else 0)"

definition toordinal :: "date \<Rightarrow> int" where
  "toordinal d =
     days_before_year (date_year d) + days_before_month (date_year d) (date_month d) + date_day d"

text \<open>\<open>(a - b).days\<close>.\<close>

definition days_between :: "date \<Rightarrow> date \<Rightarrow> int" where
  "days_between a b = toordinal a - toordinal b"

section \<open>Parsing and printing\<close>

text \<open>The value of exactly \<open>n\<close> ASCII digits, and the text after them.\<close>

definition parse_digits :: "nat \<Rightarrow> pystr \<Rightarrow> (int \<times> pystr) option" where
  "parse_digits n s =
     (if length s < n \<or> \<not> list_all is_digit (take n s) then None
      else Some (int (digits_value 0 (take n s)), drop n s))"

text \<open>\<open>strptime(text, "%Y%m%d")\<close> on a text of eight ASCII digits.\<close>

definition strptime_yyyymmdd :: "pystr \<Rightarrow> date option" where
  "strptime_yyyymmdd s =
     make_date (int (digits_value 0 (take 4 s))) (int (digits_value 0 (take 2 (drop 4 s))))
       (int (digits_value 0 (take 2 (drop 6 s))))"

text \<open>\<open>strptime(text, "%Y-%m-%d %H:%M:%S")\<close> on a text of that exact shape.\<close>

definition strptime_datetime :: "pystr \<Rightarrow> datetime option" where
  "strptime_datetime s =
     (let h = int (digits_value 0 (take 2 (drop 11 s)));
          mi = int (digits_value 0 (take 2 (drop 14 s)));
          se = int (digits_value 0 (take 2 (drop 17 s)))
      in case make_date (int (digits_value 0 (take 4 s))) (int (digits_value 0 (take 2 (drop 5 s))))
                (int (digits_value 0 (take 2 (drop 8 s)))) of
           None \<Rightarrow> None
         | Some d \<Rightarrow> if h < 24 \<and> mi < 60 \<and> se < 60 then Some (DateTime d h mi se) else None)"

definition utf8_length :: "pystr \<Rightarrow> nat" where
  "utf8_length s =
     sum_list (map (\<lambda>c. if c < 128 then 1 else if c < 2048 then 2 else if c < 65536 then 3 else 4) s)"

definition ord2ymd :: "int \<Rightarrow> date" where
  "ord2ymd n0 =
     (let n = n0 - 1; n400 = n div 146097; n = n mod 146097; n100 = n div 36524; n = n mod 36524;
          n4 = n div 1461; n = n mod 1461; n1 = n div 365; n = n mod 365;
          y = n400 * 400 + 1 + n100 * 100 + n4 * 4 + n1
      in if n1 = 4 \<or> n100 = 4 then Date (y - 1) 12 31
         else let m = (n + 50) div 32; p = days_before_month y m;
                  m' = (if p > n then m - 1 else m);
                  p' = (if p > n then p - days_in_month y m' else p)
              in Date y m' (n - p' + 1))"

text \<open>The Gregorian date of an ISO week date.\<close>

definition iso_to_ymd :: "int \<Rightarrow> int \<Rightarrow> int \<Rightarrow> date option" where
  "iso_to_ymd y w d =
     (let first = toordinal (Date y 1 1); fw = first mod 7; monday0 = first - (first + 6) mod 7;
          monday = (if (first + 6) mod 7 > 3 then monday0 + 7 else monday0)
      in if \<not> (1 \<le> y \<and> y \<le> 9999) then None
         else if \<not> (0 < w \<and> w < 53) \<and> \<not> (w = 53 \<and> (fw = 4 \<or> (fw = 3 \<and> is_leap y))) then None
         else if \<not> (0 < d \<and> d < 8) then None
         else (let r = ord2ymd (monday + (w - 1) * 7 + (d - 1)) in if valid_date r then Some r else None))"

definition drop_dash :: "bool \<Rightarrow> pystr \<Rightarrow> pystr option" where
  "drop_dash sep s =
     (if sep then (case s of c # cs \<Rightarrow> if c = 45 then Some cs else None | [] \<Rightarrow> None) else Some s)"

text \<open>
  \<open>date.fromisoformat\<close> of CPython: the length in UTF-8 bytes is 7, 8 or 10, the fields are read
  from the left with consistent dashes, and what follows the last field is not looked at.
\<close>

definition fromisoformat :: "pystr \<Rightarrow> date option" where
  "fromisoformat s =
     (if utf8_length s \<notin> {7, 8, 10} \<or> list_ex (\<lambda>c. 55296 \<le> c \<and> c \<le> 57343) s then None
      else case parse_digits 4 s of
        None \<Rightarrow> None
      | Some (y, r) \<Rightarrow>
         (let sep = (r \<noteq> [] \<and> hd r = 45); r1 = (if sep then tl r else r)
          in if r1 \<noteq> [] \<and> hd r1 = 87
             then (case parse_digits 2 (tl r1) of
                     None \<Rightarrow> None
                   | Some (w, r2) \<Rightarrow>
                      if r2 = [] then iso_to_ymd y w 1
                      else (case Option.bind (drop_dash sep r2) (parse_digits 1) of
                              None \<Rightarrow> None | Some (d, _) \<Rightarrow> iso_to_ymd y w d))
             else (case parse_digits 2 r1 of
                     None \<Rightarrow> None
                   | Some (m, r2) \<Rightarrow>
                      (case Option.bind (drop_dash sep r2) (parse_digits 2) of
                         None \<Rightarrow> None | Some (d, _) \<Rightarrow> make_date y m d))))"

definition two_digits :: "int \<Rightarrow> pystr" where
  "two_digits n = [48 + nat (n div 10), 48 + nat (n mod 10)]"

definition four_digits :: "int \<Rightarrow> pystr" where
  "four_digits n = two_digits (n div 100) @ two_digits (n mod 100)"

definition isoformat :: "date \<Rightarrow> pystr" where
  "isoformat d = four_digits (date_year d) @ [45] @ two_digits (date_month d) @ [45] @ two_digits (date_day d)"

definition yyyymmdd :: "date \<Rightarrow> pystr" where
  "yyyymmdd d = four_digits (date_year d) @ two_digits (date_month d) @ two_digits (date_day d)"

definition datetime_str :: "datetime \<Rightarrow> pystr" where
  "datetime_str t =
     isoformat (dt_date t) @ [32] @ two_digits (dt_hour t) @ [58] @ two_digits (dt_minute t)
       @ [58] @ two_digits (dt_second t)"

section \<open>Lemmas\<close>

lemma less_date_iff [simp]:
  "Date y m d < Date y' m' d' \<longleftrightarrow> y < y' \<or> (y = y' \<and> (m < m' \<or> (m = m' \<and> d < d')))"
  by (auto simp: less_date_def)

lemma less_eq_date_iff [simp]:
  "Date y m d \<le> Date y' m' d' \<longleftrightarrow> y < y' \<or> (y = y' \<and> (m < m' \<or> (m = m' \<and> d \<le> d')))"
  by (auto simp: less_eq_date_def)

lemma div_step:
  assumes "(0 :: int) < k"
  shows "y div k = (y - 1) div k + (if y mod k = 0 then 1 else 0)"
proof -
  let ?q = "(y - 1) div k" and ?r = "(y - 1) mod k"
  have y: "y = k * ?q + (?r + 1)" using mult_div_mod_eq [of k "y - 1"] by simp
  have r: "0 \<le> ?r" "?r < k" using assms by simp_all
  show ?thesis
  proof (cases "?r + 1 = k")
    case True
    then have "k * ?q + (?r + 1) = k * (?q + 1)" by (simp add: distrib_left)
    with y have "y = k * (?q + 1)" by (rule trans)
    with assms show ?thesis by (metis mod_mult_self1_is_0 nonzero_mult_div_cancel_left less_irrefl)
  next
    case False
    with r have "?r + 1 < k" by simp
    with y r have "y div k = ?q" "y mod k = ?r + 1"
      using int_div_pos_eq [of y k ?q "?r + 1"] int_mod_pos_eq [of y k ?q "?r + 1"] by simp_all
    with r show ?thesis by simp
  qed
qed

lemma days_before_year_Suc: "days_before_year (y + 1) = days_before_year y + (if is_leap y then 366 else 365)"
proof -
  note step = div_step [of 4 y] div_step [of 100 y] div_step [of 400 y]
  have "(4 :: int) dvd 100" "(100 :: int) dvd 400" by simp_all
  then have m: "y mod 400 = 0 \<longrightarrow> y mod 100 = 0" "y mod 100 = 0 \<longrightarrow> y mod 4 = 0"
    by (metis dvd_imp_mod_0 dvd_trans mod_0_imp_dvd)+
  let ?u = "if y mod 4 = 0 then 1 else 0 :: int" and ?v = "if y mod 100 = 0 then 1 else 0 :: int"
    and ?w = "if y mod 400 = 0 then 1 else 0 :: int"
  have leap: "(if is_leap y then 366 else 365) = 365 + ?u - ?v + ?w"
    unfolding is_leap_def using m
    by (cases "y mod 4 = 0"; cases "y mod 100 = 0"; cases "y mod 400 = 0") simp_all
  have ring: "y * 365 + (a + u) - (b + v) + (c + w) = (y - 1) * 365 + a - b + c + (365 + u - v + w)"
    for a b c u v w :: int by simp
  show ?thesis
    unfolding days_before_year_def leap by (simp only: add_diff_cancel_right' step ring)
qed

lemma days_before_year_mono: "y < y' \<Longrightarrow> days_before_year y + (if is_leap y then 366 else 365) \<le> days_before_year y'"
proof -
  assume "y < y'"
  have mono: "days_before_year a \<le> days_before_year (a + int n)" for a n
  proof (induction n)
    case (Suc n)
    have "days_before_year (a + int n) \<le> days_before_year (a + int n + 1)"
      by (simp add: days_before_year_Suc)
    with Suc show ?case by (simp add: algebra_simps)
  qed simp
  have "days_before_year (y + 1) \<le> days_before_year (y + 1 + int (nat (y' - (y + 1))))"
    by (rule mono)
  with \<open>y < y'\<close> show ?thesis by (simp add: days_before_year_Suc)
qed

lemma month_cases: "1 \<le> (m :: int) \<Longrightarrow> m \<le> 12 \<Longrightarrow>
  m = 1 \<or> m = 2 \<or> m = 3 \<or> m = 4 \<or> m = 5 \<or> m = 6 \<or> m = 7 \<or> m = 8 \<or> m = 9 \<or> m = 10 \<or> m = 11 \<or> m = 12"
  by presburger

lemma days_before_month_eqs:
  "days_before_month y 1 = 0" "days_before_month y 2 = 31"
  "days_before_month y 3 = 59 + (if is_leap y then 1 else 0)"
  "days_before_month y 4 = 90 + (if is_leap y then 1 else 0)"
  "days_before_month y 5 = 120 + (if is_leap y then 1 else 0)"
  "days_before_month y 6 = 151 + (if is_leap y then 1 else 0)"
  "days_before_month y 7 = 181 + (if is_leap y then 1 else 0)"
  "days_before_month y 8 = 212 + (if is_leap y then 1 else 0)"
  "days_before_month y 9 = 243 + (if is_leap y then 1 else 0)"
  "days_before_month y 10 = 273 + (if is_leap y then 1 else 0)"
  "days_before_month y 11 = 304 + (if is_leap y then 1 else 0)"
  "days_before_month y 12 = 334 + (if is_leap y then 1 else 0)"
  by (simp_all add: days_before_month_def eval_nat_numeral)

lemma days_before_month_Suc:
  "1 \<le> m \<Longrightarrow> m < 12 \<Longrightarrow> days_before_month y (m + 1) = days_before_month y m + days_in_month y m"
  using month_cases [of m] by (auto simp: days_before_month_eqs days_in_month_def)

lemma days_before_month_mono:
  assumes "1 \<le> m" "m < m'" "m' \<le> 12"
  shows "days_before_month y m + days_in_month y m \<le> days_before_month y m'"
proof -
  have nonneg: "0 \<le> days_in_month y k" for k by (simp add: days_in_month_def)
  have "days_before_month y (m + 1) \<le> days_before_month y (m + 1 + int n)" if "m + 1 + int n \<le> 12" for n
    using that
  proof (induction n)
    case (Suc n)
    then show ?case
      using days_before_month_Suc [of "m + 1 + int n" y] nonneg [of "m + 1 + int n"] assms(1)
      by (simp add: add.assoc add.commute)
  qed simp
  from this [of "nat (m' - (m + 1))"] show ?thesis
    using assms days_before_month_Suc [of m y] by simp
qed

lemma days_before_month_bounds:
  "1 \<le> m \<Longrightarrow> m \<le> 12 \<Longrightarrow> 0 \<le> days_before_month y m \<and>
     days_before_month y m + days_in_month y m \<le> (if is_leap y then 366 else 365)"
  using month_cases [of m] by (auto simp: days_before_month_eqs days_in_month_def)

text \<open>The ordinal of a date orders valid dates as the dates are ordered.\<close>

lemma toordinal_strict_mono:
  assumes "valid_date a" and "valid_date b" and "a < b"
  shows "toordinal a < toordinal b"
proof -
  obtain y m d where a: "a = Date y m d" by (cases a)
  obtain y' m' d' where b: "b = Date y' m' d'" by (cases b)
  have va: "1 \<le> m" "m \<le> 12" "1 \<le> d" "d \<le> days_in_month y m"
    and vb: "1 \<le> m'" "m' \<le> 12" "1 \<le> d'" "d' \<le> days_in_month y' m'"
    using assms(1,2) by (auto simp: a b valid_date_def)
  from assms(3) consider "y < y'" | "y = y'" "m < m'" | "y = y'" "m = m'" "d < d'"
    by (auto simp: a b)
  then show ?thesis
  proof cases
    case 1
    then show ?thesis
      using days_before_year_mono [OF 1] days_before_month_bounds [OF va(1,2), of y]
        days_before_month_bounds [OF vb(1,2), of y'] va vb
      by (simp add: a b toordinal_def)
  next
    case 2
    then show ?thesis
      using days_before_month_mono [of m m' y] va vb by (simp add: a b toordinal_def)
  qed (simp add: a b toordinal_def)
qed

lemma days_between_sign:
  assumes "valid_date a" and "valid_date b"
  shows "days_between a b < 0 \<longleftrightarrow> a < b" and "days_between a b = 0 \<longleftrightarrow> a = b"
  using toordinal_strict_mono [OF assms] toordinal_strict_mono [OF assms(2,1)]
  by (auto simp: days_between_def) (metis less_irrefl linorder_less_linear)+

lemma two_digits_value:
  assumes "0 \<le> n" and "n < 100"
  shows "digits_value acc (two_digits n @ s) = digits_value (100 * acc + nat n) s"
proof -
  have "nat n = 10 * nat (n div 10) + nat (n mod 10)"
    using assms by (simp add: nat_div_distrib nat_mod_distrib)
  then show ?thesis by (simp add: two_digits_def add.assoc)
qed

lemma length_two_digits [simp]: "length (two_digits n) = 2"
  by (simp add: two_digits_def)

lemma length_four_digits [simp]: "length (four_digits n) = 4"
  by (simp add: four_digits_def)

lemma four_digits_value:
  assumes "0 \<le> n" and "n < 10000"
  shows "digits_value 0 (four_digits n) = nat n"
proof -
  have "nat n = 100 * nat (n div 100) + nat (n mod 100)"
    using assms by (simp add: nat_div_distrib nat_mod_distrib)
  moreover have "n div 100 < 100" "0 \<le> n div 100" using assms by simp_all
  ultimately show ?thesis
    using assms two_digits_value [of "n div 100" 0 "two_digits (n mod 100)"]
      two_digits_value [of "n mod 100" "nat (n div 100)" "[]"]
    by (simp add: four_digits_def)
qed

lemma two_digits_value0: "0 \<le> n \<Longrightarrow> n < 100 \<Longrightarrow> digits_value 0 (two_digits n) = nat n"
  using two_digits_value [of n 0 "[]"] by simp

lemma list_all_two_digits: "0 \<le> n \<Longrightarrow> n < 100 \<Longrightarrow> list_all is_digit (two_digits n)"
  by (auto simp: two_digits_def is_digit_def)

lemma list_all_four_digits: "0 \<le> n \<Longrightarrow> n < 10000 \<Longrightarrow> list_all is_digit (four_digits n)"
  by (auto simp: four_digits_def intro!: list_all_two_digits)

lemma valid_date_ranges:
  "valid_date (Date y m d) \<Longrightarrow> 0 \<le> y \<and> y < 10000 \<and> 0 \<le> m \<and> m < 100 \<and> 0 \<le> d \<and> d < 100"
  by (auto simp: valid_date_def days_in_month_def split: if_splits)

lemma strptime_yyyymmdd_inverse: "valid_date d \<Longrightarrow> strptime_yyyymmdd (yyyymmdd d) = Some d"
  by (cases d)
     (use valid_date_ranges in \<open>auto simp: strptime_yyyymmdd_def yyyymmdd_def make_date_def
        four_digits_value two_digits_value0\<close>)

lemma make_date_Some_valid: "make_date y m d = Some r \<Longrightarrow> valid_date r \<and> r = Date y m d"
  by (auto simp: make_date_def split: if_splits)

lemma strptime_yyyymmdd_valid: "strptime_yyyymmdd s = Some d \<Longrightarrow> valid_date d"
  by (auto simp: strptime_yyyymmdd_def dest: make_date_Some_valid)

lemma iso_to_ymd_valid: "iso_to_ymd y w d = Some r \<Longrightarrow> valid_date r"
  by (auto simp: iso_to_ymd_def Let_def split: if_splits)

lemma fromisoformat_valid: "fromisoformat s = Some d \<Longrightarrow> valid_date d"
  by (auto simp: fromisoformat_def Let_def dest: make_date_Some_valid iso_to_ymd_valid
      split: if_splits option.splits prod.splits)

end
