(* ===== verification/Source.thy ===== *)
theory Source
  imports Sha256 Py_Date
begin

text \<open>
  The raw-lineage contracts of \<open>finproof/domain\<close>: \<open>source.py\<close> (Excel cells and rows),
  \<open>locators.py\<close> (cell locators), \<open>quality.py\<close> (quality states and issues), \<open>values.py\<close>
  (normalized and derived values) and \<open>normalization.py\<close> (a record or its quarantine). A
  pydantic model is a record, and its validators are a function that returns the model or the
  error the constructor raises.
\<close>

section \<open>domain/source.py\<close>

text \<open>A \<open>PurePosixPath\<close>: whether it is absolute, and its parts after the root.\<close>

record posix_path =
  path_absolute :: bool
  path_parts :: "pystr list"

definition as_posix :: "posix_path \<Rightarrow> pystr" where
  "as_posix p =
     (if path_absolute p then cp ''/'' @ py_join (cp ''/'') (path_parts p)
      else if path_parts p = [] then cp ''.'' else py_join (cp ''/'') (path_parts p))"

definition unsafe_path :: "posix_path \<Rightarrow> bool" where
  "unsafe_path p \<longleftrightarrow> path_absolute p \<or> cp ''..'' \<in> set (path_parts p)"

text \<open>The letters are appended least significant first and reversed: an accumulator.\<close>

fun excel_letters :: "nat \<Rightarrow> pystr \<Rightarrow> pystr" where
  "excel_letters remaining letters =
     (if remaining = 0 then letters
      else excel_letters ((remaining - 1) div 26) ((65 + (remaining - 1) mod 26) # letters))"

declare excel_letters.simps [simp del]

definition excel_column_letter :: "int \<Rightarrow> pystr" where
  "excel_column_letter number = excel_letters (nat number) []"

record source_cell =
  sc_column_name :: pystr
  sc_excel_column_number :: int
  sc_excel_column_letter :: pystr
  sc_raw_value :: pystr
  sc_applicable_date :: "date option"

definition validate_excel_column_letter :: "source_cell \<Rightarrow> source_cell result" where
  "validate_excel_column_letter c =
     (if sc_excel_column_number c \<le> 0 then Inl (ValueError ''greater_than'')
      else if sc_excel_column_letter c \<noteq> excel_column_letter (sc_excel_column_number c)
      then Inl (ValueError ''excel_column_letter must match excel_column_number'')
      else Inr c)"

record source_row =
  sr_source_table :: pystr
  sr_source_file :: posix_path
  sr_source_sheet :: pystr
  sr_source_row_number :: int
  sr_source_checksum :: pystr
  sr_source_snapshot_date :: date
  sr_raw_payload :: "pystr list"
  sr_cells :: "source_cell list"

definition validate_raw_lineage :: "source_row \<Rightarrow> source_row result" where
  "validate_raw_lineage r =
     rbind (raise_if (sr_source_row_number r \<le> 0) (ValueError ''greater_than'')) (\<lambda>_.
     rbind (raise_if (\<not> is_sha256_hex (sr_source_checksum r)) (ValueError ''string_pattern_mismatch'')) (\<lambda>_.
     rbind (traverse validate_excel_column_letter (sr_cells r)) (\<lambda>_.
     rbind (raise_if (unsafe_path (sr_source_file r))
              (ValueError ''source_file must be a safe manifest-relative path'')) (\<lambda>_.
     rbind (raise_if (map sc_raw_value (sr_cells r) \<noteq> sr_raw_payload r)
              (ValueError ''raw_payload must match cells in header order'')) (\<lambda>_.
     rbind (raise_if (map sc_excel_column_number (sr_cells r) \<noteq> map int [1..<length (sr_cells r) + 1])
              (ValueError ''cells must use contiguous one-based columns'')) (\<lambda>_.
     rbind (raise_if (\<not> distinct (map sc_column_name (sr_cells r)))
              (ValueError ''cell column names must be unique'')) (\<lambda>_. Inr r)))))))"

definition row_cell :: "source_row \<Rightarrow> pystr \<Rightarrow> source_cell result" where
  "row_cell r column_name =
     (case next_or_none (\<lambda>c. sc_column_name c = column_name) (sr_cells r) of
        Some c \<Rightarrow> Inr c
      | None \<Rightarrow> Inl (KeyError column_name))"

section \<open>domain/locators.py\<close>

record source_cell_locator =
  loc_source_table :: pystr
  loc_source_file :: posix_path
  loc_source_sheet :: pystr
  loc_source_row_number :: int
  loc_source_column_name :: pystr
  loc_source_column_number :: int
  loc_source_column_letter :: pystr
  loc_source_checksum :: pystr
  loc_source_snapshot_date :: date
  loc_source_applicable_date :: "date option"

definition validate_source_lineage :: "source_cell_locator \<Rightarrow> source_cell_locator result" where
  "validate_source_lineage l =
     rbind (raise_if (loc_source_table l = [] \<or> loc_source_sheet l = [] \<or> loc_source_column_name l = []
                      \<or> loc_source_column_letter l = []) (ValueError ''string_too_short'')) (\<lambda>_.
     rbind (raise_if (loc_source_row_number l \<le> 0 \<or> loc_source_column_number l \<le> 0)
              (ValueError ''greater_than'')) (\<lambda>_.
     rbind (raise_if (\<not> is_sha256_hex (loc_source_checksum l)) (ValueError ''string_pattern_mismatch'')) (\<lambda>_.
     rbind (raise_if (unsafe_path (loc_source_file l))
              (ValueError ''source_file must be a safe manifest-relative path'')) (\<lambda>_.
     rbind (raise_if (loc_source_column_letter l \<noteq> excel_column_letter (loc_source_column_number l))
              (ValueError ''source_column_letter must match source_column_number'')) (\<lambda>_. Inr l)))))"

definition locator_of :: "source_row \<Rightarrow> source_cell \<Rightarrow> source_cell_locator" where
  "locator_of row cell =
     \<lparr>loc_source_table = sr_source_table row, loc_source_file = sr_source_file row,
      loc_source_sheet = sr_source_sheet row, loc_source_row_number = sr_source_row_number row,
      loc_source_column_name = sc_column_name cell,
      loc_source_column_number = sc_excel_column_number cell,
      loc_source_column_letter = sc_excel_column_letter cell,
      loc_source_checksum = sr_source_checksum row,
      loc_source_snapshot_date = sr_source_snapshot_date row,
      loc_source_applicable_date = sc_applicable_date cell\<rparr>"

definition locator_from_row :: "source_row \<Rightarrow> pystr \<Rightarrow> source_cell_locator result" where
  "locator_from_row row column_name =
     rbind (row_cell row column_name) (\<lambda>cell. validate_source_lineage (locator_of row cell))"

section \<open>domain/quality.py\<close>

datatype quality_status =
    VALID | MISSING_BLANK | MISSING_LITERAL_NULL | SENTINEL_ZERO | SENTINEL_MAX_DATE
  | RECORDED_ZERO | RECORDED_ZERO_UNVERIFIED | INVALID_FORMAT | OUT_OF_DOMAIN
  | CONSTANT_METRIC | STALE | MIXED_SOURCE_VALUES | MALFORMED_SOURCE_ROW

fun quality_value :: "quality_status \<Rightarrow> pystr" where
  "quality_value VALID = cp ''valid''"
| "quality_value MISSING_BLANK = cp ''missing_blank''"
| "quality_value MISSING_LITERAL_NULL = cp ''missing_literal_null''"
| "quality_value SENTINEL_ZERO = cp ''sentinel_zero''"
| "quality_value SENTINEL_MAX_DATE = cp ''sentinel_max_date''"
| "quality_value RECORDED_ZERO = cp ''recorded_zero''"
| "quality_value RECORDED_ZERO_UNVERIFIED = cp ''recorded_zero_unverified''"
| "quality_value INVALID_FORMAT = cp ''invalid_format''"
| "quality_value OUT_OF_DOMAIN = cp ''out_of_domain''"
| "quality_value CONSTANT_METRIC = cp ''constant_metric''"
| "quality_value STALE = cp ''stale''"
| "quality_value MIXED_SOURCE_VALUES = cp ''mixed_source_values''"
| "quality_value MALFORMED_SOURCE_ROW = cp ''malformed_source_row''"

datatype issue_severity = INFO | WARNING | HIGH | BLOCKER

record data_quality_issue =
  dq_issue_id :: pystr
  dq_rule_id :: pystr
  dq_rule_version :: pystr
  dq_severity :: issue_severity
  dq_quality_status :: quality_status
  dq_source :: source_cell_locator
  dq_reason :: pystr
  dq_quarantined :: bool
  dq_raw_payload_sha256 :: pystr
  dq_first_detected_at :: "datetime option"

definition issue_components :: "pystr \<Rightarrow> pystr \<Rightarrow> source_cell_locator \<Rightarrow> pystr list" where
  "issue_components rule_id rule_version l =
     [rule_id, rule_version, loc_source_table l, as_posix (loc_source_file l), loc_source_sheet l,
      int_str (loc_source_row_number l), loc_source_column_name l,
      int_str (loc_source_column_number l), loc_source_column_letter l, loc_source_checksum l,
      isoformat (loc_source_snapshot_date l),
      (case loc_source_applicable_date l of Some d \<Rightarrow> isoformat d | None \<Rightarrow> [])]"

definition validate_issue :: "data_quality_issue \<Rightarrow> data_quality_issue result" where
  "validate_issue i =
     rbind (raise_if (\<not> is_sha256_hex (dq_issue_id i) \<or> \<not> is_sha256_hex (dq_raw_payload_sha256 i))
              (ValueError ''string_pattern_mismatch'')) (\<lambda>_.
     rbind (raise_if (dq_rule_id i = [] \<or> dq_rule_version i = []) (ValueError ''string_too_short''))
       (\<lambda>_. Inr i))"

text \<open>\<open>DataQualityIssue.from_row\<close>. Issues are built with no clock: \<open>first_detected_at\<close> is \<open>None\<close>.\<close>

definition issue_from_row ::
  "source_row \<Rightarrow> pystr \<Rightarrow> pystr \<Rightarrow> pystr \<Rightarrow> issue_severity \<Rightarrow> quality_status \<Rightarrow> pystr \<Rightarrow> bool
     \<Rightarrow> data_quality_issue result" where
  "issue_from_row row column_name rule_id rule_version severity status reason quarantined =
     rbind (locator_from_row row column_name) (\<lambda>l.
     rbind (sha256_text (py_join [0] (issue_components rule_id rule_version l))) (\<lambda>iid.
     rbind (sha256_text (py_join [0] (sr_raw_payload row))) (\<lambda>payload.
       validate_issue
         \<lparr>dq_issue_id = iid, dq_rule_id = rule_id, dq_rule_version = rule_version,
          dq_severity = severity, dq_quality_status = status, dq_source = l, dq_reason = reason,
          dq_quarantined = quarantined, dq_raw_payload_sha256 = payload,
          dq_first_detected_at = None\<rparr>)))"

section \<open>domain/values.py and data/normalization/value_factory.py\<close>

record 'v normalized_value =
  nv_raw_value :: pystr
  nv_normalized_value :: "'v option"
  nv_quality_status :: quality_status
  nv_rule_id :: pystr
  nv_rule_version :: pystr
  nv_source :: source_cell_locator

record 'v derived_value =
  dv_value :: "'v option"
  dv_quality_status :: quality_status
  dv_rule_id :: pystr
  dv_rule_version :: pystr
  dv_as_of_date :: date
  dv_inputs :: "source_cell_locator list"

definition make_normalized_value ::
  "source_row \<Rightarrow> pystr \<Rightarrow> 'v option \<Rightarrow> quality_status \<Rightarrow> pystr \<Rightarrow> pystr \<Rightarrow> 'v normalized_value result" where
  "make_normalized_value row column_name normalized status rule_id rule_version =
     rbind (row_cell row column_name) (\<lambda>cell.
     rbind (locator_from_row row column_name) (\<lambda>l.
     rbind (raise_if (rule_id = [] \<or> rule_version = []) (ValueError ''string_too_short'')) (\<lambda>_.
       Inr \<lparr>nv_raw_value = sc_raw_value cell, nv_normalized_value = normalized,
            nv_quality_status = status, nv_rule_id = rule_id, nv_rule_version = rule_version,
            nv_source = l\<rparr>)))"

section \<open>domain/normalization.py\<close>

record 'r normalization_result =
  nr_record :: "'r option"
  nr_issues :: "data_quality_issue list"

definition validate_quarantine_equivalence ::
  "'r normalization_result \<Rightarrow> 'r normalization_result result" where
  "validate_quarantine_equivalence n =
     (let contains = list_ex dq_quarantined (nr_issues n)
      in if nr_record n = None \<and> \<not> contains
         then Inl (ValueError ''record=None requires at least one quarantined issue'')
         else if nr_record n \<noteq> None \<and> contains
         then Inl (ValueError ''record cannot contain quarantined issue'')
         else Inr n)"

definition normalization_result_of ::
  "'r option \<Rightarrow> data_quality_issue list \<Rightarrow> 'r normalization_result result" where
  "normalization_result_of rec issues =
     validate_quarantine_equivalence \<lparr>nr_record = rec, nr_issues = issues\<rparr>"

section \<open>Column letters name column numbers one to one\<close>

definition letters_value :: "pystr \<Rightarrow> nat" where
  "letters_value s = foldl (\<lambda>v c. 26 * v + (c - 64)) 0 s"

lemma div_26_less: "0 < n \<Longrightarrow> (n - 1) div 26 < (n :: nat)"
  using div_le_dividend [of "n - 1" 26] by linarith

lemma excel_letters_acc: "excel_letters n acc = excel_letters n [] @ acc"
proof (induction n arbitrary: acc rule: less_induct)
  case (less n)
  show ?case
  proof (cases "n = 0")
    case False
    let ?q = "(n - 1) div 26" and ?c = "65 + (n - 1) mod 26"
    have q: "?q < n" using False by (simp add: div_26_less)
    have "excel_letters n acc = excel_letters ?q [] @ (?c # acc)"
      using False less.IH [OF q, of "?c # acc"] by (simp add: excel_letters.simps [of n])
    moreover have "excel_letters n [] = excel_letters ?q [] @ [?c]"
      using False less.IH [OF q, of "[?c]"] by (simp add: excel_letters.simps [of n])
    ultimately show ?thesis by simp
  qed (simp add: excel_letters.simps)
qed

lemma excel_letters_step:
  "0 < n \<Longrightarrow> excel_letters n [] = excel_letters ((n - 1) div 26) [] @ [65 + (n - 1) mod 26]"
  by (subst excel_letters.simps) (simp add: excel_letters_acc [of _ "[_]"])

lemma letters_value_snoc: "letters_value (s @ [c]) = 26 * letters_value s + (c - 64)"
  by (simp add: letters_value_def)

lemma letters_value_excel_letters: "letters_value (excel_letters n []) = n"
proof (induction n rule: less_induct)
  case (less n)
  show ?case
  proof (cases "n = 0")
    case False
    let ?q = "(n - 1) div 26"
    have "?q < n" using False by (simp add: div_26_less)
    with less have "letters_value (excel_letters ?q []) = ?q" by simp
    with False show ?thesis
      by (simp add: excel_letters_step letters_value_snoc)
  qed (simp add: letters_value_def excel_letters.simps)
qed

lemma excel_letters_eq_Nil_iff: "excel_letters n [] = [] \<longleftrightarrow> n = 0"
  by (cases "n = 0") (simp_all add: excel_letters_step excel_letters.simps [of 0])

lemma excel_letters_upper: "c \<in> set (excel_letters n []) \<Longrightarrow> 65 \<le> c \<and> c \<le> 90"
proof (induction n rule: less_induct)
  case (less n)
  show ?case
  proof (cases "n = 0")
    case False
    have "(n - 1) div 26 < n" using False by (simp add: div_26_less)
    moreover have "c \<in> set (excel_letters ((n - 1) div 26) []) \<or> c = 65 + (n - 1) mod 26"
      using False less.prems by (auto simp: excel_letters_step)
    moreover have "(n - 1) mod 26 < 26" by simp
    ultimately show ?thesis using less.IH by force
  qed (use less.prems in \<open>simp add: excel_letters.simps\<close>)
qed

section \<open>Rows that can carry lineage\<close>

text \<open>
  A constructed row whose table, sheet and headers are named and whose texts are encodable: the
  rows of a verified workbook. Dates are valid as every Python date is.
\<close>

definition row_ok :: "source_row \<Rightarrow> bool" where
  "row_ok r \<longleftrightarrow>
     validate_raw_lineage r = Inr r \<and> sr_source_table r \<noteq> [] \<and> sr_source_sheet r \<noteq> [] \<and>
     [] \<notin> set (map sc_column_name (sr_cells r)) \<and>
     valid_date (sr_source_snapshot_date r) \<and>
     list_all (\<lambda>c. case sc_applicable_date c of None \<Rightarrow> True | Some d \<Rightarrow> valid_date d) (sr_cells r) \<and>
     list_all encodable ([sr_source_table r, sr_source_sheet r] @ path_parts (sr_source_file r)
        @ map sc_column_name (sr_cells r) @ sr_raw_payload r)"

lemma row_cell_Inr: "row_cell r col = Inr c \<Longrightarrow> c \<in> set (sr_cells r) \<and> sc_column_name c = col"
  by (auto simp: row_cell_def dest: next_or_none_Some_iff split: option.splits)

lemma row_cell_present:
  "col \<in> set (map sc_column_name (sr_cells r)) \<Longrightarrow> \<exists>c. row_cell r col = Inr c"
  by (auto simp: row_cell_def next_or_none_None_iff split: option.splits)

lemma row_cell_absent:
  "col \<notin> set (map sc_column_name (sr_cells r)) \<Longrightarrow> row_cell r col = Inl (KeyError col)"
proof -
  assume "col \<notin> set (map sc_column_name (sr_cells r))"
  then have "next_or_none (\<lambda>c. sc_column_name c = col) (sr_cells r) = None"
    by (auto simp: next_or_none_None_iff)
  then show ?thesis by (simp add: row_cell_def)
qed

lemma validate_excel_column_letter_Inr:
  "validate_excel_column_letter c = Inr d \<longleftrightarrow>
     d = c \<and> 0 < sc_excel_column_number c \<and>
     sc_excel_column_letter c = excel_column_letter (sc_excel_column_number c)"
  by (auto simp: validate_excel_column_letter_def)

lemma traverse_validate_cells:
  "traverse validate_excel_column_letter cs = Inr ds \<Longrightarrow>
     c \<in> set cs \<Longrightarrow> 0 < sc_excel_column_number c \<and>
     sc_excel_column_letter c = excel_column_letter (sc_excel_column_number c)"
  unfolding traverse_eq_Inr_iff
  by (auto simp: validate_excel_column_letter_Inr in_set_conv_nth list_all2_conv_all_nth)

lemma validate_raw_lineage_Inr_iff:
  "validate_raw_lineage r = Inr q \<longleftrightarrow>
     q = r \<and> 0 < sr_source_row_number r \<and> is_sha256_hex (sr_source_checksum r) \<and>
     (\<exists>ds. traverse validate_excel_column_letter (sr_cells r) = Inr ds) \<and>
     \<not> unsafe_path (sr_source_file r) \<and> map sc_raw_value (sr_cells r) = sr_raw_payload r \<and>
     map sc_excel_column_number (sr_cells r) = map int [1..<length (sr_cells r) + 1] \<and>
     distinct (map sc_column_name (sr_cells r))"
  by (auto simp: validate_raw_lineage_def rbind_eq_Inr_iff)

lemma locator_from_row_ok:
  assumes "row_ok r" and "row_cell r col = Inr c"
  shows "locator_from_row r col = Inr (locator_of r c)"
proof -
  from assms(2) have c: "c \<in> set (sr_cells r)" "sc_column_name c = col" by (auto dest: row_cell_Inr)
  from assms(1) have v: "validate_raw_lineage r = Inr r" and ne: "[] \<notin> sc_column_name ` set (sr_cells r)"
    by (auto simp: row_ok_def)
  from v c(1) have "0 < sc_excel_column_number c"
    "sc_excel_column_letter c = excel_column_letter (sc_excel_column_number c)"
    by (auto simp: validate_raw_lineage_Inr_iff dest: traverse_validate_cells)
  moreover from ne c(1) have "sc_column_name c \<noteq> []" by force
  ultimately have "validate_source_lineage (locator_of r c) = Inr (locator_of r c)"
    using assms(1) v
    by (auto simp: validate_source_lineage_def locator_of_def row_ok_def validate_raw_lineage_Inr_iff
        excel_column_letter_def excel_letters_eq_Nil_iff)
  with assms(2) show ?thesis by (simp add: locator_from_row_def)
qed

lemma locator_from_row_Inr:
  "locator_from_row r col = Inr l \<Longrightarrow> \<exists>c. row_cell r col = Inr c \<and> l = locator_of r c"
  by (auto simp: locator_from_row_def validate_source_lineage_def rbind_eq_Inr_iff)

lemma make_normalized_value_Inr:
  "make_normalized_value r col v q rid rv = Inr n \<Longrightarrow>
     \<exists>c. row_cell r col = Inr c \<and> locator_from_row r col = Inr (nv_source n) \<and>
         nv_source n = locator_of r c \<and> nv_raw_value n = sc_raw_value c \<and>
         nv_normalized_value n = v \<and> nv_quality_status n = q \<and> nv_rule_id n = rid \<and> nv_rule_version n = rv"
  by (fastforce simp: make_normalized_value_def rbind_eq_Inr_iff dest: locator_from_row_Inr)

lemma make_normalized_value_ok:
  "row_ok r \<Longrightarrow> row_cell r col = Inr c \<Longrightarrow> rid \<noteq> [] \<Longrightarrow> rv \<noteq> [] \<Longrightarrow>
     make_normalized_value r col v q rid rv =
       Inr \<lparr>nv_raw_value = sc_raw_value c, nv_normalized_value = v, nv_quality_status = q,
            nv_rule_id = rid, nv_rule_version = rv, nv_source = locator_of r c\<rparr>"
  by (simp add: make_normalized_value_def locator_from_row_ok)

section \<open>Issues\<close>

lemma encodable_nat_digits: "encodable (nat_digits n)"
proof (induction n rule: nat_digits.induct)
  case (1 n)
  then show ?case by (subst nat_digits.simps) auto
qed

lemma encodable_int_str: "encodable (int_str n)"
  by (simp add: int_str_def encodable_nat_digits)

lemma encodable_isoformat: "valid_date d \<Longrightarrow> encodable (isoformat d)"
  using valid_date_ranges [of "date_year d" "date_month d" "date_day d"]
  by (cases d) (auto simp: isoformat_def four_digits_def two_digits_def)

lemma encodable_excel: "encodable (excel_column_letter n)"
  by (auto simp: encodable_def list_all_iff excel_column_letter_def dest!: excel_letters_upper)

lemma encodable_sha: "is_sha256_hex s \<Longrightarrow> encodable s"
  by (auto simp: is_sha256_hex_def encodable_def list_all_iff)

lemma encodable_as_posix: "list_all encodable (path_parts p) \<Longrightarrow> encodable (as_posix p)"
  by (auto simp: as_posix_def intro!: encodable_join)

lemma encodable_issue_components:
  assumes "row_ok r" and "row_cell r col = Inr c" and "encodable rid" and "encodable rv"
  shows "list_all encodable (issue_components rid rv (locator_of r c))"
proof -
  from assms(1,2) have "c \<in> set (sr_cells r)" by (auto dest: row_cell_Inr)
  moreover from assms(1) this have "sc_excel_column_letter c = excel_column_letter (sc_excel_column_number c)"
    by (auto simp: row_ok_def validate_raw_lineage_Inr_iff dest: traverse_validate_cells)
  ultimately show ?thesis
    using assms
    by (auto simp: issue_components_def locator_of_def row_ok_def validate_raw_lineage_Inr_iff
        list_all_iff encodable_int_str encodable_isoformat encodable_excel encodable_sha
        intro!: encodable_as_posix split: option.splits)
qed

text \<open>On a row that can carry lineage every issue can be built, and it says what it was asked to say.\<close>

lemma issue_from_row_ok:
  assumes "row_ok r" and "row_cell r col = Inr c"
    and "rid \<noteq> []" "encodable rid" "rv \<noteq> []" "encodable rv"
  shows "\<exists>i. issue_from_row r col rid rv sev q reason quar = Inr i \<and> dq_quarantined i = quar \<and>
           dq_quality_status i = q \<and> dq_severity i = sev \<and> dq_rule_id i = rid \<and>
           dq_source i = locator_of r c \<and> dq_reason i = reason"
proof -
  let ?t = "py_join [0] (issue_components rid rv (locator_of r c))" and ?p = "py_join [0] (sr_raw_payload r)"
  have "encodable ?t"
    using encodable_issue_components [OF assms(1,2,4,6)] by (intro encodable_join) simp_all
  moreover have "encodable ?p"
    using assms(1) by (intro encodable_join) (simp_all add: row_ok_def)
  ultimately obtain h p where "sha256_text ?t = Inr h" "is_sha256_hex h" "sha256_text ?p = Inr p" "is_sha256_hex p"
    using sha256_text_total by blast
  then show ?thesis
    using assms by (simp add: issue_from_row_def locator_from_row_ok validate_issue_def)
qed

lemma issue_from_row_Inr:
  "issue_from_row r col rid rv sev q reason quar = Inr i \<Longrightarrow>
     dq_quarantined i = quar \<and> dq_quality_status i = q \<and> dq_severity i = sev \<and> dq_rule_id i = rid
     \<and> dq_reason i = reason \<and> locator_from_row r col = Inr (dq_source i)"
  by (auto simp: issue_from_row_def validate_issue_def rbind_eq_Inr_iff)

lemma normalization_result_of_Inr_iff:
  "normalization_result_of rec issues = Inr n \<longleftrightarrow>
     n = \<lparr>nr_record = rec, nr_issues = issues\<rparr> \<and> (rec = None \<longleftrightarrow> list_ex dq_quarantined issues)"
  by (auto simp: normalization_result_of_def validate_quarantine_equivalence_def Let_def)

section \<open>The interface of a normalizer\<close>

text \<open>
  Every normalizer builds its result through \<open>normalization_result_of\<close>: whatever it returns is a
  record with no quarantined issue, or no record and at least one. The clients of a normalizer
  rely on that alone.
\<close>

locale quarantining_normalizer =
  fixes normalize :: "'s \<Rightarrow> 'r normalization_result result"
  assumes built: "normalize s = Inr n \<Longrightarrow> \<exists>rec issues. normalization_result_of rec issues = Inr n"
begin

lemma record_iff_not_quarantined:
  "normalize s = Inr n \<Longrightarrow> nr_record n = None \<longleftrightarrow> (\<exists>i \<in> set (nr_issues n). dq_quarantined i)"
  by (drule built) (auto simp: normalization_result_of_Inr_iff list_ex_iff)

lemma accepted_has_no_quarantine:
  "normalize s = Inr n \<Longrightarrow> nr_record n = Some rec \<Longrightarrow> \<forall>i \<in> set (nr_issues n). \<not> dq_quarantined i"
  using record_iff_not_quarantined [of s n] by simp

end

section \<open>Concrete rows\<close>

text \<open>A row of a table with the given columns and raw texts, for the witnesses.\<close>

definition example_row :: "string \<Rightarrow> nat \<Rightarrow> (pystr \<times> string) list \<Rightarrow> source_row" where
  "example_row table n cells =
     \<lparr>sr_source_table = cp table,
      sr_source_file = \<lparr>path_absolute = False, path_parts = [cp ''products.xlsx'']\<rparr>,
      sr_source_sheet = cp ''Sheet1'', sr_source_row_number = int n, sr_source_checksum = replicate 64 97,
      sr_source_snapshot_date = Date 2026 8 22, sr_raw_payload = map (cp \<circ> snd) cells,
      sr_cells = map (\<lambda>(i, col, raw). \<lparr>sc_column_name = col, sc_excel_column_number = int i,
          sc_excel_column_letter = excel_column_letter (int i), sc_raw_value = cp raw,
          sc_applicable_date = None\<rparr>) (zip [1..<length cells + 1] cells)\<rparr>"

end
