(* ===== verification/Parsers.thy ===== *)
theory Parsers
  imports Source
begin

text \<open>
  The cell parsers of \<open>finproof/data/normalization\<close>: \<open>numeric.py\<close>, \<open>temporal.py\<close> and
  \<open>text.py\<close>. Each parser reads one cell of a row and returns a normalized value that keeps the
  raw text and the cell's locator. The locale \<open>lineage_parser\<close> is the contract they share and the
  normalizers rely on; every parser interprets it.
\<close>

section \<open>numeric.py\<close>

definition max_expanded_integer_digits :: int where
  "max_expanded_integer_digits = 4300"

definition validate_zero_status :: "quality_status \<Rightarrow> unit result" where
  "validate_zero_status zero_status =
     raise_if (zero_status \<noteq> RECORDED_ZERO \<and> zero_status \<noteq> RECORDED_ZERO_UNVERIFIED)
       (ValueError ''zero_status must be a recorded-zero quality status'')"

definition parse_finite_decimal :: "pystr \<Rightarrow> decimal option \<times> quality_status" where
  "parse_finite_decimal raw =
     (if py_strip raw = [] then (None, MISSING_BLANK)
      else if raw \<noteq> py_strip raw then (None, INVALID_FORMAT)
      else case decimal_of_str raw of
             None \<Rightarrow> (None, INVALID_FORMAT)
           | Some NotFinite \<Rightarrow> (None, INVALID_FORMAT)
           | Some (Finite d) \<Rightarrow> (Some d, VALID))"

definition decimal_cell :: "quality_status \<Rightarrow> pystr \<Rightarrow> decimal option \<times> quality_status" where
  "decimal_cell zero_status raw =
     (let (d, q) = parse_finite_decimal raw
      in (d, case d of Some x \<Rightarrow> if dval x = 0 then zero_status else q | None \<Rightarrow> q))"

definition parse_decimal ::
  "source_row \<Rightarrow> pystr \<Rightarrow> quality_status \<Rightarrow> pystr \<Rightarrow> pystr \<Rightarrow> decimal normalized_value result" where
  "parse_decimal row column_name zero_status rule_id rule_version =
     rbind (validate_zero_status zero_status) (\<lambda>_.
     rbind (row_cell row column_name) (\<lambda>cell.
       let (d, q) = decimal_cell zero_status (sc_raw_value cell)
       in make_normalized_value row column_name d q rule_id rule_version))"

definition integer_cell :: "quality_status \<Rightarrow> pystr \<Rightarrow> int option \<times> quality_status" where
  "integer_cell zero_status raw =
     (case parse_finite_decimal raw of
        (None, q) \<Rightarrow> (None, q)
      | (Some d, q) \<Rightarrow>
         if dval d \<noteq> dval (dec_to_integral d)
            \<or> (dcoeff d \<noteq> 0 \<and> adjusted d + 1 > max_expanded_integer_digits)
         then (None, INVALID_FORMAT)
         else (Some (dec_to_int d), if dval d = 0 then zero_status else q))"

definition parse_integer ::
  "source_row \<Rightarrow> pystr \<Rightarrow> quality_status \<Rightarrow> pystr \<Rightarrow> pystr \<Rightarrow> int normalized_value result" where
  "parse_integer row column_name zero_status rule_id rule_version =
     rbind (validate_zero_status zero_status) (\<lambda>_.
     rbind (row_cell row column_name) (\<lambda>cell.
       let (n, q) = integer_cell zero_status (sc_raw_value cell)
       in make_normalized_value row column_name n q rule_id rule_version))"

section \<open>temporal.py\<close>

definition matches_yyyymmdd :: "pystr \<Rightarrow> bool" where
  "matches_yyyymmdd s \<longleftrightarrow> length s = 8 \<and> list_all is_digit s"

definition matches_source_datetime :: "pystr \<Rightarrow> bool" where
  "matches_source_datetime s \<longleftrightarrow>
     length s = 19 \<and>
     list_all (\<lambda>i. if i = 4 \<or> i = 7 then s ! i = 45
                   else if i = 10 then s ! i = 32
                   else if i = 13 \<or> i = 16 then s ! i = 58
                   else is_digit (s ! i)) [0..<19]"

definition date_cell :: "bool \<Rightarrow> pystr \<Rightarrow> date option \<times> quality_status" where
  "date_cell allow_max_sentinel raw =
     (if py_strip raw = [] then (None, MISSING_BLANK)
      else if raw = cp ''0'' \<or> raw = cp ''00000000'' then (None, SENTINEL_ZERO)
      else if raw = cp ''99991231'' \<and> allow_max_sentinel then (None, SENTINEL_MAX_DATE)
      else if \<not> matches_yyyymmdd raw then (None, INVALID_FORMAT)
      else case strptime_yyyymmdd raw of
             None \<Rightarrow> (None, INVALID_FORMAT)
           | Some d \<Rightarrow> (Some d, VALID))"

definition parse_yyyymmdd ::
  "source_row \<Rightarrow> pystr \<Rightarrow> bool \<Rightarrow> pystr \<Rightarrow> pystr \<Rightarrow> date normalized_value result" where
  "parse_yyyymmdd row column_name allow_max_sentinel rule_id rule_version =
     rbind (row_cell row column_name) (\<lambda>cell.
       let (d, q) = date_cell allow_max_sentinel (sc_raw_value cell)
       in make_normalized_value row column_name d q rule_id rule_version)"

definition datetime_cell :: "pystr \<Rightarrow> datetime option \<times> quality_status" where
  "datetime_cell raw =
     (if py_strip raw = [] then (None, MISSING_BLANK)
      else if \<not> matches_source_datetime raw then (None, INVALID_FORMAT)
      else case strptime_datetime raw of
             None \<Rightarrow> (None, INVALID_FORMAT)
           | Some t \<Rightarrow> (Some t, VALID))"

definition parse_source_datetime ::
  "source_row \<Rightarrow> pystr \<Rightarrow> pystr \<Rightarrow> pystr \<Rightarrow> datetime normalized_value result" where
  "parse_source_datetime row column_name rule_id rule_version =
     rbind (row_cell row column_name) (\<lambda>cell.
       let (t, q) = datetime_cell (sc_raw_value cell)
       in make_normalized_value row column_name t q rule_id rule_version)"

section \<open>text.py\<close>

definition text_cell :: "pystr \<Rightarrow> pystr option \<times> quality_status" where
  "text_cell raw =
     (let t = py_strip raw in if t = [] then (None, MISSING_BLANK) else (Some t, VALID))"

definition parse_text :: "source_row \<Rightarrow> pystr \<Rightarrow> pystr \<Rightarrow> pystr \<Rightarrow> pystr normalized_value result" where
  "parse_text row column_name rule_id rule_version =
     rbind (row_cell row column_name) (\<lambda>cell.
       let (t, q) = text_cell (sc_raw_value cell)
       in make_normalized_value row column_name t q rule_id rule_version)"

definition is_upper_alnum :: "nat \<Rightarrow> bool" where
  "is_upper_alnum c \<longleftrightarrow> (65 \<le> c \<and> c \<le> 90) \<or> (48 \<le> c \<and> c \<le> 57)"

definition is_identifier :: "pystr \<Rightarrow> bool" where
  "is_identifier s \<longleftrightarrow> length s = 12 \<and> list_all is_upper_alnum s"

definition parse_identifier :: "source_row \<Rightarrow> pystr \<Rightarrow> pystr \<Rightarrow> pystr \<Rightarrow> pystr normalized_value result" where
  "parse_identifier row column_name rule_id rule_version =
     rbind (row_cell row column_name) (\<lambda>cell.
       let raw = sc_raw_value cell
       in if \<not> is_identifier raw
          then make_normalized_value row column_name None MALFORMED_SOURCE_ROW rule_id rule_version
          else make_normalized_value row column_name (Some raw) VALID rule_id rule_version)"

definition parse_exact_source_identity ::
  "source_row \<Rightarrow> pystr \<Rightarrow> pystr \<Rightarrow> pystr \<Rightarrow> pystr normalized_value result" where
  "parse_exact_source_identity row column_name rule_id rule_version =
     rbind (row_cell row column_name) (\<lambda>cell.
       let raw = sc_raw_value cell
       in if py_strip raw = [] \<or> raw \<noteq> py_strip raw
          then make_normalized_value row column_name None MALFORMED_SOURCE_ROW rule_id rule_version
          else make_normalized_value row column_name (Some raw) VALID rule_id rule_version)"

definition parse_literal_null_text ::
  "source_row \<Rightarrow> pystr \<Rightarrow> pystr \<Rightarrow> pystr \<Rightarrow> pystr normalized_value result" where
  "parse_literal_null_text row column_name rule_id rule_version =
     rbind (row_cell row column_name) (\<lambda>cell.
       if sc_raw_value cell = cp ''NULL''
       then make_normalized_value row column_name None MISSING_LITERAL_NULL rule_id rule_version
       else parse_text row column_name rule_id rule_version)"

section \<open>The contract of a cell parser\<close>

text \<open>
  A cell parser fails on a missing column with the row's own error, succeeds on every row that
  can carry lineage, and builds its result with \<open>make_normalized_value\<close> under its own rule.
\<close>

locale lineage_parser =
  fixes parse :: "pystr \<Rightarrow> pystr \<Rightarrow> source_row \<Rightarrow> pystr \<Rightarrow> 'v normalized_value result"
  assumes missing: "row_cell r col = Inl e \<Longrightarrow> parse rid rv r col = Inl e"
    and made: "parse rid rv r col = Inr n \<Longrightarrow> \<exists>v q. make_normalized_value r col v q rid rv = Inr n"
    and total: "row_ok r \<Longrightarrow> row_cell r col = Inr c \<Longrightarrow> rid \<noteq> [] \<Longrightarrow> rv \<noteq> [] \<Longrightarrow>
      \<exists>n. parse rid rv r col = Inr n"
begin

lemma lineage:
  assumes "parse rid rv r col = Inr n"
  shows "\<exists>c. row_cell r col = Inr c \<and> nv_raw_value n = sc_raw_value c \<and>
    nv_source n = locator_of r c \<and> locator_from_row r col = Inr (nv_source n)"
  using made [OF assms] by (auto dest: make_normalized_value_Inr)

lemma rule:
  assumes "parse rid rv r col = Inr n"
  shows "nv_rule_id n = rid \<and> nv_rule_version n = rv"
  using made [OF assms] by (auto dest: make_normalized_value_Inr)

lemma defined_iff:
  assumes "row_ok r" and "rid \<noteq> []" and "rv \<noteq> []"
  shows "(\<exists>n. parse rid rv r col = Inr n) \<longleftrightarrow> col \<in> set (map sc_column_name (sr_cells r))"
proof
  assume "\<exists>n. parse rid rv r col = Inr n"
  then obtain n where "parse rid rv r col = Inr n" by blast
  from lineage [OF this] obtain c where "row_cell r col = Inr c" by blast
  then have "c \<in> set (sr_cells r)" "sc_column_name c = col" by (auto dest: row_cell_Inr)
  then show "col \<in> set (map sc_column_name (sr_cells r))" by force
next
  assume "col \<in> set (map sc_column_name (sr_cells r))"
  then show "\<exists>n. parse rid rv r col = Inr n"
    using row_cell_present total [OF assms(1) _ assms(2,3)] by blast
qed

end

text \<open>A parser that computes the value and status from the raw text alone meets the contract.\<close>

lemma cell_function_contract:
  assumes "\<And>rid rv r col. parse rid rv r col =
      rbind (row_cell r col) (\<lambda>c. let (v, q) = f (sc_raw_value c) in make_normalized_value r col v q rid rv)"
  shows "lineage_parser parse"
proof
  fix r col e rid rv
  assume "row_cell r col = Inl e"
  then show "parse rid rv r col = Inl e" by (simp add: assms)
next
  fix rid rv r col n
  assume "parse rid rv r col = Inr n"
  then show "\<exists>v q. make_normalized_value r col v q rid rv = Inr n"
    by (auto simp: assms rbind_eq_Inr_iff Let_def case_prod_beta)
next
  fix r col c and rid rv :: pystr
  assume "row_ok r" "row_cell r col = Inr c" "rid \<noteq> []" "rv \<noteq> []"
  then show "\<exists>n. parse rid rv r col = Inr n"
    by (simp add: assms make_normalized_value_ok split: prod.splits)
qed

interpretation dec_parser: lineage_parser "\<lambda>rid rv r col. parse_decimal r col RECORDED_ZERO rid rv"
  by (rule cell_function_contract [where f = "decimal_cell RECORDED_ZERO"])
     (simp add: parse_decimal_def validate_zero_status_def)

interpretation int_parser: lineage_parser "\<lambda>rid rv r col. parse_integer r col RECORDED_ZERO rid rv"
  by (rule cell_function_contract [where f = "integer_cell RECORDED_ZERO"])
     (simp add: parse_integer_def validate_zero_status_def)

interpretation date_parser: lineage_parser "\<lambda>rid rv r col. parse_yyyymmdd r col allow rid rv" for allow
  by (rule cell_function_contract [where f = "date_cell allow"]) (simp add: parse_yyyymmdd_def)

interpretation datetime_parser: lineage_parser "\<lambda>rid rv r col. parse_source_datetime r col rid rv"
  by (rule cell_function_contract [where f = datetime_cell]) (simp add: parse_source_datetime_def)

interpretation text_parser: lineage_parser "\<lambda>rid rv r col. parse_text r col rid rv"
  by (rule cell_function_contract [where f = text_cell]) (simp add: parse_text_def)

interpretation ident_parser: lineage_parser "\<lambda>rid rv r col. parse_identifier r col rid rv"
  by (rule cell_function_contract
        [where f = "\<lambda>s. if \<not> is_identifier s then (None, MALFORMED_SOURCE_ROW) else (Some s, VALID)"])
     (auto simp: parse_identifier_def Let_def rbind_def split: sum.split)

interpretation exact_parser: lineage_parser "\<lambda>rid rv r col. parse_exact_source_identity r col rid rv"
  by (rule cell_function_contract
        [where f = "\<lambda>s. if py_strip s = [] \<or> s \<noteq> py_strip s then (None, MALFORMED_SOURCE_ROW) else (Some s, VALID)"])
     (auto simp: parse_exact_source_identity_def Let_def rbind_def split: sum.split)

interpretation null_parser: lineage_parser "\<lambda>rid rv r col. parse_literal_null_text r col rid rv"
proof (rule cell_function_contract
    [where f = "\<lambda>s. if s = cp ''NULL'' then (None, MISSING_LITERAL_NULL) else text_cell s"])
  fix rid rv r col
  show "parse_literal_null_text r col rid rv =
      rbind (row_cell r col) (\<lambda>c. let (v, q) = if sc_raw_value c = cp ''NULL''
          then (None, MISSING_LITERAL_NULL) else text_cell (sc_raw_value c)
        in make_normalized_value r col v q rid rv)"
    by (cases "row_cell r col") (auto simp: parse_literal_null_text_def parse_text_def)
qed

section \<open>What the parsers compute\<close>

lemma parse_finite_decimal_Some:
  "fst (parse_finite_decimal s) = Some d \<Longrightarrow>
     decimal_of_str s = Some (Finite d) \<and> s = py_strip s \<and> s \<noteq> [] \<and> snd (parse_finite_decimal s) = VALID"
  by (auto simp: parse_finite_decimal_def split: if_splits option.splits decimal_literal.splits)

lemma decimal_cell_status:
  "snd (decimal_cell zs s) =
     (case fst (decimal_cell zs s) of
        Some d \<Rightarrow> if dval d = 0 then zs else VALID
      | None \<Rightarrow> if py_strip s = [] then MISSING_BLANK else INVALID_FORMAT)"
  by (auto simp: decimal_cell_def parse_finite_decimal_def
      split: if_splits option.splits decimal_literal.splits)

lemma integer_cell_Some:
  assumes "fst (integer_cell zs s) = Some n"
  obtains d where "decimal_of_str s = Some (Finite d)" and "of_int n = dval d"
    and "\<bar>n\<bar> < 10 ^ 4300" and "snd (integer_cell zs s) = (if n = 0 then zs else VALID)"
proof -
  obtain v b where p: "parse_finite_decimal s = (v, b)" by (cases "parse_finite_decimal s")
  with assms obtain d where v: "v = Some d" by (cases v) (auto simp: integer_cell_def)
  have c: "\<not> (dval d \<noteq> dval (dec_to_integral d) \<or>
      (dcoeff d \<noteq> 0 \<and> adjusted d + 1 > max_expanded_integer_digits))"
  proof
    assume bad: "dval d \<noteq> dval (dec_to_integral d) \<or>
      (dcoeff d \<noteq> 0 \<and> adjusted d + 1 > max_expanded_integer_digits)"
    then have "integer_cell zs s = (None, INVALID_FORMAT)"
      by (simp only: integer_cell_def p v prod.case option.case if_True)
    with assms show False by simp
  qed
  then have int: "dval (dec_to_integral d) = dval d" and adj: "dcoeff d = 0 \<or> adjusted d + 1 \<le> 4300"
    by (auto simp: max_expanded_integer_digits_def)
  have cell: "integer_cell zs s = (Some (dec_to_int d), if dval d = 0 then zs else b)"
    using c by (simp only: integer_cell_def p v prod.case option.case if_False)
  with assms have n: "n = dec_to_int d" by simp
  have d: "fst (parse_finite_decimal s) = Some d" by (simp add: p v)
  have q: "snd (integer_cell zs s) = (if dval d = 0 then zs else snd (parse_finite_decimal s))"
    unfolding cell p by simp
  have val: "(of_int n :: rat) = dval d" using int n by (simp add: dec_to_int_value)
  define K :: nat where "K = 4300"
  have adjK: "dcoeff d = 0 \<or> adjusted d + 1 \<le> int K" using adj by (simp add: K_def)
  have "(of_int \<bar>n\<bar> :: rat) < of_int (10 ^ K)"
  proof (cases "dcoeff d = 0")
    case True
    then have "dval d = 0" by simp
    with val have "n = 0" by simp
    then show ?thesis by simp
  next
    case False
    have "\<bar>dval d\<bar> < pow10 (adjusted d + 1)" by (rule dval_less_pow10)
    also have "\<dots> \<le> pow10 (int K)" using adjK False by (intro pow10_mono) simp
    also have "pow10 (int K) = 10 ^ K" by (simp add: pow10_nat)
    finally show ?thesis using val by simp
  qed
  then have "\<bar>n\<bar> < 10 ^ K" by (simp only: of_int_less_iff)
  then have bound: "\<bar>n\<bar> < 10 ^ 4300" unfolding K_def .
  have zero: "dval d = 0 \<longleftrightarrow> n = 0" using val by (metis of_int_0 of_int_eq_iff)
  show ?thesis
  proof (rule that [OF _ val bound])
    show "decimal_of_str s = Some (Finite d)" using parse_finite_decimal_Some [OF d] by blast
    show "snd (integer_cell zs s) = (if n = 0 then zs else VALID)"
      using q zero parse_finite_decimal_Some [OF d] by presburger
  qed
qed

lemma date_cell_Some:
  "fst (date_cell allow s) = Some d \<Longrightarrow> valid_date d \<and> snd (date_cell allow s) = VALID"
  by (auto simp: date_cell_def dest: strptime_yyyymmdd_valid split: if_splits option.splits)

lemma date_cell_None: "fst (date_cell allow s) = None \<Longrightarrow> snd (date_cell allow s) \<noteq> VALID"
  by (auto simp: date_cell_def split: if_splits option.splits)

lemma text_cell_Some:
  "fst (text_cell s) = Some t \<longleftrightarrow> t = py_strip s \<and> t \<noteq> []"
  by (auto simp: text_cell_def Let_def)

lemma digit_not_space: "is_digit c \<Longrightarrow> \<not> py_isspace c"
  by (auto simp: is_digit_def py_isspace_def)

lemma digits_not_space: "list_all is_digit s \<Longrightarrow> s \<noteq> [] \<Longrightarrow> py_strip s = s"
  by (rule py_strip_id) (auto simp: list_all_iff intro!: digit_not_space)

lemma date_cell_roundtrip:
  assumes "valid_date d" and "allow \<Longrightarrow> d \<noteq> Date 9999 12 31"
  shows "date_cell allow (yyyymmdd d) = (Some d, VALID)"
proof -
  obtain y m dd where d: "d = Date y m dd" by (cases d)
  note r = valid_date_ranges [OF assms(1) [unfolded d]]
  have digits: "list_all is_digit (yyyymmdd d)"
    using r by (simp add: d yyyymmdd_def list_all_four_digits list_all_two_digits)
  have len: "length (yyyymmdd d) = 8" by (simp add: yyyymmdd_def)
  have inv: "strptime_yyyymmdd (yyyymmdd d) = Some d" by (rule strptime_yyyymmdd_inverse [OF assms(1)])
  have "yyyymmdd d \<noteq> cp ''00000000''"
  proof
    assume "yyyymmdd d = cp ''00000000''"
    with inv have "strptime_yyyymmdd (cp ''00000000'') = Some d" by simp
    then show False by (simp add: strptime_yyyymmdd_def cp_def make_date_def valid_date_def)
  qed
  moreover have "yyyymmdd d \<noteq> cp ''0''" using len by (auto simp: cp_def)
  moreover have "\<not> (yyyymmdd d = cp ''99991231'' \<and> allow)"
  proof
    assume a: "yyyymmdd d = cp ''99991231'' \<and> allow"
    with inv have "strptime_yyyymmdd (cp ''99991231'') = Some d" by simp
    then have "d = Date 9999 12 31"
      by (simp add: strptime_yyyymmdd_def cp_def make_date_def split: if_splits)
    with assms(2) a show False by simp
  qed
  moreover have "yyyymmdd d \<noteq> []" using len by auto
  then have "py_strip (yyyymmdd d) \<noteq> []" using digits_not_space [OF digits] by simp
  ultimately show ?thesis
    using digits len inv by (simp add: date_cell_def matches_yyyymmdd_def)
qed

end
