(* ===== verification/Rating.thy ===== *)
theory Rating
  imports Parsers
begin

text \<open>
  The credit-rating registry of \<open>finproof/registry/rating.py\<close>: the semantic checks of its
  constructor, the resolution of one grade, of a comma-separated list of agency grades, and the
  comparison of two grades. The locale \<open>valid_ratings\<close> collects what the clients of the registry
  (bond normalization, filtering and ranking by rating) rely on for a registry that passed the
  constructor; it is interpreted on the packaged rating scale.
\<close>

record rating_registry =
  rr_missing_tokens :: "pystr list"
  rr_ratings :: "(pystr \<times> int) list"
  rr_aliases :: "(pystr \<times> pystr) list"

record rating_resolution =
  rs_raw_value :: pystr
  rs_normalized_value :: "pystr option"
  rs_ordinal :: "int option"
  rs_quality_status :: quality_status

definition semantic_error_category ::
  "pystr list \<Rightarrow> (pystr \<times> int) list \<Rightarrow> (pystr \<times> pystr) list \<Rightarrow> string option" where
  "semantic_error_category missing ratings aliases =
     (let rating_names = map fst ratings
      in if missing = [] \<or> \<not> distinct missing \<or> list_ex (\<lambda>t. t \<noteq> py_strip t) missing
         then Some ''missing token''
         else if ratings = [] \<or> list_ex (\<lambda>r. r = [] \<or> r \<noteq> py_strip r) rating_names
              \<or> list_ex (\<lambda>r. r \<in> set missing) rating_names
         then Some ''rating''
         else if list_ex (\<lambda>n. n \<le> 0) (map snd ratings)
         then Some ''ordinal''
         else if list_ex (\<lambda>(alias, target).
                   alias = [] \<or> alias \<noteq> py_strip alias \<or> target \<noteq> py_strip target
                   \<or> alias \<in> set rating_names \<or> alias \<in> set missing \<or> target \<notin> set rating_names) aliases
         then Some ''alias''
         else None)"

text \<open>The model validator of \<open>RatingRegistry\<close>: invalid registry state is refused.\<close>

definition validate_semantics :: "rating_registry \<Rightarrow> rating_registry result" where
  "validate_semantics reg =
     (case semantic_error_category (rr_missing_tokens reg) (rr_ratings reg) (rr_aliases reg) of
        Some category \<Rightarrow> Inl (ValueError (''invalid rating registry '' @ category))
      | None \<Rightarrow> Inr reg)"

definition resolve :: "rating_registry \<Rightarrow> pystr \<Rightarrow> rating_resolution" where
  "resolve reg value =
     (let token = py_strip value
      in if token = []
         then \<lparr>rs_raw_value = value, rs_normalized_value = None, rs_ordinal = None,
               rs_quality_status = MISSING_BLANK\<rparr>
         else if token \<in> set (rr_missing_tokens reg)
         then \<lparr>rs_raw_value = value, rs_normalized_value = None, rs_ordinal = None,
               rs_quality_status = MISSING_LITERAL_NULL\<rparr>
         else (let canonical = (case map_of (rr_aliases reg) token of Some t \<Rightarrow> t | None \<Rightarrow> token)
               in case map_of (rr_ratings reg) canonical of
                    None \<Rightarrow> \<lparr>rs_raw_value = value, rs_normalized_value = None, rs_ordinal = None,
                             rs_quality_status = OUT_OF_DOMAIN\<rparr>
                  | Some ordinal \<Rightarrow>
                      \<lparr>rs_raw_value = value, rs_normalized_value = Some canonical,
                       rs_ordinal = Some ordinal, rs_quality_status = VALID\<rparr>))"

definition resolve_agencies :: "rating_registry \<Rightarrow> pystr \<Rightarrow> rating_resolution list" where
  "resolve_agencies reg value = map (resolve reg) (py_split 44 value)"

definition compare :: "rating_registry \<Rightarrow> pystr \<Rightarrow> pystr \<Rightarrow> int result" where
  "compare reg left right =
     (case (rs_ordinal (resolve reg left), rs_ordinal (resolve reg right)) of
        (Some l, Some r) \<Rightarrow> Inr (of_bool (l > r) - of_bool (l < r))
      | _ \<Rightarrow> Inl RatingNotComparableError)"

text \<open>The packaged scale \<open>config/rating_scale.yaml\<close>.\<close>

definition packaged_ratings :: rating_registry where
  "packaged_ratings =
     \<lparr>rr_missing_tokens = [[], cp ''NULL'', cp ''N/A'', cp ''NR'', cp ''Not Rated'', [47924, 46321, 44553]],
      rr_ratings =
        [(cp ''AAA'', 1), (cp ''AA+'', 2), (cp ''AA0'', 3), (cp ''AA'', 3), (cp ''AA-'', 4), (cp ''A+'', 5),
         (cp ''A0'', 6), (cp ''A'', 6), (cp ''A-'', 7), (cp ''BBB+'', 8), (cp ''BBB0'', 9), (cp ''BBB'', 9),
         (cp ''BBB-'', 10), (cp ''BB+'', 11), (cp ''BB0'', 12), (cp ''BB'', 12), (cp ''BB-'', 13),
         (cp ''B+'', 14), (cp ''B0'', 15), (cp ''B'', 15), (cp ''B-'', 16), (cp ''CCC+'', 17),
         (cp ''CCC0'', 18), (cp ''CCC'', 18), (cp ''CCC-'', 19), (cp ''CC'', 20), (cp ''C'', 21), (cp ''D'', 22)],
      rr_aliases =
        [([65, 65, 65296], cp ''AA0''), ([65, 65296], cp ''A0''), ([66, 66, 66, 65296], cp ''BBB0''),
         ([66, 66, 65296], cp ''BB0''), ([66, 65296], cp ''B0'')]\<rparr>"

section \<open>What a valid registry promises its clients\<close>

lemma resolve_strip: "rs_ordinal (resolve reg (py_strip s)) = rs_ordinal (resolve reg s)"
  "rs_normalized_value (resolve reg (py_strip s)) = rs_normalized_value (resolve reg s)"
  by (auto simp: resolve_def Let_def split: option.splits)

lemma resolve_status:
  "rs_quality_status (resolve reg s) = VALID \<longleftrightarrow> rs_ordinal (resolve reg s) \<noteq> None"
  "rs_normalized_value (resolve reg s) = None \<longleftrightarrow> rs_ordinal (resolve reg s) = None"
  by (auto simp: resolve_def Let_def split: option.splits)

lemma resolve_Some:
  "rs_ordinal (resolve reg s) = Some n \<Longrightarrow>
     \<exists>c. rs_normalized_value (resolve reg s) = Some c \<and> map_of (rr_ratings reg) c = Some n"
  by (auto simp: resolve_def Let_def split: if_splits option.splits)

locale valid_ratings =
  fixes reg :: rating_registry
  assumes valid: "validate_semantics reg = Inr reg"
begin

lemma no_category: "semantic_error_category (rr_missing_tokens reg) (rr_ratings reg) (rr_aliases reg) = None"
  using valid by (simp add: validate_semantics_def split: option.splits)

lemma rating_name:
  assumes "map_of (rr_ratings reg) c = Some n"
  shows "c \<noteq> [] \<and> py_strip c = c \<and> c \<notin> set (rr_missing_tokens reg) \<and> 0 < n"
proof -
  from assms have "(c, n) \<in> set (rr_ratings reg)" by (rule map_of_SomeD)
  with no_category show ?thesis
    by (auto simp: semantic_error_category_def Let_def list_ex_iff split: if_splits)
qed

lemma alias_not_rating: "map_of (rr_ratings reg) c = Some n \<Longrightarrow> map_of (rr_aliases reg) c = None"
proof -
  assume "map_of (rr_ratings reg) c = Some n"
  then have "c \<in> fst ` set (rr_ratings reg)" by (force dest: map_of_SomeD)
  moreover have "\<forall>(a, t) \<in> set (rr_aliases reg). a \<notin> fst ` set (rr_ratings reg)"
    using no_category by (auto simp: semantic_error_category_def Let_def list_ex_iff split: if_splits)
  ultimately show ?thesis by (fastforce simp: map_of_eq_None_iff)
qed

lemma ordinal_positive: "rs_ordinal (resolve reg s) = Some n \<Longrightarrow> 0 < n"
  using resolve_Some rating_name by blast

text \<open>A resolved grade is a fixed point: resolving it again gives the same grade and ordinal.\<close>

lemma canonical_fixed:
  assumes "rs_normalized_value (resolve reg s) = Some c"
  shows "rs_normalized_value (resolve reg c) = Some c \<and>
    rs_ordinal (resolve reg c) = rs_ordinal (resolve reg s)"
proof -
  from assms obtain n where "rs_ordinal (resolve reg s) = Some n"
    using resolve_status(2) [of reg s] by (cases "rs_ordinal (resolve reg s)") auto
  then have n: "map_of (rr_ratings reg) c = Some n" "rs_ordinal (resolve reg s) = Some n"
    using resolve_Some assms by fastforce+
  then show ?thesis
    using rating_name [OF n(1)] alias_not_rating [OF n(1)] by (simp add: resolve_def)
qed

lemma compare_refl_iff: "compare reg s s = Inr 0 \<longleftrightarrow> rs_ordinal (resolve reg s) \<noteq> None"
  by (auto simp: compare_def split: option.splits)

lemma compare_antisym: "compare reg s t = Inr k \<Longrightarrow> compare reg t s = Inr (- k)"
  by (auto simp: compare_def split: option.splits)

lemma compare_trans:
  assumes "compare reg s t = Inr j" "compare reg t u = Inr k" "j \<le> 0" "k \<le> 0"
  shows "\<exists>m. compare reg s u = Inr m \<and> m \<le> 0 \<and> (m = 0 \<longrightarrow> j = 0 \<and> k = 0)"
  using assms by (auto simp: compare_def of_bool_def split: option.splits if_splits)

end

text \<open>The packaged scale passes the constructor's checks.\<close>

lemma packaged_ratings_valid: "validate_semantics packaged_ratings = Inr packaged_ratings"
  unfolding packaged_ratings_def validate_semantics_def semantic_error_category_def cp_def
  by (simp add: py_strip_def py_lstrip_def py_isspace_def)

interpretation packaged: valid_ratings packaged_ratings
  by unfold_locales (rule packaged_ratings_valid)

end
