(* ===== verification/Bonds.thy ===== *)
theory Bonds
  imports Rating
begin

text \<open>
  Domestic bonds: the sale-lot and instrument contracts of \<open>finproof/domain/bonds.py\<close> and the
  normalizer of \<open>finproof/data/normalization/bonds.py\<close>, which turns one source row into one
  sale lot and collapses the lots of one instrument into a parent record with one
  deterministically selected quote.
\<close>

section \<open>domain/bonds.py\<close>

definition BOND_LOT_FIELD_COLUMNS :: "(string \<times> pystr) list" where
  "BOND_LOT_FIELD_COLUMNS =
     [(''product_id'', cp ''pd_no''), (''exchange_market'', cp ''pd_exg_mkt''),
      (''info_base_date'', cp ''info_base_dt''), (''info_sequence'', cp ''info_seq''),
      (''name'', cp ''pd_nm''), (''short_name'', cp ''pd_abrv_nm''), (''currency'', cp ''curr_cd''),
      (''bond_kind_raw'', cp ''bd_knd''), (''issue_date'', cp ''isu_dt''),
      (''maturity_date'', cp ''mat_dt''), (''source_update_date'', cp ''pd_std_info_update''),
      (''coupon_rate'', cp ''srfc_irt''), (''buy_yield'', cp ''buy_yield''),
      (''buyable_quantity'', cp ''buyable_quantity''), (''source_remaining_days'', cp ''remaining_days''),
      (''credit_rating'', cp ''crd_grd''), (''credit_rating_date'', cp ''crd_grd_dt''),
      (''duration'', cp ''dur''), (''evaluation_price'', cp ''eval_price''), (''trade_price'', cp ''trade_price'')]"

record bond_sale_lot_key =
  bk_product_id :: pystr
  bk_exchange_market :: pystr
  bk_info_base_date :: pystr
  bk_info_seq :: pystr
  bk_source_row_number :: int

definition validate_lot_key :: "bond_sale_lot_key \<Rightarrow> bond_sale_lot_key result" where
  "validate_lot_key k =
     (if bk_product_id k = [] \<or> bk_exchange_market k = [] \<or> bk_info_base_date k = [] \<or> bk_info_seq k = []
      then Inl (ValueError ''string_too_short'')
      else if bk_source_row_number k \<le> 0 then Inl (ValueError ''greater_than'')
      else Inr k)"

record bond_sale_lot =
  bl_source_row :: source_row
  bl_source_key :: bond_sale_lot_key
  bl_product_id :: "pystr normalized_value"
  bl_exchange_market :: "pystr normalized_value"
  bl_info_base_date :: "date normalized_value"
  bl_info_sequence :: "int normalized_value"
  bl_name :: "pystr normalized_value"
  bl_short_name :: "pystr normalized_value"
  bl_currency :: "pystr normalized_value"
  bl_bond_kind_raw :: "pystr normalized_value"
  bl_issue_date :: "date normalized_value"
  bl_maturity_date :: "date normalized_value"
  bl_source_update_date :: "date normalized_value"
  bl_coupon_rate :: "decimal normalized_value"
  bl_buy_yield :: "decimal normalized_value"
  bl_buyable_quantity :: "decimal normalized_value"
  bl_source_remaining_days :: "int normalized_value"
  bl_credit_rating :: "pystr normalized_value"
  bl_credit_rating_date :: "date normalized_value"
  bl_duration :: "decimal normalized_value"
  bl_evaluation_price :: "decimal normalized_value"
  bl_trade_price :: "decimal normalized_value"

definition lineage_of :: "'v normalized_value \<Rightarrow> pystr \<times> source_cell_locator" where
  "lineage_of v = (nv_raw_value v, nv_source v)"

text \<open>\<open>getattr(self, field_name)\<close> for the fields of the column table, in its order.\<close>

definition lot_lineage :: "bond_sale_lot \<Rightarrow> (pystr \<times> source_cell_locator) list" where
  "lot_lineage l =
     [lineage_of (bl_product_id l), lineage_of (bl_exchange_market l), lineage_of (bl_info_base_date l),
      lineage_of (bl_info_sequence l), lineage_of (bl_name l), lineage_of (bl_short_name l),
      lineage_of (bl_currency l), lineage_of (bl_bond_kind_raw l), lineage_of (bl_issue_date l),
      lineage_of (bl_maturity_date l), lineage_of (bl_source_update_date l), lineage_of (bl_coupon_rate l),
      lineage_of (bl_buy_yield l), lineage_of (bl_buyable_quantity l),
      lineage_of (bl_source_remaining_days l), lineage_of (bl_credit_rating l),
      lineage_of (bl_credit_rating_date l), lineage_of (bl_duration l), lineage_of (bl_evaluation_price l),
      lineage_of (bl_trade_price l)]"

fun check_lot_fields :: "source_row \<Rightarrow> (pystr \<times> (pystr \<times> source_cell_locator)) list \<Rightarrow> unit result" where
  "check_lot_fields row [] = Inr ()"
| "check_lot_fields row ((column, raw, src) # rest) =
     rbind (row_cell row column) (\<lambda>cell.
     rbind (raise_if (raw \<noteq> sc_raw_value cell)
              (ValueError ''bond lot wrapper raw value differs from source row'')) (\<lambda>_.
     rbind (locator_from_row row column) (\<lambda>l.
     rbind (raise_if (src \<noteq> l) (ValueError ''bond lot wrapper locator differs from source row'')) (\<lambda>_.
       check_lot_fields row rest))))"

definition lot_key_of :: "bond_sale_lot \<Rightarrow> bond_sale_lot_key" where
  "lot_key_of l =
     \<lparr>bk_product_id = nv_raw_value (bl_product_id l),
      bk_exchange_market = nv_raw_value (bl_exchange_market l),
      bk_info_base_date = nv_raw_value (bl_info_base_date l),
      bk_info_seq = nv_raw_value (bl_info_sequence l),
      bk_source_row_number = sr_source_row_number (bl_source_row l)\<rparr>"

definition validate_complete_source_lineage :: "bond_sale_lot \<Rightarrow> bond_sale_lot result" where
  "validate_complete_source_lineage l =
     rbind (raise_if (sr_source_table (bl_source_row l) \<noteq> cp ''PRBD01N001'')
              (ValueError ''bond sale lot must name PRBD01N001'')) (\<lambda>_.
     rbind (check_lot_fields (bl_source_row l) (zip (map snd BOND_LOT_FIELD_COLUMNS) (lot_lineage l))) (\<lambda>_.
     rbind (validate_lot_key (lot_key_of l)) (\<lambda>k.
     rbind (raise_if (bl_source_key l \<noteq> k) (ValueError ''bond lot source key differs from source row''))
       (\<lambda>_. Inr l))))"

record bond_field_sources =
  bf_field_name :: pystr
  bf_sources :: "source_cell_locator list"

definition position :: "source_cell_locator \<Rightarrow> int \<times> int" where
  "position l = (loc_source_row_number l, loc_source_column_number l)"

definition validate_field_sources :: "bond_field_sources \<Rightarrow> bond_field_sources result" where
  "validate_field_sources f =
     (let positions = map position (bf_sources f)
      in if bf_sources f = [] then Inl (ValueError ''bond parent field sources must not be empty'')
         else if positions \<noteq> sorted_list_of_set (set positions)
         then Inl (ValueError ''bond parent field sources must be unique and sorted'')
         else if card (set (map loc_source_column_name (bf_sources f))) \<noteq> 1
         then Inl (ValueError ''bond parent field sources must name one source column'')
         else Inr f)"

record bond_instrument =
  bi_selected_lot_key :: bond_sale_lot_key
  bi_field_sources :: "bond_field_sources list"
  bi_product_id :: "pystr normalized_value"
  bi_name :: "pystr normalized_value"
  bi_short_name :: "pystr normalized_value"
  bi_currency :: "pystr normalized_value"
  bi_bond_kind_raw :: "pystr normalized_value"
  bi_issue_date :: "date normalized_value"
  bi_maturity_date :: "date normalized_value"
  bi_source_update_date :: "date normalized_value"
  bi_coupon_rate :: "decimal normalized_value"
  bi_buy_yield :: "decimal normalized_value"
  bi_source_remaining_days :: "int normalized_value"
  bi_credit_rating :: "pystr normalized_value"
  bi_credit_rating_date :: "date normalized_value"
  bi_duration :: "decimal normalized_value"
  bi_evaluation_price :: "decimal normalized_value"
  bi_trade_price :: "decimal normalized_value"
  bi_remaining_days_at_as_of :: "int derived_value"
  bi_is_matured_at_as_of :: "bool derived_value"
  bi_is_purchasable_at_as_of :: "bool derived_value"
  bi_buy_yield_range :: "(decimal \<times> decimal) derived_value"

section \<open>normalization/bonds.py: one row\<close>

abbreviation bond_table :: pystr where "bond_table \<equiv> cp ''PRBD01N001''"
abbreviation bond_rule_version :: pystr where "bond_rule_version \<equiv> cp ''2.0.0''"

definition bond_text :: "source_row \<Rightarrow> pystr \<Rightarrow> pystr \<Rightarrow> pystr normalized_value result" where
  "bond_text row column rule_id = parse_text row column rule_id bond_rule_version"

definition bond_date :: "source_row \<Rightarrow> pystr \<Rightarrow> pystr \<Rightarrow> bool \<Rightarrow> date normalized_value result" where
  "bond_date row column rule_id allow_max_sentinel =
     parse_yyyymmdd row column allow_max_sentinel rule_id bond_rule_version"

definition bond_decimal :: "source_row \<Rightarrow> pystr \<Rightarrow> pystr \<Rightarrow> decimal normalized_value result" where
  "bond_decimal row column rule_id = parse_decimal row column RECORDED_ZERO rule_id bond_rule_version"

definition is_upper3 :: "pystr \<Rightarrow> bool" where
  "is_upper3 s \<longleftrightarrow> length s = 3 \<and> list_all (\<lambda>c. 65 \<le> c \<and> c \<le> 90) s"

definition bond_currency :: "source_row \<Rightarrow> pystr normalized_value result" where
  "bond_currency row =
     rbind (row_cell row (cp ''curr_cd'')) (\<lambda>cell.
       let raw = sc_raw_value cell
       in if py_strip raw = [] then bond_text row (cp ''curr_cd'') (cp ''bond.currency'')
          else let normalized = (if is_upper3 raw then Some raw else None)
               in make_normalized_value row (cp ''curr_cd'') normalized
                    (if normalized \<noteq> None then VALID else OUT_OF_DOMAIN)
                    (cp ''bond.currency'') bond_rule_version)"

definition bond_rating :: "source_row \<Rightarrow> rating_registry \<Rightarrow> pystr normalized_value result" where
  "bond_rating row registry =
     rbind (row_cell row (cp ''crd_grd'')) (\<lambda>cell.
       let resolution = resolve registry (sc_raw_value cell)
       in make_normalized_value row (cp ''crd_grd'') (rs_normalized_value resolution)
            (rs_quality_status resolution) (cp ''bond.credit_rating'') bond_rule_version)"

definition bond_warning_issue ::
  "source_row \<Rightarrow> pystr \<Rightarrow> pystr \<Rightarrow> quality_status \<Rightarrow> pystr \<Rightarrow> data_quality_issue result" where
  "bond_warning_issue row column rule_id status reason =
     issue_from_row row column rule_id bond_rule_version WARNING status reason False"

text \<open>The first invalid part of the lot identity, as (column, rule).\<close>

definition invalid_lot_key ::
  "pystr normalized_value \<Rightarrow> pystr normalized_value \<Rightarrow> date normalized_value \<Rightarrow> int normalized_value
     \<Rightarrow> (pystr \<times> pystr) option" where
  "invalid_lot_key product_id exchange_market info_base_date info_sequence =
     map_option (\<lambda>(c, r, _). (c, r)) (next_or_none (\<lambda>(c, r, valid). \<not> valid)
       [(cp ''pd_no'', cp ''bond.product_id'', nv_normalized_value product_id \<noteq> None),
        (cp ''pd_exg_mkt'', cp ''bond.exchange_market'', nv_normalized_value exchange_market \<noteq> None),
        (cp ''info_base_dt'', cp ''bond.info_base_date'', nv_normalized_value info_base_date \<noteq> None),
        (cp ''info_seq'', cp ''bond.info_sequence'',
         (case nv_normalized_value info_sequence of Some n \<Rightarrow> n > 0 | None \<Rightarrow> False))])"

text \<open>The warnings of an accepted lot: bad formats in field order, then currency, then rating.\<close>

definition lot_warnings :: "bond_sale_lot \<Rightarrow> (pystr \<times> pystr \<times> quality_status \<times> pystr) list" where
  "lot_warnings l =
     map (\<lambda>(_, c, r). (c, r, INVALID_FORMAT, cp ''Domestic bond field has an invalid source format.''))
       (filter (\<lambda>(q, c, r). q = INVALID_FORMAT)
         [(nv_quality_status (bl_issue_date l), cp ''isu_dt'', cp ''bond.issue_date''),
          (nv_quality_status (bl_maturity_date l), cp ''mat_dt'', cp ''bond.maturity_date''),
          (nv_quality_status (bl_source_update_date l), cp ''pd_std_info_update'', cp ''bond.source_update_date''),
          (nv_quality_status (bl_coupon_rate l), cp ''srfc_irt'', cp ''bond.coupon_rate''),
          (nv_quality_status (bl_buy_yield l), cp ''buy_yield'', cp ''bond.buy_yield''),
          (nv_quality_status (bl_buyable_quantity l), cp ''buyable_quantity'', cp ''bond.buyable_quantity.raw_only''),
          (nv_quality_status (bl_source_remaining_days l), cp ''remaining_days'', cp ''bond.source_remaining_days''),
          (nv_quality_status (bl_credit_rating_date l), cp ''crd_grd_dt'', cp ''bond.credit_rating_date''),
          (nv_quality_status (bl_duration l), cp ''dur'', cp ''bond.duration''),
          (nv_quality_status (bl_evaluation_price l), cp ''eval_price'', cp ''bond.evaluation_price''),
          (nv_quality_status (bl_trade_price l), cp ''trade_price'', cp ''bond.trade_price'')])
     @ (if nv_quality_status (bl_currency l) = OUT_OF_DOMAIN
        then [(cp ''curr_cd'', cp ''bond.currency'', OUT_OF_DOMAIN,
               cp ''Domestic bond currency is outside the source domain.'')] else [])
     @ (if nv_quality_status (bl_credit_rating l) = OUT_OF_DOMAIN
        then [(cp ''crd_grd'', cp ''bond.credit_rating'', OUT_OF_DOMAIN,
               cp ''Primary credit rating is outside the configured rating domain.'')] else [])"

text \<open>The attribute cells of a row whose identity is valid, as a lot before its validator runs.\<close>

definition parse_lot_fields ::
  "source_row \<Rightarrow> rating_registry \<Rightarrow> pystr normalized_value \<Rightarrow> pystr normalized_value
     \<Rightarrow> date normalized_value \<Rightarrow> int normalized_value \<Rightarrow> bond_sale_lot result" where
  "parse_lot_fields row registry product_id exchange_market info_base_date info_sequence =
     rbind (bond_text row (cp ''pd_nm'') (cp ''bond.name'')) (\<lambda>name.
     rbind (bond_text row (cp ''pd_abrv_nm'') (cp ''bond.short_name'')) (\<lambda>short_name.
     rbind (bond_currency row) (\<lambda>currency.
     rbind (bond_text row (cp ''bd_knd'') (cp ''bond.bond_kind_raw'')) (\<lambda>bond_kind_raw.
     rbind (bond_date row (cp ''isu_dt'') (cp ''bond.issue_date'') False) (\<lambda>issue_date.
     rbind (bond_date row (cp ''mat_dt'') (cp ''bond.maturity_date'') True) (\<lambda>maturity_date.
     rbind (bond_date row (cp ''pd_std_info_update'') (cp ''bond.source_update_date'') False) (\<lambda>source_update_date.
     rbind (bond_decimal row (cp ''srfc_irt'') (cp ''bond.coupon_rate'')) (\<lambda>coupon_rate.
     rbind (bond_decimal row (cp ''buy_yield'') (cp ''bond.buy_yield'')) (\<lambda>buy_yield.
     rbind (bond_decimal row (cp ''buyable_quantity'') (cp ''bond.buyable_quantity.raw_only'')) (\<lambda>buyable_quantity.
     rbind (parse_integer row (cp ''remaining_days'') RECORDED_ZERO (cp ''bond.source_remaining_days'')
              bond_rule_version) (\<lambda>source_remaining_days.
     rbind (bond_rating row registry) (\<lambda>credit_rating.
     rbind (bond_date row (cp ''crd_grd_dt'') (cp ''bond.credit_rating_date'') False) (\<lambda>credit_rating_date.
     rbind (bond_decimal row (cp ''dur'') (cp ''bond.duration'')) (\<lambda>duration.
     rbind (bond_decimal row (cp ''eval_price'') (cp ''bond.evaluation_price'')) (\<lambda>evaluation_price.
     rbind (bond_decimal row (cp ''trade_price'') (cp ''bond.trade_price'')) (\<lambda>trade_price.
       Inr \<lparr>bl_source_row = row,
            bl_source_key =
              \<lparr>bk_product_id = nv_raw_value product_id, bk_exchange_market = nv_raw_value exchange_market,
               bk_info_base_date = nv_raw_value info_base_date, bk_info_seq = nv_raw_value info_sequence,
               bk_source_row_number = sr_source_row_number row\<rparr>,
            bl_product_id = product_id, bl_exchange_market = exchange_market,
            bl_info_base_date = info_base_date, bl_info_sequence = info_sequence, bl_name = name,
            bl_short_name = short_name, bl_currency = currency, bl_bond_kind_raw = bond_kind_raw,
            bl_issue_date = issue_date, bl_maturity_date = maturity_date,
            bl_source_update_date = source_update_date, bl_coupon_rate = coupon_rate,
            bl_buy_yield = buy_yield, bl_buyable_quantity = buyable_quantity,
            bl_source_remaining_days = source_remaining_days, bl_credit_rating = credit_rating,
            bl_credit_rating_date = credit_rating_date, bl_duration = duration,
            bl_evaluation_price = evaluation_price, bl_trade_price = trade_price\<rparr>))))))))))))))))"

definition normalize_bond_lot ::
  "source_row \<Rightarrow> rating_registry \<Rightarrow> bond_sale_lot normalization_result result" where
  "normalize_bond_lot row registry =
     rbind (raise_if (sr_source_table row \<noteq> bond_table)
              (NormalizationContractError bond_table (sr_source_table row))) (\<lambda>_.
     rbind (parse_identifier row (cp ''pd_no'') (cp ''bond.product_id'') bond_rule_version) (\<lambda>product_id.
     rbind (bond_text row (cp ''pd_exg_mkt'') (cp ''bond.exchange_market'')) (\<lambda>exchange_market.
     rbind (bond_date row (cp ''info_base_dt'') (cp ''bond.info_base_date'') False) (\<lambda>info_base_date.
     rbind (parse_integer row (cp ''info_seq'') RECORDED_ZERO (cp ''bond.info_sequence'')
              bond_rule_version) (\<lambda>info_sequence.
       case invalid_lot_key product_id exchange_market info_base_date info_sequence of
         Some (column, rule_id) \<Rightarrow>
           rbind (issue_from_row row column rule_id bond_rule_version BLOCKER MALFORMED_SOURCE_ROW
                    (cp ''Domestic bond sale-lot identity is invalid.'') True) (\<lambda>issue.
             normalization_result_of None [issue])
       | None \<Rightarrow>
           rbind (parse_lot_fields row registry product_id exchange_market info_base_date info_sequence) (\<lambda>lot.
           rbind (traverse (\<lambda>(c, r, q, reason). bond_warning_issue row c r q reason) (lot_warnings lot)) (\<lambda>issues.
           rbind (validate_lot_key (bl_source_key lot)) (\<lambda>_.
           rbind (validate_complete_source_lineage lot) (\<lambda>_.
             normalization_result_of (Some lot) issues)))))))))"

section \<open>normalization/bonds.py: collapsing the lots of one instrument\<close>

type_synonym lot_order = "pystr \<times> pystr \<times> pystr \<times> int \<times> int"

definition lot_order_key :: "bond_sale_lot \<Rightarrow> lot_order result" where
  "lot_order_key lot =
     (case nv_normalized_value (bl_info_sequence lot) of
        None \<Rightarrow> Inl (ValueError ''bond lot sequence differs'')
      | Some n \<Rightarrow> Inr (bk_product_id (bl_source_key lot), bk_exchange_market (bl_source_key lot),
                      bk_info_base_date (bl_source_key lot), n, bk_source_row_number (bl_source_key lot)))"

text \<open>\<open>sorted(lots, key=_lot_order_key)\<close>: the keys are computed once, then compared.\<close>

definition sort_lots :: "bond_sale_lot list \<Rightarrow> (lot_order \<times> bond_sale_lot) list result" where
  "sort_lots lots =
     rbind (traverse (\<lambda>l. rbind (lot_order_key l) (\<lambda>k. Inr (k, l))) lots) (\<lambda>keyed.
       Inr (py_sorted fst keyed))"

text \<open>The lots with a yield, keyed by the negated yield (rounded as unary minus rounds) and the order.\<close>

definition yield_keys ::
  "(lot_order \<times> bond_sale_lot) list \<Rightarrow> ((rat \<times> lot_order) \<times> bond_sale_lot) list result" where
  "yield_keys keyed =
     traverse (\<lambda>(k, l). case nv_normalized_value (bl_buy_yield l) of
         None \<Rightarrow> Inl (ValueError ''bond decimal differs'')
       | Some y \<Rightarrow> rbind (dec_neg 28 y) (\<lambda>m. Inr ((dval m, k), l)))
       (filter (\<lambda>(k, l). nv_normalized_value (bl_buy_yield l) \<noteq> None) keyed)"

definition project_parent_value ::
  "bond_sale_lot list \<Rightarrow> pystr \<Rightarrow> (bond_sale_lot \<Rightarrow> 'v normalized_value)
     \<Rightarrow> ('v normalized_value \<times> source_cell_locator list \<times> bool) result" where
  "project_parent_value lots field_name get =
     (case py_sorted (position \<circ> nv_source) (map get lots) of
        [] \<Rightarrow> Inl IndexError
      | representative # rest \<Rightarrow>
         (let values = representative # rest; sources = map nv_source values
          in if card (set (map nv_raw_value values)) = 1 then Inr (representative, sources, False)
             else Inr (\<lparr>nv_raw_value = nv_raw_value representative, nv_normalized_value = None,
                        nv_quality_status = MIXED_SOURCE_VALUES,
                        nv_rule_id = cp ''bond.parent_field_conflict.'' @ field_name,
                        nv_rule_version = bond_rule_version, nv_source = nv_source representative\<rparr>,
                       sources, True)))"

text \<open>One turn of the loop over \<open>_PARENT_FIELDS\<close>: the value, its sources and its conflict warning.\<close>

definition project_field ::
  "bond_sale_lot list \<Rightarrow> pystr \<Rightarrow> (bond_sale_lot \<Rightarrow> 'v normalized_value)
     \<Rightarrow> ('v normalized_value \<times> bond_field_sources \<times> data_quality_issue list) result" where
  "project_field ordered field_name get =
     rbind (project_parent_value ordered field_name get) (\<lambda>(projected, sources, conflict).
     rbind (validate_field_sources \<lparr>bf_field_name = field_name, bf_sources = sources\<rparr>) (\<lambda>fs.
       case (conflict, ordered, sources) of
         (True, first # _, source # _) \<Rightarrow>
           rbind (bond_warning_issue (bl_source_row first) (loc_source_column_name source)
                    (cp ''bond.parent_field_conflict.'' @ field_name) MIXED_SOURCE_VALUES
                    (cp ''Bond sale lots disagree on a parent-level field.'')) (\<lambda>i.
             Inr (projected, fs, [i]))
       | _ \<Rightarrow> Inr (projected, fs, [])))"

definition derive_maturity ::
  "date normalized_value \<Rightarrow> date \<Rightarrow> int derived_value \<times> bool derived_value" where
  "derive_maturity maturity as_of =
     (let remaining = map_option (\<lambda>m. days_between m as_of) (nv_normalized_value maturity);
          status = (if nv_normalized_value maturity \<noteq> None then VALID else nv_quality_status maturity)
      in (\<lparr>dv_value = remaining, dv_quality_status = status,
           dv_rule_id = cp ''bond.remaining_days_at_as_of'', dv_rule_version = bond_rule_version,
           dv_as_of_date = as_of, dv_inputs = [nv_source maturity]\<rparr>,
          \<lparr>dv_value = map_option (\<lambda>n. n < 0) remaining, dv_quality_status = status,
           dv_rule_id = cp ''bond.is_matured_at_as_of'', dv_rule_version = bond_rule_version,
           dv_as_of_date = as_of, dv_inputs = [nv_source maturity]\<rparr>))"

definition derive_purchaseability ::
  "date normalized_value \<Rightarrow> date normalized_value \<Rightarrow> date \<Rightarrow> bool derived_value" where
  "derive_purchaseability issue maturity as_of =
     (let not_yet_issued = (case nv_normalized_value issue of Some d \<Rightarrow> d > as_of | None \<Rightarrow> False);
          ended = (case nv_normalized_value maturity of Some d \<Rightarrow> d < as_of | None \<Rightarrow> False)
      in \<lparr>dv_value = Some (\<not> (not_yet_issued \<or> ended)), dv_quality_status = VALID,
          dv_rule_id = cp ''bond.is_purchasable_at_as_of.organizer_override'',
          dv_rule_version = bond_rule_version, dv_as_of_date = as_of,
          dv_inputs = [nv_source issue, nv_source maturity]\<rparr>)"

text \<open>The guards of \<open>project_bond_instrument\<close> before any lot is ordered.\<close>

definition check_projection_lots :: "bond_sale_lot list \<Rightarrow> unit result" where
  "check_projection_lots lots =
     (if lots = [] then Inl (TypeError ''bond projection requires sale lots'')
      else if card (set (map (nv_normalized_value \<circ> bl_product_id) lots)) \<noteq> 1
              \<or> None \<in> set (map (nv_normalized_value \<circ> bl_product_id) lots)
      then Inl (ValueError ''bond projection requires one product'')
      else if \<not> distinct (map bl_source_key lots)
      then Inl (ValueError ''bond projection requires unique source keys'')
      else Inr ())"

definition select_lot ::
  "(lot_order \<times> bond_sale_lot) list \<Rightarrow> ((rat \<times> lot_order) \<times> bond_sale_lot) list \<Rightarrow> bond_sale_lot result" where
  "select_lot keyed yields =
     (case min_by fst yields of
        Some (_, l) \<Rightarrow> Inr l
      | None \<Rightarrow> (case keyed of (_, l) # _ \<Rightarrow> Inr l | [] \<Rightarrow> Inl IndexError))"

definition yield_range ::
  "bond_sale_lot list \<Rightarrow> bond_sale_lot \<Rightarrow> date \<Rightarrow> (decimal \<times> decimal) derived_value" where
  "yield_range ordered selected as_of =
     (let ys = List.map_filter (nv_normalized_value \<circ> bl_buy_yield) ordered
      in \<lparr>dv_value = (case (min_by dval ys, max_by dval ys) of (Some a, Some b) \<Rightarrow> Some (a, b) | _ \<Rightarrow> None),
          dv_quality_status = (if ys \<noteq> [] then VALID else nv_quality_status (bl_buy_yield selected)),
          dv_rule_id = cp ''bond.buy_yield_range'', dv_rule_version = bond_rule_version,
          dv_as_of_date = as_of, dv_inputs = map (nv_source \<circ> bl_buy_yield) ordered\<rparr>)"

definition project_bond_instrument ::
  "bond_sale_lot list \<Rightarrow> date \<Rightarrow> bond_instrument normalization_result result" where
  "project_bond_instrument lots as_of =
     rbind (check_projection_lots lots) (\<lambda>_.
     rbind (sort_lots lots) (\<lambda>keyed.
     rbind (yield_keys keyed) (\<lambda>yields.
     rbind (select_lot keyed yields) (\<lambda>selected.
     let ordered = map snd keyed in
     rbind (project_field ordered (cp ''name'') bl_name) (\<lambda>(name, s1, i1).
     rbind (project_field ordered (cp ''short_name'') bl_short_name) (\<lambda>(short_name, s2, i2).
     rbind (project_field ordered (cp ''currency'') bl_currency) (\<lambda>(currency, s3, i3).
     rbind (project_field ordered (cp ''bond_kind_raw'') bl_bond_kind_raw) (\<lambda>(bond_kind_raw, s4, i4).
     rbind (project_field ordered (cp ''issue_date'') bl_issue_date) (\<lambda>(issue_date, s5, i5).
     rbind (project_field ordered (cp ''maturity_date'') bl_maturity_date) (\<lambda>(maturity, s6, i6).
     rbind (project_field ordered (cp ''source_update_date'') bl_source_update_date) (\<lambda>(source_update_date, s7, i7).
     rbind (project_field ordered (cp ''coupon_rate'') bl_coupon_rate) (\<lambda>(coupon_rate, s8, i8).
     rbind (project_field ordered (cp ''credit_rating'') bl_credit_rating) (\<lambda>(credit_rating, s9, i9).
     rbind (project_field ordered (cp ''credit_rating_date'') bl_credit_rating_date) (\<lambda>(credit_rating_date, s10, i10).
     case ordered of [] \<Rightarrow> Inl IndexError | first # _ \<Rightarrow>
     rbind (if nv_normalized_value maturity = None
            then rbind (bond_warning_issue (bl_source_row first) (cp ''mat_dt'')
                   (cp ''bond.purchaseability_unverifiable_end'') (nv_quality_status maturity)
                   (cp ''Bond end state is not source-verifiable; purchaseability uses the organizer assumption.''))
                   (\<lambda>i. Inr [i])
            else Inr []) (\<lambda>i11.
       normalization_result_of
         (Some \<lparr>bi_selected_lot_key = bl_source_key selected,
                bi_field_sources = [s1, s2, s3, s4, s5, s6, s7, s8, s9, s10],
                bi_product_id = bl_product_id first, bi_name = name, bi_short_name = short_name,
                bi_currency = currency, bi_bond_kind_raw = bond_kind_raw, bi_issue_date = issue_date,
                bi_maturity_date = maturity, bi_source_update_date = source_update_date,
                bi_coupon_rate = coupon_rate, bi_buy_yield = bl_buy_yield selected,
                bi_source_remaining_days = bl_source_remaining_days selected,
                bi_credit_rating = credit_rating, bi_credit_rating_date = credit_rating_date,
                bi_duration = bl_duration selected, bi_evaluation_price = bl_evaluation_price selected,
                bi_trade_price = bl_trade_price selected,
                bi_remaining_days_at_as_of = fst (derive_maturity maturity as_of),
                bi_is_matured_at_as_of = snd (derive_maturity maturity as_of),
                bi_is_purchasable_at_as_of = derive_purchaseability issue_date maturity as_of,
                bi_buy_yield_range = yield_range ordered selected as_of\<rparr>)
         (i1 @ i2 @ i3 @ i4 @ i5 @ i6 @ i7 @ i8 @ i9 @ i10 @ i11))))))))))))))))"

definition normalize_bond ::
  "source_row \<Rightarrow> date \<Rightarrow> rating_registry \<Rightarrow> bond_instrument normalization_result result" where
  "normalize_bond row as_of registry =
     rbind (normalize_bond_lot row registry) (\<lambda>lot_result.
       case nr_record lot_result of
         None \<Rightarrow> normalization_result_of None (nr_issues lot_result)
       | Some lot \<Rightarrow>
           rbind (project_bond_instrument [lot] as_of) (\<lambda>projection.
             normalization_result_of (nr_record projection)
               (fromkeys (nr_issues lot_result @ nr_issues projection))))"


section \<open>One row: every accepted lot keeps its lineage\<close>

text \<open>A wrapper that carries the raw text and the locator of the cell it was read from.\<close>

definition carries :: "source_row \<Rightarrow> pystr \<Rightarrow> pystr \<times> source_cell_locator \<Rightarrow> bool" where
  "carries row col w \<longleftrightarrow> (\<exists>c. row_cell row col = Inr c \<and> w = (sc_raw_value c, locator_of row c))"

lemma carriesI:
  "\<exists>c. row_cell r col = Inr c \<and> nv_raw_value n = sc_raw_value c \<and> nv_source n = locator_of r c \<and> P c
     \<Longrightarrow> carries r col (lineage_of n)"
  by (auto simp: carries_def lineage_of_def)

lemma bond_text_carries: "bond_text r col rid = Inr v \<Longrightarrow> carries r col (lineage_of v)"
  unfolding bond_text_def by (rule carriesI) (rule text_parser.lineage)

lemma bond_date_carries: "bond_date r col rid a = Inr v \<Longrightarrow> carries r col (lineage_of v)"
  unfolding bond_date_def by (rule carriesI) (rule date_parser.lineage)

lemma bond_decimal_carries: "bond_decimal r col rid = Inr v \<Longrightarrow> carries r col (lineage_of v)"
  unfolding bond_decimal_def by (rule carriesI) (rule dec_parser.lineage)

lemma parse_integer_carries: "parse_integer r col RECORDED_ZERO rid rv = Inr v \<Longrightarrow> carries r col (lineage_of v)"
  by (rule carriesI) (rule int_parser.lineage)

lemma parse_identifier_carries: "parse_identifier r col rid rv = Inr v \<Longrightarrow> carries r col (lineage_of v)"
  by (rule carriesI) (rule ident_parser.lineage)

lemma make_normalized_value_carries:
  "make_normalized_value r col v q rid rv = Inr n \<Longrightarrow> carries r col (lineage_of n)"
  by (auto simp: carries_def lineage_of_def dest: make_normalized_value_Inr)

lemma bond_currency_carries: "bond_currency r = Inr v \<Longrightarrow> carries r (cp ''curr_cd'') (lineage_of v)"
  by (auto simp: bond_currency_def rbind_eq_Inr_iff Let_def
      dest: make_normalized_value_carries bond_text_carries split: if_splits)

lemma bond_rating_carries: "bond_rating r reg = Inr v \<Longrightarrow> carries r (cp ''crd_grd'') (lineage_of v)"
  by (auto simp: bond_rating_def rbind_eq_Inr_iff Let_def dest: make_normalized_value_carries)

lemmas bond_carries =
  bond_text_carries bond_date_carries bond_decimal_carries parse_integer_carries
  parse_identifier_carries bond_currency_carries bond_rating_carries

lemma check_lot_fields_ok:
  assumes "row_ok row" and "\<forall>(col, w) \<in> set ws. carries row col w"
  shows "check_lot_fields row ws = Inr ()"
  using assms(2)
proof (induction ws)
  case (Cons p ws)
  obtain col raw src where p: "p = (col, raw, src)" by (cases p)
  with Cons.prems obtain c where "row_cell row col = Inr c" "raw = sc_raw_value c" "src = locator_of row c"
    by (auto simp: carries_def)
  with Cons p assms(1) show ?case by (simp add: locator_from_row_ok)
qed simp

text \<open>Every bond parser succeeds on a row that can carry lineage and has the column.\<close>

definition has_columns :: "source_row \<Rightarrow> pystr list \<Rightarrow> bool" where
  "has_columns row cols \<longleftrightarrow> list_all (\<lambda>c. c \<in> set (map sc_column_name (sr_cells row))) cols"

lemma bond_parsers_total:
  assumes "row_ok r" and "col \<in> set (map sc_column_name (sr_cells r))" and "rid \<noteq> []"
  shows "\<exists>v. bond_text r col rid = Inr v" and "\<exists>v. bond_date r col rid a = Inr v"
    and "\<exists>v. bond_decimal r col rid = Inr v"
    and "\<exists>v. parse_integer r col RECORDED_ZERO rid bond_rule_version = Inr v"
    and "\<exists>v. parse_identifier r col rid bond_rule_version = Inr v"
proof -
  obtain c where c: "row_cell r col = Inr c" using row_cell_present [OF assms(2)] by blast
  have rv: "bond_rule_version \<noteq> []" by simp
  show "\<exists>v. bond_text r col rid = Inr v"
    unfolding bond_text_def by (rule text_parser.total [OF assms(1) c assms(3) rv])
  show "\<exists>v. bond_date r col rid a = Inr v"
    unfolding bond_date_def by (rule date_parser.total [OF assms(1) c assms(3) rv])
  show "\<exists>v. bond_decimal r col rid = Inr v"
    unfolding bond_decimal_def by (rule dec_parser.total [OF assms(1) c assms(3) rv])
  show "\<exists>v. parse_integer r col RECORDED_ZERO rid bond_rule_version = Inr v"
    by (rule int_parser.total [OF assms(1) c assms(3) rv])
  show "\<exists>v. parse_identifier r col rid bond_rule_version = Inr v"
    by (rule ident_parser.total [OF assms(1) c assms(3) rv])
qed

lemma bond_currency_total:
  assumes "row_ok r" and "cp ''curr_cd'' \<in> set (map sc_column_name (sr_cells r))"
  shows "\<exists>v. bond_currency r = Inr v"
proof -
  obtain c where c: "row_cell r (cp ''curr_cd'') = Inr c" using row_cell_present [OF assms(2)] by blast
  then show ?thesis
    using bond_parsers_total(1) [OF assms, of "cp ''bond.currency''"] assms(1)
    by (auto simp: bond_currency_def Let_def make_normalized_value_ok)
qed

lemma bond_rating_total:
  assumes "row_ok r" and "cp ''crd_grd'' \<in> set (map sc_column_name (sr_cells r))"
  shows "\<exists>v. bond_rating r reg = Inr v"
  using row_cell_present [OF assms(2)] assms(1) by (auto simp: bond_rating_def Let_def make_normalized_value_ok)

lemma parse_lot_fields_total:
  assumes "row_ok row" and "has_columns row (map snd BOND_LOT_FIELD_COLUMNS)"
  shows "\<exists>lot. parse_lot_fields row reg pid em ibd seq = Inr lot"
  unfolding parse_lot_fields_def
  using assms(2)
  by (intro rbind_total bond_parsers_total bond_currency_total bond_rating_total assms(1) exI refl)
     (simp_all add: has_columns_def BOND_LOT_FIELD_COLUMNS_def)

lemma parse_lot_fields_lineage:
  assumes "parse_lot_fields row reg pid em ibd seq = Inr lot" and "row_ok row"
    and "carries row (cp ''pd_no'') (lineage_of pid)" "carries row (cp ''pd_exg_mkt'') (lineage_of em)"
    and "carries row (cp ''info_base_dt'') (lineage_of ibd)" "carries row (cp ''info_seq'') (lineage_of seq)"
  shows "check_lot_fields row (zip (map snd BOND_LOT_FIELD_COLUMNS) (lot_lineage lot)) = Inr ()"
    and "bl_source_row lot = row" and "bl_source_key lot = lot_key_of lot"
    and "bl_product_id lot = pid" and "bl_exchange_market lot = em"
    and "bl_info_base_date lot = ibd" and "bl_info_sequence lot = seq"
proof -
  show "bl_source_row lot = row" "bl_source_key lot = lot_key_of lot" "bl_product_id lot = pid"
    "bl_exchange_market lot = em" "bl_info_base_date lot = ibd" "bl_info_sequence lot = seq"
    using assms(1) by (auto simp: parse_lot_fields_def rbind_eq_Inr_iff lot_key_of_def)
  have "\<forall>(col, w) \<in> set (zip (map snd BOND_LOT_FIELD_COLUMNS) (lot_lineage lot)). carries row col w"
    using assms(1) assms(3-)
    by (clarsimp simp: parse_lot_fields_def rbind_eq_Inr_iff BOND_LOT_FIELD_COLUMNS_def lot_lineage_def)
       (auto dest: bond_carries)
  then show "check_lot_fields row (zip (map snd BOND_LOT_FIELD_COLUMNS) (lot_lineage lot)) = Inr ()"
    by (rule check_lot_fields_ok [OF assms(2)])
qed

lemma has_columns_cell: "has_columns row cols \<Longrightarrow> c \<in> set cols \<Longrightarrow> \<exists>cell. row_cell row c = Inr cell"
  by (rule row_cell_present) (simp add: has_columns_def list_all_iff)

text \<open>The identity of a lot, read off the raw cells alone.\<close>

definition raw_of :: "source_row \<Rightarrow> pystr \<Rightarrow> pystr" where
  "raw_of row col = (case row_cell row col of Inr c \<Rightarrow> sc_raw_value c | Inl _ \<Rightarrow> [])"

definition lot_identity_ok :: "source_row \<Rightarrow> bool" where
  "lot_identity_ok row \<longleftrightarrow>
     is_identifier (raw_of row (cp ''pd_no'')) \<and> py_strip (raw_of row (cp ''pd_exg_mkt'')) \<noteq> [] \<and>
     fst (date_cell False (raw_of row (cp ''info_base_dt''))) \<noteq> None \<and>
     (case fst (integer_cell RECORDED_ZERO (raw_of row (cp ''info_seq''))) of Some n \<Rightarrow> 0 < n | None \<Rightarrow> False)"

lemma lot_identity_values:
  assumes "parse_identifier row (cp ''pd_no'') a bond_rule_version = Inr pid"
    and "bond_text row (cp ''pd_exg_mkt'') b = Inr em"
    and "bond_date row (cp ''info_base_dt'') d False = Inr ibd"
    and "parse_integer row (cp ''info_seq'') RECORDED_ZERO e bond_rule_version = Inr sq"
  shows "invalid_lot_key pid em ibd sq = None \<longleftrightarrow> lot_identity_ok row"
    and "nv_raw_value pid = raw_of row (cp ''pd_no'')" and "nv_raw_value em = raw_of row (cp ''pd_exg_mkt'')"
    and "nv_raw_value ibd = raw_of row (cp ''info_base_dt'')" and "nv_raw_value sq = raw_of row (cp ''info_seq'')"
proof -
  have p: "nv_normalized_value pid \<noteq> None \<longleftrightarrow> is_identifier (raw_of row (cp ''pd_no''))"
    "nv_raw_value pid = raw_of row (cp ''pd_no'')"
    using assms(1)
    by (auto simp: parse_identifier_def raw_of_def rbind_eq_Inr_iff Let_def dest!: make_normalized_value_Inr
        split: if_splits)
  have m: "nv_normalized_value em \<noteq> None \<longleftrightarrow> py_strip (raw_of row (cp ''pd_exg_mkt'')) \<noteq> []"
    "nv_raw_value em = raw_of row (cp ''pd_exg_mkt'')"
    using assms(2)
    by (auto simp: bond_text_def parse_text_def text_cell_def raw_of_def rbind_eq_Inr_iff Let_def
        dest!: make_normalized_value_Inr split: if_splits)
  have i: "nv_normalized_value ibd = fst (date_cell False (raw_of row (cp ''info_base_dt'')))"
    "nv_raw_value ibd = raw_of row (cp ''info_base_dt'')"
    using assms(3)
    by (auto simp: bond_date_def parse_yyyymmdd_def raw_of_def rbind_eq_Inr_iff Let_def case_prod_beta
        dest!: make_normalized_value_Inr)
  have s: "nv_normalized_value sq = fst (integer_cell RECORDED_ZERO (raw_of row (cp ''info_seq'')))"
    "nv_raw_value sq = raw_of row (cp ''info_seq'')"
    using assms(4)
    by (auto simp: parse_integer_def raw_of_def rbind_eq_Inr_iff Let_def case_prod_beta
        dest!: make_normalized_value_Inr)
  show "invalid_lot_key pid em ibd sq = None \<longleftrightarrow> lot_identity_ok row"
    using p m unfolding invalid_lot_key_def lot_identity_ok_def i s
    by (auto split: option.splits)
  show "nv_raw_value pid = raw_of row (cp ''pd_no'')" "nv_raw_value em = raw_of row (cp ''pd_exg_mkt'')"
    "nv_raw_value ibd = raw_of row (cp ''info_base_dt'')" "nv_raw_value sq = raw_of row (cp ''info_seq'')"
    by (fact p m i s)+
qed

lemma lot_identity_nonempty:
  assumes "lot_identity_ok row"
  shows "raw_of row (cp ''pd_no'') \<noteq> []" and "raw_of row (cp ''pd_exg_mkt'') \<noteq> []"
    and "raw_of row (cp ''info_base_dt'') \<noteq> []" and "raw_of row (cp ''info_seq'') \<noteq> []"
proof -
  have e: "py_strip [] = []" by (simp add: py_strip_def py_lstrip_def)
  show "raw_of row (cp ''pd_no'') \<noteq> []" using assms by (auto simp: lot_identity_ok_def is_identifier_def)
  show "raw_of row (cp ''pd_exg_mkt'') \<noteq> []" using assms by (auto simp: lot_identity_ok_def e)
  show "raw_of row (cp ''info_base_dt'') \<noteq> []" using assms by (auto simp: lot_identity_ok_def date_cell_def e)
  show "raw_of row (cp ''info_seq'') \<noteq> []"
    using assms by (auto simp: lot_identity_ok_def integer_cell_def parse_finite_decimal_def e)
qed

lemma bond_warning_total:
  assumes "row_ok row" and "has_columns row (map snd BOND_LOT_FIELD_COLUMNS)"
    and "(c, rid, q, reason) \<in> set (lot_warnings lot)"
  shows "\<exists>i. bond_warning_issue row c rid q reason = Inr i \<and> \<not> dq_quarantined i"
proof -
  have "c \<in> set (map snd BOND_LOT_FIELD_COLUMNS) \<and> rid \<noteq> [] \<and> encodable rid"
    using assms(3) unfolding lot_warnings_def set_append set_map set_filter Un_iff
    by (elim disjE) (auto simp: BOND_LOT_FIELD_COLUMNS_def encodable_cp split: if_splits)
  then obtain cell where "row_cell row c = Inr cell" "rid \<noteq> []" "encodable rid"
    using has_columns_cell [OF assms(2)] by blast
  then show ?thesis
    using issue_from_row_ok [OF assms(1), of c cell rid bond_rule_version WARNING q reason False]
    by (auto simp: bond_warning_issue_def encodable_cp)
qed

lemma lot_warnings_total:
  assumes "row_ok row" and "has_columns row (map snd BOND_LOT_FIELD_COLUMNS)"
  shows "\<exists>is. traverse (\<lambda>(c, r, q, reason). bond_warning_issue row c r q reason) (lot_warnings lot) = Inr is
           \<and> \<not> list_ex dq_quarantined is"
  using traverse_all [of "lot_warnings lot" "\<lambda>(c, r, q, reason). bond_warning_issue row c r q reason"
      "\<lambda>i. \<not> dq_quarantined i"] bond_warning_total [OF assms]
  by (fastforce simp: list_ex_iff)

lemma normalize_bond_lot_cases:
  assumes "row_ok row" and "sr_source_table row = bond_table"
    and "has_columns row (map snd BOND_LOT_FIELD_COLUMNS)"
  shows "\<exists>n. normalize_bond_lot row reg = Inr n \<and> (nr_record n \<noteq> None \<longleftrightarrow> lot_identity_ok row)"
proof -
  have col: "c \<in> set (map sc_column_name (sr_cells row))" if "c \<in> set (map snd BOND_LOT_FIELD_COLUMNS)" for c
    using assms(3) that by (auto simp: has_columns_def list_all_iff)
  note tot = bond_parsers_total [OF assms(1) col]
  obtain pid where pid: "parse_identifier row (cp ''pd_no'') (cp ''bond.product_id'') bond_rule_version = Inr pid"
    using tot(5) [of "cp ''pd_no''" "cp ''bond.product_id''"] by (auto simp: BOND_LOT_FIELD_COLUMNS_def)
  obtain em where em: "bond_text row (cp ''pd_exg_mkt'') (cp ''bond.exchange_market'') = Inr em"
    using tot(1) [of "cp ''pd_exg_mkt''" "cp ''bond.exchange_market''"] by (auto simp: BOND_LOT_FIELD_COLUMNS_def)
  obtain ibd where ibd: "bond_date row (cp ''info_base_dt'') (cp ''bond.info_base_date'') False = Inr ibd"
    using tot(2) [of "cp ''info_base_dt''" "cp ''bond.info_base_date''"] by (auto simp: BOND_LOT_FIELD_COLUMNS_def)
  obtain sq where sq: "parse_integer row (cp ''info_seq'') RECORDED_ZERO (cp ''bond.info_sequence'') bond_rule_version = Inr sq"
    using tot(4) [of "cp ''info_seq''" "cp ''bond.info_sequence''"] by (auto simp: BOND_LOT_FIELD_COLUMNS_def)
  note ids = lot_identity_values [OF pid em ibd sq]
  note start = normalize_bond_lot_def assms(2) pid em ibd sq
  show ?thesis
  proof (cases "invalid_lot_key pid em ibd sq")
    case (Some p)
    obtain column rule where p: "p = (column, rule)" by (cases p)
    from Some p have "column \<in> set (map snd BOND_LOT_FIELD_COLUMNS) \<and> rule \<noteq> [] \<and> encodable rule"
      by (auto simp: invalid_lot_key_def BOND_LOT_FIELD_COLUMNS_def encodable_cp split: if_splits)
    then obtain c where "row_cell row column = Inr c" "rule \<noteq> []" "encodable rule"
      using has_columns_cell [OF assms(3)] by blast
    from issue_from_row_ok [OF assms(1) this(1,2,3), of bond_rule_version BLOCKER MALFORMED_SOURCE_ROW]
    obtain i where "issue_from_row row column rule bond_rule_version BLOCKER MALFORMED_SOURCE_ROW
        (cp ''Domestic bond sale-lot identity is invalid.'') True = Inr i" "dq_quarantined i"
      by (auto simp: encodable_cp)
    with Some p ids(1) show ?thesis
      by (simp add: start normalization_result_of_def validate_quarantine_equivalence_def)
  next
    case None
    obtain lot where lot: "parse_lot_fields row reg pid em ibd sq = Inr lot"
      using parse_lot_fields_total [OF assms(1,3)] by blast
    note f = parse_lot_fields_lineage [OF lot assms(1) parse_identifier_carries [OF pid]
        bond_text_carries [OF em] bond_date_carries [OF ibd] parse_integer_carries [OF sq]]
    have ok: "lot_identity_ok row" using None ids(1) by simp
    have key: "validate_lot_key (lot_key_of lot) = Inr (lot_key_of lot)"
      using lot_identity_nonempty [OF ok] assms(1) f(2,4-7) ids(2-)
      by (simp add: validate_lot_key_def lot_key_of_def row_ok_def validate_raw_lineage_Inr_iff)
    then have "validate_complete_source_lineage lot = Inr lot"
      using f(1-3) assms(2) by (simp add: validate_complete_source_lineage_def)
    moreover obtain "is" where "traverse (\<lambda>(c, r, q, reason). bond_warning_issue row c r q reason)
        (lot_warnings lot) = Inr is" "\<not> list_ex dq_quarantined is"
      using lot_warnings_total [OF assms(1,3)] by blast
    ultimately show ?thesis using key f(3) None ok lot
      by (simp add: start normalization_result_of_def validate_quarantine_equivalence_def)
  qed
qed

interpretation bond_lot_normalizer: quarantining_normalizer "\<lambda>(row, reg). normalize_bond_lot row reg"
proof
  fix s n
  assume "(case s of (row, reg) \<Rightarrow> normalize_bond_lot row reg) = Inr n"
  then show "\<exists>rec issues. normalization_result_of rec issues = Inr n"
    by (cases s) (simp add: normalize_bond_lot_def rbind_eq_Inr_iff split: option.splits prod.splits, blast)
qed

section \<open>The projection of the lots\<close>

lemma sort_lots_eq:
  "sort_lots lots =
     (if \<exists>l \<in> set lots. nv_normalized_value (bl_info_sequence l) = None
      then Inl (ValueError ''bond lot sequence differs'')
      else Inr (py_sorted fst (map (\<lambda>l. (projr (lot_order_key l), l)) lots)))"
proof -
  have "traverse (\<lambda>l. rbind (lot_order_key l) (\<lambda>k. Inr (k, l))) lots =
     (if \<exists>l \<in> set lots. nv_normalized_value (bl_info_sequence l) = None
      then Inl (ValueError ''bond lot sequence differs'')
      else Inr (map (\<lambda>l. (projr (lot_order_key l), l)) lots))"
    by (induction lots) (auto simp: lot_order_key_def split: option.splits)
  then show ?thesis by (simp add: sort_lots_def)
qed

lemma sort_lots_Inr:
  assumes "sort_lots lots = Inr keyed"
  shows "mset (map snd keyed) = mset lots" and "\<And>k l. (k, l) \<in> set keyed \<Longrightarrow> lot_order_key l = Inr k"
proof -
  let ?f = "\<lambda>l. (projr (lot_order_key l), l)"
  from assms have k: "keyed = py_sorted fst (map ?f lots)"
    and d: "\<And>l. l \<in> set lots \<Longrightarrow> nv_normalized_value (bl_info_sequence l) \<noteq> None"
    by (auto simp: sort_lots_eq split: if_splits)
  have "mset (map snd keyed) = image_mset snd (mset (map ?f lots))" unfolding k by (simp del: mset_map add: mset_map [of snd])
  then show "mset (map snd keyed) = mset lots" by (simp add: image_mset.compositionality comp_def)
  show "lot_order_key l = Inr k" if "(k, l) \<in> set keyed" for k l
    using that d unfolding k by (auto simp: lot_order_key_def split: option.splits)
qed

lemma check_projection_lots_mset: "mset xs = mset ys \<Longrightarrow> check_projection_lots xs = check_projection_lots ys"
proof -
  assume m: "mset xs = mset ys"
  have s: "set xs = set ys" using m by (metis set_mset_mset)
  moreover have "distinct (map bl_source_key xs) \<longleftrightarrow> distinct (map bl_source_key ys)"
    using m by (metis distinct_count_atmost_1 mset_map set_mset_mset)
  moreover have "xs = [] \<longleftrightarrow> ys = []" using m by auto
  ultimately show ?thesis by (simp add: check_projection_lots_def)
qed

lemma sort_lots_mset:
  assumes "mset xs = mset ys" and "inj_on (bk_source_row_number \<circ> bl_source_key) (set xs)"
  shows "sort_lots xs = sort_lots ys"
proof -
  have s: "set xs = set ys" using assms(1) by (metis set_mset_mset)
  show ?thesis
  proof (cases "\<exists>l \<in> set xs. nv_normalized_value (bl_info_sequence l) = None")
    case False
    then have "inj_on fst (set (map (\<lambda>l. (projr (lot_order_key l), l)) xs))"
      using assms(2) by (force simp: inj_on_def lot_order_key_def split: option.splits)
    moreover have "mset (map (\<lambda>l. (projr (lot_order_key l), l)) xs) =
        mset (map (\<lambda>l. (projr (lot_order_key l), l)) ys)" by (simp add: assms(1))
    ultimately have "py_sorted fst (map (\<lambda>l. (projr (lot_order_key l), l)) xs) =
        py_sorted fst (map (\<lambda>l. (projr (lot_order_key l), l)) ys)"
      by (intro py_sorted_mset_cong)
    with False s show ?thesis by (simp add: sort_lots_eq)
  qed (use s in \<open>simp add: sort_lots_eq\<close>)
qed

lemma project_parent_value_member:
  assumes "project_parent_value lots f get = Inr (v, srcs, c)"
  shows "\<exists>l \<in> set lots. nv_source v = nv_source (get l) \<and> (nv_normalized_value v = None \<or> v = get l)"
    and "(\<exists>l \<in> set lots. \<exists>m \<in> set lots. nv_raw_value (get l) \<noteq> nv_raw_value (get m)) \<longleftrightarrow> c"
    and "c \<Longrightarrow> nv_normalized_value v = None \<and> nv_quality_status v = MIXED_SOURCE_VALUES"
proof -
  obtain r rest where s: "py_sorted (position \<circ> nv_source) (map get lots) = r # rest"
    using assms by (auto simp: project_parent_value_def split: list.splits)
  then have e: "set (r # rest) = get ` set lots" by (metis set_map set_py_sorted)
  then obtain l where l: "l \<in> set lots" "r = get l" by (metis image_iff list.set_intros(1))
  from assms s l show "\<exists>l \<in> set lots. nv_source v = nv_source (get l) \<and> (nv_normalized_value v = None \<or> v = get l)"
    by (auto simp: project_parent_value_def Let_def intro!: bexI [of _ l] split: if_splits)
  have "card (nv_raw_value ` set (r # rest)) = 1 \<longleftrightarrow> (\<forall>l \<in> set lots. \<forall>m \<in> set lots. nv_raw_value (get l) = nv_raw_value (get m))"
    unfolding e using card_image_eq_1 [OF l(1), of "nv_raw_value \<circ> get"] by (simp add: image_image)
  moreover have "card (nv_raw_value ` set (r # rest)) = 1 \<longleftrightarrow> \<not> c"
    using assms s by (simp add: project_parent_value_def Let_def split: if_split_asm)
  ultimately show "(\<exists>l \<in> set lots. \<exists>m \<in> set lots. nv_raw_value (get l) \<noteq> nv_raw_value (get m)) \<longleftrightarrow> c"
    by blast
  show "c \<Longrightarrow> nv_normalized_value v = None \<and> nv_quality_status v = MIXED_SOURCE_VALUES"
    using assms s by (auto simp: project_parent_value_def Let_def split: if_splits)
qed

lemma project_field_Inr:
  "project_field ordered f get = Inr (v, fs, is) \<Longrightarrow>
     \<exists>c. project_parent_value ordered f get = Inr (v, bf_sources fs, c) \<and> (is \<noteq> [] \<longrightarrow> c)"
  by (auto simp: project_field_def validate_field_sources_def Let_def rbind_eq_Inr_iff
      split: if_splits list.splits prod.splits bool.splits)

text \<open>What an accepted projection consists of.\<close>

lemma project_bond_instrument_Inr:
  assumes "project_bond_instrument lots as_of = Inr n"
  shows "\<exists>keyed yields selected b. sort_lots lots = Inr keyed \<and> yield_keys keyed = Inr yields \<and>
    select_lot keyed yields = Inr selected \<and> nr_record n = Some b \<and> \<not> list_ex dq_quarantined (nr_issues n) \<and>
    bi_selected_lot_key b = bl_source_key selected \<and> bi_buy_yield b = bl_buy_yield selected \<and>
    bi_buy_yield_range b = yield_range (map snd keyed) selected as_of \<and>
    (\<exists>f. project_field (map snd keyed) (cp ''maturity_date'') bl_maturity_date = Inr (bi_maturity_date b, f)) \<and>
    (\<exists>f. project_field (map snd keyed) (cp ''issue_date'') bl_issue_date = Inr (bi_issue_date b, f)) \<and>
    bi_remaining_days_at_as_of b = fst (derive_maturity (bi_maturity_date b) as_of) \<and>
    bi_is_matured_at_as_of b = snd (derive_maturity (bi_maturity_date b) as_of) \<and>
    bi_is_purchasable_at_as_of b = derive_purchaseability (bi_issue_date b) (bi_maturity_date b) as_of"
proof -
  from assms obtain keyed where k: "sort_lots lots = Inr keyed"
    by (auto simp: project_bond_instrument_def rbind_eq_Inr_iff)
  have "lots \<noteq> []" using assms by (auto simp: project_bond_instrument_def check_projection_lots_def)
  with sort_lots_Inr(1) [OF k] obtain first rest where o: "map snd keyed = first # rest"
    by (cases "map snd keyed") auto
  show ?thesis
    using assms unfolding project_bond_instrument_def Let_def
    by (clarsimp simp: rbind_eq_Inr_iff k o normalization_result_of_Inr_iff)
qed







interpretation bond_projection: quarantining_normalizer "\<lambda>(lots, as_of). project_bond_instrument lots as_of"
proof
  fix s n
  assume a: "(case s of (lots, as_of) \<Rightarrow> project_bond_instrument lots as_of) = Inr n"
  then obtain lots as_of where s: "s = (lots, as_of)" by (cases s)
  from a s have "project_bond_instrument lots as_of = Inr n" by simp
  from project_bond_instrument_Inr [OF this]
  have "normalization_result_of (nr_record n) (nr_issues n) = Inr n"
    by (auto simp: normalization_result_of_Inr_iff)
  then show "\<exists>rec issues. normalization_result_of rec issues = Inr n" by blast
qed

interpretation bond_normalizer: quarantining_normalizer "\<lambda>(row, as_of, reg). normalize_bond row as_of reg"
proof
  fix s n
  assume "(case s of (row, as_of, reg) \<Rightarrow> normalize_bond row as_of reg) = Inr n"
  then show "\<exists>rec issues. normalization_result_of rec issues = Inr n"
    by (cases s) (auto simp: normalize_bond_def rbind_eq_Inr_iff split: option.splits, blast)
qed

text \<open>Two sale lots of one instrument, as rows of the source table.\<close>

definition sample_bond_row :: "nat \<Rightarrow> string \<Rightarrow> string \<Rightarrow> source_row" where
  "sample_bond_row n sequence yield =
     example_row ''PRBD01N001'' n (zip (map snd BOND_LOT_FIELD_COLUMNS)
       [''KR1234567890'', ''KRX'', ''20260821'', sequence, ''Bond A'', ''A'', ''KRW'', ''1'', ''20250101'',
        ''20300101'', ''20260821'', ''3.5'', yield, ''100'', ''1227'', '''', '''', ''2.1'', ''9900'', ''9910''])"

definition sample_nv :: "nat \<Rightarrow> nat \<Rightarrow> string \<Rightarrow> 'v option \<Rightarrow> 'v normalized_value" where
  "sample_nv row col raw v =
     \<lparr>nv_raw_value = cp raw, nv_normalized_value = v, nv_quality_status = (if v = None then MISSING_BLANK else VALID),
      nv_rule_id = cp ''r'', nv_rule_version = bond_rule_version,
      nv_source = \<lparr>loc_source_table = bond_table, loc_source_file = \<lparr>path_absolute = False, path_parts = [cp ''b.xlsx'']\<rparr>,
        loc_source_sheet = cp ''S'', loc_source_row_number = int row,
        loc_source_column_name = snd (BOND_LOT_FIELD_COLUMNS ! (col - 1)), loc_source_column_number = int col,
        loc_source_column_letter = [], loc_source_checksum = [],
        loc_source_snapshot_date = Date 2026 8 22, loc_source_applicable_date = None\<rparr>\<rparr>"

definition sample_lot :: "nat \<Rightarrow> int \<Rightarrow> string \<Rightarrow> decimal \<Rightarrow> bond_sale_lot" where
  "sample_lot n sq yield y =
     \<lparr>bl_source_row = example_row ''PRBD01N001'' n [],
      bl_source_key = \<lparr>bk_product_id = cp ''KR1234567890'', bk_exchange_market = cp ''KRX'',
        bk_info_base_date = cp ''20260821'', bk_info_seq = int_str sq, bk_source_row_number = int n\<rparr>,
      bl_product_id = sample_nv n 1 ''KR1234567890'' (Some (cp ''KR1234567890'')),
      bl_exchange_market = sample_nv n 2 ''KRX'' (Some (cp ''KRX'')),
      bl_info_base_date = sample_nv n 3 ''20260821'' (Some (Date 2026 8 21)),
      bl_info_sequence = sample_nv n 4 ''1'' (Some sq), bl_name = sample_nv n 5 ''A'' (Some (cp ''A'')),
      bl_short_name = sample_nv n 6 ''A'' (Some (cp ''A'')), bl_currency = sample_nv n 7 ''KRW'' (Some (cp ''KRW'')),
      bl_bond_kind_raw = sample_nv n 8 ''1'' (Some (cp ''1'')),
      bl_issue_date = sample_nv n 9 ''20250101'' (Some (Date 2025 1 1)),
      bl_maturity_date = sample_nv n 10 ''20260821'' (Some (Date 2026 8 21)),
      bl_source_update_date = sample_nv n 11 '''' None, bl_coupon_rate = sample_nv n 12 '''' None,
      bl_buy_yield = sample_nv n 13 yield (Some y), bl_buyable_quantity = sample_nv n 14 '''' None,
      bl_source_remaining_days = sample_nv n 15 '''' None, bl_credit_rating = sample_nv n 16 '''' None,
      bl_credit_rating_date = sample_nv n 17 '''' None, bl_duration = sample_nv n 18 '''' None,
      bl_evaluation_price = sample_nv n 19 '''' None, bl_trade_price = sample_nv n 20 '''' None\<rparr>"

definition sample_lots :: "bond_sale_lot list" where
  "sample_lots = [sample_lot 2 1 ''3.10'' (Dec False 310 (-2)), sample_lot 3 2 ''3.25'' (Dec False 325 (-2))]"

lemma sample_row_ok: "row_ok (sample_bond_row 2 ''1'' ''3.10'')" by code_simp

lemma sample_row_columns: "has_columns (sample_bond_row 2 ''1'' ''3.10'') (map snd BOND_LOT_FIELD_COLUMNS)"
  by code_simp

lemma sample_projection: "isl (project_bond_instrument sample_lots (Date 2026 8 22)) = False"
  by code_simp

lemma sample_projection_Inr: "\<exists>n. project_bond_instrument sample_lots (Date 2026 8 22) = Inr n"
  using sample_projection by (cases "project_bond_instrument sample_lots (Date 2026 8 22)") auto


section \<open>Properties\<close>

text \<open>C5. Row totality. On every row of the bond table that can carry lineage and has the twenty
  columns, normalizing a sale lot returns: none of its validators ever rejects what the normalizer
  built. The row is quarantined exactly when one of the four identity cells is invalid.\<close>

theorem bond_lot_total:
  assumes "row_ok row" and "sr_source_table row = bond_table"
    and "has_columns row (map snd BOND_LOT_FIELD_COLUMNS)"
  shows "\<exists>n. normalize_bond_lot row reg = Inr n \<and> (nr_record n \<noteq> None \<longleftrightarrow> lot_identity_ok row) \<and>
     (nr_record n = None \<longleftrightarrow> (\<exists>i \<in> set (nr_issues n). dq_quarantined i))"
  using normalize_bond_lot_cases [OF assms, of reg] bond_lot_normalizer.record_iff_not_quarantined [of "(row, reg)"]
  by auto

theorem bond_lot_total_witness:
  "\<exists>n. normalize_bond_lot (sample_bond_row 2 ''1'' ''3.10'') packaged_ratings = Inr n \<and> nr_record n \<noteq> None"
proof -
  have "sr_source_table (sample_bond_row 2 ''1'' ''3.10'') = bond_table"
    "lot_identity_ok (sample_bond_row 2 ''1'' ''3.10'')" by code_simp+
  then show ?thesis using bond_lot_total [OF sample_row_ok _ sample_row_columns] by blast
qed

text \<open>C6. Order independence. Projecting the lots of an instrument gives the same result, value or
  error, for every order in which the lots arrive, as long as no two come from one source row.\<close>

theorem bond_projection_order_independent:
  assumes "mset lots = mset lots'" and "inj_on (bk_source_row_number \<circ> bl_source_key) (set lots)"
  shows "project_bond_instrument lots as_of = project_bond_instrument lots' as_of"
  unfolding project_bond_instrument_def
  by (simp only: check_projection_lots_mset [OF assms(1)] sort_lots_mset [OF assms])

theorem bond_projection_order_independent_witness:
  "project_bond_instrument sample_lots (Date 2026 8 22) = project_bond_instrument (rev sample_lots) (Date 2026 8 22)"
  by (rule bond_projection_order_independent) (simp_all add: sample_lots_def sample_lot_def)



text \<open>Purchasability. The derived flag of a projected instrument is present and true exactly when
  the bond is not matured at the reference date and its issue date is not in the future, although
  the one is computed from remaining days and the other from date comparisons.\<close>

theorem bond_purchasable_iff:
  assumes "project_bond_instrument lots as_of = Inr n" and "nr_record n = Some b" and "valid_date as_of"
    and "\<And>l d. l \<in> set lots \<Longrightarrow> nv_normalized_value (bl_maturity_date l) = Some d \<Longrightarrow> valid_date d"
  shows "dv_value (bi_is_purchasable_at_as_of b) =
     Some (dv_value (bi_is_matured_at_as_of b) \<noteq> Some True \<and>
           (\<forall>d. nv_normalized_value (bi_issue_date b) = Some d \<longrightarrow> d \<le> as_of))"
proof -
  from project_bond_instrument_Inr [OF assms(1)] assms(2) obtain keyed f where
    k: "sort_lots lots = Inr keyed"
    and m: "project_field (map snd keyed) (cp ''maturity_date'') bl_maturity_date = Inr (bi_maturity_date b, f)"
    and b: "bi_is_matured_at_as_of b = snd (derive_maturity (bi_maturity_date b) as_of)"
      "bi_is_purchasable_at_as_of b = derive_purchaseability (bi_issue_date b) (bi_maturity_date b) as_of"
    by auto
  have e: "set lots = snd ` set keyed" using sort_lots_Inr(1) [OF k] by (metis set_map set_mset_mset)
  obtain fs ii where f: "f = (fs, ii)" by (cases f)
  from project_field_Inr [OF m [unfolded f]] obtain c where
    "project_parent_value (map snd keyed) (cp ''maturity_date'') bl_maturity_date =
       Inr (bi_maturity_date b, bf_sources fs, c)" by blast
  from project_parent_value_member(1) [OF this]
  have "valid_date d" if "nv_normalized_value (bi_maturity_date b) = Some d" for d
    using that assms(4) unfolding e by force
  then have "0 \<le> days_between d as_of \<longleftrightarrow> as_of \<le> d" if "nv_normalized_value (bi_maturity_date b) = Some d" for d
    using that days_between_sign(1) [OF _ assms(3), of d] by (simp add: not_less [symmetric])
  then show ?thesis
    unfolding b derive_maturity_def derive_purchaseability_def Let_def
    by (auto split: option.splits simp: not_less)
qed

theorem bond_purchasable_iff_witness:
  "\<exists>n b. project_bond_instrument sample_lots (Date 2026 8 22) = Inr n \<and> nr_record n = Some b \<and>
     dv_value (bi_is_purchasable_at_as_of b) =
       Some (dv_value (bi_is_matured_at_as_of b) \<noteq> Some True \<and>
             (case nv_normalized_value (bi_issue_date b) of None \<Rightarrow> True | Some d \<Rightarrow> d \<le> Date 2026 8 22))"
proof -
  obtain n where n: "project_bond_instrument sample_lots (Date 2026 8 22) = Inr n"
    using sample_projection_Inr by blast
  with project_bond_instrument_Inr obtain b where b: "nr_record n = Some b" by blast
  have "list_all (\<lambda>l. case nv_normalized_value (bl_maturity_date l) of None \<Rightarrow> True | Some d \<Rightarrow> valid_date d) sample_lots"
    by code_simp
  then have "valid_date d" if "l \<in> set sample_lots" "nv_normalized_value (bl_maturity_date l) = Some d" for l d
    using that by (auto simp: list_all_iff split: option.splits)
  moreover have "valid_date (Date 2026 8 22)" by code_simp
  ultimately show ?thesis using bond_purchasable_iff [OF n b] n b by (auto split: option.splits)
qed

end
