(* ===== verification/Scalar.thy ===== *)
theory Scalar
  imports Bonds
begin

text \<open>
  The scalar values of plans and query results: \<open>str | int | Decimal | bool | date | datetime\<close>
  of \<open>storage/repositories/products.py\<close> and \<open>domain/query_plan.py\<close>, with Python's equality
  (numbers compare across \<open>int\<close>, \<open>Decimal\<close> and \<open>bool\<close>), ordering (which raises
  \<open>TypeError\<close> between kinds), \<open>str()\<close> and sorting by such keys.
\<close>

datatype scalar =
    SStr pystr | SInt int | SDec decimal | SBool bool | SDate date | SDateTime datetime

text \<open>
  The comparison key: the kind, the numeric value and the components of a text or a date. Two
  scalars are equal in Python exactly when their keys are, and ordered only within a kind.
\<close>

type_synonym skey = "nat \<times> rat \<times> int list"

fun scalar_key :: "scalar \<Rightarrow> skey" where
  "scalar_key (SStr s) = (0, 0, map int s)"
| "scalar_key (SInt n) = (1, of_int n, [])"
| "scalar_key (SDec d) = (1, dval d, [])"
| "scalar_key (SBool b) = (1, (if b then 1 else 0), [])"
| "scalar_key (SDate d) = (2, 0, [date_year d, date_month d, date_day d])"
| "scalar_key (SDateTime t) =
     (3, 0, [date_year (dt_date t), date_month (dt_date t), date_day (dt_date t),
             dt_hour t, dt_minute t, dt_second t])"

definition scalar_kind :: "scalar \<Rightarrow> nat" where
  "scalar_kind s = fst (scalar_key s)"

definition scalar_eq :: "scalar \<Rightarrow> scalar \<Rightarrow> bool" where
  "scalar_eq a b \<longleftrightarrow> scalar_key a = scalar_key b"

definition scalar_less :: "scalar \<Rightarrow> scalar \<Rightarrow> bool result" where
  "scalar_less a b =
     (if scalar_kind a = scalar_kind b then Inr (scalar_key a < scalar_key b)
      else Inl (TypeError ''not supported between instances''))"

definition scalar_le :: "scalar \<Rightarrow> scalar \<Rightarrow> bool result" where
  "scalar_le a b =
     (if scalar_kind a = scalar_kind b then Inr (scalar_key a \<le> scalar_key b)
      else Inl (TypeError ''not supported between instances''))"

text \<open>\<open>str(value)\<close>, with \<open>None\<close> for an absent value.\<close>

fun scalar_str :: "scalar \<Rightarrow> pystr" where
  "scalar_str (SStr s) = s"
| "scalar_str (SInt n) = int_str n"
| "scalar_str (SDec d) = dec_str d"
| "scalar_str (SBool b) = (if b then cp ''True'' else cp ''False'')"
| "scalar_str (SDate d) = isoformat d"
| "scalar_str (SDateTime t) = datetime_str t"

definition value_str :: "scalar option \<Rightarrow> pystr" where
  "value_str v = (case v of None \<Rightarrow> cp ''None'' | Some s \<Rightarrow> scalar_str s)"

text \<open>
  \<open>list.sort(key=..., reverse=...)\<close> on scalar keys. A list with keys of two kinds raises: whatever
  comparisons the sort makes, they must connect all elements, so two kinds meet.
\<close>

definition one_kind :: "('a \<Rightarrow> scalar) \<Rightarrow> 'a list \<Rightarrow> bool" where
  "one_kind key xs \<longleftrightarrow> (case xs of [] \<Rightarrow> True | x # _ \<Rightarrow> list_all (\<lambda>y. scalar_kind (key y) = scalar_kind (key x)) xs)"

definition scalar_sort :: "bool \<Rightarrow> ('a \<Rightarrow> scalar) \<Rightarrow> 'a list \<Rightarrow> 'a list result" where
  "scalar_sort descending key xs =
     (if one_kind key xs then Inr (py_sorted_by descending (scalar_key \<circ> key) xs)
      else Inl (TypeError ''not supported between instances''))"

text \<open>Comprehensions, \<open>all\<close>, \<open>any\<close> and \<open>next\<close> over a test that may raise; each stops where Python stops.\<close>

fun filter_result :: "('a \<Rightarrow> bool result) \<Rightarrow> 'a list \<Rightarrow> 'a list result" where
  "filter_result p [] = Inr []"
| "filter_result p (x # xs) =
     rbind (p x) (\<lambda>b. rbind (filter_result p xs) (\<lambda>ys. Inr (if b then x # ys else ys)))"

fun all_result :: "('a \<Rightarrow> bool result) \<Rightarrow> 'a list \<Rightarrow> bool result" where
  "all_result p [] = Inr True"
| "all_result p (x # xs) = rbind (p x) (\<lambda>b. if b then all_result p xs else Inr False)"

fun any_result :: "('a \<Rightarrow> bool result) \<Rightarrow> 'a list \<Rightarrow> bool result" where
  "any_result p [] = Inr False"
| "any_result p (x # xs) = rbind (p x) (\<lambda>b. if b then Inr True else any_result p xs)"

fun find_result :: "('a \<Rightarrow> bool result) \<Rightarrow> 'a list \<Rightarrow> 'a option result" where
  "find_result p [] = Inr None"
| "find_result p (x # xs) = rbind (p x) (\<lambda>b. if b then Inr (Some x) else find_result p xs)"

section \<open>Laws\<close>

lemma filter_result_Inr_iff:
  "filter_result p xs = Inr ys \<longleftrightarrow> (\<forall>x \<in> set xs. \<exists>b. p x = Inr b) \<and> ys = filter (\<lambda>x. p x = Inr True) xs"
proof (induction xs arbitrary: ys)
  case (Cons x xs)
  then show ?case by (cases "p x") (auto simp: rbind_eq_Inr_iff)
qed auto

lemma filter_result_Inr_subset: "filter_result p xs = Inr ys \<Longrightarrow> set ys \<subseteq> {x \<in> set xs. p x = Inr True}"
  by (auto simp: filter_result_Inr_iff)

lemma filter_result_total: "filter_result (\<lambda>x. Inr (p x)) xs = Inr (filter p xs)"
  by (simp add: filter_result_Inr_iff)

lemma all_result_True_iff: "all_result p xs = Inr True \<longleftrightarrow> (\<forall>x \<in> set xs. p x = Inr True)"
  by (induction xs) (auto simp: rbind_eq_Inr_iff split: if_splits)

lemma any_result_False_iff: "any_result p xs = Inr False \<longleftrightarrow> (\<forall>x \<in> set xs. p x = Inr False)"
  by (induction xs) (auto simp: rbind_eq_Inr_iff split: if_splits)

lemma find_result_Some: "find_result p xs = Inr (Some x) \<Longrightarrow> x \<in> set xs \<and> p x = Inr True"
  by (induction xs) (auto simp: rbind_eq_Inr_iff split: if_splits)

lemma one_kind_iff: "one_kind key xs \<longleftrightarrow> (\<forall>x \<in> set xs. \<forall>y \<in> set xs. scalar_kind (key x) = scalar_kind (key y))"
  by (cases xs) (auto simp: one_kind_def list_all_iff)

lemma one_kind_mset: "mset xs = mset ys \<Longrightarrow> one_kind key xs \<longleftrightarrow> one_kind key ys"
  unfolding one_kind_iff by (metis set_mset_mset)

lemma scalar_sort_mset: "scalar_sort d key xs = Inr ys \<Longrightarrow> mset ys = mset xs"
  by (auto simp: scalar_sort_def split: if_splits)

lemma scalar_sort_defined: "one_kind key xs \<Longrightarrow> \<exists>ys. scalar_sort d key xs = Inr ys"
  by (simp add: scalar_sort_def)

lemma scalar_sort_sorted:
  "scalar_sort d key xs = Inr ys \<Longrightarrow>
     sorted_wrt (\<lambda>x y. if d then scalar_key (key y) \<le> scalar_key (key x) else scalar_key (key x) \<le> scalar_key (key y)) ys"
  using sorted_py_sorted [of "scalar_key \<circ> key" xs] sorted_py_sorted_desc [of "scalar_key \<circ> key" xs]
  by (auto simp: scalar_sort_def py_sorted_by_def sorted_map sorted_wrt_rev sorted_wrt_map split: if_splits)

lemma scalar_sort_stable:
  "scalar_sort d key xs = Inr ys \<Longrightarrow>
     filter (\<lambda>y. scalar_key (key y) = k) ys = filter (\<lambda>y. scalar_key (key y) = k) xs"
  using py_sorted_by_stable [of "scalar_key \<circ> key" k d xs] by (auto simp: scalar_sort_def split: if_splits)

lemma scalar_less_iff_not_le: "scalar_less a b = map_sum id Not (scalar_le b a)"
  by (auto simp: scalar_less_def scalar_le_def)

lemma scalar_eq_refl [simp]: "scalar_eq a a"
  by (simp add: scalar_eq_def)

lemma scalar_eq_SStr [simp]: "scalar_eq (SStr s) (SStr t) \<longleftrightarrow> s = t"
  by (simp add: scalar_eq_def inj_map_eq_map)

end
