(* ===== verification/Query_Plan.thy ===== *)
theory Query_Plan
  imports Scalar
begin

text \<open>
  The model-facing plan contract \<open>finproof/domain/query_plan.py\<close> and the execution contracts of
  \<open>finproof/domain/execution.py\<close>. A validator returns the model it was given, or the error
  that pydantic reports. Fields of \<open>Annotated\<close> types are checked first, in declaration order,
  then the \<open>model_validator\<close>.
\<close>

section \<open>Enumerations\<close>

datatype intent = LOOKUP | SCREEN | SCREEN_RANK | COMPARE | AGGREGATE_INTENT | EXPLAIN | CLARIFY | UNSUPPORTED

datatype product_type =
  DOMESTIC_BOND | DOMESTIC_ETF | DOMESTIC_ETN | OVERSEAS_ETF | OVERSEAS_ETN | PUBLIC_FUND

datatype result_grain =
  PRODUCT | INSTRUMENT | LISTED_PRODUCT | FUND_ITEM | FUND_ATTRIBUTE | FUND_FAMILY_CANDIDATE

datatype top_k_scope = GLOBAL | PER_PRODUCT_TYPE

datatype sort_direction = ASC | DESC

datatype aggregation_function = COUNT_FN | MIN_FN | MAX_FN | SUM_FN | AVG_FN

datatype filter_operator =
  EQ | NE | GT | GTE | LT | LTE | IN | NOT_IN | BETWEEN | CONTAINS | STARTS_WITH | IS_MISSING | IS_NOT_MISSING

datatype entity_identifier_type =
  UNKNOWN | PRODUCT_ID | MARKET_IDENTIFIER | ISIN | TICKER | NAME

text \<open>Iteration over \<open>ProductType\<close>, and the values of the string enums that reach keys or SQL.\<close>

definition all_product_types :: "product_type list" where
  "all_product_types = [DOMESTIC_BOND, DOMESTIC_ETF, DOMESTIC_ETN, OVERSEAS_ETF, OVERSEAS_ETN, PUBLIC_FUND]"

fun product_type_value :: "product_type \<Rightarrow> pystr" where
  "product_type_value DOMESTIC_BOND = cp ''domestic_bond''"
| "product_type_value DOMESTIC_ETF = cp ''domestic_etf''"
| "product_type_value DOMESTIC_ETN = cp ''domestic_etn''"
| "product_type_value OVERSEAS_ETF = cp ''overseas_etf''"
| "product_type_value OVERSEAS_ETN = cp ''overseas_etn''"
| "product_type_value PUBLIC_FUND = cp ''public_fund''"

fun result_grain_value :: "result_grain \<Rightarrow> pystr" where
  "result_grain_value PRODUCT = cp ''product''"
| "result_grain_value INSTRUMENT = cp ''instrument''"
| "result_grain_value LISTED_PRODUCT = cp ''listed_product''"
| "result_grain_value FUND_ITEM = cp ''fund_item''"
| "result_grain_value FUND_ATTRIBUTE = cp ''fund_attribute''"
| "result_grain_value FUND_FAMILY_CANDIDATE = cp ''fund_family_candidate''"

fun sort_direction_upper :: "sort_direction \<Rightarrow> pystr" where
  "sort_direction_upper ASC = cp ''ASC''"
| "sort_direction_upper DESC = cp ''DESC''"

fun aggregation_value :: "aggregation_function \<Rightarrow> pystr" where
  "aggregation_value COUNT_FN = cp ''count''"
| "aggregation_value MIN_FN = cp ''min''"
| "aggregation_value MAX_FN = cp ''max''"
| "aggregation_value SUM_FN = cp ''sum''"
| "aggregation_value AVG_FN = cp ''avg''"

section \<open>Clauses\<close>

abbreviation bounded_text :: "nat \<Rightarrow> nat \<Rightarrow> pystr \<Rightarrow> bool" where
  "bounded_text lo hi s \<equiv> lo \<le> length s \<and> length s \<le> hi"

record entity_mention =
  em_text :: pystr
  em_identifier_type :: entity_identifier_type

definition validate_entity_mention :: "entity_mention \<Rightarrow> entity_mention result" where
  "validate_entity_mention e =
     (if bounded_text 1 300 (em_text e) then Inr e else Inl (ValueError ''string length''))"

text \<open>A clause value: absent or null, one scalar, or a tuple of scalars.\<close>

datatype clause_value = CNone | CScalar scalar | CTuple "scalar list"

record filter_clause =
  fc_field :: pystr
  fc_operator :: filter_operator
  fc_has_value :: bool
  fc_value :: clause_value

definition scalar_operators :: "filter_operator list" where
  "scalar_operators = [EQ, NE, GT, GTE, LT, LTE, CONTAINS, STARTS_WITH]"

definition validate_value_shape :: "filter_clause \<Rightarrow> filter_clause result" where
  "validate_value_shape c =
     (if \<not> bounded_text 1 100 (fc_field c) then Inl (ValueError ''string length'')
      else if fc_operator c \<in> set scalar_operators
      then (if \<not> fc_has_value c \<or> (case fc_value c of CScalar _ \<Rightarrow> False | _ \<Rightarrow> True)
            then Inl (ValueError ''operator requires one scalar value'') else Inr c)
      else if fc_operator c = IN \<or> fc_operator c = NOT_IN
      then (case fc_value c of
              CTuple vs \<Rightarrow> if 1 \<le> length vs \<and> length vs \<le> 50 then Inr c
                           else Inl (ValueError ''operator requires one to fifty scalar values'')
            | _ \<Rightarrow> Inl (ValueError ''operator requires one to fifty scalar values''))
      else if fc_operator c = BETWEEN
      then (case fc_value c of
              CTuple vs \<Rightarrow> if length vs = 2 then Inr c
                           else Inl (ValueError ''between requires exactly two scalar values'')
            | _ \<Rightarrow> Inl (ValueError ''between requires exactly two scalar values''))
      else if fc_has_value c then Inl (ValueError ''missing-value operators prohibit a value'')
      else Inr c)"

record sort_spec =
  ss_field :: pystr
  ss_direction :: sort_direction

record aggregation_spec =
  ag_function :: aggregation_function
  ag_field :: "pystr option"
  ag_group_by :: "pystr list"

definition validate_function_shape :: "aggregation_spec \<Rightarrow> aggregation_spec result" where
  "validate_function_shape a =
     (if \<not> (case ag_field a of None \<Rightarrow> True | Some f \<Rightarrow> bounded_text 1 100 f)
         \<or> \<not> list_all (bounded_text 1 100) (ag_group_by a) then Inl (ValueError ''string length'')
      else if ag_function a = COUNT_FN \<and> ag_field a \<noteq> None
      then Inl (ValueError ''count prohibits a target field'')
      else if ag_function a \<noteq> COUNT_FN \<and> ag_field a = None
      then Inl (ValueError ''value aggregation requires a target field'')
      else if length (ag_group_by a) > 2 \<or> \<not> distinct (ag_group_by a)
      then Inl (ValueError ''group_by requires at most two unique fields'')
      else Inr a)"

record metric_target =
  mt_product_type :: product_type
  mt_metrics :: "pystr list"

definition validate_metrics :: "metric_target \<Rightarrow> metric_target result" where
  "validate_metrics t =
     (if \<not> (1 \<le> length (mt_metrics t) \<and> length (mt_metrics t) \<le> 20) \<or> \<not> list_all (bounded_text 1 100) (mt_metrics t)
      then Inl (ValueError ''metrics length'')
      else if \<not> distinct (mt_metrics t) then Inl (ValueError ''target metrics must be unique'')
      else Inr t)"

section \<open>The plan\<close>

record query_plan =
  qp_intent :: intent
  qp_product_types :: "product_type list"
  qp_entities :: "entity_mention list"
  qp_as_of_date :: date
  qp_result_grain :: result_grain
  qp_filters :: "filter_clause list"
  qp_metrics :: "pystr list"
  qp_metric_targets :: "metric_target list"
  qp_sort :: "sort_spec list"
  qp_aggregation :: "aggregation_spec option"
  qp_top_k :: int
  qp_top_k_scope :: top_k_scope
  qp_needs_clarification :: bool
  qp_clarification_reason :: pystr

definition check_plan_fields :: "query_plan \<Rightarrow> unit result" where
  "check_plan_fields p =
     rbind (raise_if (length (qp_product_types p) > 6) (ValueError ''too_long'')) (\<lambda>_.
     rbind (raise_if (length (qp_entities p) > 10) (ValueError ''too_long'')) (\<lambda>_.
     rbind (traverse validate_entity_mention (qp_entities p)) (\<lambda>_.
     rbind (raise_if (length (qp_filters p) > 20) (ValueError ''too_long'')) (\<lambda>_.
     rbind (traverse validate_value_shape (qp_filters p)) (\<lambda>_.
     rbind (raise_if (length (qp_metrics p) > 20 \<or> \<not> list_all (bounded_text 1 100) (qp_metrics p))
              (ValueError ''too_long'')) (\<lambda>_.
     rbind (raise_if (length (qp_metric_targets p) > 6) (ValueError ''too_long'')) (\<lambda>_.
     rbind (traverse validate_metrics (qp_metric_targets p)) (\<lambda>_.
     rbind (raise_if (length (qp_sort p) > 5 \<or> \<not> list_all (bounded_text 1 100 \<circ> ss_field) (qp_sort p))
              (ValueError ''too_long'')) (\<lambda>_.
     rbind (case qp_aggregation p of None \<Rightarrow> Inr () | Some a \<Rightarrow> rbind (validate_function_shape a) (\<lambda>_. Inr ())) (\<lambda>_.
     rbind (raise_if (\<not> (1 \<le> qp_top_k p \<and> qp_top_k p \<le> 50)) (ValueError ''top_k range'')) (\<lambda>_.
       raise_if (length (qp_clarification_reason p) > 1000) (ValueError ''string_too_long''))))))))))))"

definition terminal_intent :: "intent \<Rightarrow> bool" where
  "terminal_intent i \<longleftrightarrow> i = CLARIFY \<or> i = UNSUPPORTED"

fun native_grain :: "product_type \<Rightarrow> result_grain" where
  "native_grain DOMESTIC_BOND = INSTRUMENT"
| "native_grain DOMESTIC_ETF = LISTED_PRODUCT"
| "native_grain DOMESTIC_ETN = LISTED_PRODUCT"
| "native_grain OVERSEAS_ETF = LISTED_PRODUCT"
| "native_grain OVERSEAS_ETN = LISTED_PRODUCT"
| "native_grain PUBLIC_FUND = FUND_ITEM"

definition check_metric_targets :: "query_plan \<Rightarrow> unit result" where
  "check_metric_targets p =
     (if qp_metric_targets p = [] then Inr ()
      else rbind (raise_if (qp_intent p \<noteq> SCREEN_RANK)
               (ValueError ''metric targets require screen rank intent'')) (\<lambda>_.
      rbind (raise_if (qp_top_k_scope p \<noteq> PER_PRODUCT_TYPE)
               (ValueError ''metric targets require per-product-type top-k'')) (\<lambda>_.
      rbind (raise_if (map mt_product_type (qp_metric_targets p) \<noteq> qp_product_types p)
               (ValueError ''metric targets must follow selected product types'')) (\<lambda>_.
      rbind (raise_if (set (concat (map mt_metrics (qp_metric_targets p))) \<noteq> set (qp_metrics p))
               (ValueError ''metric targets must cover plan metrics'')) (\<lambda>_.
        raise_if (list_ex (\<lambda>t. mt_metrics t \<noteq> filter (\<lambda>m. m \<in> set (mt_metrics t)) (qp_metrics p))
                    (qp_metric_targets p))
          (ValueError ''target metrics must preserve plan metric order''))))))"

definition check_terminal :: "query_plan \<Rightarrow> unit result" where
  "check_terminal p =
     (if terminal_intent (qp_intent p)
      then rbind (raise_if (qp_filters p \<noteq> [] \<or> qp_metrics p \<noteq> [] \<or> qp_sort p \<noteq> [] \<or> qp_aggregation p \<noteq> None)
               (ValueError ''non-executable intents prohibit executable clauses'')) (\<lambda>_.
           rbind (raise_if (py_strip (qp_clarification_reason p) = [])
               (ValueError ''non-executable intents require a reason'')) (\<lambda>_.
             raise_if ((qp_intent p = CLARIFY) \<noteq> qp_needs_clarification p)
               (ValueError ''clarify alone requires clarification'')))
      else raise_if (qp_product_types p = [] \<or> qp_needs_clarification p \<or> qp_clarification_reason p \<noteq> [])
             (ValueError ''executable intents require products and no clarification''))"

definition validate_query_plan :: "query_plan \<Rightarrow> query_plan result" where
  "validate_query_plan p =
     rbind (check_plan_fields p) (\<lambda>_.
     rbind (raise_if (\<not> distinct (qp_product_types p)) (ValueError ''product types must be unique'')) (\<lambda>_.
     rbind (raise_if (\<not> distinct (qp_metrics p)) (ValueError ''metrics must be unique'')) (\<lambda>_.
     rbind (check_metric_targets p) (\<lambda>_.
     rbind (raise_if ((qp_intent p = AGGREGATE_INTENT) \<noteq> (qp_aggregation p \<noteq> None))
              (ValueError ''aggregation is present exactly for aggregate intent'')) (\<lambda>_.
     rbind (check_terminal p) (\<lambda>_.
     rbind (raise_if (card (set (map native_grain (qp_product_types p))) > 1 \<and> qp_result_grain p \<noteq> PRODUCT)
              (ValueError ''heterogeneous native grains require the product envelope'')) (\<lambda>_.
     rbind (raise_if (qp_result_grain p = PRODUCT \<and> length (qp_product_types p) < 2
                        \<and> \<not> terminal_intent (qp_intent p))
              (ValueError ''the product envelope requires heterogeneous native grains'')) (\<lambda>_.
       Inr p))))))))"

section \<open>domain/execution.py\<close>

record holding_constituent_filter =
  hf_constituent_identifier :: pystr
  hf_constituent_identifier_type :: pystr

datatype execution_limitation_code = OVERSEAS_RETURN_1Y_UNAVAILABLE

record execution_segment =
  sg_product_type :: product_type
  sg_native_result_grain :: result_grain
  sg_filters :: "filter_clause list"
  sg_metrics :: "pystr list"
  sg_sort :: "sort_spec list"
  sg_aggregation :: "aggregation_spec option"
  sg_top_k :: int
  sg_holding_constituent_filter :: "holding_constituent_filter option"

record comparison_partition =
  cpn_partition_id :: pystr
  cpn_product_types :: "product_type list"
  cpn_compatibility_key :: pystr

end
