(* ===== verification/Query_Fields.thy ===== *)
theory Query_Fields
  imports Query_Plan
begin

text \<open>
  The registry contracts of \<open>finproof/registry/metric.py\<close> and the closed mapping from canonical
  fields to artifact columns, \<open>finproof/query/fields.py\<close>. Dictionaries are association lists in
  insertion order; the loaded registries are an argument.
\<close>

record metric_definition =
  md_label_ko :: pystr
  md_product_types :: "product_type list"
  md_source_table :: pystr
  md_source_column :: pystr
  md_secondary_source_column :: "pystr option"
  md_derived_rule :: "pystr option"
  md_value_type :: pystr
  md_unit :: "pystr option"
  md_period :: "pystr option"
  md_currency :: "pystr option"
  md_currency_source :: "pystr option"
  md_missing_policy :: pystr
  md_zero_policy :: pystr
  md_display_policy :: pystr
  md_literal_filter_policy :: pystr
  md_ranking_policy :: pystr
  md_aggregation_policy :: pystr
  md_tie_policy :: pystr
  md_comparability_group :: pystr
  md_cross_product_policy :: pystr
  md_evidence_rule :: pystr
  md_queryable :: bool

record field_definition =
  fd_product_types :: "product_type list"
  fd_value_type :: "pystr option"
  fd_metric_ids :: "pystr list"
  fd_operators :: "filter_operator list"
  fd_sortable :: bool
  fd_aggregations :: "aggregation_function list"

record registry_bundle =
  rb_metrics :: "(pystr \<times> metric_definition) list"
  rb_fields :: "(pystr \<times> field_definition) list"
  rb_targetless_aggregations :: "aggregation_function list"

record field_projection =
  fp_field_id :: pystr
  fp_product_type :: product_type
  fp_table_name :: pystr
  fp_column_name :: pystr
  fp_quality_column_name :: pystr
  fp_value_type :: pystr
  fp_metric_id :: "pystr option"

record field_registry =
  fr_projections :: "((pystr \<times> product_type) \<times> field_projection) list"
  fr_registries :: registry_bundle

text \<open>\<open>entries[metric_id]\<close>\<close>

definition metric_entry :: "registry_bundle \<Rightarrow> pystr \<Rightarrow> metric_definition result" where
  "metric_entry regs metric_id =
     (case map_of (rb_metrics regs) metric_id of
        None \<Rightarrow> Inl (KeyError metric_id)
      | Some m \<Rightarrow> Inr m)"

fun table_by_product_type :: "product_type \<Rightarrow> pystr" where
  "table_by_product_type DOMESTIC_BOND = cp ''silver_bond_instrument''"
| "table_by_product_type DOMESTIC_ETF = cp ''silver_domestic_listed_product''"
| "table_by_product_type DOMESTIC_ETN = cp ''silver_domestic_listed_product''"
| "table_by_product_type OVERSEAS_ETF = cp ''silver_overseas_listed_product''"
| "table_by_product_type OVERSEAS_ETN = cp ''silver_overseas_listed_product''"
| "table_by_product_type PUBLIC_FUND = cp ''silver_fund_item''"

definition special_columns :: "((pystr \<times> product_type) \<times> pystr) list" where
  "special_columns =
     [((cp ''aum'', DOMESTIC_ETF), cp ''aum_primary''),
      ((cp ''aum'', DOMESTIC_ETN), cp ''aum_primary''),
      ((cp ''aum'', PUBLIC_FUND), cp ''net_assets''),
      ((cp ''region'', PUBLIC_FUND), cp ''region_description''),
      ((cp ''currency'', OVERSEAS_ETF), cp ''trading_currency''),
      ((cp ''currency'', OVERSEAS_ETN), cp ''trading_currency''),
      ((cp ''risk_grade'', PUBLIC_FUND), cp ''risk_name''),
      ((cp ''saleable'', DOMESTIC_ETF), cp ''sale_flag''),
      ((cp ''saleable'', DOMESTIC_ETN), cp ''sale_flag''),
      ((cp ''saleable'', OVERSEAS_ETF), cp ''sale_flag_raw''),
      ((cp ''saleable'', OVERSEAS_ETN), cp ''sale_flag_raw''),
      ((cp ''saleable'', PUBLIC_FUND), cp ''sale_status_raw''),
      ((cp ''mirae_saleable'', PUBLIC_FUND), cp ''mirae_sale_flag_raw'')]"

definition column_name :: "pystr \<Rightarrow> product_type \<Rightarrow> pystr" where
  "column_name field_id pt =
     (if field_id = cp ''product_name'' then cp ''name''
      else if field_id = cp ''product_id'' then (if pt = PUBLIC_FUND then cp ''fund_item_id'' else cp ''product_id'')
      else case map_of special_columns (field_id, pt) of None \<Rightarrow> field_id | Some c \<Rightarrow> c)"

text \<open>The product types a field applies to: its own, or those of its metrics.\<close>

definition field_product_types :: "registry_bundle \<Rightarrow> field_definition \<Rightarrow> product_type list result" where
  "field_product_types regs field =
     (if fd_product_types field \<noteq> [] then Inr (fd_product_types field)
      else rbind (traverse (metric_entry regs) (fd_metric_ids field)) (\<lambda>ms.
             Inr (concat (map md_product_types ms))))"

text \<open>The first metric of the field for a product type; the generator reads no further entry.\<close>

fun first_metric :: "registry_bundle \<Rightarrow> product_type \<Rightarrow> pystr list \<Rightarrow> pystr option result" where
  "first_metric regs pt [] = Inr None"
| "first_metric regs pt (m # ms) =
     rbind (metric_entry regs m) (\<lambda>d.
       if pt \<in> set (md_product_types d) then Inr (Some m) else first_metric regs pt ms)"

definition make_projection ::
  "registry_bundle \<Rightarrow> pystr \<Rightarrow> field_definition \<Rightarrow> product_type \<Rightarrow> field_projection result" where
  "make_projection regs field_id field pt =
     rbind (first_metric regs pt (fd_metric_ids field)) (\<lambda>metric_id.
     rbind (case metric_id of
              Some m \<Rightarrow> rbind (metric_entry regs m) (\<lambda>d. Inr (Some (md_value_type d)))
            | None \<Rightarrow> Inr (fd_value_type field)) (\<lambda>value_type.
       case value_type of
         None \<Rightarrow> Inl (ValueError ''field value type differs'')
       | Some vt \<Rightarrow>
           Inr \<lparr>fp_field_id = field_id, fp_product_type = pt, fp_table_name = table_by_product_type pt,
                fp_column_name = column_name field_id pt,
                fp_quality_column_name = column_name field_id pt @ cp ''__quality_status'',
                fp_value_type = vt, fp_metric_id = metric_id\<rparr>))"

fun add_projections ::
  "registry_bundle \<Rightarrow> pystr \<Rightarrow> field_definition \<Rightarrow> product_type list
     \<Rightarrow> ((pystr \<times> product_type) \<times> field_projection) list
     \<Rightarrow> ((pystr \<times> product_type) \<times> field_projection) list result" where
  "add_projections regs field_id field [] d = Inr d"
| "add_projections regs field_id field (pt # pts) d =
     rbind (make_projection regs field_id field pt) (\<lambda>p.
       add_projections regs field_id field pts (dict_set d (field_id, pt) p))"

fun collect_projections ::
  "registry_bundle \<Rightarrow> (pystr \<times> field_definition) list
     \<Rightarrow> ((pystr \<times> product_type) \<times> field_projection) list
     \<Rightarrow> ((pystr \<times> product_type) \<times> field_projection) list result" where
  "collect_projections regs [] d = Inr d"
| "collect_projections regs ((field_id, field) # rest) d =
     (if field_id = cp ''holding_constituent'' then collect_projections regs rest d
      else rbind (field_product_types regs field) (\<lambda>pts.
           rbind (add_projections regs field_id field pts d) (\<lambda>d'.
             collect_projections regs rest d')))"

definition from_bundle :: "registry_bundle \<Rightarrow> field_registry result" where
  "from_bundle regs =
     rbind (collect_projections regs (rb_fields regs) []) (\<lambda>d.
       Inr \<lparr>fr_projections = d, fr_registries = regs\<rparr>)"

definition projection :: "field_registry \<Rightarrow> pystr \<Rightarrow> product_type \<Rightarrow> field_projection result" where
  "projection fr field_id pt =
     (case map_of (fr_projections fr) (field_id, pt) of
        None \<Rightarrow> Inl (ValueError ''field is not registered for product type'')
      | Some p \<Rightarrow> Inr p)"

section \<open>What a built registry guarantees\<close>

definition projection_ok :: "registry_bundle \<Rightarrow> pystr \<Rightarrow> product_type \<Rightarrow> field_projection \<Rightarrow> bool" where
  "projection_ok regs f pt p \<longleftrightarrow>
     fp_field_id p = f \<and> fp_product_type p = pt \<and> fp_table_name p = table_by_product_type pt \<and>
     fp_column_name p = column_name f pt \<and>
     fp_quality_column_name p = fp_column_name p @ cp ''__quality_status'' \<and>
     (case fp_metric_id p of
        None \<Rightarrow> True
      | Some m \<Rightarrow> (case map_of (rb_metrics regs) m of
           None \<Rightarrow> False
         | Some d \<Rightarrow> pt \<in> set (md_product_types d) \<and> fp_value_type p = md_value_type d))"

lemma map_of_dict_set [simp, dict_simps]: "map_of (dict_set d k v) = (map_of d)(k \<mapsto> v)"
  by (induction d k v rule: dict_set.induct) auto

lemma metric_entry_Inr [simp]: "metric_entry regs m = Inr d \<longleftrightarrow> map_of (rb_metrics regs) m = Some d"
  by (auto simp: metric_entry_def split: option.splits)

lemma first_metric_Inr:
  "first_metric regs pt ms = Inr (Some m) \<Longrightarrow>
     m \<in> set ms \<and> (\<exists>d. map_of (rb_metrics regs) m = Some d \<and> pt \<in> set (md_product_types d))"
  by (induction ms) (auto simp: rbind_eq_Inr_iff split: if_splits)

lemma make_projection_ok:
  "make_projection regs f fd pt = Inr p \<Longrightarrow> projection_ok regs f pt p"
proof -
  assume a: "make_projection regs f fd pt = Inr p"
  then obtain mid where m: "first_metric regs pt (fd_metric_ids fd) = Inr mid"
    by (auto simp: make_projection_def rbind_eq_Inr_iff)
  show ?thesis
  proof (cases mid)
    case None
    with a m show ?thesis
      by (cases "fd_value_type fd") (auto simp: make_projection_def projection_ok_def)
  next
    case (Some i)
    with m obtain d where "map_of (rb_metrics regs) i = Some d" "pt \<in> set (md_product_types d)"
      using first_metric_Inr by blast
    with a m Some show ?thesis by (auto simp: make_projection_def projection_ok_def metric_entry_def)
  qed
qed

definition dict_ok ::
  "registry_bundle \<Rightarrow> (pystr \<times> field_definition) list \<Rightarrow> ((pystr \<times> product_type) \<times> field_projection) list \<Rightarrow> bool" where
  "dict_ok regs fs d \<longleftrightarrow> (\<forall>g pt p. map_of d (g, pt) = Some p \<longrightarrow>
     projection_ok regs g pt p \<and> g \<noteq> cp ''holding_constituent'' \<and> map_of fs g \<noteq> None)"

lemma dict_ok_set:
  "dict_ok regs fs d \<Longrightarrow> projection_ok regs f pt p \<Longrightarrow> f \<noteq> cp ''holding_constituent'' \<Longrightarrow> map_of fs f \<noteq> None \<Longrightarrow>
     dict_ok regs fs (dict_set d (f, pt) p)"
  by (simp add: dict_ok_def)

lemma add_projections_ok:
  "add_projections regs f fd pts d = Inr d' \<Longrightarrow> f \<noteq> cp ''holding_constituent'' \<Longrightarrow> map_of fs f \<noteq> None \<Longrightarrow>
     dict_ok regs fs d \<Longrightarrow> dict_ok regs fs d'"
proof (induction pts arbitrary: d)
  case (Cons q pts)
  from Cons.prems(1) obtain r where r: "make_projection regs f fd q = Inr r"
    "add_projections regs f fd pts (dict_set d (f, q) r) = Inr d'"
    by (auto simp: rbind_eq_Inr_iff)
  have "dict_ok regs fs (dict_set d (f, q) r)"
    by (rule dict_ok_set [OF Cons.prems(4) make_projection_ok [OF r(1)] Cons.prems(2,3)])
  then show ?case by (rule Cons.IH [OF r(2) Cons.prems(2,3)])
qed simp

lemma collect_projections_ok:
  "collect_projections regs ps d = Inr d' \<Longrightarrow> set ps \<subseteq> set fs \<Longrightarrow> dict_ok regs fs d \<Longrightarrow> dict_ok regs fs d'"
proof (induction ps arbitrary: d)
  case (Cons q ps)
  obtain f fd where q: "q = (f, fd)" by (cases q)
  show ?case
  proof (cases "f = cp ''holding_constituent''")
    case False
    with Cons.prems(1) q obtain pts d2 where
      p: "add_projections regs f fd pts d = Inr d2" "collect_projections regs ps d2 = Inr d'"
      by (auto simp: rbind_eq_Inr_iff)
    have m: "map_of fs f \<noteq> None"
      using Cons.prems(2) q by (auto simp: map_of_eq_None_iff rev_image_eqI)
    show ?thesis
      using Cons.prems(2)
      by (intro Cons.IH [OF p(2)] add_projections_ok [OF p(1) False m Cons.prems(3)]) simp
  qed (use Cons q in simp)
qed simp

text \<open>
  The interface the validator, the segmenter, the compiler and the policy engine rely on: a
  registry builder whose entries are keyed by their own field and product type.
\<close>

locale projection_builder =
  fixes build :: "registry_bundle \<Rightarrow> field_registry result"
  assumes source: "build regs = Inr fr \<Longrightarrow> fr_registries fr = regs"
    and coherent: "build regs = Inr fr \<Longrightarrow> map_of (fr_projections fr) (f, pt) = Some p \<Longrightarrow>
      projection_ok regs f pt p \<and> f \<noteq> cp ''holding_constituent'' \<and> map_of (rb_fields regs) f \<noteq> None"
begin

lemma projection_identity:
  assumes "build regs = Inr fr" and "projection fr f pt = Inr p"
  shows "fp_field_id p = f" and "fp_product_type p = pt" and "fp_table_name p = table_by_product_type pt"
    and "fp_quality_column_name p = fp_column_name p @ cp ''__quality_status''"
  using coherent [OF assms(1), of f pt p] assms(2)
  by (auto simp: projection_def projection_ok_def split: option.splits)

lemma projection_metric:
  assumes "build regs = Inr fr" and "projection fr f pt = Inr p" and "fp_metric_id p = Some m"
  shows "\<exists>d. metric_entry (fr_registries fr) m = Inr d \<and> pt \<in> set (md_product_types d)"
  using coherent [OF assms(1), of f pt p] assms(2,3) source [OF assms(1)]
  by (auto simp: projection_def projection_ok_def split: option.splits)

end

interpretation field_builder: projection_builder from_bundle
proof
  fix regs fr
  assume "from_bundle regs = Inr fr"
  then show "fr_registries fr = regs" by (auto simp: from_bundle_def rbind_eq_Inr_iff)
next
  fix regs fr f pt p
  assume b: "from_bundle regs = Inr fr" and m: "map_of (fr_projections fr) (f, pt) = Some p"
  from b have "collect_projections regs (rb_fields regs) [] = Inr (fr_projections fr)"
    by (auto simp: from_bundle_def rbind_eq_Inr_iff)
  then have "dict_ok regs (rb_fields regs) (fr_projections fr)"
    by (rule collect_projections_ok) (simp_all add: dict_ok_def)
  with m show "projection_ok regs f pt p \<and> f \<noteq> cp ''holding_constituent'' \<and> map_of (rb_fields regs) f \<noteq> None"
    by (auto simp: dict_ok_def)
qed

end
