(* ===== verification/Entity.thy ===== *)
theory Entity
  imports Query_Plan
begin

text \<open>
  Entity resolution: \<open>finproof/entity/models.py\<close>, \<open>normalization.py\<close>, \<open>index.py\<close>,
  \<open>resolver.py\<close> and \<open>holding_resolver.py\<close>. The result sets of the index queries are arguments.
  The Unicode tables behind \<open>unicodedata.normalize("NFKC", _)\<close> and \<open>str.casefold\<close>, and the
  similarity \<open>int(SequenceMatcher(None, a, b).ratio() * 10_000)\<close>, are the fields of a
  \<open>text_library\<close> argument. Object identity (\<open>selected is candidates[0]\<close>) is equality of records.
\<close>

record text_library =
  tl_nfkc :: "pystr \<Rightarrow> pystr"
  tl_casefold :: "pystr \<Rightarrow> pystr"
  tl_score :: "pystr \<Rightarrow> pystr \<Rightarrow> int"

text \<open>\<open>s.split()\<close>: the maximal runs without white space.\<close>

definition py_words :: "pystr \<Rightarrow> pystr list" where
  "py_words s = filter (\<lambda>t. t \<noteq> []) (py_split 32 (map (\<lambda>c. if py_isspace c then 32 else c) s))"

definition normalize_product_text :: "text_library \<Rightarrow> pystr \<Rightarrow> pystr" where
  "normalize_product_text lib s = tl_casefold lib (py_join [32] (py_words (tl_nfkc lib s)))"

section \<open>models.py\<close>

datatype match_kind = EXACT_PRODUCT_ID | EXACT_IDENTIFIER | EXACT_NAME | FUZZY_CANDIDATE

record resolution_candidate =
  rc_product_id :: pystr
  rc_product_type :: product_type
  rc_name :: pystr
  rc_match_kind :: match_kind
  rc_score :: int

definition validate_candidate :: "resolution_candidate \<Rightarrow> resolution_candidate result" where
  "validate_candidate c =
     (if bounded_text 1 300 (rc_product_id c) \<and> bounded_text 1 500 (rc_name c)
         \<and> 0 \<le> rc_score c \<and> rc_score c \<le> 10000
      then Inr c else Inl (ValueError ''resolution candidate''))"

record resolution_result =
  rr_selected :: "resolution_candidate option"
  rr_candidates :: "resolution_candidate list"

definition make_resolution_result ::
  "resolution_candidate option \<Rightarrow> resolution_candidate list \<Rightarrow> resolution_result result" where
  "make_resolution_result selected candidates =
     (if length candidates \<le> 5 then Inr \<lparr>rr_selected = selected, rr_candidates = candidates\<rparr>
      else Inl (ValueError ''too_long''))"

record holding_candidate =
  hc_constituent_identifier :: pystr
  hc_constituent_identifier_type :: pystr
  hc_display_name :: pystr

definition validate_holding_candidate :: "holding_candidate \<Rightarrow> holding_candidate result" where
  "validate_holding_candidate c =
     (if bounded_text 1 300 (hc_constituent_identifier c) \<and> bounded_text 1 100 (hc_constituent_identifier_type c)
         \<and> bounded_text 1 500 (hc_display_name c)
      then Inr c else Inl (ValueError ''holding candidate''))"

record holding_result =
  hr_selected :: "holding_candidate option"
  hr_candidates :: "holding_candidate list"

definition make_holding_result ::
  "holding_candidate option \<Rightarrow> holding_candidate list \<Rightarrow> holding_result result" where
  "make_holding_result selected candidates =
     (if length candidates \<le> 5 then Inr \<lparr>hr_selected = selected, hr_candidates = candidates\<rparr>
      else Inl (ValueError ''too_long''))"

section \<open>index.py\<close>

text \<open>A value of a result set: null, a scalar, or an object of another type.\<close>

datatype db_value = DBNull | DBScalar scalar | DBOther

record indexed_product =
  ip_product_id :: pystr
  ip_product_type :: product_type
  ip_name :: pystr
  ip_identifiers :: "(entity_identifier_type \<times> pystr) list"
  ip_names :: "pystr list"

definition row_at :: "db_value list \<Rightarrow> nat \<Rightarrow> db_value result" where
  "row_at row i = (if i < length row then Inr (row ! i) else Inl IndexError)"

definition db_text :: "db_value \<Rightarrow> pystr result" where
  "db_text v = (case v of DBScalar (SStr s) \<Rightarrow> Inr s | _ \<Rightarrow> Inl (TypeError ''entity index scalar differs''))"

definition db_optional_text :: "db_value \<Rightarrow> pystr option result" where
  "db_optional_text v = (case v of DBNull \<Rightarrow> Inr None | _ \<Rightarrow> rbind (db_text v) (\<lambda>s. Inr (Some s)))"

definition index_entry ::
  "text_library \<Rightarrow> db_value list \<Rightarrow> product_type \<Rightarrow> (nat \<times> entity_identifier_type) list \<Rightarrow> nat list
     \<Rightarrow> indexed_product result" where
  "index_entry lib row pt identifier_columns name_indexes =
     rbind (traverse (\<lambda>(i, kind). rbind (row_at row i) (\<lambda>v. rbind (db_optional_text v)
              (\<lambda>t. Inr (map_option (Pair kind) t)))) identifier_columns) (\<lambda>ids.
     rbind (traverse (\<lambda>i. rbind (row_at row i) db_optional_text) name_indexes) (\<lambda>ns.
       let identifiers = List.map_filter id ids; names = List.map_filter id ns
       in case (identifiers, names) of
            ((kind, pid) # _, name # _) \<Rightarrow>
              if kind \<noteq> PRODUCT_ID \<or> pid = [] \<or> name = [] then Inl (ValueError ''entity index row is incomplete'')
              else Inr \<lparr>ip_product_id = pid, ip_product_type = pt, ip_name = name,
                        ip_identifiers = map (\<lambda>(k, v). (k, normalize_product_text lib v))
                          (filter (\<lambda>(k, v). v \<noteq> []) identifiers),
                        ip_names = map (normalize_product_text lib) (filter (\<lambda>v. v \<noteq> []) names)\<rparr>
          | _ \<Rightarrow> Inl (ValueError ''entity index row is incomplete'')))"

definition listed_entry :: "text_library \<Rightarrow> bool \<Rightarrow> db_value list \<Rightarrow> indexed_product result" where
  "listed_entry lib domestic row =
     rbind (row_at row (if domestic then 2 else 4)) (\<lambda>v.
     rbind (db_text v) (\<lambda>listed_type.
       case (if domestic \<and> listed_type = cp ''ETF'' then Some DOMESTIC_ETF
             else if domestic \<and> listed_type = cp ''ETN'' then Some DOMESTIC_ETN
             else if \<not> domestic \<and> listed_type = cp ''ETF'' then Some OVERSEAS_ETF
             else if \<not> domestic \<and> listed_type = cp ''ETN'' then Some OVERSEAS_ETN else None) of
         None \<Rightarrow> Inl (ValueError ''listed product type differs'')
       | Some pt \<Rightarrow>
           index_entry lib row pt
             (if domestic then [(0, PRODUCT_ID), (1, MARKET_IDENTIFIER)]
              else [(0, PRODUCT_ID), (1, MARKET_IDENTIFIER), (2, ISIN), (3, TICKER)])
             (if domestic then [3, 4] else [5])))"

definition index_from_session ::
  "text_library \<Rightarrow> db_value list list \<Rightarrow> db_value list list \<Rightarrow> db_value list list \<Rightarrow> db_value list list
     \<Rightarrow> indexed_product list result" where
  "index_from_session lib bonds domestic overseas funds =
     rbind (traverse (\<lambda>r. index_entry lib r DOMESTIC_BOND [(0, PRODUCT_ID)] [1, 2]) bonds) (\<lambda>a.
     rbind (traverse (listed_entry lib True) domestic) (\<lambda>b.
     rbind (traverse (listed_entry lib False) overseas) (\<lambda>c.
     rbind (traverse (\<lambda>r. index_entry lib r PUBLIC_FUND
              [(0, PRODUCT_ID), (1, MARKET_IDENTIFIER), (2, ISIN)] [3, 4]) funds) (\<lambda>d.
       Inr (a @ b @ c @ d)))))"

section \<open>resolver.py\<close>

definition candidate_of :: "indexed_product \<Rightarrow> match_kind \<Rightarrow> int \<Rightarrow> resolution_candidate result" where
  "candidate_of entry kind score =
     validate_candidate \<lparr>rc_product_id = ip_product_id entry, rc_product_type = ip_product_type entry,
                         rc_name = ip_name entry, rc_match_kind = kind, rc_score = score\<rparr>"

text \<open>\<open>enumerate\<close>/\<open>index\<close> of an element of a list.\<close>

fun position_of :: "'a \<Rightarrow> 'a list \<Rightarrow> nat" where
  "position_of x [] = 0"
| "position_of x (y # ys) = (if x = y then 0 else Suc (position_of x ys))"

definition eligible_entries :: "indexed_product list \<Rightarrow> product_type list \<Rightarrow> indexed_product list" where
  "eligible_entries entries pts =
     py_sorted (\<lambda>e. (position_of (ip_product_type e) pts, ip_product_id e))
       (filter (\<lambda>e. ip_product_type e \<in> set pts) entries)"

definition single_result :: "resolution_candidate result \<Rightarrow> resolution_result result" where
  "single_result c = rbind c (\<lambda>c. make_resolution_result (Some c) [c])"

definition primary_match :: "entity_mention \<Rightarrow> pystr \<Rightarrow> indexed_product \<Rightarrow> bool" where
  "primary_match m query e \<longleftrightarrow>
     em_identifier_type m \<in> set [UNKNOWN, PRODUCT_ID] \<and> (PRODUCT_ID, query) \<in> set (ip_identifiers e)"

definition secondary_match :: "entity_mention \<Rightarrow> pystr \<Rightarrow> indexed_product \<Rightarrow> bool" where
  "secondary_match m query e \<longleftrightarrow>
     list_ex (\<lambda>(kind, value). value = query \<and> kind \<noteq> PRODUCT_ID \<and> em_identifier_type m \<in> set [UNKNOWN, kind])
       (ip_identifiers e)"

definition fuzzy_score :: "text_library \<Rightarrow> pystr \<Rightarrow> indexed_product \<Rightarrow> int" where
  "fuzzy_score lib query e = Max (set (map (tl_score lib query) (ip_names e)))"

definition candidate_rank :: "resolution_candidate \<Rightarrow> nat \<times> pystr" where
  "candidate_rank c = (position_of (rc_product_type c) all_product_types, rc_product_id c)"

definition fuzzy_result :: "text_library \<Rightarrow> pystr \<Rightarrow> indexed_product list \<Rightarrow> resolution_result result" where
  "fuzzy_result lib query eligible =
     rbind (traverse (\<lambda>e. candidate_of e FUZZY_CANDIDATE (fuzzy_score lib query e))
              (filter (\<lambda>e. ip_names e \<noteq> []) eligible)) (\<lambda>cs.
       make_resolution_result None
         (take 5 (filter (\<lambda>c. rc_score c \<ge> 4000)
            (py_sorted (\<lambda>c. (- rc_score c, candidate_rank c)) cs))))"

text \<open>The exact names, one or several, then the fuzzy candidates.\<close>

definition name_result :: "text_library \<Rightarrow> pystr \<Rightarrow> bool \<Rightarrow> indexed_product list \<Rightarrow> resolution_result result" where
  "name_result lib query by_name eligible =
     (case (if by_name then filter (\<lambda>e. query \<in> set (ip_names e)) eligible else []) of
        [e] \<Rightarrow> single_result (candidate_of e EXACT_NAME 9800)
      | e # f # rest \<Rightarrow>
          rbind (traverse (\<lambda>e. candidate_of e EXACT_NAME 9800) (e # f # rest)) (\<lambda>cs.
            make_resolution_result None (take 5 (py_sorted candidate_rank cs)))
      | [] \<Rightarrow> if \<not> by_name then make_resolution_result None [] else fuzzy_result lib query eligible)"

definition resolve_entity ::
  "text_library \<Rightarrow> indexed_product list \<Rightarrow> entity_mention \<Rightarrow> product_type list \<Rightarrow> resolution_result result" where
  "resolve_entity lib index mention pts =
     (if pts = [] \<or> \<not> distinct pts then Inl (ValueError ''resolution product types differ'')
      else
       let query = normalize_product_text lib (em_text mention);
           eligible = eligible_entries index pts
       in case next_or_none (primary_match mention query) eligible of
            Some e \<Rightarrow> single_result (candidate_of e EXACT_PRODUCT_ID 10000)
          | None \<Rightarrow>
            (case next_or_none (secondary_match mention query) eligible of
               Some e \<Rightarrow> single_result (candidate_of e EXACT_IDENTIFIER 9900)
             | None \<Rightarrow> name_result lib query (em_identifier_type mention \<in> set [UNKNOWN, NAME]) eligible))"

section \<open>holding_resolver.py\<close>

text \<open>\<open>_from_rows\<close>: complete rows only, first occurrences, in a deterministic order.\<close>

definition holding_row :: "db_value list \<Rightarrow> holding_candidate result" where
  "holding_row row =
     (case row of
        [DBScalar (SStr a), DBScalar (SStr b), DBScalar (SStr c)] \<Rightarrow>
          if a = [] \<or> b = [] \<or> c = [] then Inl (TypeError ''holding resolution row differs'')
          else validate_holding_candidate
                 \<lparr>hc_constituent_identifier = a, hc_constituent_identifier_type = b, hc_display_name = c\<rparr>
      | _ \<Rightarrow> Inl (TypeError ''holding resolution row differs''))"

definition holding_from_rows :: "text_library \<Rightarrow> db_value list list \<Rightarrow> holding_candidate list result" where
  "holding_from_rows lib rows =
     rbind (traverse holding_row rows) (\<lambda>cs.
       Inr (py_sorted (\<lambda>c. (hc_constituent_identifier c, hc_constituent_identifier_type c,
                            normalize_product_text lib (hc_display_name c), hc_display_name c))
              (fromkeys cs)))"

text \<open>\<open>_deduplicate_pairs\<close>: the first candidate of each (identifier, type) pair.\<close>

fun first_by :: "('a \<Rightarrow> 'k) \<Rightarrow> 'a list \<Rightarrow> 'a list" where
  "first_by key [] = []"
| "first_by key (x # xs) = x # filter (\<lambda>y. key y \<noteq> key x) (first_by key xs)"

definition constituent_pair :: "holding_candidate \<Rightarrow> pystr \<times> pystr" where
  "constituent_pair c = (hc_constituent_identifier c, hc_constituent_identifier_type c)"

definition resolve_holding ::
  "text_library \<Rightarrow> holding_candidate list \<Rightarrow> pystr \<Rightarrow> holding_result result" where
  "resolve_holding lib candidates text =
     (if text = [] then Inl (TypeError ''holding constituent must be a nonempty exact string'')
      else if candidates = []
      then rbind (validate_holding_candidate
               \<lparr>hc_constituent_identifier = text, hc_constituent_identifier_type = cp ''query_text_exact'',
                hc_display_name = text\<rparr>) (\<lambda>c. make_holding_result (Some c) [c])
      else
       let identifier_matches = filter (\<lambda>c. hc_constituent_identifier c = text) candidates;
           raw_matches = (if identifier_matches \<noteq> [] then identifier_matches
             else filter (\<lambda>c. normalize_product_text lib (hc_display_name c) = normalize_product_text lib text)
                    candidates);
           matches = first_by constituent_pair raw_matches
       in make_holding_result (if length matches = 1 then Some (hd matches) else None) (take 5 matches))"

section \<open>Facts about the resolver\<close>

lemma position_of_inj: "x \<in> set ys \<Longrightarrow> y \<in> set ys \<Longrightarrow> position_of x ys = position_of y ys \<Longrightarrow> x = y"
  by (induction ys) (auto split: if_splits)

lemma set_first_by_keys: "key ` set (first_by key xs) = key ` set xs"
proof (induction xs)
  case (Cons x xs)
  have "key ` {y \<in> set (first_by key xs). key y \<noteq> key x} = key ` set (first_by key xs) - {key x}" by auto
  with Cons show ?case by auto
qed simp

lemma set_first_by_subset: "set (first_by key xs) \<subseteq> set xs"
  by (induction xs) auto

lemma distinct_first_by: "distinct (map key (first_by key xs))"
  by (induction xs) (auto simp: distinct_map inj_on_def)

lemma set_eligible [simp]:
  "set (eligible_entries index pts) = {e \<in> set index. ip_product_type e \<in> set pts}"
  by (auto simp: eligible_entries_def)

lemma eligible_mset:
  assumes "mset index = mset index'" and "inj_on (\<lambda>e. (ip_product_type e, ip_product_id e)) (set index)"
  shows "eligible_entries index pts = eligible_entries index' pts"
  unfolding eligible_entries_def
proof (rule py_sorted_mset_cong)
  show "mset (filter (\<lambda>e. ip_product_type e \<in> set pts) index) = mset (filter (\<lambda>e. ip_product_type e \<in> set pts) index')"
    using assms(1) by (simp add: mset_filter)
  show "inj_on (\<lambda>e. (position_of (ip_product_type e) pts, ip_product_id e))
          (set (filter (\<lambda>e. ip_product_type e \<in> set pts) index))"
  proof (rule inj_onI)
    fix a b
    assume "a \<in> set (filter (\<lambda>e. ip_product_type e \<in> set pts) index)"
      "b \<in> set (filter (\<lambda>e. ip_product_type e \<in> set pts) index)"
      and eq: "(position_of (ip_product_type a) pts, ip_product_id a) = (position_of (ip_product_type b) pts, ip_product_id b)"
    then have "a \<in> set index" "b \<in> set index" "ip_product_type a = ip_product_type b"
      using position_of_inj [of "ip_product_type a" pts "ip_product_type b"] by auto
    with eq assms(2) show "a = b" by (auto simp: inj_on_def)
  qed
qed

lemma candidate_of_Inr:
  "candidate_of e k s = Inr c \<Longrightarrow>
     c = \<lparr>rc_product_id = ip_product_id e, rc_product_type = ip_product_type e, rc_name = ip_name e,
          rc_match_kind = k, rc_score = s\<rparr>"
  by (auto simp: candidate_of_def validate_candidate_def split: if_splits)

lemma single_result_Inr:
  "single_result (candidate_of e k s) = Inr r \<Longrightarrow>
     \<exists>c. candidate_of e k s = Inr c \<and> r = \<lparr>rr_selected = Some c, rr_candidates = [c]\<rparr>"
  by (auto simp: single_result_def make_resolution_result_def rbind_eq_Inr_iff)

lemma traverse_candidates_types:
  assumes "traverse (\<lambda>e. candidate_of e k (s e)) es = Inr cs" and "c \<in> set cs"
  shows "\<exists>e \<in> set es. rc_product_type c = ip_product_type e \<and> rc_product_id c = ip_product_id e \<and>
           rc_match_kind c = k \<and> rc_score c = s e"
proof -
  from assms obtain i where i: "i < length cs" "c = cs ! i" by (auto simp: in_set_conv_nth)
  with assms(1) have "candidate_of (es ! i) k (s (es ! i)) = Inr c" "i < length es"
    by (auto simp: traverse_eq_Inr_iff list_all2_conv_all_nth)
  then show ?thesis by (auto dest!: candidate_of_Inr intro!: bexI [of _ "es ! i"])
qed

lemma make_resolution_result_Inr:
  "make_resolution_result sel cs = Inr r \<longleftrightarrow> length cs \<le> 5 \<and> r = \<lparr>rr_selected = sel, rr_candidates = cs\<rparr>"
  by (auto simp: make_resolution_result_def)

text \<open>Every successful resolution is one of these: one exact match, or unselected candidates.\<close>

definition resolution_ok :: "indexed_product list \<Rightarrow> product_type list \<Rightarrow> resolution_result \<Rightarrow> bool" where
  "resolution_ok index pts r \<longleftrightarrow>
     length (rr_candidates r) \<le> 5 \<and>
     (\<forall>c \<in> set (rr_candidates r). rc_product_type c \<in> set pts \<and>
        (\<exists>e \<in> set index. ip_product_id e = rc_product_id c \<and> ip_product_type e = rc_product_type c) \<and>
        (rc_match_kind c = FUZZY_CANDIDATE \<longrightarrow> 4000 \<le> rc_score c)) \<and>
     (case rr_selected r of
        None \<Rightarrow> True
      | Some c \<Rightarrow> rr_candidates r = [c] \<and> rc_match_kind c \<noteq> FUZZY_CANDIDATE)"

lemma single_result_ok:
  assumes "single_result (candidate_of e k s) = Inr r" and "e \<in> set index" and "ip_product_type e \<in> set pts"
    and "k \<noteq> FUZZY_CANDIDATE"
  shows "resolution_ok index pts r"
  using single_result_Inr [OF assms(1)] assms(2-)
  by (auto simp: resolution_ok_def dest!: candidate_of_Inr)

lemma unselected_ok:
  assumes "traverse (\<lambda>e. candidate_of e k (s e)) es = Inr cs" and "set es \<subseteq> set (eligible_entries index pts)"
    and "make_resolution_result None (take 5 ds) = Inr r" and "set ds \<subseteq> set cs"
    and "\<And>d. d \<in> set ds \<Longrightarrow> k = FUZZY_CANDIDATE \<Longrightarrow> 4000 \<le> rc_score d"
  shows "resolution_ok index pts r"
proof -
  have r: "r = \<lparr>rr_selected = None, rr_candidates = take 5 ds\<rparr>"
    using assms(3) by (simp add: make_resolution_result_Inr)
  have "rc_product_type c \<in> set pts \<and>
        (\<exists>e \<in> set index. ip_product_id e = rc_product_id c \<and> ip_product_type e = rc_product_type c) \<and>
        (rc_match_kind c = FUZZY_CANDIDATE \<longrightarrow> 4000 \<le> rc_score c)" if "c \<in> set (take 5 ds)" for c
  proof -
    have c: "c \<in> set ds" using that by (rule in_set_takeD)
    with assms(4) traverse_candidates_types [OF assms(1)] obtain e where
      "e \<in> set es" "rc_product_type c = ip_product_type e" "rc_product_id c = ip_product_id e" "rc_match_kind c = k"
      by blast
    with assms(2) assms(5) [OF c] show ?thesis by auto
  qed
  then show ?thesis by (auto simp: resolution_ok_def r)
qed

lemma fuzzy_result_ok:
  assumes "fuzzy_result lib query (eligible_entries index pts) = Inr r"
  shows "resolution_ok index pts r"
proof -
  from assms obtain cs where
    cs: "traverse (\<lambda>e. candidate_of e FUZZY_CANDIDATE (fuzzy_score lib query e))
           (filter (\<lambda>e. ip_names e \<noteq> []) (eligible_entries index pts)) = Inr cs"
    and m: "make_resolution_result None
       (take 5 (filter (\<lambda>c. rc_score c \<ge> 4000) (py_sorted (\<lambda>c. (- rc_score c, candidate_rank c)) cs))) = Inr r"
    by (auto simp: fuzzy_result_def rbind_eq_Inr_iff)
  show ?thesis by (rule unselected_ok [OF cs _ m]) auto
qed

lemma name_result_ok:
  assumes "name_result lib query by_name (eligible_entries index pts) = Inr r"
  shows "resolution_ok index pts r"
proof -
  define ns where "ns = (if by_name then filter (\<lambda>e. query \<in> set (ip_names e)) (eligible_entries index pts) else [])"
  have sub: "set ns \<subseteq> set (eligible_entries index pts)" by (auto simp: ns_def)
  note r = assms [unfolded name_result_def ns_def [symmetric]]
  consider "ns = []" | e where "ns = [e]" | e f rest where "ns = e # f # rest"
    by (metis list.exhaust)
  then show ?thesis
  proof cases
    case 1
    with r fuzzy_result_ok show ?thesis
      by (auto simp: make_resolution_result_Inr resolution_ok_def split: if_splits)
  next
    case 2
    with sub have "e \<in> set index" "ip_product_type e \<in> set pts" by auto
    with r 2 show ?thesis by (intro single_result_ok [of e EXACT_NAME 9800]) auto
  next
    case 3
    with r obtain cs where cs: "traverse (\<lambda>e. candidate_of e EXACT_NAME 9800) ns = Inr cs"
      "make_resolution_result None (take 5 (py_sorted candidate_rank cs)) = Inr r"
      unfolding 3 list.case rbind_eq_Inr_iff by blast
    show ?thesis by (rule unselected_ok [OF cs(1) sub cs(2)]) auto
  qed
qed

lemma resolve_entity_ok:
  assumes "resolve_entity lib index mention pts = Inr r"
  shows "resolution_ok index pts r"
proof -
  let ?q = "normalize_product_text lib (em_text mention)" and ?el = "eligible_entries index pts"
  have el: "e \<in> set index \<and> ip_product_type e \<in> set pts" if "next_or_none p ?el = Some e" for p e
    using next_or_none_Some_iff [OF that] by simp
  from assms have "case next_or_none (primary_match mention ?q) ?el of
            Some e \<Rightarrow> single_result (candidate_of e EXACT_PRODUCT_ID 10000) = Inr r
          | None \<Rightarrow>
            (case next_or_none (secondary_match mention ?q) ?el of
               Some e \<Rightarrow> single_result (candidate_of e EXACT_IDENTIFIER 9900) = Inr r
             | None \<Rightarrow> name_result lib ?q (em_identifier_type mention \<in> set [UNKNOWN, NAME]) ?el = Inr r)"
    by (simp add: resolve_entity_def Let_def split: if_split_asm option.splits)
  then show ?thesis
    using el name_result_ok single_result_ok
    by (auto split: option.splits simp del: set_eligible)
qed

text \<open>
  What plan validation needs of a resolver: a selected candidate stands alone and is of one of the
  requested product types.
\<close>

locale entity_resolver =
  fixes resolve :: "entity_mention \<Rightarrow> product_type list \<Rightarrow> resolution_result result"
  assumes selected_alone: "resolve m pts = Inr r \<Longrightarrow> rr_selected r = Some c \<Longrightarrow> rr_candidates r = [c]"
    and selected_type: "resolve m pts = Inr r \<Longrightarrow> rr_selected r = Some c \<Longrightarrow> rc_product_type c \<in> set pts"
begin

lemma selected_first:
  "resolve m pts = Inr r \<Longrightarrow> rr_selected r = Some c \<Longrightarrow> rr_candidates r \<noteq> [] \<and> c = hd (rr_candidates r)"
  by (simp add: selected_alone)

end

interpretation resolver: entity_resolver "resolve_entity lib index" for lib index
proof
  fix m pts r c
  assume r: "resolve_entity lib index m pts = Inr r" and c: "rr_selected r = Some c"
  from resolve_entity_ok [OF r] c show "rr_candidates r = [c]" by (simp add: resolution_ok_def)
  with resolve_entity_ok [OF r] show "rc_product_type c \<in> set pts" by (simp add: resolution_ok_def)
qed

section \<open>Properties\<close>

text \<open>A small index and a text library with which the witnesses compute.\<close>

definition example_library :: text_library where
  "example_library = \<lparr>tl_nfkc = (\<lambda>s. s), tl_casefold = (\<lambda>s. s), tl_score = (\<lambda>a b. if a = b then 10000 else 0)\<rparr>"

definition example_index :: "indexed_product list" where
  "example_index =
     [\<lparr>ip_product_id = cp ''KR7'', ip_product_type = DOMESTIC_ETF, ip_name = cp ''Alpha ETF'',
       ip_identifiers = [(PRODUCT_ID, cp ''KR7''), (MARKET_IDENTIFIER, cp ''069500'')], ip_names = [cp ''Alpha ETF'']\<rparr>,
      \<lparr>ip_product_id = cp ''F1'', ip_product_type = PUBLIC_FUND, ip_name = cp ''Beta'',
       ip_identifiers = [(PRODUCT_ID, cp ''F1'')], ip_names = [cp ''Beta'']\<rparr>]"



text \<open>C14. Resolution is deterministic in the index order. Two indexes with the same entries in any
  order resolve every mention to the same result, when product identities are unique.\<close>

theorem entity_resolution_order_independent:
  assumes "mset index = mset index'" and "inj_on (\<lambda>e. (ip_product_type e, ip_product_id e)) (set index)"
  shows "resolve_entity lib index mention pts = resolve_entity lib index' mention pts"
  unfolding resolve_entity_def by (simp only: eligible_mset [OF assms])

theorem entity_resolution_order_independent_witness:
  "resolve_entity example_library example_index \<lparr>em_text = cp ''Beta'', em_identifier_type = NAME\<rparr> [PUBLIC_FUND] =
   resolve_entity example_library (rev example_index) \<lparr>em_text = cp ''Beta'', em_identifier_type = NAME\<rparr> [PUBLIC_FUND]"
  by (rule entity_resolution_order_independent) (simp_all add: example_index_def)

text \<open>A product identifier wins. When a mention of unknown or product-identifier type names the
  product identifier of an indexed product of a requested type, the resolver selects a product with
  that identifier with the top score, whatever else the text may match.\<close>

theorem entity_product_id_wins:
  assumes "pts \<noteq> []" and "distinct pts" and "em_identifier_type mention \<in> {UNKNOWN, PRODUCT_ID}"
    and "e \<in> set index" and "ip_product_type e \<in> set pts"
    and "(PRODUCT_ID, normalize_product_text lib (em_text mention)) \<in> set (ip_identifiers e)"
    and "\<And>e. e \<in> set index \<Longrightarrow> bounded_text 1 300 (ip_product_id e) \<and> bounded_text 1 500 (ip_name e)"
  shows "\<exists>r c f. resolve_entity lib index mention pts = Inr r \<and> rr_selected r = Some c \<and>
     rc_match_kind c = EXACT_PRODUCT_ID \<and> rc_score c = 10000 \<and> f \<in> set index \<and>
     rc_product_id c = ip_product_id f \<and> rc_product_type c = ip_product_type f \<and>
     (PRODUCT_ID, normalize_product_text lib (em_text mention)) \<in> set (ip_identifiers f)"
proof -
  let ?q = "normalize_product_text lib (em_text mention)" and ?el = "eligible_entries index pts"
  have "primary_match mention ?q e" using assms(3,6) by (auto simp: primary_match_def)
  with assms(4,5) obtain f where f: "next_or_none (primary_match mention ?q) ?el = Some f"
    using next_or_none_None_iff [of "primary_match mention ?q" ?el] by (cases "next_or_none (primary_match mention ?q) ?el") auto
  from next_or_none_Some_iff [OF this] have fi: "f \<in> set index" "(PRODUCT_ID, ?q) \<in> set (ip_identifiers f)"
    by (auto simp: primary_match_def)
  with f assms(1,2) assms(7) [OF fi(1)] show ?thesis
    by (simp add: resolve_entity_def single_result_def candidate_of_def validate_candidate_def make_resolution_result_def)
       blast
qed

theorem entity_product_id_wins_witness:
  "\<exists>r c. resolve_entity example_library example_index \<lparr>em_text = cp ''F1'', em_identifier_type = UNKNOWN\<rparr>
       [DOMESTIC_ETF, PUBLIC_FUND] = Inr r \<and> rr_selected r = Some c \<and> rc_match_kind c = EXACT_PRODUCT_ID"
proof -
  let ?m = "\<lparr>em_text = cp ''F1'', em_identifier_type = UNKNOWN\<rparr>"
  have "(PRODUCT_ID, normalize_product_text example_library (em_text ?m)) \<in> set (ip_identifiers (example_index ! 1))"
    "list_all (\<lambda>e. bounded_text 1 300 (ip_product_id e) \<and> bounded_text 1 500 (ip_name e)) example_index"
    by code_simp+
  moreover have "example_index ! 1 \<in> set example_index" "ip_product_type (example_index ! 1) = PUBLIC_FUND"
    by (simp_all add: example_index_def)
  ultimately show ?thesis
    using entity_product_id_wins [of "[DOMESTIC_ETF, PUBLIC_FUND]" ?m "example_index ! 1" example_index example_library]
    by (auto simp: list_all_iff)
qed

text \<open>Holding resolution. Over a non-empty relation a constituent is selected exactly when the
  candidates that match it, by identifier or else by normalized name, all name one
  (identifier, type) pair; the candidates returned never repeat a pair.\<close>

theorem holding_selected_iff_unique:
  assumes "resolve_holding lib candidates text = Inr r" and "candidates \<noteq> []"
  shows "(hr_selected r \<noteq> None \<longleftrightarrow>
      card (constituent_pair ` (if \<exists>c \<in> set candidates. hc_constituent_identifier c = text
        then {c \<in> set candidates. hc_constituent_identifier c = text}
        else {c \<in> set candidates. normalize_product_text lib (hc_display_name c) = normalize_product_text lib text})) = 1) \<and>
     distinct (map constituent_pair (hr_candidates r)) \<and> set (hr_candidates r) \<subseteq> set candidates"
proof -
  define raw where "raw = (if filter (\<lambda>c. hc_constituent_identifier c = text) candidates \<noteq> []
     then filter (\<lambda>c. hc_constituent_identifier c = text) candidates
     else filter (\<lambda>c. normalize_product_text lib (hc_display_name c) = normalize_product_text lib text) candidates)"
  let ?m = "first_by constituent_pair raw"
  have r: "r = \<lparr>hr_selected = if length ?m = 1 then Some (hd ?m) else None, hr_candidates = take 5 ?m\<rparr>"
    using assms by (auto simp: resolve_holding_def make_holding_result_def Let_def raw_def split: if_splits)
  have s: "set raw = (if \<exists>c \<in> set candidates. hc_constituent_identifier c = text
        then {c \<in> set candidates. hc_constituent_identifier c = text}
        else {c \<in> set candidates. normalize_product_text lib (hc_display_name c) = normalize_product_text lib text})"
    by (auto simp: raw_def filter_empty_conv)
  have "length ?m = card (constituent_pair ` set raw)"
    using distinct_card [OF distinct_first_by [of constituent_pair raw]] by (simp add: set_first_by_keys)
  moreover have "distinct (map constituent_pair (take 5 ?m))"
    using distinct_first_by [of constituent_pair raw] by (metis distinct_take take_map)
  moreover have "set (take 5 ?m) \<subseteq> set candidates"
    using set_first_by_subset [of constituent_pair raw] set_take_subset [of 5 ?m] s by (auto split: if_splits)
  ultimately show ?thesis unfolding s [symmetric] r by simp
qed

theorem holding_selected_iff_unique_witness:
  "\<exists>r. resolve_holding example_library
      [\<lparr>hc_constituent_identifier = cp ''005930'', hc_constituent_identifier_type = cp ''ticker'', hc_display_name = cp ''S''\<rparr>]
      (cp ''S'') = Inr r \<and> distinct (map constituent_pair (hr_candidates r)) \<and> hr_selected r \<noteq> None"
proof -
  let ?cs = "[\<lparr>hc_constituent_identifier = cp ''005930'', hc_constituent_identifier_type = cp ''ticker'', hc_display_name = cp ''S''\<rparr>]"
  let ?r = "resolve_holding example_library ?cs (cp ''S'')"
  have "case ?r of Inl _ \<Rightarrow> False | Inr r \<Rightarrow> hr_selected r \<noteq> None" by code_simp
  then obtain r where r: "?r = Inr r" "hr_selected r \<noteq> None" by (cases ?r) auto
  with holding_selected_iff_unique [OF r(1)] show ?thesis by blast
qed

end
