(* ===== verification/Segments.thy ===== *)
theory Segments
  imports Query_Fields Entity
begin

text \<open>
  From a plan to its execution bundle: \<open>finproof/query/semantic_validator.py\<close>, which checks a
  plan against the closed field registry, and \<open>finproof/query/segmenter.py\<close>, which splits a
  validated plan into one native segment per product type and groups what they compare.
\<close>

section \<open>semantic_validator.py\<close>

datatype execution_mode = EVALUATION | EXTENDED_DEMO

record resolution_bundle =
  rz_results :: "resolution_result list"
  rz_holding_constituent :: "holding_result option"

record validation_context =
  vc_as_of_date :: date
  vc_execution_mode :: execution_mode

record validated_query_plan =
  vp_plan :: query_plan
  vp_resolutions :: resolution_bundle
  vp_context :: validation_context

definition projections_for :: "field_registry \<Rightarrow> pystr \<Rightarrow> product_type list \<Rightarrow> field_projection list" where
  "projections_for fr field_id pts = List.map_filter (\<lambda>pt. map_of (fr_projections fr) (field_id, pt)) pts"

definition value_matches :: "scalar \<Rightarrow> pystr \<Rightarrow> bool" where
  "value_matches v value_type =
     (if value_type = cp ''string'' \<or> value_type = cp ''ordinal_rating''
      then (case v of SStr _ \<Rightarrow> True | _ \<Rightarrow> False)
      else if value_type = cp ''boolean'' then (case v of SBool _ \<Rightarrow> True | _ \<Rightarrow> False)
      else if value_type = cp ''integer'' then (case v of SInt _ \<Rightarrow> True | _ \<Rightarrow> False)
      else if value_type = cp ''decimal'' then (case v of SInt _ \<Rightarrow> True | SDec _ \<Rightarrow> True | _ \<Rightarrow> False)
      else if value_type = cp ''date'' then (case v of SStr s \<Rightarrow> fromisoformat s \<noteq> None | _ \<Rightarrow> False)
      else False)"

text \<open>\<open>value if isinstance(value, tuple) else (value,)\<close>, for a value that is not \<open>None\<close>.\<close>

fun clause_values :: "clause_value \<Rightarrow> scalar list" where
  "clause_values CNone = []"
| "clause_values (CScalar s) = [s]"
| "clause_values (CTuple vs) = vs"

definition requested_fields :: "query_plan \<Rightarrow> pystr set" where
  "requested_fields p =
     set (map fc_field (qp_filters p) @ qp_metrics p @ map ss_field (qp_sort p)
          @ (case qp_aggregation p of
               None \<Rightarrow> []
             | Some a \<Rightarrow> ag_group_by a @ (case ag_field a of None \<Rightarrow> [] | Some f \<Rightarrow> [f])))"

definition check_resolutions :: "query_plan \<Rightarrow> resolution_bundle \<Rightarrow> unit result" where
  "check_resolutions p rz =
     rbind (raise_if (length (rz_results rz) \<noteq> length (qp_entities p))
              (ValueError ''entity resolution count differs'')) (\<lambda>_.
       raise_if (list_ex (\<lambda>r. case rr_selected r of
             None \<Rightarrow> True
           | Some c \<Rightarrow> (case rr_candidates r of
                [] \<Rightarrow> True
              | d # _ \<Rightarrow> c \<noteq> d \<or> rc_product_type c \<notin> set (qp_product_types p))) (rz_results rz))
         (ValueError ''entity resolution is not uniquely selected''))"

abbreviation holding_field :: pystr where "holding_field \<equiv> cp ''holding_constituent''"

definition check_holding :: "query_plan \<Rightarrow> resolution_bundle \<Rightarrow> unit result" where
  "check_holding p rz =
     (let holding_filters = filter (\<lambda>c. fc_field c = holding_field) (qp_filters p)
      in if length holding_filters > 1 then Inl (ValueError ''holding constituent filter cardinality differs'')
         else if holding_filters \<noteq> []
         then (if DOMESTIC_BOND \<in> set (qp_product_types p)
               then Inl (ValueError ''holding constituent cannot be combined with domestic bond'')
               else case rz_holding_constituent rz of
                      None \<Rightarrow> Inl (ValueError ''holding resolution is not uniquely selected'')
                    | Some h \<Rightarrow> (case (hr_selected h, hr_candidates h) of
                        (Some c, [d]) \<Rightarrow> raise_if (c \<noteq> d) (ValueError ''holding resolution is not uniquely selected'')
                      | _ \<Rightarrow> Inl (ValueError ''holding resolution is not uniquely selected'')))
         else raise_if (rz_holding_constituent rz \<noteq> None) (ValueError ''holding resolution lacks a relation filter''))"

definition check_filter :: "field_registry \<Rightarrow> product_type list \<Rightarrow> filter_clause \<Rightarrow> unit result" where
  "check_filter fr pts c =
     (let definition' = map_of (rb_fields (fr_registries fr)) (fc_field c)
      in if fc_field c = holding_field
         then (case definition' of
                 None \<Rightarrow> Inl (ValueError ''holding filter differs'')
               | Some d \<Rightarrow>
                   raise_if (fc_operator c \<notin> set (fd_operators d)
                       \<or> (case fc_value c of CScalar (SStr _) \<Rightarrow> False | _ \<Rightarrow> True)
                       \<or> list_ex (\<lambda>pt. pt \<notin> set (fd_product_types d)) pts)
                     (ValueError ''holding filter differs''))
         else let projections = projections_for fr (fc_field c) pts
              in case definition' of
                   None \<Rightarrow> Inl (ValueError ''filter field has no selected product target'')
                 | Some d \<Rightarrow>
                     if projections = [] then Inl (ValueError ''filter field has no selected product target'')
                     else if fc_operator c \<notin> set (fd_operators d)
                     then Inl (ValueError ''filter operator is not registered'')
                     else raise_if (list_ex (\<lambda>p. list_ex (\<lambda>v. \<not> value_matches v (fp_value_type p))
                              (clause_values (fc_value c))) projections)
                            (ValueError ''filter value type differs''))"

definition check_sort :: "field_registry \<Rightarrow> product_type list \<Rightarrow> sort_spec \<Rightarrow> unit result" where
  "check_sort fr pts s =
     (case map_of (rb_fields (fr_registries fr)) (ss_field s) of
        None \<Rightarrow> Inl (ValueError ''sort field is not registered'')
      | Some d \<Rightarrow> raise_if (\<not> fd_sortable d \<or> projections_for fr (ss_field s) pts = [])
                    (ValueError ''sort field is not registered''))"

definition check_aggregation :: "field_registry \<Rightarrow> product_type list \<Rightarrow> aggregation_spec \<Rightarrow> unit result" where
  "check_aggregation fr pts a =
     rbind (case ag_field a of
              None \<Rightarrow> raise_if (ag_function a \<notin> set (rb_targetless_aggregations (fr_registries fr)))
                        (ValueError ''aggregation operation is not registered'')
            | Some f \<Rightarrow> (case map_of (rb_fields (fr_registries fr)) f of
                 None \<Rightarrow> Inl (ValueError ''aggregation target is not registered'')
               | Some d \<Rightarrow> raise_if (ag_function a \<notin> set (fd_aggregations d) \<or> projections_for fr f pts = [])
                             (ValueError ''aggregation target is not registered''))) (\<lambda>_.
       raise_if (list_ex (\<lambda>g. projections_for fr g pts = []) (ag_group_by a))
         (ValueError ''aggregation group is not registered''))"

definition check_executable ::
  "field_registry \<Rightarrow> query_plan \<Rightarrow> resolution_bundle \<Rightarrow> unit result" where
  "check_executable fr p rz =
     rbind (case qp_product_types p of
              [] \<Rightarrow> Inl IndexError
            | [pt] \<Rightarrow> raise_if (qp_result_grain p \<noteq> native_grain pt) (ValueError ''product type and result grain differ'')
            | _ \<Rightarrow> raise_if (qp_result_grain p \<noteq> PRODUCT) (ValueError ''product type and result grain differ'')) (\<lambda>_.
     rbind (raise_if (requested_fields p \<inter> set [cp ''saleable'', cp ''mirae_saleable''] \<noteq> {}
                \<and> set (qp_product_types p) \<inter> set [OVERSEAS_ETF, OVERSEAS_ETN, PUBLIC_FUND] \<noteq> {})
              (ValueError ''validated eligibility is unsupported for product type'')) (\<lambda>_.
     rbind (check_resolutions p rz) (\<lambda>_.
     rbind (check_holding p rz) (\<lambda>_.
     rbind (traverse (check_filter fr (qp_product_types p)) (qp_filters p)) (\<lambda>_.
     rbind (raise_if (list_ex (\<lambda>m. projections_for fr m (qp_product_types p) = []) (qp_metrics p))
              (ValueError ''metric has no selected product target'')) (\<lambda>_.
     rbind (raise_if (list_ex (\<lambda>t. list_ex (\<lambda>m. map_of (fr_projections fr) (m, mt_product_type t) = None)
                (mt_metrics t)) (qp_metric_targets p)) (ValueError ''metric target is not registered'')) (\<lambda>_.
     rbind (traverse (check_sort fr (qp_product_types p)) (qp_sort p)) (\<lambda>_.
       case qp_aggregation p of None \<Rightarrow> Inr () | Some a \<Rightarrow> check_aggregation fr (qp_product_types p) a))))))))"

definition validate_semantics_plan ::
  "field_registry \<Rightarrow> query_plan \<Rightarrow> resolution_bundle \<Rightarrow> validation_context \<Rightarrow> validated_query_plan result" where
  "validate_semantics_plan fr p rz ctx =
     rbind (raise_if (qp_as_of_date p \<noteq> vc_as_of_date ctx) (ValueError ''validation as-of date differs'')) (\<lambda>_.
     rbind (if terminal_intent (qp_intent p) then Inr () else check_executable fr p rz) (\<lambda>_.
       Inr \<lparr>vp_plan = p, vp_resolutions = rz, vp_context = ctx\<rparr>))"

section \<open>segmenter.py\<close>

record execution_bundle =
  eb_validated_plan :: validated_query_plan
  eb_top_k_scope :: top_k_scope
  eb_segments :: "execution_segment list"
  eb_comparison_partitions :: "comparison_partition list"
  eb_response_grain :: result_grain
  eb_limitations :: "execution_limitation_code list"

text \<open>The literals of the reviewed region binding: the Korean name of the United States, and its source text.\<close>

definition ko_us :: pystr where "ko_us = [48120, 44397]"
definition source_us :: pystr where "source_us = cp ''United States of America''"

definition is_overseas :: "product_type \<Rightarrow> bool" where
  "is_overseas pt \<longleftrightarrow> pt = OVERSEAS_ETF \<or> pt = OVERSEAS_ETN"

definition canonical_filter_literal :: "filter_clause \<Rightarrow> product_type \<Rightarrow> filter_clause" where
  "canonical_filter_literal c pt =
     (if is_overseas pt \<and> fc_field c = cp ''region'' \<and> fc_operator c = EQ \<and> fc_value c = CScalar (SStr ko_us)
      then c\<lparr>fc_value := CScalar (SStr source_us)\<rparr> else c)"

definition entity_ids :: "resolution_bundle \<Rightarrow> product_type \<Rightarrow> pystr list" where
  "entity_ids rz pt =
     map rc_product_id (filter (\<lambda>c. rc_product_type c = pt) (List.map_filter rr_selected (rz_results rz)))"

definition holding_filter_of :: "resolution_bundle \<Rightarrow> holding_constituent_filter option" where
  "holding_filter_of rz =
     (case rz_holding_constituent rz of
        None \<Rightarrow> None
      | Some h \<Rightarrow> map_option (\<lambda>c. \<lparr>hf_constituent_identifier = hc_constituent_identifier c,
                                   hf_constituent_identifier_type = hc_constituent_identifier_type c\<rparr>) (hr_selected h))"

abbreviation projected :: "field_registry \<Rightarrow> pystr \<Rightarrow> product_type \<Rightarrow> bool" where
  "projected fr f pt \<equiv> map_of (fr_projections fr) (f, pt) \<noteq> None"

definition metric_target_table :: "query_plan \<Rightarrow> (product_type \<times> pystr list) list" where
  "metric_target_table p = rev (map (\<lambda>t. (mt_product_type t, mt_metrics t)) (qp_metric_targets p))"

definition segment_filters ::
  "field_registry \<Rightarrow> query_plan \<Rightarrow> resolution_bundle \<Rightarrow> product_type \<Rightarrow> filter_clause list result" where
  "segment_filters fr p rz pt =
     (let own = map (\<lambda>c. canonical_filter_literal c pt) (filter (\<lambda>c. projected fr (fc_field c) pt) (qp_filters p))
      in if entity_ids rz pt = [] then Inr own
         else rbind (validate_value_shape
                \<lparr>fc_field = cp ''product_id'', fc_operator = IN, fc_has_value = True,
                 fc_value = CTuple (map SStr (entity_ids rz pt))\<rparr>) (\<lambda>c. Inr (own @ [c])))"

definition segment_metrics :: "field_registry \<Rightarrow> query_plan \<Rightarrow> product_type \<Rightarrow> pystr list" where
  "segment_metrics fr p pt =
     (case map_of (metric_target_table p) pt of
        Some ms \<Rightarrow> ms
      | None \<Rightarrow> filter (\<lambda>m. projected fr m pt) (qp_metrics p))"

definition segment_sort :: "field_registry \<Rightarrow> query_plan \<Rightarrow> product_type \<Rightarrow> sort_spec list result" where
  "segment_sort fr p pt =
     filter_result (\<lambda>s.
       if \<not> projected fr (ss_field s) pt then Inr False
       else if qp_metric_targets p = [] \<or> ss_field s \<notin> set (qp_metrics p) then Inr True
       else (case map_of (metric_target_table p) pt of
               None \<Rightarrow> Inl (KeyError (product_type_value pt))
             | Some ms \<Rightarrow> Inr (ss_field s \<in> set ms))) (qp_sort p)"

definition make_segment ::
  "field_registry \<Rightarrow> query_plan \<Rightarrow> resolution_bundle \<Rightarrow> product_type \<Rightarrow> execution_segment result" where
  "make_segment fr p rz pt =
     rbind (segment_filters fr p rz pt) (\<lambda>filters.
     rbind (segment_sort fr p pt) (\<lambda>sort.
       Inr \<lparr>sg_product_type = pt, sg_native_result_grain = native_grain pt, sg_filters = filters,
            sg_metrics = segment_metrics fr p pt, sg_sort = sort, sg_aggregation = qp_aggregation p,
            sg_top_k = qp_top_k p, sg_holding_constituent_filter = holding_filter_of rz\<rparr>))"

definition prune_overseas_1y :: "query_plan \<Rightarrow> bool" where
  "prune_overseas_1y p \<longleftrightarrow>
     qp_metric_targets p = [] \<and> cp ''return_1y'' \<in> requested_fields p \<and> list_ex is_overseas (qp_product_types p)"

definition segment_types :: "query_plan \<Rightarrow> product_type list" where
  "segment_types p =
     filter (\<lambda>pt. pt \<in> set (qp_product_types p) \<and> \<not> (prune_overseas_1y p \<and> is_overseas pt)) all_product_types"

text \<open>\<open>str(value)\<close> of an optional registry text.\<close>

definition opt_str :: "pystr option \<Rightarrow> pystr" where
  "opt_str v = (case v of None \<Rightarrow> cp ''None'' | Some s \<Rightarrow> s)"

fun join_product :: "(pystr \<times> product_type list) list \<Rightarrow> pystr \<Rightarrow> product_type \<Rightarrow> (pystr \<times> product_type list) list" where
  "join_product [] key pt = [(key, [pt])]"
| "join_product ((k, pts) # d) key pt =
     (if k = key then (k, if pt \<in> set pts then pts else pts @ [pt]) # d else (k, pts) # join_product d key pt)"

definition partition_key :: "field_registry \<Rightarrow> product_type \<Rightarrow> pystr \<Rightarrow> pystr result" where
  "partition_key fr pt field_id =
     rbind (projection fr field_id pt) (\<lambda>pr.
       case fp_metric_id pr of
         None \<Rightarrow> Inr (cp ''field:'' @ field_id @ cp '':'' @ fp_value_type pr)
       | Some m \<Rightarrow> rbind (metric_entry (fr_registries fr) m) (\<lambda>d.
           Inr (py_join (cp '':'') [md_comparability_group d, opt_str (md_unit d), opt_str (md_period d),
                  opt_str (md_currency d), md_cross_product_policy d])))"

definition count_key :: "execution_segment \<Rightarrow> pystr" where
  "count_key s = cp ''count:'' @ result_grain_value (sg_native_result_grain s) @ cp '':'' @ product_type_value (sg_product_type s)"

definition compared_fields :: "execution_segment \<Rightarrow> pystr list" where
  "compared_fields s =
     (let targetless = (case sg_aggregation s of Some a \<Rightarrow> ag_field a = None | None \<Rightarrow> False)
      in sorted_list_of_set (set ((if targetless then [] else sg_metrics s) @ map ss_field (sg_sort s)
           @ (case sg_aggregation s of
                Some a \<Rightarrow> (case ag_field a of Some f \<Rightarrow> [f] | None \<Rightarrow> [])
              | None \<Rightarrow> []))))"

fun join_fields ::
  "field_registry \<Rightarrow> product_type \<Rightarrow> pystr list \<Rightarrow> (pystr \<times> product_type list) list
     \<Rightarrow> (pystr \<times> product_type list) list result" where
  "join_fields fr pt [] d = Inr d"
| "join_fields fr pt (f # fs) d =
     rbind (partition_key fr pt f) (\<lambda>key. join_fields fr pt fs (join_product d key pt))"

fun join_segments ::
  "field_registry \<Rightarrow> execution_segment list \<Rightarrow> (pystr \<times> product_type list) list
     \<Rightarrow> (pystr \<times> product_type list) list result" where
  "join_segments fr [] d = Inr d"
| "join_segments fr (s # ss) d =
     (let d' = (case sg_aggregation s of
                  Some a \<Rightarrow> if ag_field a = None then dict_set d (count_key s) [sg_product_type s] else d
                | None \<Rightarrow> d)
      in rbind (join_fields fr (sg_product_type s) (compared_fields s) d') (\<lambda>d''. join_segments fr ss d''))"

definition comparison_partitions ::
  "field_registry \<Rightarrow> execution_segment list \<Rightarrow> comparison_partition list result" where
  "comparison_partitions fr segments =
     rbind (join_segments fr segments []) (\<lambda>groups.
       Inr (map (\<lambda>(i, key, pts). \<lparr>cpn_partition_id = cp ''partition-'' @ nat_digits i,
                                   cpn_product_types = pts, cpn_compatibility_key = key\<rparr>)
              (zip [1..<length groups + 1] groups)))"

definition build_bundle ::
  "field_registry \<Rightarrow> validated_query_plan \<Rightarrow> validation_context \<Rightarrow> execution_bundle result" where
  "build_bundle fr vp ctx =
     (let p = vp_plan vp; rz = vp_resolutions vp in
      rbind (raise_if (vp_context vp \<noteq> ctx) (ValueError ''segment validation context differs'')) (\<lambda>_.
      rbind (traverse (make_segment fr p rz) (segment_types p)) (\<lambda>segments.
      rbind (comparison_partitions fr segments) (\<lambda>partitions.
      rbind (raise_if (qp_top_k_scope p = GLOBAL \<and> (qp_sort p \<noteq> [] \<or> qp_intent p = AGGREGATE_INTENT)
                \<and> length partitions \<noteq> 1)
               (ValueError ''global sort or aggregate requires one compatible partition'')) (\<lambda>_.
        Inr \<lparr>eb_validated_plan = vp, eb_top_k_scope = qp_top_k_scope p, eb_segments = segments,
             eb_comparison_partitions = partitions, eb_response_grain = qp_result_grain p,
             eb_limitations = (if prune_overseas_1y p then [OVERSEAS_RETURN_1Y_UNAVAILABLE] else [])\<rparr>)))))"

definition execution_literal_policy_ids :: "execution_bundle \<Rightarrow> pystr list" where
  "execution_literal_policy_ids b =
     (if list_ex (\<lambda>c. fc_field c = cp ''region'' \<and> fc_value c = CScalar (SStr ko_us))
           (qp_filters (vp_plan (eb_validated_plan b)))
         \<and> list_ex (\<lambda>s. list_ex (\<lambda>c. fc_field c = cp ''region'' \<and> fc_value c = CScalar (SStr source_us))
              (sg_filters s)) (eb_segments b)
      then [cp ''literal:region-ko-us:1.0.0''] else [])"

section \<open>What validation establishes\<close>

lemma projections_for_set: "set (projections_for fr f pts) = {p. \<exists>pt \<in> set pts. map_of (fr_projections fr) (f, pt) = Some p}"
  by (force simp: projections_for_def map_filter_def)

lemma check_filter_typed:
  assumes "check_filter fr pts c = Inr u" and "fc_field c \<noteq> holding_field" and "pt \<in> set pts"
    and "projection fr (fc_field c) pt = Inr p" and "v \<in> set (clause_values (fc_value c))"
  shows "value_matches v (fp_value_type p)"
proof -
  have "p \<in> set (projections_for fr (fc_field c) pts)"
    using assms(3,4) by (auto simp: projections_for_set projection_def split: option.splits)
  with assms(1,2,5) show ?thesis
    by (auto simp: check_filter_def Let_def list_ex_iff split: option.splits if_splits)
qed

lemma validated_checks:
  assumes "validate_semantics_plan fr p rz ctx = Inr vp" and "\<not> terminal_intent (qp_intent p)"
  shows "check_executable fr p rz = Inr ()" and "vp = \<lparr>vp_plan = p, vp_resolutions = rz, vp_context = ctx\<rparr>"
  using assms by (auto simp: validate_semantics_plan_def rbind_eq_Inr_iff)

lemma check_executable_Inr:
  assumes "check_executable fr p rz = Inr ()"
  shows "c \<in> set (qp_filters p) \<Longrightarrow> \<exists>u. check_filter fr (qp_product_types p) c = Inr u"
    and "t \<in> set (qp_metric_targets p) \<Longrightarrow> m \<in> set (mt_metrics t) \<Longrightarrow> projected fr m (mt_product_type t)"
    and "check_holding p rz = Inr ()" and "check_resolutions p rz = Inr ()"
proof -
  from assms obtain us where us: "traverse (check_filter fr (qp_product_types p)) (qp_filters p) = Inr us"
    by (auto simp: check_executable_def rbind_eq_Inr_iff)
  then show "c \<in> set (qp_filters p) \<Longrightarrow> \<exists>u. check_filter fr (qp_product_types p) c = Inr u"
    using traverse_image [OF us] by blast
  show "t \<in> set (qp_metric_targets p) \<Longrightarrow> m \<in> set (mt_metrics t) \<Longrightarrow> projected fr m (mt_product_type t)"
    using assms by (auto simp: check_executable_def rbind_eq_Inr_iff list_ex_iff)
  show "check_holding p rz = Inr ()" "check_resolutions p rz = Inr ()"
    using assms by (auto simp: check_executable_def rbind_eq_Inr_iff)
qed

section \<open>What the segmenter builds\<close>

lemma ko_us_no_date: "fromisoformat ko_us = None"
  by code_simp

lemma canonical_filter_literal_field [simp]: "fc_field (canonical_filter_literal c pt) = fc_field c"
  by (simp add: canonical_filter_literal_def)

lemma canonical_filter_literal_typed:
  assumes "\<And>v. v \<in> set (clause_values (fc_value c)) \<Longrightarrow> value_matches v t"
    and "v \<in> set (clause_values (fc_value (canonical_filter_literal c pt)))"
  shows "value_matches v t"
proof (cases "canonical_filter_literal c pt = c")
  case True
  with assms show ?thesis by simp
next
  case False
  then have "fc_value c = CScalar (SStr ko_us)" "v = SStr source_us"
    using assms(2) by (auto simp: canonical_filter_literal_def split: if_splits)
  with assms(1) [of "SStr ko_us"] show ?thesis by (auto simp: value_matches_def ko_us_no_date split: if_splits)
qed

lemma build_bundle_Inr:
  assumes "build_bundle fr vp ctx = Inr b"
  shows "traverse (make_segment fr (vp_plan vp) (vp_resolutions vp)) (segment_types (vp_plan vp)) = Inr (eb_segments b)"
    and "comparison_partitions fr (eb_segments b) = Inr (eb_comparison_partitions b)"
    and "eb_limitations b = (if prune_overseas_1y (vp_plan vp) then [OVERSEAS_RETURN_1Y_UNAVAILABLE] else [])"
    and "eb_validated_plan b = vp"
    and "qp_top_k_scope (vp_plan vp) = GLOBAL \<Longrightarrow> qp_sort (vp_plan vp) \<noteq> [] \<or> qp_intent (vp_plan vp) = AGGREGATE_INTENT \<Longrightarrow>
           length (eb_comparison_partitions b) = 1"
  using assms by (auto simp: build_bundle_def Let_def rbind_eq_Inr_iff)

lemma make_segment_Inr:
  assumes "make_segment fr p rz pt = Inr s"
  shows "sg_product_type s = pt" and "sg_native_result_grain s = native_grain pt" and "sg_top_k s = qp_top_k p"
    and "segment_filters fr p rz pt = Inr (sg_filters s)" and "sg_metrics s = segment_metrics fr p pt"
    and "segment_sort fr p pt = Inr (sg_sort s)" and "sg_holding_constituent_filter s = holding_filter_of rz"
  using assms by (auto simp: make_segment_def rbind_eq_Inr_iff)

lemma segment_sort_projected:
  "segment_sort fr p pt = Inr ss \<Longrightarrow> x \<in> set ss \<Longrightarrow> x \<in> set (qp_sort p) \<and> projected fr (ss_field x) pt"
  by (auto simp: segment_sort_def filter_result_Inr_iff split: if_splits)

lemma segment_filters_cases:
  assumes "segment_filters fr p rz pt = Inr fs" and "c \<in> set fs"
  shows "(\<exists>d \<in> set (qp_filters p). projected fr (fc_field d) pt \<and> c = canonical_filter_literal d pt)
     \<or> (fc_field c = cp ''product_id'' \<and> fc_operator c = IN \<and> fc_value c = CTuple (map SStr (entity_ids rz pt)))"
proof -
  have "validate_value_shape d = Inr e \<Longrightarrow> e = d" for d e
    by (auto simp: validate_value_shape_def split: if_splits clause_value.splits)
  with assms have "c \<in> (\<lambda>c. canonical_filter_literal c pt) ` {c \<in> set (qp_filters p). projected fr (fc_field c) pt}
     \<or> c = \<lparr>fc_field = cp ''product_id'', fc_operator = IN, fc_has_value = True,
                 fc_value = CTuple (map SStr (entity_ids rz pt))\<rparr>"
    unfolding segment_filters_def Let_def by (fastforce simp: rbind_eq_Inr_iff split: if_splits)
  then show ?thesis by auto
qed

lemma segments_types:
  assumes "build_bundle fr vp ctx = Inr b"
  shows "map sg_product_type (eb_segments b) = segment_types (vp_plan vp)"
proof -
  have "list_all2 (\<lambda>pt s. make_segment fr (vp_plan vp) (vp_resolutions vp) pt = Inr s)
      (segment_types (vp_plan vp)) (eb_segments b)"
    using build_bundle_Inr(1) [OF assms] by (simp add: traverse_eq_Inr_iff)
  then show ?thesis
    by (intro nth_equalityI) (auto simp: list_all2_conv_all_nth dest!: make_segment_Inr(1))
qed

lemma segment_made:
  assumes "build_bundle fr vp ctx = Inr b" and "s \<in> set (eb_segments b)"
  shows "make_segment fr (vp_plan vp) (vp_resolutions vp) (sg_product_type s) = Inr s"
    and "sg_product_type s \<in> set (qp_product_types (vp_plan vp))"
proof -
  from build_bundle_Inr(1) [OF assms(1)] assms(2) obtain pt where
    "pt \<in> set (segment_types (vp_plan vp))" "make_segment fr (vp_plan vp) (vp_resolutions vp) pt = Inr s"
    using traverse_member by metis
  then show "make_segment fr (vp_plan vp) (vp_resolutions vp) (sg_product_type s) = Inr s"
    "sg_product_type s \<in> set (qp_product_types (vp_plan vp))"
    by (auto simp: segment_types_def dest: make_segment_Inr(1))
qed

lemma metric_target_table_Some:
  "map_of (metric_target_table p) pt = Some ms \<Longrightarrow> \<exists>t \<in> set (qp_metric_targets p). mt_product_type t = pt \<and> mt_metrics t = ms"
  by (auto simp: metric_target_table_def dest!: map_of_SomeD)

lemma all_product_types_complete: "pt \<in> set all_product_types"
  by (cases pt) (simp_all add: all_product_types_def)

lemma distinct_segment_types: "distinct (segment_types p)"
  by (simp add: segment_types_def all_product_types_def)

lemma segment_types_iff:
  "pt \<in> set (segment_types p) \<longleftrightarrow> pt \<in> set (qp_product_types p) \<and> \<not> (prune_overseas_1y p \<and> is_overseas pt)"
  by (simp add: segment_types_def all_product_types_complete)

section \<open>A concrete request\<close>

definition example_metric :: "product_type list \<Rightarrow> string \<Rightarrow> string \<Rightarrow> metric_definition" where
  "example_metric pts grp per =
     \<lparr>md_label_ko = [], md_product_types = pts, md_source_table = [], md_source_column = [],
      md_secondary_source_column = None, md_derived_rule = None, md_value_type = cp ''decimal'',
      md_unit = Some (cp ''percent''), md_period = Some (cp per), md_currency = None, md_currency_source = None,
      md_missing_policy = [], md_zero_policy = cp ''recorded'', md_display_policy = [], md_literal_filter_policy = [],
      md_ranking_policy = cp ''valid_values'', md_aggregation_policy = [], md_tie_policy = [],
      md_comparability_group = cp grp, md_cross_product_policy = cp ''same_product_only'',
      md_evidence_rule = [], md_queryable = True\<rparr>"

definition example_field :: "product_type list \<Rightarrow> string option \<Rightarrow> pystr list \<Rightarrow> filter_operator list \<Rightarrow> field_definition" where
  "example_field pts vt ms ops =
     \<lparr>fd_product_types = pts, fd_value_type = map_option cp vt, fd_metric_ids = ms, fd_operators = ops,
      fd_sortable = True, fd_aggregations = [MAX_FN]\<rparr>"

definition example_registries :: registry_bundle where
  "example_registries =
     \<lparr>rb_metrics = [(cp ''fee_rate'', example_metric [DOMESTIC_ETF, OVERSEAS_ETF] ''fee'' ''annual''),
                    (cp ''return_1y'', example_metric [DOMESTIC_ETF] ''historical_total_return'' ''1y'')],
      rb_fields = [(cp ''product_id'', example_field [DOMESTIC_ETF, OVERSEAS_ETF] (Some ''string'') [] [EQ, IN]),
                   (cp ''saleable'', example_field [DOMESTIC_ETF] (Some ''boolean'') [] [EQ]),
                   (cp ''region'', example_field [DOMESTIC_ETF, OVERSEAS_ETF] (Some ''string'') [] [EQ]),
                   (cp ''fee'', example_field [] None [cp ''fee_rate''] [GTE, LTE]),
                   (cp ''return_1y'', example_field [] None [cp ''return_1y''] [GTE, LTE])],
      rb_targetless_aggregations = [COUNT_FN]\<rparr>"

definition example_plan :: query_plan where
  "example_plan =
     \<lparr>qp_intent = SCREEN_RANK, qp_product_types = [DOMESTIC_ETF, OVERSEAS_ETF], qp_entities = [],
      qp_as_of_date = Date 2026 8 22, qp_result_grain = PRODUCT,
      qp_filters = [\<lparr>fc_field = cp ''region'', fc_operator = EQ, fc_has_value = True, fc_value = CScalar (SStr ko_us)\<rparr>],
      qp_metrics = [cp ''return_1y''], qp_metric_targets = [],
      qp_sort = [\<lparr>ss_field = cp ''return_1y'', ss_direction = DESC\<rparr>], qp_aggregation = None, qp_top_k = 2,
      qp_top_k_scope = PER_PRODUCT_TYPE, qp_needs_clarification = False, qp_clarification_reason = []\<rparr>"

definition example_context :: validation_context where
  "example_context = \<lparr>vc_as_of_date = Date 2026 8 22, vc_execution_mode = EVALUATION\<rparr>"

definition example_fields :: field_registry where
  "example_fields = projr (from_bundle example_registries)"

definition example_validated :: validated_query_plan where
  "example_validated = \<lparr>vp_plan = example_plan, vp_resolutions = \<lparr>rz_results = [], rz_holding_constituent = None\<rparr>,
     vp_context = example_context\<rparr>"

definition example_bundle :: execution_bundle where
  "example_bundle = projr (build_bundle example_fields example_validated example_context)"

lemma example_request:
  "from_bundle example_registries = Inr example_fields"
  "validate_query_plan example_plan = Inr example_plan"
  "validate_semantics_plan example_fields example_plan \<lparr>rz_results = [], rz_holding_constituent = None\<rparr> example_context
     = Inr example_validated"
  "build_bundle example_fields example_validated example_context = Inr example_bundle"
proof -
  have "\<not> isl (from_bundle example_registries)" by code_simp
  then show "from_bundle example_registries = Inr example_fields" by (simp add: example_fields_def)
  have "\<not> isl (build_bundle example_fields example_validated example_context)" by code_simp
  then show "build_bundle example_fields example_validated example_context = Inr example_bundle"
    by (simp add: example_bundle_def)
  show "validate_query_plan example_plan = Inr example_plan" by code_simp
  have "\<not> isl (validate_semantics_plan example_fields example_plan \<lparr>rz_results = [], rz_holding_constituent = None\<rparr> example_context)"
    by code_simp
  then show "validate_semantics_plan example_fields example_plan \<lparr>rz_results = [], rz_holding_constituent = None\<rparr> example_context
     = Inr example_validated"
    by (auto simp: validate_semantics_plan_def example_validated_def rbind_def split: sum.splits if_splits)
qed

lemma example_segment: "hd (eb_segments example_bundle) \<in> set (eb_segments example_bundle)"
proof -
  have "eb_segments example_bundle \<noteq> []" by code_simp
  then show ?thesis by simp
qed

section \<open>Properties\<close>

text \<open>C8. Segments are executable. After validation every filter, metric and sort field of every
  segment has a projection for the segment's product type (the added product identifier filter
  aside), every filter literal has the type its projection declares, and the relation filter never
  reaches a segment as a column filter.\<close>

theorem segments_executable:
  assumes "from_bundle regs = Inr fr" and "validate_semantics_plan fr p rz ctx = Inr vp"
    and "\<not> terminal_intent (qp_intent p)" and "build_bundle fr vp ctx' = Inr b" and "s \<in> set (eb_segments b)"
  shows "(\<forall>c \<in> set (sg_filters s). fc_field c \<noteq> holding_field \<and>
       (projected fr (fc_field c) (sg_product_type s) \<or> fc_field c = cp ''product_id'' \<and> fc_operator c = IN)) \<and>
     (\<forall>m \<in> set (sg_metrics s). projected fr m (sg_product_type s)) \<and>
     (\<forall>x \<in> set (sg_sort s). projected fr (ss_field x) (sg_product_type s)) \<and>
     (\<forall>c \<in> set (sg_filters s). \<forall>pr. fc_field c \<noteq> cp ''product_id'' \<longrightarrow>
        projection fr (fc_field c) (sg_product_type s) = Inr pr \<longrightarrow>
        list_all (\<lambda>v. value_matches v (fp_value_type pr)) (clause_values (fc_value c)))"
proof -
  note v = validated_checks [OF assms(2,3)]
  note ex = check_executable_Inr [OF v(1)]
  have vp: "vp_plan vp = p" "vp_resolutions vp = rz" by (simp_all add: v(2))
  note sm = segment_made [OF assms(4,5), unfolded vp]
  note s = make_segment_Inr [OF sm(1)]
  have nh: "f \<noteq> holding_field" if "projected fr f pt" for f pt
    using field_builder.coherent [OF assms(1), of f pt] that by auto
  have filters: "fc_field c \<noteq> holding_field \<and>
      (projected fr (fc_field c) (sg_product_type s) \<or> fc_field c = cp ''product_id'' \<and> fc_operator c = IN)"
    if "c \<in> set (sg_filters s)" for c
    using segment_filters_cases [OF s(4) that] by (auto dest: nh [OF option.discI])
  have typed: "value_matches x (fp_value_type pr)"
    if c: "c \<in> set (sg_filters s)" "fc_field c \<noteq> cp ''product_id''" and pr: "projection fr (fc_field c) (sg_product_type s) = Inr pr"
      and x: "x \<in> set (clause_values (fc_value c))" for c pr x
  proof -
    from segment_filters_cases [OF s(4) c(1)] c(2) obtain d where
      d: "d \<in> set (qp_filters p)" "c = canonical_filter_literal d (sg_product_type s)" by auto
    from ex(1) [OF d(1)] obtain u where u: "check_filter fr (qp_product_types p) d = Inr u" ..
    have "value_matches y (fp_value_type pr)" if "y \<in> set (clause_values (fc_value d))" for y
      using check_filter_typed [OF u _ sm(2) _ that] filters [OF c(1)] pr d(2) by simp
    from canonical_filter_literal_typed [OF this] x d(2) show ?thesis by blast
  qed
  have metrics: "projected fr m (sg_product_type s)" if "m \<in> set (sg_metrics s)" for m
  proof (cases "map_of (metric_target_table p) (sg_product_type s)")
    case None
    with that show ?thesis by (auto simp: s(5) segment_metrics_def)
  next
    case (Some ms)
    with that have "m \<in> set ms" by (auto simp: s(5) segment_metrics_def)
    with metric_target_table_Some [OF Some] ex(2) show ?thesis by metis
  qed
  from filters typed metrics segment_sort_projected [OF s(6)] show ?thesis
    by (simp only: list_all_iff) blast
qed

theorem segments_executable_witness:
  "build_bundle example_fields example_validated example_context = Inr example_bundle \<and>
   list_all (\<lambda>x. projected example_fields (ss_field x) (sg_product_type (hd (eb_segments example_bundle))))
     (sg_sort (hd (eb_segments example_bundle)))"
proof -
  have "\<not> terminal_intent (qp_intent example_plan)" by code_simp
  from segments_executable [OF example_request(1,3) this example_request(4) example_segment]
  show ?thesis using example_request(4) by (simp add: list_all_iff)
qed

text \<open>C9. Dropped product types are disclosed. A bundle has one segment per requested product type,
  in the registry order, with its native grain, except that overseas products are dropped when a
  one-year return is requested; the limitation is recorded exactly when something was dropped.\<close>

theorem segments_cover_request:
  assumes "build_bundle fr vp ctx = Inr b"
  shows "distinct (map sg_product_type (eb_segments b)) \<and>
     (eb_limitations b \<noteq> [] \<longleftrightarrow>
       (\<exists>pt \<in> set (qp_product_types (vp_plan vp)). pt \<notin> set (map sg_product_type (eb_segments b)))) \<and>
     (\<forall>pt \<in> set (qp_product_types (vp_plan vp)). \<not> is_overseas pt \<longrightarrow> pt \<in> set (map sg_product_type (eb_segments b))) \<and>
     (\<forall>s \<in> set (eb_segments b). sg_product_type s \<in> set (qp_product_types (vp_plan vp)) \<and>
        sg_native_result_grain s = native_grain (sg_product_type s) \<and> sg_top_k s = qp_top_k (vp_plan vp))"
proof -
  have "sg_native_result_grain s = native_grain (sg_product_type s) \<and> sg_top_k s = qp_top_k (vp_plan vp)"
    if "s \<in> set (eb_segments b)" for s
    using make_segment_Inr(2,3) [OF segment_made(1) [OF assms that]] by simp
  then show ?thesis
    using segment_made(2) [OF assms] build_bundle_Inr(3) [OF assms]
    unfolding segments_types [OF assms]
    by (auto simp: distinct_segment_types segment_types_iff prune_overseas_1y_def list_ex_iff)
qed

theorem segments_cover_request_witness:
  "build_bundle example_fields example_validated example_context = Inr example_bundle \<and>
   distinct (map sg_product_type (eb_segments example_bundle)) \<and> eb_limitations example_bundle \<noteq> []"
proof -
  have "eb_limitations example_bundle \<noteq> []" by code_simp
  with segments_cover_request [OF example_request(4)] example_request(4) show ?thesis by blast
qed

end
