(* ===== verification/Query_Sql.thy ===== *)
theory Query_Sql
  imports Segments
begin

text \<open>
  From a segment to SQL and back to rows: \<open>finproof/query/ast.py\<close>, \<open>compiler.py\<close>,
  \<open>executor.py\<close>, \<open>storage/repositories/products.py\<close> and the in-memory
  \<open>query/reference.py\<close>. SQL is the text itself. The table specifications (\<open>TABLE_SPEC_BY_NAME\<close>,
  a table name to its column names) and the database (a compiled query to the batches its cursor
  returns) are arguments.
\<close>

section \<open>ast.py\<close>

record query_ast =
  qa_segment :: execution_segment
  qa_table_name :: pystr
  qa_projections :: "field_projection list"

definition is_domestic_listed :: "product_type \<Rightarrow> bool" where
  "is_domestic_listed pt \<longleftrightarrow> pt = DOMESTIC_ETF \<or> pt = DOMESTIC_ETN"

text \<open>The field identifiers a segment needs, in insertion order, before the fixed state columns.\<close>

definition ast_field_ids :: "execution_segment \<Rightarrow> pystr list" where
  "ast_field_ids s =
     (let requested = fromkeys (cp ''product_id'' # map fc_field (sg_filters s) @ sg_metrics s
            @ map ss_field (sg_sort s)
            @ (case sg_aggregation s of None \<Rightarrow> [] | Some a \<Rightarrow> ag_group_by a)
            @ (case sg_aggregation s of None \<Rightarrow> [] | Some a \<Rightarrow> (case ag_field a of None \<Rightarrow> [] | Some f \<Rightarrow> [f])));
          with_dates = (if sg_product_type s = DOMESTIC_BOND
            then fromkeys (requested @ [cp ''issue_date'', cp ''maturity_date'']) else requested)
      in if cp ''aum'' \<in> set with_dates then fromkeys (with_dates @ [cp ''currency'']) else with_dates)"

definition state_projection :: "product_type \<Rightarrow> pystr \<Rightarrow> pystr \<Rightarrow> pystr \<Rightarrow> field_projection" where
  "state_projection pt table field_id value_type =
     \<lparr>fp_field_id = field_id, fp_product_type = pt, fp_table_name = table, fp_column_name = field_id,
      fp_quality_column_name = field_id @ cp ''__quality_status'', fp_value_type = value_type, fp_metric_id = None\<rparr>"

definition state_projections ::
  "field_registry \<Rightarrow> product_type \<Rightarrow> pystr list \<Rightarrow> field_projection list result" where
  "state_projections fr pt field_ids =
     (if is_domestic_listed pt
      then rbind (projection fr (cp ''saleable'') pt) (\<lambda>saleable.
             Inr ((if cp ''saleable'' \<in> set field_ids then [] else [saleable])
                  @ [state_projection pt (fp_table_name saleable) (cp ''suspension_flag'') (cp ''boolean''),
                     state_projection pt (fp_table_name saleable) (cp ''listing_date'') (cp ''date''),
                     state_projection pt (fp_table_name saleable) (cp ''listing_end_date'') (cp ''date'')]))
      else Inr [])"

definition from_segment :: "field_registry \<Rightarrow> execution_segment \<Rightarrow> query_ast result" where
  "from_segment fr s =
     rbind (raise_if (sg_native_result_grain s = PRODUCT)
              (ValueError ''query AST requires one native result grain'')) (\<lambda>_.
     rbind (traverse (\<lambda>f. projection fr f (sg_product_type s)) (ast_field_ids s)) (\<lambda>own.
     rbind (state_projections fr (sg_product_type s) (ast_field_ids s)) (\<lambda>extra.
       case fromkeys (map fp_table_name (own @ extra)) of
         [table] \<Rightarrow> Inr \<lparr>qa_segment = s, qa_table_name = table, qa_projections = own @ extra\<rparr>
       | _ \<Rightarrow> Inl (ValueError ''query AST projections require one native table''))))"

record compiled_query =
  cq_product_type :: product_type
  cq_native_result_grain :: result_grain
  cq_table_name :: pystr
  cq_projected_fields :: "pystr list"
  cq_sql :: pystr
  cq_parameters :: "scalar list"

section \<open>compiler.py\<close>

definition sql_quote :: "pystr \<Rightarrow> pystr" where
  "sql_quote identifier = [34] @ identifier @ [34]"

fun binary_operator :: "filter_operator \<Rightarrow> string option" where
  "binary_operator EQ = Some ''=''"
| "binary_operator NE = Some ''!=''"
| "binary_operator GT = Some ''>''"
| "binary_operator GTE = Some ''>=''"
| "binary_operator LT = Some ''<''"
| "binary_operator LTE = Some ''<=''"
| "binary_operator _ = None"

definition predicate :: "pystr \<Rightarrow> filter_operator \<Rightarrow> clause_value \<Rightarrow> (pystr \<times> scalar list) result" where
  "predicate column operator value =
     (let quoted = sql_quote column in
      case binary_operator operator of
        Some symbol \<Rightarrow> (case value of
            CScalar s \<Rightarrow> Inr (quoted @ cp '' '' @ cp symbol @ cp '' ?'', [s])
          | _ \<Rightarrow> Inl (ValueError ''filter operator requires one scalar''))
      | None \<Rightarrow>
        (if operator = IN \<or> operator = NOT_IN
         then (case value of
             CTuple vs \<Rightarrow> Inr (quoted @ cp '' '' @ (if operator = IN then cp ''IN'' else cp ''NOT IN'') @ cp '' (''
                              @ py_join (cp '', '') (map (\<lambda>_. cp ''?'') vs) @ cp '')'', vs)
           | _ \<Rightarrow> Inl AssertionError)
         else if operator = BETWEEN
         then (case value of
             CTuple vs \<Rightarrow> Inr (quoted @ cp '' BETWEEN ? AND ?'', vs)
           | _ \<Rightarrow> Inl AssertionError)
         else if operator = CONTAINS
         then (case value of
             CScalar (SStr s) \<Rightarrow> Inr (cp ''strpos('' @ quoted @ cp '', ?) > 0'', [SStr s])
           | _ \<Rightarrow> Inl (ValueError ''contains requires one string''))
         else if operator = STARTS_WITH
         then (case value of
             CScalar (SStr s) \<Rightarrow> Inr (cp ''starts_with('' @ quoted @ cp '', ?)'', [SStr s])
           | _ \<Rightarrow> Inl (ValueError ''starts-with requires one string''))
         else if operator = IS_MISSING then Inr (quoted @ cp '' IS NULL'', [])
         else Inr (quoted @ cp '' IS NOT NULL'', [])))"

fun listed_discriminator :: "product_type \<Rightarrow> string option" where
  "listed_discriminator DOMESTIC_ETF = Some ''ETF''"
| "listed_discriminator DOMESTIC_ETN = Some ''ETN''"
| "listed_discriminator OVERSEAS_ETF = Some ''ETF''"
| "listed_discriminator OVERSEAS_ETN = Some ''ETN''"
| "listed_discriminator _ = None"

text \<open>\<open>by_field[field]\<close>: the last projection of a field identifier.\<close>

definition by_field :: "query_ast \<Rightarrow> pystr \<Rightarrow> field_projection result" where
  "by_field ast f =
     (case map_of (rev (map (\<lambda>p. (fp_field_id p, p)) (qa_projections ast))) f of
        None \<Rightarrow> Inl (KeyError f)
      | Some p \<Rightarrow> Inr p)"

definition clause_predicate :: "query_ast \<Rightarrow> filter_clause \<Rightarrow> (pystr \<times> scalar list) option result" where
  "clause_predicate ast c =
     rbind (by_field ast (fc_field c)) (\<lambda>p.
       if fp_metric_id p \<noteq> None then Inr None
       else rbind (predicate (fp_column_name p) (fc_operator c) (fc_value c)) (\<lambda>q. Inr (Some q)))"

definition holding_predicate ::
  "(pystr \<Rightarrow> pystr list option) \<Rightarrow> query_ast \<Rightarrow> holding_constituent_filter \<Rightarrow> (pystr \<times> scalar list) result" where
  "holding_predicate specs ast h =
     (case specs (cp ''silver_product_holding'') of
        None \<Rightarrow> Inl (KeyError (cp ''silver_product_holding''))
      | Some columns \<Rightarrow>
         if \<not> set [cp ''owner_product_type'', cp ''owner_product_id'', cp ''constituent_identifier'',
                   cp ''constituent_identifier_type''] \<subseteq> set columns
         then Inl (ValueError ''holding relation columns are not registered'')
         else rbind (by_field ast (cp ''product_id'')) (\<lambda>p.
           Inr (cp ''EXISTS (SELECT 1 FROM \"silver_product_holding\" AS \"holding\" WHERE ''
                @ cp ''\"holding\".\"owner_product_type\" = ? AND ''
                @ cp ''\"holding\".\"owner_product_id\" = \"owner\".'' @ sql_quote (fp_column_name p) @ cp '' AND ''
                @ cp ''\"holding\".\"constituent_identifier\" = ? AND ''
                @ cp ''\"holding\".\"constituent_identifier_type\" = ?)'',
                [SStr (product_type_value (sg_product_type (qa_segment ast))),
                 SStr (hf_constituent_identifier h), SStr (hf_constituent_identifier_type h)])))"

text \<open>The selected columns: value and quality of every projection, each column once.\<close>

definition selected_columns :: "query_ast \<Rightarrow> pystr list" where
  "selected_columns ast =
     fromkeys (concat (map (\<lambda>p. [fp_column_name p, fp_quality_column_name p]) (qa_projections ast)))"

definition order_items :: "query_ast \<Rightarrow> pystr list result" where
  "order_items ast =
     rbind (traverse (\<lambda>s. rbind (by_field ast (ss_field s)) (\<lambda>p.
              Inr (sql_quote (fp_column_name p) @ cp '' '' @ sort_direction_upper (ss_direction s) @ cp '' NULLS LAST'')))
              (sg_sort (qa_segment ast))) (\<lambda>items.
     rbind (by_field ast (cp ''product_id'')) (\<lambda>pid.
     rbind (all_result (\<lambda>s. rbind (by_field ast (ss_field s)) (\<lambda>p. Inr (fp_field_id p \<noteq> cp ''product_id'')))
              (sg_sort (qa_segment ast))) (\<lambda>tiebreak.
       Inr (if tiebreak then items @ [sql_quote (fp_column_name pid) @ cp '' ASC NULLS LAST''] else items))))"

definition check_ast :: "(pystr \<Rightarrow> pystr list option) \<Rightarrow> query_ast \<Rightarrow> pystr list result" where
  "check_ast specs ast =
     (case specs (qa_table_name ast) of
        None \<Rightarrow> Inl (ValueError ''query AST table is not registered'')
      | Some columns \<Rightarrow>
         if list_ex (\<lambda>p. fp_table_name p \<noteq> qa_table_name ast \<or> fp_column_name p \<notin> set columns
                        \<or> fp_quality_column_name p \<notin> set columns) (qa_projections ast)
         then Inl (ValueError ''query AST projection is not registered'')
         else Inr columns)"

text \<open>All predicates with their parameters, in the order the compiler appends them.\<close>

definition compile_predicates ::
  "(pystr \<Rightarrow> pystr list option) \<Rightarrow> pystr list \<Rightarrow> query_ast \<Rightarrow> (pystr \<times> scalar list) list result" where
  "compile_predicates specs columns ast =
     rbind (case listed_discriminator (sg_product_type (qa_segment ast)) of
              None \<Rightarrow> Inr []
            | Some kind \<Rightarrow>
                if cp ''product_type'' \<notin> set columns
                then Inl (ValueError ''listed product discriminator is not registered'')
                else Inr [(cp ''\"product_type\" = ?'', [SStr (cp kind)])]) (\<lambda>ps.
     rbind (traverse (clause_predicate ast) (sg_filters (qa_segment ast))) (\<lambda>qs.
     rbind (case sg_holding_constituent_filter (qa_segment ast) of
              None \<Rightarrow> Inr []
            | Some h \<Rightarrow> rbind (holding_predicate specs ast h) (\<lambda>q. Inr [q])) (\<lambda>hs.
       Inr (ps @ List.map_filter id qs @ hs))))"

definition compile_query :: "(pystr \<Rightarrow> pystr list option) \<Rightarrow> query_ast \<Rightarrow> compiled_query result" where
  "compile_query specs ast =
     rbind (check_ast specs ast) (\<lambda>columns.
     rbind (compile_predicates specs columns ast) (\<lambda>preds.
     rbind (order_items ast) (\<lambda>order.
       Inr \<lparr>cq_product_type = sg_product_type (qa_segment ast),
            cq_native_result_grain = sg_native_result_grain (qa_segment ast),
            cq_table_name = qa_table_name ast,
            cq_projected_fields = map fp_field_id (qa_projections ast),
            cq_sql = cp ''SELECT '' @ py_join (cp '', '') (map sql_quote (selected_columns ast))
                     @ cp '' FROM '' @ sql_quote (qa_table_name ast) @ cp '' AS \"owner\"''
                     @ (if preds \<noteq> [] then cp '' WHERE '' @ py_join (cp '' AND '') (map fst preds) else [])
                     @ cp '' ORDER BY '' @ py_join (cp '', '') order,
            cq_parameters = concat (map snd preds)\<rparr>)))"


section \<open>storage/repositories/products.py\<close>

record raw_field_value =
  rf_field_id :: pystr
  rf_value :: "scalar option"
  rf_quality_status :: pystr

record raw_product_row =
  rw_product_type :: product_type
  rw_native_result_grain :: result_grain
  rw_product_id :: pystr
  rw_values :: "raw_field_value list"

record raw_segment_result =
  rsr_product_type :: product_type
  rsr_native_result_grain :: result_grain
  rsr_rows :: "raw_product_row list"
  rsr_candidate_count :: int
  rsr_max_batch_rows :: int

record raw_execution_result =
  rer_segments :: "raw_segment_result list"
  rer_candidate_count :: int

definition BATCH_LIMIT :: nat where "BATCH_LIMIT = 65536"
definition CANDIDATE_LIMIT :: nat where "CANDIDATE_LIMIT = 65536"

definition exact_str :: "db_value \<Rightarrow> pystr result" where
  "exact_str v = (case v of DBScalar (SStr s) \<Rightarrow> Inr s | _ \<Rightarrow> Inl (ValueError ''raw string differs''))"

definition raw_scalar :: "db_value \<Rightarrow> scalar option result" where
  "raw_scalar v =
     (case v of DBNull \<Rightarrow> Inr None | DBScalar s \<Rightarrow> Inr (Some s) | DBOther \<Rightarrow> Inl (ValueError ''raw scalar type differs''))"

text \<open>The values of one physical row: pairs of a value and its quality status, in field order.\<close>

fun raw_values :: "pystr list \<Rightarrow> db_value list \<Rightarrow> raw_field_value list result" where
  "raw_values (f # fs) (v # q # rest) =
     rbind (raw_scalar v) (\<lambda>value.
     rbind (exact_str q) (\<lambda>quality.
     rbind (raw_values fs rest) (\<lambda>vs.
       Inr (\<lparr>rf_field_id = f, rf_value = value, rf_quality_status = quality\<rparr> # vs))))"
| "raw_values fs row = Inr []"

definition raw_row :: "compiled_query \<Rightarrow> db_value list \<Rightarrow> raw_product_row result" where
  "raw_row q physical =
     rbind (raise_if (length physical \<noteq> length (cq_projected_fields q) * 2)
              (ValueError ''raw projection width differs'')) (\<lambda>_.
     rbind (raw_values (cq_projected_fields q) physical) (\<lambda>values.
       case values of
         [] \<Rightarrow> Inl IndexError
       | v # _ \<Rightarrow> (case rf_value v of
            Some (SStr pid) \<Rightarrow>
              if rf_field_id v \<noteq> cp ''product_id'' then Inl (ValueError ''raw product identity differs'')
              else Inr \<lparr>rw_product_type = cq_product_type q, rw_native_result_grain = cq_native_result_grain q,
                        rw_product_id = pid, rw_values = values\<rparr>
          | _ \<Rightarrow> Inl (ValueError ''raw product identity differs''))))"

text \<open>The batch loop: it ends at the first empty batch, or when the cursor has no more.\<close>

fun fetch_batches ::
  "compiled_query \<Rightarrow> db_value list list list \<Rightarrow> raw_product_row list \<Rightarrow> nat \<Rightarrow> (raw_product_row list \<times> nat) result" where
  "fetch_batches q [] rows max_batch_rows = Inr (rows, max_batch_rows)"
| "fetch_batches q (batch # batches) rows max_batch_rows =
     (if batch = [] then Inr (rows, max_batch_rows)
      else rbind (raise_if (length batch > BATCH_LIMIT \<or> length rows + length batch > CANDIDATE_LIMIT)
                    (ValueError ''raw candidate limit exceeded'')) (\<lambda>_.
           rbind (traverse (raw_row q) batch) (\<lambda>new.
             fetch_batches q batches (rows @ new) (max max_batch_rows (length batch)))))"

definition execute_query ::
  "(pystr \<Rightarrow> scalar list \<Rightarrow> db_value list list list) \<Rightarrow> compiled_query \<Rightarrow> raw_segment_result result" where
  "execute_query database q =
     rbind (fetch_batches q (database (cq_sql q) (cq_parameters q)) [] 0) (\<lambda>(rows, max_batch_rows).
       Inr \<lparr>rsr_product_type = cq_product_type q, rsr_native_result_grain = cq_native_result_grain q,
            rsr_rows = rows, rsr_candidate_count = int (length rows),
            rsr_max_batch_rows = int max_batch_rows\<rparr>)"

section \<open>executor.py\<close>

definition execute_bundle ::
  "(pystr \<Rightarrow> pystr list option) \<Rightarrow> (pystr \<Rightarrow> scalar list \<Rightarrow> db_value list list list) \<Rightarrow> field_registry
     \<Rightarrow> execution_bundle \<Rightarrow> raw_execution_result result" where
  "execute_bundle specs database fr b =
     rbind (traverse (\<lambda>s. rbind (from_segment fr s) (\<lambda>ast. rbind (compile_query specs ast) (execute_query database)))
              (eb_segments b)) (\<lambda>segments.
       Inr \<lparr>rer_segments = segments, rer_candidate_count = sum_list (map rsr_candidate_count segments)\<rparr>)"

section \<open>reference.py\<close>

definition row_value :: "raw_product_row \<Rightarrow> pystr \<Rightarrow> scalar option" where
  "row_value row f =
     (case map_of (rev (map (\<lambda>v. (rf_field_id v, rf_value v)) (rw_values row))) f of None \<Rightarrow> None | Some v \<Rightarrow> v)"

text \<open>A comparison of a scalar with a clause value: only scalars of one kind compare.\<close>

definition compare_with :: "(scalar \<Rightarrow> scalar \<Rightarrow> bool result) \<Rightarrow> scalar \<Rightarrow> clause_value \<Rightarrow> bool result" where
  "compare_with le v target =
     (case target of CScalar t \<Rightarrow> le v t | _ \<Rightarrow> Inl (TypeError ''not supported between instances''))"

definition equals_clause :: "scalar \<Rightarrow> clause_value \<Rightarrow> bool" where
  "equals_clause v target = (case target of CScalar t \<Rightarrow> scalar_eq v t | _ \<Rightarrow> False)"

text \<open>\<open>low <= value <= high\<close> on the first two elements of a tuple.\<close>

definition between :: "scalar \<Rightarrow> scalar list \<Rightarrow> bool result" where
  "between v vs =
     (case vs of
        lo # rest \<Rightarrow> rbind (scalar_le lo v) (\<lambda>b.
          if \<not> b then Inr False else (case rest of hi # _ \<Rightarrow> scalar_le v hi | [] \<Rightarrow> Inl IndexError))
      | [] \<Rightarrow> Inl IndexError)"

definition contains_clause :: "scalar \<Rightarrow> clause_value \<Rightarrow> bool" where
  "contains_clause v target =
     (case (v, target) of (SStr s, CScalar (SStr t)) \<Rightarrow> py_contains s t | _ \<Rightarrow> False)"

definition starts_with_clause :: "scalar \<Rightarrow> clause_value \<Rightarrow> bool" where
  "starts_with_clause v target =
     (case (v, target) of (SStr s, CScalar (SStr t)) \<Rightarrow> py_startswith s t | _ \<Rightarrow> False)"

definition reference_matches :: "raw_product_row \<Rightarrow> filter_clause \<Rightarrow> bool result" where
  "reference_matches row c =
     (case row_value row (fc_field c) of
        None \<Rightarrow> Inr (fc_operator c = IS_MISSING)
      | Some v \<Rightarrow>
         (case fc_operator c of
            IS_MISSING \<Rightarrow> Inr False
          | IS_NOT_MISSING \<Rightarrow> Inr True
          | EQ \<Rightarrow> Inr (equals_clause v (fc_value c))
          | NE \<Rightarrow> Inr (\<not> equals_clause v (fc_value c))
          | IN \<Rightarrow> Inr (case fc_value c of CTuple vs \<Rightarrow> list_ex (scalar_eq v) vs | _ \<Rightarrow> False)
          | NOT_IN \<Rightarrow> Inr (case fc_value c of CTuple vs \<Rightarrow> \<not> list_ex (scalar_eq v) vs | _ \<Rightarrow> False)
          | BETWEEN \<Rightarrow> (case fc_value c of CTuple vs \<Rightarrow> between v vs | _ \<Rightarrow> Inr False)
          | CONTAINS \<Rightarrow> Inr (contains_clause v (fc_value c))
          | STARTS_WITH \<Rightarrow> Inr (starts_with_clause v (fc_value c))
          | GT \<Rightarrow> compare_with (\<lambda>a b. scalar_less b a) v (fc_value c)
          | GTE \<Rightarrow> compare_with (\<lambda>a b. scalar_le b a) v (fc_value c)
          | LT \<Rightarrow> compare_with scalar_less v (fc_value c)
          | LTE \<Rightarrow> compare_with scalar_le v (fc_value c)))"

definition reference_segment ::
  "field_registry \<Rightarrow> raw_product_row list \<Rightarrow> execution_segment \<Rightarrow> raw_segment_result result" where
  "reference_segment fr rows s =
     rbind (filter_result (\<lambda>row.
              if rw_product_type row \<noteq> sg_product_type s then Inr False
              else all_result (\<lambda>c. rbind (projection fr (fc_field c) (rw_product_type row)) (\<lambda>p.
                     if fp_metric_id p \<noteq> None then Inr True else reference_matches row c)) (sg_filters s)) rows)
       (\<lambda>selected.
         Inr \<lparr>rsr_product_type = sg_product_type s, rsr_native_result_grain = sg_native_result_grain s,
              rsr_rows = selected, rsr_candidate_count = int (length selected),
              rsr_max_batch_rows = int (length selected)\<rparr>)"

definition reference_execute ::
  "field_registry \<Rightarrow> raw_product_row list \<Rightarrow> execution_bundle \<Rightarrow> raw_execution_result result" where
  "reference_execute fr rows b =
     rbind (traverse (reference_segment fr rows) (eb_segments b)) (\<lambda>segments.
       Inr \<lparr>rer_segments = segments, rer_candidate_count = sum_list (map rsr_candidate_count segments)\<rparr>)"

section \<open>Placeholders\<close>

text \<open>The number of placeholders in a piece of SQL.\<close>

definition holes :: "pystr \<Rightarrow> nat" where
  "holes s = count_list s 63"

lemma holes_append [simp]: "holes (s @ t) = holes s + holes t"
  by (simp add: holes_def)

lemma holes_Nil [simp]: "holes [] = 0"
  by (simp add: holes_def)

lemma holes_join: "holes sep = 0 \<Longrightarrow> holes (py_join sep ts) = sum_list (map holes ts)"
  by (induction sep ts rule: py_join.induct) (simp_all add: holes_def)

lemma holes_quote: "holes (sql_quote c) = holes c"
  by (simp add: sql_quote_def holes_def)

lemma holes_literals:
  "holes (cp ''SELECT '') = 0" "holes (cp '', '') = 0" "holes (cp '' FROM '') = 0" "holes (cp '' AS \"owner\"'') = 0"
  "holes (cp '' WHERE '') = 0" "holes (cp '' AND '') = 0" "holes (cp '' ORDER BY '') = 0" "holes (cp '' '') = 0"
  "holes (cp '' NULLS LAST'') = 0" "holes (cp '' ASC NULLS LAST'') = 0" "holes (cp ''ASC'') = 0" "holes (cp ''DESC'') = 0"
  "holes (cp '' ?'') = 1" "holes (cp ''?'') = 1" "holes (cp ''IN'') = 0" "holes (cp ''NOT IN'') = 0" "holes (cp '' ('') = 0"
  "holes (cp '')'') = 0" "holes (cp '' BETWEEN ? AND ?'') = 2" "holes (cp ''strpos('') = 0" "holes (cp '', ?) > 0'') = 1"
  "holes (cp ''starts_with('') = 0" "holes (cp '', ?)'') = 1" "holes (cp '' IS NULL'') = 0" "holes (cp '' IS NOT NULL'') = 0"
  "holes (cp ''\"product_type\" = ?'') = 1"
  "holes (cp ''EXISTS (SELECT 1 FROM \"silver_product_holding\" AS \"holding\" WHERE '') = 0"
  "holes (cp ''\"holding\".\"owner_product_type\" = ? AND '') = 1"
  "holes (cp ''\"holding\".\"owner_product_id\" = \"owner\".'') = 0"
  "holes (cp ''\"holding\".\"constituent_identifier\" = ? AND '') = 1"
  "holes (cp ''\"holding\".\"constituent_identifier_type\" = ?)'') = 1"
  "holes (cp ''='') = 0" "holes (cp ''!='') = 0" "holes (cp ''>'') = 0" "holes (cp ''>='') = 0" "holes (cp ''<'') = 0"
  "holes (cp ''<='') = 0"
  by code_simp+

lemma holes_binary: "binary_operator op = Some symbol \<Longrightarrow> holes (cp symbol) = 0"
  by (cases op) (auto simp: holes_literals)

lemma predicate_holes:
  assumes "predicate col op v = Inr (sql, params)" and "holes col = 0"
    and "op = BETWEEN \<Longrightarrow> length params = 2"
  shows "holes sql = length params"
proof (cases "binary_operator op")
  case (Some s)
  with assms holes_binary [OF Some] show ?thesis
    by (auto simp: predicate_def holes_quote holes_literals split: clause_value.splits)
next
  case None
  with assms show ?thesis
    by (cases op)
       (auto simp: predicate_def holes_quote holes_literals holes_join comp_def sum_list_triv
         split: clause_value.splits scalar.splits)
qed


text \<open>The names a compiled query quotes: none may itself hold a placeholder.\<close>

definition clean_ast :: "query_ast \<Rightarrow> bool" where
  "clean_ast ast \<longleftrightarrow> holes (qa_table_name ast) = 0 \<and>
     list_all (\<lambda>p. holes (fp_column_name p) = 0 \<and> holes (fp_quality_column_name p) = 0) (qa_projections ast)"

lemma by_field_member: "by_field ast f = Inr p \<Longrightarrow> p \<in> set (qa_projections ast) \<and> fp_field_id p = f"
  by (auto simp: by_field_def dest!: map_of_SomeD split: option.splits)

lemma by_field_clean: "clean_ast ast \<Longrightarrow> by_field ast f = Inr p \<Longrightarrow> holes (fp_column_name p) = 0"
  by (auto simp: clean_ast_def list_all_iff dest!: by_field_member)

lemma clause_predicate_holes:
  assumes "clean_ast ast" and "validate_value_shape c = Inr c" and "clause_predicate ast c = Inr (Some (sql, ps))"
  shows "holes sql = length ps"
proof -
  from assms(3) obtain p where p: "by_field ast (fc_field c) = Inr p"
    "predicate (fp_column_name p) (fc_operator c) (fc_value c) = Inr (sql, ps)"
    by (auto simp: clause_predicate_def rbind_eq_Inr_iff split: if_splits)
  have "length ps = 2" if "fc_operator c = BETWEEN"
    using that p(2) assms(2)
    by (auto simp: predicate_def validate_value_shape_def scalar_operators_def split: clause_value.splits if_splits)
  with predicate_holes [OF p(2) by_field_clean [OF assms(1) p(1)]] show ?thesis by blast
qed

lemma holding_predicate_holes:
  "clean_ast ast \<Longrightarrow> holding_predicate specs ast h = Inr (sql, ps) \<Longrightarrow> holes sql = length ps"
  by (auto simp: holding_predicate_def rbind_eq_Inr_iff holes_literals holes_quote
      dest!: by_field_clean split: option.splits if_splits)

lemma compile_predicates_holes:
  assumes "compile_predicates specs cols ast = Inr preds" and "clean_ast ast"
    and "\<forall>c \<in> set (sg_filters (qa_segment ast)). validate_value_shape c = Inr c"
  shows "\<forall>(sql, ps) \<in> set preds. holes sql = length ps"
proof -
  from assms(1) obtain qs where
    qs: "traverse (clause_predicate ast) (sg_filters (qa_segment ast)) = Inr qs"
    and mem: "\<And>x. x \<in> set preds \<Longrightarrow> (\<exists>kind. x = (cp ''\"product_type\" = ?'', [SStr (cp kind)])) \<or> Some x \<in> set qs \<or>
       (\<exists>h. holding_predicate specs ast h = Inr x)"
    by (fastforce simp: compile_predicates_def rbind_eq_Inr_iff map_filter_def split: option.splits if_splits)
  show ?thesis
  proof clarify
    fix sql ps
    assume "(sql, ps) \<in> set preds"
    from mem [OF this] consider (kind) kind where "sql = cp ''\"product_type\" = ?''" "ps = [SStr (cp kind)]"
      | (clause) "Some (sql, ps) \<in> set qs" | (holding) h where "holding_predicate specs ast h = Inr (sql, ps)"
      by auto
    then show "holes sql = length ps"
    proof cases
      case clause
      from traverse_member [OF qs this] assms(2,3) show ?thesis by (auto intro: clause_predicate_holes)
    qed (simp_all add: holes_literals holding_predicate_holes [OF assms(2)])
  qed
qed

lemma order_items_holes:
  assumes "order_items ast = Inr order" and "clean_ast ast"
  shows "sum_list (map holes order) = 0"
proof -
  have "holes x = 0" if "x \<in> set order" for x
  proof -
    from assms(1) that have "(\<exists>p f d. by_field ast f = Inr p \<and>
        x = sql_quote (fp_column_name p) @ cp '' '' @ sort_direction_upper d @ cp '' NULLS LAST'')
      \<or> (\<exists>p f. by_field ast f = Inr p \<and> x = sql_quote (fp_column_name p) @ cp '' ASC NULLS LAST'')"
      by (auto simp: order_items_def rbind_eq_Inr_iff dest!: traverse_member split: if_splits) blast+
    moreover have "holes (sort_direction_upper d) = 0" for d by (cases d) (simp_all add: holes_literals)
    ultimately show ?thesis using by_field_clean [OF assms(2)] by (auto simp: holes_literals holes_quote)
  qed
  then show ?thesis by (simp add: sum_list_0 cong: map_cong)
qed

lemma compile_query_Inr:
  assumes "compile_query specs ast = Inr q"
  shows "\<exists>cols preds order. check_ast specs ast = Inr cols \<and> compile_predicates specs cols ast = Inr preds \<and>
    order_items ast = Inr order \<and> cq_parameters q = concat (map snd preds) \<and>
    cq_projected_fields q = map fp_field_id (qa_projections ast) \<and>
    cq_sql q = cp ''SELECT '' @ py_join (cp '', '') (map sql_quote (selected_columns ast))
                     @ cp '' FROM '' @ sql_quote (qa_table_name ast) @ cp '' AS \"owner\"''
                     @ (if preds \<noteq> [] then cp '' WHERE '' @ py_join (cp '' AND '') (map fst preds) else [])
                     @ cp '' ORDER BY '' @ py_join (cp '', '') order"
  using assms by (auto simp: compile_query_def rbind_eq_Inr_iff)

lemma selected_columns_holes: "clean_ast ast \<Longrightarrow> sum_list (map (holes \<circ> sql_quote) (selected_columns ast)) = 0"
proof -
  assume "clean_ast ast"
  then have "holes (sql_quote c) = 0" if "c \<in> set (selected_columns ast)" for c
    using that by (auto simp: selected_columns_def clean_ast_def list_all_iff holes_quote)
  then show ?thesis by (simp add: sum_list_0 comp_def cong: map_cong)
qed

lemma compiled_parameters_match_lemma:
  assumes "compile_query specs ast = Inr q" and "clean_ast ast"
    and "\<forall>c \<in> set (sg_filters (qa_segment ast)). validate_value_shape c = Inr c"
  shows "holes (cq_sql q) = length (cq_parameters q)"
proof -
  from compile_query_Inr [OF assms(1)] obtain cols preds order where
    p: "compile_predicates specs cols ast = Inr preds" and o: "order_items ast = Inr order"
    and q: "cq_parameters q = concat (map snd preds)"
      "cq_sql q = cp ''SELECT '' @ py_join (cp '', '') (map sql_quote (selected_columns ast))
                     @ cp '' FROM '' @ sql_quote (qa_table_name ast) @ cp '' AS \"owner\"''
                     @ (if preds \<noteq> [] then cp '' WHERE '' @ py_join (cp '' AND '') (map fst preds) else [])
                     @ cp '' ORDER BY '' @ py_join (cp '', '') order"
    by blast
  have "sum_list (map holes (map fst preds)) = length (concat (map snd preds))"
    using compile_predicates_holes [OF p assms(2,3)]
    by (auto simp: length_concat comp_def case_prod_beta intro!: arg_cong [of _ _ sum_list])
  with order_items_holes [OF o assms(2)] selected_columns_holes [OF assms(2)] assms(2) show ?thesis
    by (auto simp: q holes_literals holes_join holes_quote clean_ast_def)
qed

section \<open>Literals never reach the SQL text\<close>

fun map_clause_value :: "(scalar \<Rightarrow> scalar) \<Rightarrow> clause_value \<Rightarrow> clause_value" where
  "map_clause_value f CNone = CNone"
| "map_clause_value f (CScalar s) = CScalar (f s)"
| "map_clause_value f (CTuple vs) = CTuple (map f vs)"

definition is_str :: "scalar \<Rightarrow> bool" where
  "is_str s \<longleftrightarrow> (case s of SStr _ \<Rightarrow> True | _ \<Rightarrow> False)"

definition map_literals :: "(scalar \<Rightarrow> scalar) \<Rightarrow> query_ast \<Rightarrow> query_ast" where
  "map_literals f ast =
     ast\<lparr>qa_segment := (qa_segment ast)\<lparr>sg_filters :=
       map (\<lambda>c. c\<lparr>fc_value := map_clause_value f (fc_value c)\<rparr>) (sg_filters (qa_segment ast))\<rparr>\<rparr>"

lemma case_not_str: "\<not> is_str s \<Longrightarrow> case_scalar g (\<lambda>_. e) (\<lambda>_. e) (\<lambda>_. e) (\<lambda>_. e) (\<lambda>_. e) s = e"
  by (cases s) (simp_all add: is_str_def)

lemma predicate_map:
  assumes "\<And>s. is_str (f s) \<longleftrightarrow> is_str s"
  shows "map_sum id fst (predicate col op (map_clause_value f v)) = map_sum id fst (predicate col op v)"
proof (cases v)
  case (CScalar s)
  have i: "is_str s \<Longrightarrow> \<exists>t. s = SStr t" for s by (cases s) (simp_all add: is_str_def)
  show ?thesis
  proof (cases "is_str s")
    case True
    with assms i obtain a b where "s = SStr a" "f s = SStr b" by metis
    with CScalar show ?thesis by (cases op) (simp_all add: predicate_def Let_def)
  next
    case False
    moreover from False assms have "\<not> is_str (f s)" by simp
    ultimately show ?thesis using CScalar
      by (cases op) (simp_all add: predicate_def Let_def case_not_str)
  qed
qed (cases op, simp_all add: predicate_def Let_def comp_def)+

lemma map_literals_simps [simp]:
  "qa_table_name (map_literals f ast) = qa_table_name ast" "qa_projections (map_literals f ast) = qa_projections ast"
  "sg_product_type (qa_segment (map_literals f ast)) = sg_product_type (qa_segment ast)"
  "sg_sort (qa_segment (map_literals f ast)) = sg_sort (qa_segment ast)"
  "sg_holding_constituent_filter (qa_segment (map_literals f ast)) = sg_holding_constituent_filter (qa_segment ast)"
  "by_field (map_literals f ast) = by_field ast" "selected_columns (map_literals f ast) = selected_columns ast"
  by (simp_all add: map_literals_def by_field_def selected_columns_def fun_eq_iff)

lemma map_literals_order: "order_items (map_literals f ast) = order_items ast"
  unfolding order_items_def map_literals_simps by (rule refl)

lemma map_literals_check: "check_ast specs (map_literals f ast) = check_ast specs ast"
  unfolding check_ast_def map_literals_simps by (rule refl)

lemma map_literals_holding: "holding_predicate specs (map_literals f ast) h = holding_predicate specs ast h"
  unfolding holding_predicate_def map_literals_simps by (rule refl)

lemma clause_predicate_map:
  assumes "\<And>s. is_str (f s) \<longleftrightarrow> is_str s"
  shows "map_sum id (map_option fst) (clause_predicate (map_literals f ast) (c\<lparr>fc_value := map_clause_value f (fc_value c)\<rparr>))
       = map_sum id (map_option fst) (clause_predicate ast c)"
proof (cases "by_field ast (fc_field c)")
  case (Inr p)
  have "map_sum id fst (predicate (fp_column_name p) (fc_operator c) (map_clause_value f (fc_value c)))
      = map_sum id fst (predicate (fp_column_name p) (fc_operator c) (fc_value c))"
    by (rule predicate_map [OF assms])
  with Inr show ?thesis
    by (cases "predicate (fp_column_name p) (fc_operator c) (map_clause_value f (fc_value c))";
        cases "predicate (fp_column_name p) (fc_operator c) (fc_value c)")
       (simp_all add: clause_predicate_def)
qed (simp add: clause_predicate_def)

lemma traverse_map_sum:
  assumes "\<And>x. x \<in> set xs \<Longrightarrow> map_sum id h (f (g x)) = map_sum id h (f' x)"
  shows "map_sum id (map h) (traverse f (map g xs)) = map_sum id (map h) (traverse f' xs)"
  using assms
proof (induction xs)
  case (Cons x xs)
  note Cons.prems [OF list.set_intros(1)]
  moreover have "map_sum id (map h) (traverse f (map g xs)) = map_sum id (map h) (traverse f' xs)"
    by (rule Cons.IH [OF Cons.prems]) simp
  ultimately show ?case
    by (cases "f (g x)"; cases "f' x"; cases "traverse f (map g xs)"; cases "traverse f' xs") simp_all
qed simp

lemma map_filter_fst: "map fst (List.map_filter id qs) = List.map_filter id (map (map_option fst) qs)"
  by (induction qs) (auto simp: map_filter_def)

lemma compile_predicates_map:
  assumes "\<And>s. is_str (f s) \<longleftrightarrow> is_str s"
  shows "map_sum id (map fst) (compile_predicates specs cols (map_literals f ast)) =
         map_sum id (map fst) (compile_predicates specs cols ast)"
proof -
  have fs: "sg_filters (qa_segment (map_literals f ast)) =
      map (\<lambda>c. c\<lparr>fc_value := map_clause_value f (fc_value c)\<rparr>) (sg_filters (qa_segment ast))"
    by (simp add: map_literals_def)
  have t: "map_sum id (map (map_option fst)) (traverse (clause_predicate (map_literals f ast)) (sg_filters (qa_segment (map_literals f ast))))
      = map_sum id (map (map_option fst)) (traverse (clause_predicate ast) (sg_filters (qa_segment ast)))"
    unfolding fs by (rule traverse_map_sum) (rule clause_predicate_map [OF assms])
  define A where "A = traverse (clause_predicate (map_literals f ast)) (sg_filters (qa_segment (map_literals f ast)))"
  define B where "B = traverse (clause_predicate ast) (sg_filters (qa_segment ast))"
  note d = A_def [symmetric] B_def [symmetric]
  show ?thesis
    unfolding compile_predicates_def map_literals_simps d map_literals_holding
    using t [unfolded d]
    by (cases A; cases B) (auto simp: rbind_def map_filter_fst split: sum.split)
qed

lemma sql_free_of_literals_lemma:
  assumes "\<And>s. is_str (f s) \<longleftrightarrow> is_str s"
  shows "map_sum id cq_sql (compile_query specs (map_literals f ast)) = map_sum id cq_sql (compile_query specs ast)"
proof (cases "check_ast specs ast")
  case (Inr cols)
  define A where "A = compile_predicates specs cols (map_literals f ast)"
  define B where "B = compile_predicates specs cols ast"
  have "map_sum id (map fst) A = map_sum id (map fst) B"
    unfolding A_def B_def by (rule compile_predicates_map [OF assms])
  then show ?thesis
    unfolding compile_query_def map_literals_check Inr rbind_Inr A_def [symmetric] B_def [symmetric] map_literals_order
    by (cases A; cases B; cases "order_items ast") (auto simp: rbind_def)
qed (simp add: compile_query_def map_literals_check)


section \<open>The repository\<close>

definition raw_row_ok :: "compiled_query \<Rightarrow> raw_product_row \<Rightarrow> bool" where
  "raw_row_ok q row \<longleftrightarrow>
     rw_product_type row = cq_product_type q \<and> rw_native_result_grain row = cq_native_result_grain q \<and>
     map rf_field_id (rw_values row) = cq_projected_fields q \<and>
     (\<exists>v rest. rw_values row = v # rest \<and> rf_field_id v = cp ''product_id'' \<and>
        rf_value v = Some (SStr (rw_product_id row)))"

lemma raw_values_fields:
  "raw_values fs row = Inr vs \<Longrightarrow> length row = length fs * 2 \<Longrightarrow> map rf_field_id vs = fs"
  by (induction fs row arbitrary: vs rule: raw_values.induct) (auto simp: rbind_eq_Inr_iff)

lemma raw_row_Inr: "raw_row q physical = Inr row \<Longrightarrow> raw_row_ok q row"
proof -
  assume a: "raw_row q physical = Inr row"
  then obtain vs where w: "length physical = length (cq_projected_fields q) * 2"
    and vs: "raw_values (cq_projected_fields q) physical = Inr vs"
    by (auto simp: raw_row_def rbind_eq_Inr_iff)
  with a obtain v rest where v: "vs = v # rest" by (cases vs) (auto simp: raw_row_def)
  with a w vs obtain x where x: "rf_value v = Some x" by (cases "rf_value v") (auto simp: raw_row_def)
  with a w vs v have "rf_field_id v = cp ''product_id'' \<and>
      row = \<lparr>rw_product_type = cq_product_type q, rw_native_result_grain = cq_native_result_grain q,
             rw_product_id = (case x of SStr s \<Rightarrow> s), rw_values = vs\<rparr> \<and> (\<exists>s. x = SStr s)"
    by (cases x) (auto simp: raw_row_def split: if_splits)
  then show ?thesis using raw_values_fields [OF vs w] v x by (auto simp: raw_row_ok_def)
qed

lemma fetch_batches_Inr:
  assumes "fetch_batches q batches rows m = Inr (rows', m')"
    and "\<forall>row \<in> set rows. raw_row_ok q row" and "length rows \<le> CANDIDATE_LIMIT" and "m \<le> BATCH_LIMIT"
  shows "(\<forall>row \<in> set rows'. raw_row_ok q row) \<and> length rows' \<le> CANDIDATE_LIMIT \<and> m' \<le> BATCH_LIMIT"
  using assms
proof (induction q batches rows m rule: fetch_batches.induct)
  case (2 q batch batches rows m)
  show ?case
  proof (cases "batch = []")
    case False
    with "2.prems"(1) obtain new where
      lim: "length batch \<le> BATCH_LIMIT" "length rows + length batch \<le> CANDIDATE_LIMIT"
      and new: "traverse (raw_row q) batch = Inr new"
      and rec: "fetch_batches q batches (rows @ new) (max m (length batch)) = Inr (rows', m')"
      by (auto simp: rbind_eq_Inr_iff)
    have r: "raise_if (length batch > BATCH_LIMIT \<or> length rows + length batch > CANDIDATE_LIMIT)
        (ValueError ''raw candidate limit exceeded'') = Inr ()" using lim by simp
    have "\<forall>row \<in> set (rows @ new). raw_row_ok q row"
      using "2.prems"(2) traverse_member [OF new] raw_row_Inr by fastforce
    moreover have "length (rows @ new) \<le> CANDIDATE_LIMIT" using lim(2) traverse_length [OF new] by simp
    ultimately show ?thesis
      using "2.IH" [OF False rec] lim(1) "2.prems"(4) by simp
  qed (use 2 in auto)
qed simp

lemma repository_bounded_lemma:
  assumes "execute_query database q = Inr r"
  shows "length (rsr_rows r) \<le> CANDIDATE_LIMIT \<and> rsr_candidate_count r = int (length (rsr_rows r)) \<and>
     rsr_max_batch_rows r \<le> int BATCH_LIMIT \<and> (\<forall>row \<in> set (rsr_rows r). raw_row_ok q row)"
proof -
  from assms obtain rows m where f: "fetch_batches q (database (cq_sql q) (cq_parameters q)) [] 0 = Inr (rows, m)"
    and r: "r = \<lparr>rsr_product_type = cq_product_type q, rsr_native_result_grain = cq_native_result_grain q,
            rsr_rows = rows, rsr_candidate_count = int (length rows), rsr_max_batch_rows = int m\<rparr>"
    by (auto simp: execute_query_def rbind_eq_Inr_iff)
  from fetch_batches_Inr [OF f] show ?thesis by (simp add: r)
qed

text \<open>
  An executor answers a bundle segment by segment: what the policy engine needs is that the result
  lines up with the bundle and counts its rows. The database executor and the in-memory reference
  both do.
\<close>

lemma sum_list_int: "(\<Sum>x\<leftarrow>xs. int (f x)) = int (\<Sum>x\<leftarrow>xs. f x)"
  by (induction xs) simp_all

locale segment_executor =
  fixes execute :: "execution_bundle \<Rightarrow> raw_execution_result result"
  assumes aligned: "execute b = Inr r \<Longrightarrow>
      list_all2 (\<lambda>s t. rsr_product_type t = sg_product_type s \<and> rsr_candidate_count t = int (length (rsr_rows t)) \<and>
        (\<forall>row \<in> set (rsr_rows t). rw_product_type row = sg_product_type s)) (eb_segments b) (rer_segments r)"
    and counted: "execute b = Inr r \<Longrightarrow> rer_candidate_count r = sum_list (map rsr_candidate_count (rer_segments r))"
begin

lemma same_length: "execute b = Inr r \<Longrightarrow> length (rer_segments r) = length (eb_segments b)"
  using aligned list_all2_lengthD by fastforce

lemma types_match: "execute b = Inr r \<Longrightarrow> map rsr_product_type (rer_segments r) = map sg_product_type (eb_segments b)"
  using aligned [of b r] by (intro nth_equalityI) (auto simp: list_all2_conv_all_nth)

lemma candidates_are_rows:
  assumes "execute b = Inr r"
  shows "rer_candidate_count r = int (length (concat (map rsr_rows (rer_segments r))))"
proof -
  have m: "map rsr_candidate_count (rer_segments r) = map (\<lambda>t. int (length (rsr_rows t))) (rer_segments r)"
    using aligned [OF assms] by (auto simp: list_all2_conv_all_nth in_set_conv_nth)
  show ?thesis unfolding counted [OF assms] m by (simp add: length_concat comp_def sum_list_int)
qed

end

lemma execute_query_product:
  "execute_query database q = Inr r \<Longrightarrow> rsr_product_type r = cq_product_type q"
  by (auto simp: execute_query_def rbind_eq_Inr_iff)

lemma compile_query_product:
  "compile_query specs ast = Inr q \<Longrightarrow> cq_product_type q = sg_product_type (qa_segment ast)"
  by (auto simp: compile_query_def rbind_eq_Inr_iff)

lemma from_segment_segment: "from_segment fr s = Inr ast \<Longrightarrow> qa_segment ast = s"
proof -
  assume a: "from_segment fr s = Inr ast"
  then obtain own extra where o: "traverse (\<lambda>f. projection fr f (sg_product_type s)) (ast_field_ids s) = Inr own"
    "state_projections fr (sg_product_type s) (ast_field_ids s) = Inr extra" "sg_native_result_grain s \<noteq> PRODUCT"
    by (auto simp: from_segment_def rbind_eq_Inr_iff)
  consider "fromkeys (map fp_table_name (own @ extra)) = []" | t where "fromkeys (map fp_table_name (own @ extra)) = [t]"
    | t u ts where "fromkeys (map fp_table_name (own @ extra)) = t # u # ts"
    by (metis list.exhaust)
  then show ?thesis using a o by cases (auto simp: from_segment_def)
qed


interpretation sql_executor: segment_executor "execute_bundle specs database fr" for specs database fr
proof
  fix b r
  assume e: "execute_bundle specs database fr b = Inr r"
  then have "traverse (\<lambda>s. rbind (from_segment fr s) (\<lambda>ast. rbind (compile_query specs ast) (execute_query database)))
      (eb_segments b) = Inr (rer_segments r)"
    by (auto simp: execute_bundle_def rbind_eq_Inr_iff)
  then show "list_all2 (\<lambda>s t. rsr_product_type t = sg_product_type s \<and> rsr_candidate_count t = int (length (rsr_rows t)) \<and>
        (\<forall>row \<in> set (rsr_rows t). rw_product_type row = sg_product_type s)) (eb_segments b) (rer_segments r)"
    unfolding traverse_eq_Inr_iff
  proof (rule list_all2_mono)
    fix s t
    assume "rbind (from_segment fr s) (\<lambda>ast. rbind (compile_query specs ast) (execute_query database)) = Inr t"
    then obtain ast q where q: "from_segment fr s = Inr ast" "compile_query specs ast = Inr q" "execute_query database q = Inr t"
      by (auto simp: rbind_eq_Inr_iff)
    then have "cq_product_type q = sg_product_type s" using compile_query_product from_segment_segment by metis
    with repository_bounded_lemma [OF q(3)] execute_query_product [OF q(3)]
    show "rsr_product_type t = sg_product_type s \<and> rsr_candidate_count t = int (length (rsr_rows t)) \<and>
        (\<forall>row \<in> set (rsr_rows t). rw_product_type row = sg_product_type s)"
      by (auto simp: raw_row_ok_def)
  qed
  from e show "rer_candidate_count r = sum_list (map rsr_candidate_count (rer_segments r))"
    by (auto simp: execute_bundle_def rbind_eq_Inr_iff)
qed

interpretation reference_executor: segment_executor "reference_execute fr rows" for fr rows
proof
  fix b r
  assume e: "reference_execute fr rows b = Inr r"
  then have "traverse (reference_segment fr rows) (eb_segments b) = Inr (rer_segments r)"
    by (auto simp: reference_execute_def rbind_eq_Inr_iff)
  then show "list_all2 (\<lambda>s t. rsr_product_type t = sg_product_type s \<and> rsr_candidate_count t = int (length (rsr_rows t)) \<and>
        (\<forall>row \<in> set (rsr_rows t). rw_product_type row = sg_product_type s)) (eb_segments b) (rer_segments r)"
    unfolding traverse_eq_Inr_iff
    by (rule list_all2_mono)
       (auto simp: reference_segment_def rbind_eq_Inr_iff filter_result_Inr_iff split: if_splits)
  from e show "rer_candidate_count r = sum_list (map rsr_candidate_count (rer_segments r))"
    by (auto simp: reference_execute_def rbind_eq_Inr_iff)
qed


section \<open>Properties\<close>

definition example_specs :: "pystr \<Rightarrow> pystr list option" where
  "example_specs t =
     (if t = cp ''silver_domestic_listed_product''
      then Some (concat (map (\<lambda>c. [c, c @ cp ''__quality_status''])
             (map cp [''product_id'', ''product_type'', ''region'', ''return_1y'', ''sale_flag'', ''suspension_flag'',
               ''listing_date'', ''listing_end_date''])))
      else None)"

definition example_ast :: query_ast where
  "example_ast = projr (from_segment example_fields (hd (eb_segments example_bundle)))"

text \<open>One row of the example query, and a database that returns it.\<close>

definition example_database :: "pystr \<Rightarrow> scalar list \<Rightarrow> db_value list list list" where
  "example_database sql params =
     [[concat (map (\<lambda>v. [v, DBScalar (SStr (cp ''valid''))])
        [DBScalar (SStr (cp ''A1'')), DBScalar (SStr ko_us), DBScalar (SDec (Dec False 125 (-1))), DBScalar (SBool True),
         DBScalar (SBool False), DBScalar (SDate (Date 2020 1 2)), DBNull])], []]"

lemma example_compiled: "\<exists>q. compile_query example_specs example_ast = Inr q"
proof -
  have "\<not> isl (compile_query example_specs example_ast)" by code_simp
  then show ?thesis by (cases "compile_query example_specs example_ast") auto
qed

text \<open>C0. Every parameter has its placeholder. In the compiled SQL of a validated segment the number
  of \<open>?\<close> placeholders is the number of bound parameters, for every filter shape, the product
  discriminator and the holding relation, provided no registered name contains a question mark.\<close>

theorem compiled_parameters_match:
  assumes "compile_query specs ast = Inr q" and "clean_ast ast"
    and "\<forall>c \<in> set (sg_filters (qa_segment ast)). validate_value_shape c = Inr c"
  shows "holes (cq_sql q) = length (cq_parameters q)"
  using assms by (rule compiled_parameters_match_lemma)

theorem compiled_parameters_match_witness:
  "\<exists>q. compile_query example_specs example_ast = Inr q \<and> holes (cq_sql q) = length (cq_parameters q)"
proof -
  obtain q where q: "compile_query example_specs example_ast = Inr q" using example_compiled by blast
  have "clean_ast example_ast" "\<forall>c \<in> set (sg_filters (qa_segment example_ast)). validate_value_shape c = Inr c"
    by code_simp+
  from compiled_parameters_match [OF q this] q show ?thesis by blast
qed

text \<open>C11. No literal reaches the SQL text. Replacing the literals of the filters by any others (texts
  by texts) leaves the compiled SQL, and the outcome of compilation, unchanged: values travel only
  as parameters.\<close>

theorem sql_free_of_literals:
  assumes "\<And>s. is_str (f s) \<longleftrightarrow> is_str s"
  shows "map_sum id cq_sql (compile_query specs (map_literals f ast)) = map_sum id cq_sql (compile_query specs ast)"
  using assms by (rule sql_free_of_literals_lemma)

theorem sql_free_of_literals_witness:
  "map_sum id cq_sql (compile_query example_specs
      (map_literals (\<lambda>s. case s of SStr _ \<Rightarrow> SStr (cp ''x OR 1=1'') | _ \<Rightarrow> SInt 0) example_ast)) =
   map_sum id cq_sql (compile_query example_specs example_ast)"
  by (rule sql_free_of_literals) (simp add: is_str_def split: scalar.splits)

text \<open>C12. Result sets are bounded and well shaped. A query that returns yields at most 65536 rows, in
  batches of at most 65536, counts them, and every row carries exactly the projected fields in
  order with the product identifier first; anything else raises.\<close>

theorem repository_bounded:
  assumes "execute_query database q = Inr r"
  shows "length (rsr_rows r) \<le> CANDIDATE_LIMIT \<and> rsr_candidate_count r = int (length (rsr_rows r)) \<and>
     rsr_max_batch_rows r \<le> int BATCH_LIMIT \<and> (\<forall>row \<in> set (rsr_rows r). raw_row_ok q row)"
  using assms by (rule repository_bounded_lemma)

lemma example_execution:
  "\<exists>q r. compile_query example_specs example_ast = Inr q \<and> execute_query example_database q = Inr r \<and> rsr_rows r \<noteq> []"
proof -
  let ?e = "rbind (compile_query example_specs example_ast) (execute_query example_database)"
  have "case ?e of Inl _ \<Rightarrow> False | Inr r \<Rightarrow> rsr_rows r \<noteq> []" by code_simp
  then show ?thesis by (cases "compile_query example_specs example_ast") (auto split: sum.splits)
qed

theorem repository_bounded_witness:
  "\<exists>q r. execute_query example_database q = Inr r \<and> rsr_rows r \<noteq> [] \<and> length (rsr_rows r) \<le> CANDIDATE_LIMIT"
  using example_execution repository_bounded by blast

text \<open>The executor lines up with its bundle. The results have the segments' product types in
  order, every row belongs to its segment, and the candidate count is the number of rows: the policy
  engine's strict pairing of segments never fails on them.\<close>

theorem execution_aligned:
  assumes "execute_bundle specs database fr b = Inr r"
  shows "map rsr_product_type (rer_segments r) = map sg_product_type (eb_segments b) \<and>
     rer_candidate_count r = int (length (concat (map rsr_rows (rer_segments r)))) \<and>
     list_all2 (\<lambda>s t. \<forall>row \<in> set (rsr_rows t). rw_product_type row = sg_product_type s) (eb_segments b) (rer_segments r)"
  using sql_executor.types_match [OF assms] sql_executor.candidates_are_rows [OF assms] sql_executor.aligned [OF assms]
  by (auto elim: list_all2_mono)

theorem execution_aligned_witness:
  "\<exists>r. execute_bundle example_specs example_database example_fields example_bundle = Inr r \<and>
     map rsr_product_type (rer_segments r) = map sg_product_type (eb_segments example_bundle)"
proof -
  let ?e = "execute_bundle example_specs example_database example_fields example_bundle"
  have "\<not> isl ?e" by code_simp
  then obtain r where "?e = Inr r" by (cases ?e) auto
  then show ?thesis using execution_aligned by blast
qed

end
