(* ===== verification/Quality.thy ===== *)
theory Quality
  imports Query_Sql
begin

text \<open>
  The operation policies of \<open>finproof/quality\<close>: \<open>metric_policy.py\<close> (which recorded values may
  be compared), \<open>comparability.py\<close> (which may be compared with each other), \<open>dual_lens.py\<close>,
  \<open>state.py\<close> (which products are eligible at a date) and \<open>ties.py\<close> (competition ranks).
\<close>

section \<open>metric_policy.py\<close>

datatype operation = OP_DISPLAY | OP_FILTER | OP_RANK | OP_AGGREGATE

record metric_value =
  mv_metric_id :: pystr
  mv_product_type :: product_type
  mv_product_id :: pystr
  mv_value :: "scalar option"
  mv_quality_status :: pystr
  mv_currency :: "pystr option"
  mv_period :: "pystr option"
  mv_sort_value :: "scalar option"

record metric_policy_result =
  mp_recorded_values :: "metric_value list"
  mp_comparison_valid_values :: "metric_value list"
  mp_excluded_count :: int
  mp_warnings :: "pystr list"

definition is_zero :: "scalar option \<Rightarrow> bool" where
  "is_zero v = (case v of None \<Rightarrow> False | Some s \<Rightarrow> scalar_eq s (SInt 0))"

definition comparable_statuses :: "pystr list" where
  "comparable_statuses = [cp ''valid'', cp ''recorded_zero'', cp ''constant_metric'']"

definition metric_valid :: "registry_bundle \<Rightarrow> operation \<Rightarrow> metric_value \<Rightarrow> bool result" where
  "metric_valid regs operation v =
     rbind (metric_entry regs (mv_metric_id v)) (\<lambda>metric.
       if mv_quality_status v \<notin> set comparable_statuses then Inr False
       else if \<not> is_zero (mv_value v) then Inr True
       else if py_contains (md_zero_policy metric) (cp ''unverified'') then Inr False
       else Inr (\<not> (operation = OP_RANK \<and> py_contains (md_ranking_policy metric) (cp ''positive''))))"

definition apply_metric_policy ::
  "registry_bundle \<Rightarrow> operation \<Rightarrow> metric_value list \<Rightarrow> metric_policy_result result" where
  "apply_metric_policy regs operation values =
     (let recorded = filter (\<lambda>v. mv_value v \<noteq> None) values in
      rbind (if operation = OP_DISPLAY \<or> operation = OP_FILTER then Inr recorded
             else filter_result (metric_valid regs operation) recorded) (\<lambda>valid.
      rbind (if length values = length valid then Inr []
             else rbind (any_result (\<lambda>v. if \<not> is_zero (mv_value v) then Inr False
                           else rbind (metric_entry regs (mv_metric_id v)) (\<lambda>metric.
                                  Inr (py_contains (md_zero_policy metric) (cp ''unverified'')))) recorded) (\<lambda>zero.
                    Inr [if zero then cp ''recorded zero excluded from comparison''
                         else cp ''metric values excluded from comparison''])) (\<lambda>warnings.
        Inr \<lparr>mp_recorded_values = recorded, mp_comparison_valid_values = valid,
             mp_excluded_count = int (length values) - int (length valid), mp_warnings = warnings\<rparr>)))"

section \<open>dual_lens.py\<close>

definition dual_lens_labels :: "metric_policy_result \<Rightarrow> pystr list" where
  "dual_lens_labels r =
     (if mp_recorded_values r = mp_comparison_valid_values r then []
      else [cp ''recorded'', cp ''comparison_valid''])"

section \<open>comparability.py\<close>

record compatibility_partition =
  pn_compatibility_key :: pystr
  pn_currency :: "pystr option"
  pn_period :: "pystr option"
  pn_values :: "metric_value list"
  pn_selected_values :: "metric_value list"
  pn_caveats :: "pystr list"

text \<open>\<open>a or b\<close> on optional strings: an empty string counts as absent.\<close>

definition str_or :: "pystr option \<Rightarrow> pystr option \<Rightarrow> pystr option" where
  "str_or a b = (case a of Some (c # cs) \<Rightarrow> Some (c # cs) | _ \<Rightarrow> b)"

type_synonym compatibility_key = "pystr \<times> pystr option \<times> pystr option \<times> pystr"

definition compatibility_key :: "registry_bundle \<Rightarrow> metric_value \<Rightarrow> compatibility_key result" where
  "compatibility_key regs v =
     rbind (metric_entry regs (mv_metric_id v)) (\<lambda>metric.
       Inr (md_comparability_group metric, str_or (mv_currency v) (md_currency metric),
            str_or (mv_period v) (md_period metric), md_cross_product_policy metric))"

definition make_partition :: "compatibility_key \<times> metric_value list \<Rightarrow> compatibility_partition" where
  "make_partition kg =
     (case kg of ((grp, currency, period, policy), vs) \<Rightarrow>
       \<lparr>pn_compatibility_key = py_join (cp '':'') [grp, opt_str currency, opt_str period, policy],
        pn_currency = currency, pn_period = period, pn_values = vs, pn_selected_values = [],
        pn_caveats = (if policy = cp ''same_period_and_compatible_source_semantics''
                         \<and> card (set (map mv_product_type vs)) > 1
                      then [cp ''cross-product source semantics differ''] else [])\<rparr>)"

definition partition_values ::
  "registry_bundle \<Rightarrow> metric_value list \<Rightarrow> pystr option \<Rightarrow> compatibility_partition list result" where
  "partition_values regs values requested_period =
     rbind (traverse (\<lambda>v. metric_entry regs (mv_metric_id v)) values) (\<lambda>definitions.
     rbind (raise_if (definitions \<noteq> []
                \<and> list_all (\<lambda>d. md_comparability_group d = cp ''historical_total_return'') definitions
                \<and> requested_period = None) (ValueError ''return period requires clarification'')) (\<lambda>_.
     rbind (traverse (\<lambda>v. rbind (compatibility_key regs v) (\<lambda>k. Inr (k, v))) values) (\<lambda>keyed.
       Inr (map (\<lambda>(k, kvs). make_partition (k, map snd kvs)) (group_into [] fst keyed)))))"

section \<open>state.py\<close>

record policy_product =
  pp_product_type :: product_type
  pp_product_id :: pystr
  pp_values :: "raw_field_value list"

record state_evaluation =
  se_product_id :: pystr
  se_eligible :: bool
  se_state_ids :: "pystr list"
  se_warnings :: "pystr list"

text \<open>\<open>{item.field_id: item for item in values}.get(name)\<close>\<close>

definition field_item :: "raw_field_value list \<Rightarrow> pystr \<Rightarrow> raw_field_value option" where
  "field_item values f = map_of (rev (map (\<lambda>v. (rf_field_id v, v)) values)) f"

definition field_value :: "raw_field_value list \<Rightarrow> pystr \<Rightarrow> scalar option" where
  "field_value values f = (case field_item values f of None \<Rightarrow> None | Some v \<Rightarrow> rf_value v)"

definition field_date :: "raw_field_value list \<Rightarrow> pystr \<Rightarrow> date option" where
  "field_date values f = (case field_value values f of Some (SDate d) \<Rightarrow> Some d | _ \<Rightarrow> None)"

definition active_states :: "(string \<times> bool) list \<Rightarrow> pystr list" where
  "active_states states = map (cp \<circ> fst) (filter snd states)"

definition evaluate_listed :: "policy_product \<Rightarrow> date \<Rightarrow> state_evaluation" where
  "evaluate_listed p as_of =
     (let vs = pp_values p;
          suspended = (field_value vs (cp ''suspension_flag'') = Some (SBool True));
          saleable = (field_value vs (cp ''saleable'') = Some (SBool True));
          starts_on_time = (case field_date vs (cp ''listing_date'') of Some d \<Rightarrow> d \<le> as_of | None \<Rightarrow> False);
          open_ended = (case field_item vs (cp ''listing_end_date'') of
              None \<Rightarrow> False
            | Some v \<Rightarrow> rf_value v = None \<and> rf_quality_status v \<in> set [cp ''missing_blank'', cp ''sentinel_max_date'']);
          ends_on_time = (open_ended \<or> (case field_date vs (cp ''listing_end_date'') of Some d \<Rightarrow> d \<ge> as_of | None \<Rightarrow> False))
      in \<lparr>se_product_id = pp_product_id p, se_eligible = (saleable \<and> \<not> suspended \<and> starts_on_time \<and> ends_on_time),
          se_state_ids = active_states [(''saleable'', saleable), (''suspended'', suspended),
             (''not_yet_listed'', \<not> starts_on_time), (''listing_ended'', \<not> ends_on_time)],
          se_warnings = []\<rparr>)"

definition evaluate_bond :: "policy_product \<Rightarrow> date \<Rightarrow> state_evaluation" where
  "evaluate_bond p as_of =
     (let issue_date = field_date (pp_values p) (cp ''issue_date'');
          maturity = field_date (pp_values p) (cp ''maturity_date'');
          not_yet_issued = (case issue_date of Some d \<Rightarrow> d > as_of | None \<Rightarrow> False);
          ended = (case maturity of Some d \<Rightarrow> d < as_of | None \<Rightarrow> False);
          purchasable = (\<not> not_yet_issued \<and> \<not> ended)
      in \<lparr>se_product_id = pp_product_id p, se_eligible = purchasable,
          se_state_ids = active_states [(''not_yet_issued'', not_yet_issued), (''ended'', ended),
             (''unknown_maturity'', maturity = None), (''purchasable_assumed'', purchasable)],
          se_warnings = (if maturity = None then [cp ''bond end state is not source-verifiable''] else [])\<rparr>)"

definition evaluate_state :: "policy_product \<Rightarrow> date \<Rightarrow> state_evaluation result" where
  "evaluate_state p as_of =
     (if is_domestic_listed (pp_product_type p) then Inr (evaluate_listed p as_of)
      else if pp_product_type p = DOMESTIC_BOND then Inr (evaluate_bond p as_of)
      else Inl (ValueError ''state policy is not implemented for product type''))"

section \<open>ties.py\<close>

record ranked_metric_value =
  rk_value :: metric_value
  rk_rank :: int
  rk_tie_count :: int

definition sort_value :: "metric_value \<Rightarrow> scalar result" where
  "sort_value v =
     (case (case mv_sort_value v of Some s \<Rightarrow> Some s | None \<Rightarrow> mv_value v) of
        Some (SDec d) \<Rightarrow> Inr (SDec d)
      | Some (SInt n) \<Rightarrow> Inr (SInt n)
      | Some (SStr s) \<Rightarrow> Inr (SStr s)
      | _ \<Rightarrow> Inl (ValueError ''tie ranking requires exact comparable values''))"

definition order_values :: "bool \<Rightarrow> metric_value list \<Rightarrow> (scalar \<times> metric_value) list result" where
  "order_values descending values =
     rbind (traverse (\<lambda>v. rbind (sort_value v) (\<lambda>k. Inr (k, v))) (py_sorted mv_product_id values)) (\<lambda>keyed.
       scalar_sort descending fst keyed)"

definition tie_rank :: "metric_value list \<Rightarrow> bool \<Rightarrow> ranked_metric_value list result" where
  "tie_rank values descending =
     rbind (raise_if (list_ex (\<lambda>v. mv_value v = None) values)
              (ValueError ''tie ranking requires exact comparable values'')) (\<lambda>_.
     rbind (order_values descending values) (\<lambda>ordered.
       Inr (map (\<lambda>(k, v). \<lparr>rk_value = v,
              rk_rank = int (length (takeWhile (\<lambda>(j, _). \<not> scalar_eq j k) ordered)) + 1,
              rk_tie_count = int (length (filter (\<lambda>(j, _). scalar_eq j k) ordered))\<rparr>) ordered)))"


section \<open>Competition ranking\<close>

lemma length_filter_le_filter: "(\<And>w. P w \<Longrightarrow> Q w) \<Longrightarrow> length (filter P xs) \<le> length (filter Q xs)"
  by (induction xs) auto

lemma length_filter_less_filter:
  assumes "x \<in> set xs" and "Q x" and "\<not> P x" and "\<And>w. P w \<Longrightarrow> Q w"
  shows "length (filter P xs) < length (filter Q xs)"
proof -
  from assms(1) obtain ys zs where "xs = ys @ x # zs" by (auto simp: in_set_conv_decomp)
  with assms(2,3) length_filter_le_filter [of P Q ys, OF assms(4)] length_filter_le_filter [of P Q zs, OF assms(4)]
  show ?thesis by simp
qed

lemma takeWhile_sorted_wrt:
  assumes "sorted_wrt (\<lambda>a b. a = b \<or> lt a b) xs" and "x \<in> set xs"
    and asym: "\<And>a b. lt a b \<Longrightarrow> \<not> lt b a \<and> a \<noteq> b"
  shows "takeWhile (\<lambda>y. y \<noteq> x) xs = filter (\<lambda>y. lt y x) xs"
  using assms(1,2)
proof (induction xs)
  case (Cons a xs)
  show ?case
  proof (cases "a = x")
    case True
    then have "\<forall>y \<in> set xs. x = y \<or> lt x y" using Cons.prems(1) by auto
    then have "\<not> lt y x" if "y \<in> set xs" for y using that asym [of y x] by auto
    moreover have "\<not> lt x x" using asym [of x x] by blast
    ultimately show ?thesis using True by simp
  next
    case False
    with Cons.prems have "x \<in> set xs" by simp
    with Cons.prems(1) False have "lt a x" by auto
    with False Cons \<open>x \<in> set xs\<close> show ?thesis by simp
  qed
qed simp

text \<open>The order of ranking: a value is better when its key comes strictly first.\<close>

definition better :: "bool \<Rightarrow> skey \<Rightarrow> skey \<Rightarrow> bool" where
  "better descending a b \<longleftrightarrow> (if descending then b < a else a < b)"

definition value_key :: "metric_value \<Rightarrow> skey" where
  "value_key v = (case sort_value v of Inr s \<Rightarrow> scalar_key s | Inl _ \<Rightarrow> (0, 0, []))"

lemma better_asym: "better d a b \<Longrightarrow> \<not> better d b a \<and> a \<noteq> b"
  by (auto simp: better_def split: if_splits)

lemma better_total: "a = b \<or> better d a b \<or> better d b a"
  by (auto simp: better_def)

lemma order_values_Inr:
  assumes "order_values d vs = Inr ordered"
  shows "mset (map snd ordered) = mset vs"
    and "(k, v) \<in> set ordered \<Longrightarrow> scalar_key k = value_key v"
    and "sorted_wrt (\<lambda>a b. a = b \<or> better d a b) (map (scalar_key \<circ> fst) ordered)"
proof -
  from assms obtain keyed where k: "traverse (\<lambda>v. rbind (sort_value v) (\<lambda>k. Inr (k, v))) (py_sorted mv_product_id vs) = Inr keyed"
    and s: "scalar_sort d fst keyed = Inr ordered"
    by (auto simp: order_values_def rbind_eq_Inr_iff)
  have "list_all2 (\<lambda>v kv. sort_value v = Inr (fst kv) \<and> snd kv = v) (py_sorted mv_product_id vs) keyed"
    using k by (auto simp: traverse_eq_Inr_iff rbind_eq_Inr_iff elim!: list_all2_mono)
  then have ks: "map snd keyed = py_sorted mv_product_id vs" and kk: "\<And>k v. (k, v) \<in> set keyed \<Longrightarrow> sort_value v = Inr k"
    by (auto simp: list_all2_conv_all_nth in_set_conv_nth intro!: nth_equalityI)
  note m = scalar_sort_mset [OF s]
  show "mset (map snd ordered) = mset vs"
    using m ks by (metis mset_map mset_py_sorted)
  show "(k, v) \<in> set ordered \<Longrightarrow> scalar_key k = value_key v"
    using kk m by (metis set_mset_mset sum.case(2) value_key_def)
  show "sorted_wrt (\<lambda>a b. a = b \<or> better d a b) (map (scalar_key \<circ> fst) ordered)"
    using scalar_sort_sorted [OF s] unfolding sorted_wrt_map
    by (rule sorted_wrt_mono_rel [rotated]) (auto simp: better_def split: if_splits)
qed

text \<open>
  The interface of a ranking policy. Its client selects a result by rank; that selection never
  splits a tie, never leaves out a better value, and never comes short.
\<close>

locale competition_ranking =
  fixes rank :: "metric_value list \<Rightarrow> bool \<Rightarrow> ranked_metric_value list result"
  assumes permutes: "rank vs d = Inr rs \<Longrightarrow> mset (map rk_value rs) = mset vs"
    and rank_is: "rank vs d = Inr rs \<Longrightarrow> r \<in> set rs \<Longrightarrow>
      rk_rank r = int (length (filter (\<lambda>w. better d (value_key w) (value_key (rk_value r))) vs)) + 1"
    and tie_is: "rank vs d = Inr rs \<Longrightarrow> r \<in> set rs \<Longrightarrow>
      rk_tie_count r = int (length (filter (\<lambda>w. value_key w = value_key (rk_value r)) vs))"
    and listed: "rank vs d = Inr rs \<Longrightarrow> i < length rs \<Longrightarrow> rk_rank (rs ! i) \<le> int i + 1"
begin

lemma better_ranks_lower:
  assumes "rank vs d = Inr rs" and "r \<in> set rs" and "s \<in> set rs"
    and "better d (value_key (rk_value s)) (value_key (rk_value r))"
  shows "rk_rank s < rk_rank r"
proof -
  let ?P = "\<lambda>r w. better d (value_key w) (value_key (rk_value r))"
  have sub: "?P s w \<Longrightarrow> ?P r w" for w using assms(4) by (auto simp: better_def split: if_splits)
  have "rk_value s \<in> set vs" using permutes [OF assms(1)] assms(3) by (metis image_eqI set_map set_mset_mset)
  then have "length (filter (?P s) vs) < length (filter (?P r) vs)"
    using length_filter_less_filter [of "rk_value s" vs "?P r" "?P s"] sub assms(4) better_asym by blast
  then show ?thesis using rank_is [OF assms(1,2)] rank_is [OF assms(1,3)] by simp
qed

lemma equal_ranks_equal:
  assumes "rank vs d = Inr rs" and "r \<in> set rs" and "s \<in> set rs" and "value_key (rk_value s) = value_key (rk_value r)"
  shows "rk_rank s = rk_rank r"
  using rank_is [OF assms(1,2)] rank_is [OF assms(1,3)] assms(4) by simp

lemma top_k_closed:
  assumes "rank vs d = Inr rs" and "r \<in> set rs" and "s \<in> set rs" and "rk_rank r \<le> k"
    and "\<not> better d (value_key (rk_value r)) (value_key (rk_value s))"
  shows "rk_rank s \<le> k"
  using better_ranks_lower [OF assms(1-3)] equal_ranks_equal [OF assms(1-3)] assms(4,5)
    better_total [of "value_key (rk_value r)" "value_key (rk_value s)" d] by force

lemma top_k_count:
  assumes "rank vs d = Inr rs"
  shows "min k (length vs) \<le> length (filter (\<lambda>r. rk_rank r \<le> int k) rs)"
proof -
  have l: "length rs = length vs" using permutes [OF assms] by (metis length_map size_mset)
  have "rk_rank r \<le> int k" if "r \<in> set (take k rs)" for r
    using that listed [OF assms] by (force simp: in_set_conv_nth)
  then have "filter (\<lambda>r. rk_rank r \<le> int k) (take k rs) = take k rs" by (simp add: filter_id_conv)
  then have "length (take k rs) \<le> length (filter (\<lambda>r. rk_rank r \<le> int k) rs)"
    by (metis append_take_drop_id filter_append le_add1 length_append)
  then show ?thesis by (simp add: l min.commute)
qed

end

lemma tie_rank_Inr:
  assumes "tie_rank vs d = Inr rs"
  shows "\<exists>ordered. order_values d vs = Inr ordered \<and>
    rs = map (\<lambda>(k, v). \<lparr>rk_value = v,
              rk_rank = int (length (takeWhile (\<lambda>(j, _). \<not> scalar_eq j k) ordered)) + 1,
              rk_tie_count = int (length (filter (\<lambda>(j, _). scalar_eq j k) ordered))\<rparr>) ordered"
  using assms by (auto simp: tie_rank_def rbind_eq_Inr_iff)

interpretation ties: competition_ranking tie_rank
proof
  fix vs d rs
  assume t: "tie_rank vs d = Inr rs"
  from tie_rank_Inr [OF t] obtain ordered where o: "order_values d vs = Inr ordered"
    and rs: "rs = map (\<lambda>(k, v). \<lparr>rk_value = v,
              rk_rank = int (length (takeWhile (\<lambda>(j, _). \<not> scalar_eq j k) ordered)) + 1,
              rk_tie_count = int (length (filter (\<lambda>(j, _). scalar_eq j k) ordered))\<rparr>) ordered" by blast
  note ov = order_values_Inr [OF o]
  let ?key = "scalar_key \<circ> fst"
  have cnt: "length (filter (P \<circ> ?key) ordered) = length (filter (P \<circ> value_key) vs)" for P
  proof -
    have "filter (P \<circ> ?key) ordered = filter (P \<circ> value_key \<circ> snd) ordered"
      by (rule filter_cong) (use ov(2) in auto)
    moreover have "length (filter (P \<circ> value_key \<circ> snd) ordered) = length (filter (P \<circ> value_key) (map snd ordered))"
      by (simp add: filter_map comp_assoc)
    moreover have "length (filter (P \<circ> value_key) (map snd ordered)) = length (filter (P \<circ> value_key) vs)"
      using ov(1) by (metis mset_filter size_mset)
    ultimately show ?thesis by simp
  qed
  have tw: "takeWhile (\<lambda>(j, _). \<not> scalar_eq j k) ordered = takeWhile (\<lambda>p. ?key p \<noteq> scalar_key k) ordered" for k
    by (rule takeWhile_cong) (auto simp: scalar_eq_def)
  have rk: "length (takeWhile (\<lambda>(j, _). \<not> scalar_eq j k) ordered) =
      length (filter (\<lambda>w. better d (value_key w) (value_key v)) vs)" if "(k, v) \<in> set ordered" for k v
  proof -
    have "length (takeWhile (\<lambda>p. ?key p \<noteq> scalar_key k) ordered)
        = length (takeWhile (\<lambda>y. y \<noteq> scalar_key k) (map ?key ordered))"
      by (simp add: takeWhile_map comp_def)
    also have "\<dots> = length (filter (\<lambda>y. better d y (scalar_key k)) (map ?key ordered))"
      using that by (subst takeWhile_sorted_wrt [OF ov(3)]) (force dest: better_asym)+
    also have "\<dots> = length (filter ((\<lambda>y. better d y (scalar_key k)) \<circ> value_key) vs)"
      unfolding filter_map length_map by (rule cnt)
    finally show ?thesis using ov(2) [OF that] by (simp add: tw comp_def)
  qed
  show "mset (map rk_value rs) = mset vs"
    using ov(1) by (simp add: rs comp_def case_prod_beta)
  show "rk_rank r = int (length (filter (\<lambda>w. better d (value_key w) (value_key (rk_value r))) vs)) + 1" if "r \<in> set rs" for r
    using that rk by (auto simp: rs)
  show "rk_tie_count r = int (length (filter (\<lambda>w. value_key w = value_key (rk_value r)) vs))" if "r \<in> set rs" for r
  proof -
    from that obtain k v where kv: "(k, v) \<in> set ordered" "rk_value r = v"
      "rk_tie_count r = int (length (filter (\<lambda>(j, _). scalar_eq j k) ordered))" by (auto simp: rs)
    have "filter (\<lambda>(j, _). scalar_eq j k) ordered = filter ((\<lambda>y. y = scalar_key k) \<circ> ?key) ordered"
      by (rule filter_cong) (auto simp: scalar_eq_def)
    with kv(3) cnt [of "\<lambda>y. y = scalar_key k"] ov(2) [OF kv(1)] kv(2) show ?thesis by (simp add: comp_def)
  qed
  show "rk_rank (rs ! i) \<le> int i + 1" if "i < length rs" for i
  proof -
    obtain k v where kv: "ordered ! i = (k, v)" by (cases "ordered ! i")
    have "length (takeWhile (\<lambda>(j, _). \<not> scalar_eq j k) ordered) \<le> i"
    proof (rule ccontr)
      assume "\<not> length (takeWhile (\<lambda>(j, _). \<not> scalar_eq j k) ordered) \<le> i"
      then have "i < length (takeWhile (\<lambda>(j, _). \<not> scalar_eq j k) ordered)" by simp
      then have "(\<lambda>(j, _). \<not> scalar_eq j k) (ordered ! i)"
        by (metis (no_types, lifting) nth_mem set_takeWhileD takeWhile_nth)
      with kv show False by simp
    qed
    with kv that show ?thesis by (simp add: rs)
  qed
qed


lemma sorted_wrt_groups:
  assumes "\<And>k. sorted_wrt R (filter (\<lambda>x. f x = k) xs)"
  shows "sorted_wrt (\<lambda>x y. f x = f y \<longrightarrow> R x y) xs"
  using assms
proof (induction xs)
  case (Cons x xs)
  from Cons.prems [of "f x"] have "\<forall>y \<in> set xs. f y = f x \<longrightarrow> R x y" by simp
  moreover have "sorted_wrt R (filter (\<lambda>x. f x = k) xs)" for k
    using Cons.prems [of k] by (simp split: if_splits)
  ultimately show ?case using Cons.IH by simp
qed simp

lemma order_values_tiebreak:
  assumes "order_values d vs = Inr ordered"
  shows "sorted_wrt (\<lambda>a b. scalar_key (fst a) = scalar_key (fst b) \<longrightarrow> mv_product_id (snd a) \<le> mv_product_id (snd b)) ordered"
proof (rule sorted_wrt_groups)
  fix k
  from assms obtain keyed where
    k: "traverse (\<lambda>v. rbind (sort_value v) (\<lambda>k. Inr (k, v))) (py_sorted mv_product_id vs) = Inr keyed"
    and s: "scalar_sort d fst keyed = Inr ordered"
    by (auto simp: order_values_def rbind_eq_Inr_iff)
  have "list_all2 (\<lambda>v kv. snd kv = v) (py_sorted mv_product_id vs) keyed"
    using k by (auto simp: traverse_eq_Inr_iff rbind_eq_Inr_iff elim!: list_all2_mono)
  then have "map snd keyed = py_sorted mv_product_id vs"
    by (auto simp: list_all2_conv_all_nth intro!: nth_equalityI)
  then have "sorted (map (mv_product_id \<circ> snd) keyed)"
    using sorted_py_sorted [of mv_product_id vs] by (metis map_map)
  then have "sorted_wrt (\<lambda>a b. mv_product_id (snd a) \<le> mv_product_id (snd b)) keyed"
    by (simp add: sorted_map)
  then show "sorted_wrt (\<lambda>a b. mv_product_id (snd a) \<le> mv_product_id (snd b))
      (filter (\<lambda>a. scalar_key (fst a) = k) ordered)"
    unfolding scalar_sort_stable [OF s] by (rule sorted_wrt_filter)
qed

lemma tie_rank_sorted:
  assumes "tie_rank vs d = Inr rs"
  shows "sorted_wrt (\<lambda>r s. better d (value_key (rk_value r)) (value_key (rk_value s)) \<or>
      value_key (rk_value r) = value_key (rk_value s) \<and> mv_product_id (rk_value r) \<le> mv_product_id (rk_value s)) rs"
proof -
  from tie_rank_Inr [OF assms] obtain ordered where o: "order_values d vs = Inr ordered"
    and rs: "map rk_value rs = map snd ordered" by (auto simp: comp_def case_prod_beta)
  note ov = order_values_Inr [OF o]
  let ?Q = "\<lambda>v w. better d (value_key v) (value_key w) \<or> value_key v = value_key w \<and> mv_product_id v \<le> mv_product_id w"
  have "sorted_wrt (\<lambda>a b. scalar_key (fst a) = scalar_key (fst b) \<or> better d (scalar_key (fst a)) (scalar_key (fst b))) ordered"
    using ov(3) by (simp add: sorted_wrt_map)
  with order_values_tiebreak [OF o]
  have "sorted_wrt (\<lambda>a b. (scalar_key (fst a) = scalar_key (fst b) \<or> better d (scalar_key (fst a)) (scalar_key (fst b))) \<and>
      (scalar_key (fst a) = scalar_key (fst b) \<longrightarrow> mv_product_id (snd a) \<le> mv_product_id (snd b))) ordered"
    by (induction ordered) auto
  then have "sorted_wrt (\<lambda>a b. ?Q (snd a) (snd b)) ordered"
    by (rule sorted_wrt_mono_rel [rotated]) (use ov(2) in auto)
  then have "sorted_wrt ?Q (map rk_value rs)" by (simp add: rs sorted_wrt_map)
  then show ?thesis by (simp add: sorted_wrt_map)
qed

lemma tie_rank_defined:
  assumes "\<And>v. v \<in> set vs \<Longrightarrow> \<exists>x. mv_value v = Some (SDec x) \<and> mv_sort_value v = None"
  shows "\<exists>rs. tie_rank vs d = Inr rs"
proof -
  have n: "\<not> list_ex (\<lambda>v. mv_value v = None) vs" using assms by (fastforce simp: list_ex_iff)
  have sv: "\<exists>x. sort_value v = Inr (SDec x)" if "v \<in> set vs" for v
    using assms [OF that] by (auto simp: sort_value_def)
  have "\<exists>y. rbind (sort_value v) (\<lambda>k. Inr (k, v)) = Inr y" if "v \<in> set (py_sorted mv_product_id vs)" for v
    using sv [of v] that by auto
  from traverse_Inr_total [of "py_sorted mv_product_id vs" "\<lambda>v. rbind (sort_value v) (\<lambda>k. Inr (k, v))", OF this] obtain keyed where
    k: "traverse (\<lambda>v. rbind (sort_value v) (\<lambda>k. Inr (k, v))) (py_sorted mv_product_id vs) = Inr keyed"
    by blast
  have "\<exists>x. fst kv = SDec x" if "kv \<in> set keyed" for kv
  proof -
    from traverse_member [OF k that] obtain v where "v \<in> set vs" "rbind (sort_value v) (\<lambda>k. Inr (k, v)) = Inr kv" by auto
    moreover from this(1) obtain x where "sort_value v = Inr (SDec x)" using sv by blast
    ultimately show ?thesis by auto
  qed
  then have "one_kind fst keyed" unfolding one_kind_iff by (metis fst_conv scalar_key.simps(3) scalar_kind_def)
  with k n show ?thesis by (simp add: tie_rank_def order_values_def scalar_sort_def)
qed

section \<open>Metric policy, partitions and states\<close>

lemma apply_metric_policy_Inr:
  assumes "apply_metric_policy regs oper vs = Inr r"
  shows "mp_recorded_values r = filter (\<lambda>v. mv_value v \<noteq> None) vs"
    and "mp_excluded_count r = int (length vs) - int (length (mp_comparison_valid_values r))"
    and "mp_comparison_valid_values r = (if oper = OP_DISPLAY \<or> oper = OP_FILTER then mp_recorded_values r
           else filter (\<lambda>v. metric_valid regs oper v = Inr True) (mp_recorded_values r))"
    and "mp_warnings r = [] \<longleftrightarrow> length vs = length (mp_comparison_valid_values r)"
proof -
  let ?rec = "filter (\<lambda>v. mv_value v \<noteq> None) vs"
  from assms obtain valid ws where
    v: "(if oper = OP_DISPLAY \<or> oper = OP_FILTER then Inr ?rec else filter_result (metric_valid regs oper) ?rec) = Inr valid"
    and w: "(if length vs = length valid then Inr [] else
       rbind (any_result (\<lambda>v. if \<not> is_zero (mv_value v) then Inr False
                           else rbind (metric_entry regs (mv_metric_id v)) (\<lambda>metric.
                                  Inr (py_contains (md_zero_policy metric) (cp ''unverified'')))) ?rec) (\<lambda>zero.
                    Inr [if zero then cp ''recorded zero excluded from comparison''
                         else cp ''metric values excluded from comparison''])) = Inr ws"
    and r: "r = \<lparr>mp_recorded_values = ?rec, mp_comparison_valid_values = valid,
             mp_excluded_count = int (length vs) - int (length valid), mp_warnings = ws\<rparr>"
    unfolding apply_metric_policy_def Let_def rbind_eq_Inr_iff by blast
  show "mp_recorded_values r = ?rec" "mp_excluded_count r = int (length vs) - int (length (mp_comparison_valid_values r))"
    by (simp_all add: r)
  show "mp_comparison_valid_values r = (if oper = OP_DISPLAY \<or> oper = OP_FILTER then mp_recorded_values r
           else filter (\<lambda>v. metric_valid regs oper v = Inr True) (mp_recorded_values r))"
    using v by (cases "oper = OP_DISPLAY \<or> oper = OP_FILTER") (simp_all add: r filter_result_Inr_iff)
  show "mp_warnings r = [] \<longleftrightarrow> length vs = length (mp_comparison_valid_values r)"
    using w by (auto simp: r rbind_eq_Inr_iff split: if_split_asm)
qed

lemma partition_values_Inr:
  assumes "partition_values regs vs per = Inr ps"
  shows "\<exists>keyed. list_all2 (\<lambda>v kv. compatibility_key regs v = Inr (fst kv) \<and> snd kv = v) vs keyed \<and>
    ps = map (\<lambda>(k, kvs). make_partition (k, map snd kvs)) (group_by_key fst keyed)"
proof -
  from assms obtain keyed where k: "traverse (\<lambda>v. rbind (compatibility_key regs v) (\<lambda>k. Inr (k, v))) vs = Inr keyed"
    and ps: "ps = map (\<lambda>(k, kvs). make_partition (k, map snd kvs)) (group_by_key fst keyed)"
    by (auto simp: partition_values_def rbind_eq_Inr_iff group_into_eq)
  from k have "list_all2 (\<lambda>v kv. compatibility_key regs v = Inr (fst kv) \<and> snd kv = v) vs keyed"
    unfolding traverse_eq_Inr_iff by (rule list_all2_mono) (auto simp: rbind_eq_Inr_iff)
  with ps show ?thesis by blast
qed

lemma make_partition_values [simp]: "pn_values (make_partition (k, vs)) = vs"
  by (cases k) (simp add: make_partition_def)

lemma partition_conserves:
  assumes "partition_values regs vs per = Inr ps"
  shows "mset (concat (map pn_values ps)) = mset vs"
    and "p \<in> set ps \<Longrightarrow> pn_values p \<noteq> [] \<and> (\<exists>k. \<forall>v \<in> set vs. v \<in> set (pn_values p) \<longleftrightarrow> compatibility_key regs v = Inr k)"
proof -
  from partition_values_Inr [OF assms] obtain keyed where
    k: "list_all2 (\<lambda>v kv. compatibility_key regs v = Inr (fst kv) \<and> snd kv = v) vs keyed"
    and ps: "ps = map (\<lambda>(k, kvs). make_partition (k, map snd kvs)) (group_by_key fst keyed)" by blast
  have s: "map snd keyed = vs"
    using k by (auto simp: list_all2_conv_all_nth intro!: nth_equalityI)
  have "concat (map pn_values ps) = map snd (concat (map snd (group_by_key fst keyed)))"
    by (simp add: ps map_concat comp_def case_prod_beta)
  then show "mset (concat (map pn_values ps)) = mset vs"
    using mset_group_by_key [of fst keyed] s by (metis mset_map)
  assume "p \<in> set ps"
  then obtain key where key: "key \<in> set (map fst keyed)" "pn_values p = map snd (filter (\<lambda>kv. fst kv = key) keyed)"
    by (auto simp: ps group_by_key_def) (metis fst_conv image_eqI)
  have m: "\<And>kv. kv \<in> set keyed \<Longrightarrow> compatibility_key regs (snd kv) = Inr (fst kv)"
    using k by (auto simp: list_all2_conv_all_nth in_set_conv_nth)
  have "v \<in> set (pn_values p) \<longleftrightarrow> compatibility_key regs v = Inr key" if "v \<in> set vs" for v
  proof -
    from that s obtain kv where kv: "kv \<in> set keyed" "v = snd kv" by auto
    have "v \<in> set (pn_values p) \<longleftrightarrow> (\<exists>x \<in> set keyed. fst x = key \<and> v = snd x)" by (auto simp: key(2))
    also have "\<dots> \<longleftrightarrow> fst kv = key" using m [OF kv(1)] m kv by force
    also have "\<dots> \<longleftrightarrow> compatibility_key regs v = Inr key" using m [OF kv(1)] kv(2) by simp
    finally show ?thesis .
  qed
  moreover have "pn_values p \<noteq> []" using key by (auto simp: filter_empty_conv)
  ultimately show "pn_values p \<noteq> [] \<and> (\<exists>k. \<forall>v \<in> set vs. v \<in> set (pn_values p) \<longleftrightarrow> compatibility_key regs v = Inr k)"
    by blast
qed


section \<open>Properties\<close>

definition example_value :: "string \<Rightarrow> decimal \<Rightarrow> metric_value" where
  "example_value pid d =
     \<lparr>mv_metric_id = cp ''fee_rate'', mv_product_type = DOMESTIC_ETF, mv_product_id = cp pid, mv_value = Some (SDec d),
      mv_quality_status = cp ''valid'', mv_currency = None, mv_period = None, mv_sort_value = None\<rparr>"

definition example_values :: "metric_value list" where
  "example_values = [example_value ''C'' (Dec False 5 0), example_value ''A'' (Dec False 50 (-1)), example_value ''B'' (Dec False 7 0)]"

text \<open>C15. Ranks are competition ranks. Ranking returns the given values, each with one plus the number
  of strictly better values as its rank and the number of equal values as its tie count, in rank
  order with ties by product identifier.\<close>

theorem tie_ranks_are_competition_ranks:
  assumes "tie_rank vs d = Inr rs"
  shows "mset (map rk_value rs) = mset vs \<and>
     (\<forall>r \<in> set rs. rk_rank r = int (length (filter (\<lambda>w. better d (value_key w) (value_key (rk_value r))) vs)) + 1 \<and>
        rk_tie_count r = int (length (filter (\<lambda>w. value_key w = value_key (rk_value r)) vs))) \<and>
     sorted_wrt (\<lambda>r s. better d (value_key (rk_value r)) (value_key (rk_value s)) \<or>
        value_key (rk_value r) = value_key (rk_value s) \<and> mv_product_id (rk_value r) \<le> mv_product_id (rk_value s)) rs"
  using ties.permutes [OF assms] ties.rank_is [OF assms] ties.tie_is [OF assms] tie_rank_sorted [OF assms] by blast

lemma example_ranked: "\<exists>rs. tie_rank example_values d = Inr rs"
  by (rule tie_rank_defined) (auto simp: example_values_def example_value_def)

theorem tie_ranks_are_competition_ranks_witness:
  "\<exists>rs. tie_rank example_values True = Inr rs \<and> mset (map rk_value rs) = mset example_values"
  using example_ranked tie_ranks_are_competition_ranks by blast

text \<open>C16. A top-k by rank never splits a tie. Among ranked values, everything at least as good as a
  value within the top k is within it too, and the selection holds at least k values when there
  are as many. Ranking decimal values always succeeds.\<close>

theorem top_k_never_splits_ties:
  assumes "\<And>v. v \<in> set vs \<Longrightarrow> \<exists>x. mv_value v = Some (SDec x) \<and> mv_sort_value v = None"
  shows "\<exists>rs. tie_rank vs d = Inr rs \<and> min k (length vs) \<le> length (filter (\<lambda>r. rk_rank r \<le> int k) rs) \<and>
     (\<forall>r \<in> set rs. \<forall>s \<in> set rs. rk_rank r \<le> int k \<longrightarrow> \<not> better d (value_key (rk_value r)) (value_key (rk_value s))
        \<longrightarrow> rk_rank s \<le> int k)"
proof -
  obtain rs where rs: "tie_rank vs d = Inr rs" using tie_rank_defined [of vs d] assms by blast
  show ?thesis using rs ties.top_k_count [OF rs, of k] ties.top_k_closed [OF rs] by blast
qed

theorem top_k_never_splits_ties_witness:
  "\<exists>rs. tie_rank example_values True = Inr rs \<and> 2 \<le> length (filter (\<lambda>r. rk_rank r \<le> 2) rs)"
proof -
  have "v \<in> set example_values \<Longrightarrow> \<exists>x. mv_value v = Some (SDec x) \<and> mv_sort_value v = None" for v
    by (auto simp: example_values_def example_value_def)
  from top_k_never_splits_ties [of example_values True 2, OF this] show ?thesis by (auto simp: example_values_def)
qed

text \<open>C17. Exclusions are counted and announced. The metric policy keeps exactly the recorded values
  that its rules admit; the excluded count is what is missing, a warning is given exactly when
  something is excluded, and no value of an unverified zero policy is ever compared at zero.\<close>

theorem metric_policy_accounts:
  assumes "apply_metric_policy regs oper vs = Inr r"
  shows "mp_excluded_count r + int (length (mp_comparison_valid_values r)) = int (length vs) \<and>
     0 \<le> mp_excluded_count r \<and>
     (mp_warnings r = [] \<longleftrightarrow> mp_excluded_count r = 0) \<and>
     set (mp_comparison_valid_values r) \<subseteq> set (mp_recorded_values r) \<and>
     (oper \<in> {OP_RANK, OP_AGGREGATE} \<longrightarrow> (\<forall>v \<in> set (mp_comparison_valid_values r).
        mv_quality_status v \<in> set comparable_statuses \<and>
        (is_zero (mv_value v) \<longrightarrow> (\<exists>m. metric_entry regs (mv_metric_id v) = Inr m \<and>
           \<not> py_contains (md_zero_policy m) (cp ''unverified'')))))"
proof -
  note r = apply_metric_policy_Inr [OF assms]
  have sub: "set (mp_comparison_valid_values r) \<subseteq> set (mp_recorded_values r)" by (subst r(3)) auto
  have "length (mp_comparison_valid_values r) \<le> length (mp_recorded_values r)" by (subst r(3)) simp
  also have "\<dots> \<le> length vs" by (simp add: r(1))
  finally have le: "length (mp_comparison_valid_values r) \<le> length vs" .
  have "mv_quality_status v \<in> set comparable_statuses \<and>
      (is_zero (mv_value v) \<longrightarrow> (\<exists>m. metric_entry regs (mv_metric_id v) = Inr m \<and> \<not> py_contains (md_zero_policy m) (cp ''unverified'')))"
    if "oper \<in> {OP_RANK, OP_AGGREGATE}" "v \<in> set (mp_comparison_valid_values r)" for v
  proof -
    from that have "metric_valid regs oper v = Inr True" by (subst (asm) r(3)) auto
    then show ?thesis by (auto simp: metric_valid_def rbind_eq_Inr_iff split: if_splits)
  qed
  with le sub r(2,4) show ?thesis by auto
qed

theorem metric_policy_accounts_witness:
  "\<exists>r. apply_metric_policy example_registries OP_RANK example_values = Inr r \<and>
     mp_excluded_count r + int (length (mp_comparison_valid_values r)) = 3"
proof -
  let ?r = "apply_metric_policy example_registries OP_RANK example_values"
  have "\<not> isl ?r" by code_simp
  then obtain r where r: "?r = Inr r" by (cases ?r) auto
  with metric_policy_accounts [OF r] show ?thesis by (auto simp: example_values_def)
qed

text \<open>Partitions lose nothing and mix nothing. The compatibility partitions of a list of values
  contain each value exactly as often as the list, none is empty, and each holds precisely the
  values that share its comparability group, currency, period and cross-product policy.\<close>

theorem partitions_conserve_values:
  assumes "partition_values regs vs per = Inr ps"
  shows "mset (concat (map pn_values ps)) = mset vs \<and>
     (\<forall>p \<in> set ps. pn_values p \<noteq> [] \<and>
        (\<exists>k. \<forall>v \<in> set vs. v \<in> set (pn_values p) \<longleftrightarrow> compatibility_key regs v = Inr k))"
  using partition_conserves [OF assms] by blast

theorem partitions_conserve_values_witness:
  "\<exists>ps. partition_values example_registries example_values None = Inr ps \<and>
     mset (concat (map pn_values ps)) = mset example_values"
proof -
  let ?r = "partition_values example_registries example_values None"
  have "\<not> isl ?r" by code_simp
  then obtain r where r: "?r = Inr r" by (cases ?r) auto
  with partitions_conserve_values [OF r] show ?thesis by blast
qed

text \<open>Eligibility is what the states say. A listed product is eligible exactly when its only
  state is being saleable, and a bond exactly when it is neither not yet issued nor ended.\<close>

theorem eligibility_matches_states:
  "evaluate_state p as_of = Inr e \<Longrightarrow>
     se_eligible e = (if pp_product_type p = DOMESTIC_BOND
       then cp ''not_yet_issued'' \<notin> set (se_state_ids e) \<and> cp ''ended'' \<notin> set (se_state_ids e)
       else se_state_ids e = [cp ''saleable''])"
  by (auto simp: evaluate_state_def evaluate_bond_def evaluate_listed_def is_domestic_listed_def active_states_def Let_def
      split: if_splits)

theorem eligibility_matches_states_witness:
  "\<exists>e. evaluate_state \<lparr>pp_product_type = DOMESTIC_BOND, pp_product_id = [], pp_values = []\<rparr> (Date 2026 8 22) = Inr e \<and>
     se_eligible e = (cp ''not_yet_issued'' \<notin> set (se_state_ids e) \<and> cp ''ended'' \<notin> set (se_state_ids e))"
  using eligibility_matches_states [of "\<lparr>pp_product_type = DOMESTIC_BOND, pp_product_id = [], pp_values = []\<rparr>" "Date 2026 8 22"]
  by (simp add: evaluate_state_def is_domestic_listed_def)

end
