(* ===== verification/Pipeline.thy ===== *)
theory Pipeline
  imports Quality
begin

text \<open>
  The ordered composition of the policies, \<open>finproof/quality/pipeline.py\<close>: filtering and state
  evaluation of the raw rows, metric values, compatibility partitions, ranking or selection, the
  multi-key row order and the aggregates. \<open>policy_apply\<close> is \<open>PolicyEngine.apply\<close>; the loops
  and comprehensions of the method are definitions of their own.
\<close>

section \<open>Results\<close>

record policy_row =
  pr_raw :: raw_product_row
  pr_state :: state_evaluation

record aggregate_policy_result =
  ar_product_type :: product_type
  ar_native_result_grain :: result_grain
  ar_partition_key :: pystr
  ar_field_id :: "pystr option"
  ar_group_values :: "raw_field_value list"
  ar_value :: "scalar option"
  ar_included_count :: int
  ar_excluded_count :: int
  ar_policy_id :: pystr
  ar_evidence_requirements :: "pystr list"
  ar_product_ids :: "pystr list"

record rank_policy_result =
  rp_value :: metric_value
  rp_native_result_grain :: result_grain
  rp_partition_key :: pystr
  rp_field_id :: pystr
  rp_rank :: int
  rp_tie_count :: int
  rp_policy_id :: pystr
  rp_evidence_requirements :: "pystr list"

record policy_execution_result =
  px_included_rows :: "policy_row list"
  px_excluded_filter_count :: int
  px_excluded_state_count :: int
  px_excluded_metric_count :: int
  px_metric_policy :: metric_policy_result
  px_dual_lens_labels :: "pystr list"
  px_selected_rows :: "policy_row list"
  px_partitions :: "compatibility_partition list"
  px_aggregates :: "aggregate_policy_result list"
  px_ranks :: "rank_policy_result list"
  px_warnings :: "pystr list"
  px_source_rows :: "policy_row list"
  px_metric_values :: "metric_value list"
  px_population_metric_values :: "metric_value list"
  px_limitations :: "execution_limitation_code list"

text \<open>The engine: the registries of the package, the field registry built from them, the ratings.\<close>

record policy_engine =
  pe_registries :: registry_bundle
  pe_fields :: field_registry
  pe_ratings :: rating_registry

definition policy_engine_init :: "registry_bundle \<Rightarrow> rating_registry \<Rightarrow> policy_engine result" where
  "policy_engine_init regs ratings =
     rbind (from_bundle regs) (\<lambda>fields. Inr \<lparr>pe_registries = regs, pe_fields = fields, pe_ratings = ratings\<rparr>)"

section \<open>Filtering\<close>

text \<open>\<open>next((item.value for item in values if item.field_id == name), None)\<close>\<close>

definition first_value :: "raw_product_row \<Rightarrow> pystr \<Rightarrow> scalar option" where
  "first_value row f =
     (case next_or_none (\<lambda>v. rf_field_id v = f) (rw_values row) of None \<Rightarrow> None | Some v \<Rightarrow> rf_value v)"

definition date_literal :: "scalar \<Rightarrow> scalar result" where
  "date_literal s =
     (case s of SStr t \<Rightarrow> (case fromisoformat t of Some d \<Rightarrow> Inr (SDate d) | None \<Rightarrow> Inl (ValueError ''Invalid isoformat string''))
      | _ \<Rightarrow> Inr s)"

definition date_target :: "clause_value \<Rightarrow> clause_value result" where
  "date_target target =
     (case target of
        CScalar s \<Rightarrow> rbind (date_literal s) (\<lambda>t. Inr (CScalar t))
      | CTuple vs \<Rightarrow> rbind (traverse date_literal vs) (\<lambda>ts. Inr (CTuple ts))
      | CNone \<Rightarrow> Inr CNone)"

definition rating_matches :: "rating_registry \<Rightarrow> filter_operator \<Rightarrow> scalar \<Rightarrow> clause_value \<Rightarrow> bool" where
  "rating_matches ratings oper value target =
     (case (value, target) of
        (SStr v, CScalar (SStr t)) \<Rightarrow>
          (case (rs_ordinal (resolve ratings v), rs_ordinal (resolve ratings t)) of
             (Some i, Some j) \<Rightarrow> (if oper = GTE then i \<le> j else i \<ge> j)
           | _ \<Rightarrow> False)
      | _ \<Rightarrow> False)"

definition compare_matches :: "filter_operator \<Rightarrow> scalar \<Rightarrow> clause_value \<Rightarrow> bool result" where
  "compare_matches oper value target =
     (case oper of
        EQ \<Rightarrow> Inr (equals_clause value target)
      | NE \<Rightarrow> Inr (\<not> equals_clause value target)
      | IN \<Rightarrow> (case target of CTuple vs \<Rightarrow> Inr (list_ex (scalar_eq value) vs) | _ \<Rightarrow> Inl AssertionError)
      | NOT_IN \<Rightarrow> (case target of CTuple vs \<Rightarrow> Inr (\<not> list_ex (scalar_eq value) vs) | _ \<Rightarrow> Inl AssertionError)
      | BETWEEN \<Rightarrow> (case target of CTuple vs \<Rightarrow> between value vs | _ \<Rightarrow> Inl AssertionError)
      | CONTAINS \<Rightarrow> Inr (contains_clause value target)
      | STARTS_WITH \<Rightarrow> Inr (starts_with_clause value target)
      | GT \<Rightarrow> compare_with (\<lambda>a b. scalar_less b a) value target
      | GTE \<Rightarrow> compare_with (\<lambda>a b. scalar_le b a) value target
      | LT \<Rightarrow> compare_with scalar_less value target
      | LTE \<Rightarrow> compare_with scalar_le value target
      | IS_MISSING \<Rightarrow> Inr False
      | IS_NOT_MISSING \<Rightarrow> Inr True)"

definition policy_matches :: "rating_registry \<Rightarrow> raw_product_row \<Rightarrow> filter_clause \<Rightarrow> bool result" where
  "policy_matches ratings row clause =
     (let value = first_value row (fc_field clause) in
      if fc_operator clause = IS_MISSING then Inr (value = None)
      else if fc_operator clause = IS_NOT_MISSING then Inr (value \<noteq> None)
      else (case value of
              None \<Rightarrow> Inr False
            | Some v \<Rightarrow>
                rbind (case v of SDate _ \<Rightarrow> date_target (fc_value clause) | _ \<Rightarrow> Inr (fc_value clause)) (\<lambda>target.
                  if fc_field clause = cp ''credit_rating'' \<and> fc_operator clause \<in> {GTE, LTE}
                  then Inr (rating_matches ratings (fc_operator clause) v target)
                  else compare_matches (fc_operator clause) v target)))"

section \<open>Metric values\<close>

definition metric_value_of :: "policy_engine \<Rightarrow> raw_product_row \<Rightarrow> intent \<Rightarrow> pystr \<Rightarrow> metric_value option result" where
  "metric_value_of pe row intent field_id =
     rbind (projection (pe_fields pe) field_id (rw_product_type row)) (\<lambda>proj.
       case field_item (rw_values row) field_id of
         None \<Rightarrow> Inl (ValueError ''policy metric projection differs'')
       | Some item \<Rightarrow>
          (case fp_metric_id proj of
             None \<Rightarrow> Inr None
           | Some metric_id \<Rightarrow>
              (let rating = (case rf_value item of Some (SStr s) \<Rightarrow> Some (resolve (pe_ratings pe) s) | _ \<Rightarrow> None);
                   ranked = (fp_value_type proj = cp ''ordinal_rating'' \<and> intent = SCREEN_RANK);
                   value = (if ranked
                            then (case rating of None \<Rightarrow> None | Some r \<Rightarrow> map_option SStr (rs_normalized_value r))
                            else (case rf_value item of
                                    Some (SDec d) \<Rightarrow> Some (SDec d)
                                  | Some (SInt n) \<Rightarrow> Some (SDec (dec_of_int n))
                                  | _ \<Rightarrow> None));
                   ordinal = (if ranked
                            then (case rating of None \<Rightarrow> None | Some r \<Rightarrow> map_option (\<lambda>n. SInt (- n)) (rs_ordinal r))
                            else None)
               in Inr (Some \<lparr>mv_metric_id = metric_id, mv_product_type = rw_product_type row,
                             mv_product_id = rw_product_id row, mv_value = value,
                             mv_quality_status = rf_quality_status item,
                             mv_currency = (case field_value (rw_values row) (cp ''currency'') of
                                              Some (SStr s) \<Rightarrow> Some s | _ \<Rightarrow> None),
                             mv_period = None, mv_sort_value = ordinal\<rparr>))))"

definition metric_values :: "policy_engine \<Rightarrow> raw_product_row \<Rightarrow> pystr list \<Rightarrow> intent \<Rightarrow> metric_value list result" where
  "metric_values pe row field_ids intent =
     rbind (traverse (metric_value_of pe row intent) field_ids) (\<lambda>vs. Inr (List.map_filter id vs))"

section \<open>The row loop\<close>

record policy_pass =
  ps_included :: "policy_row list"
  ps_source_rows :: "policy_row list"
  ps_excluded_filter :: int
  ps_excluded_state :: int
  ps_segment_exclusions :: "(product_type \<times> int \<times> int) list"
  ps_warnings :: "pystr list"
  ps_metric_values :: "metric_value list"
  ps_population_metric_values :: "metric_value list"
  ps_segment_excluded_filter :: int
  ps_segment_excluded_state :: int

definition initial_pass :: policy_pass where
  "initial_pass =
     \<lparr>ps_included = [], ps_source_rows = [], ps_excluded_filter = 0, ps_excluded_state = 0, ps_segment_exclusions = [],
      ps_warnings = [], ps_metric_values = [], ps_population_metric_values = [], ps_segment_excluded_filter = 0,
      ps_segment_excluded_state = 0\<rparr>"

definition aggregation_fields :: "execution_segment \<Rightarrow> pystr list" where
  "aggregation_fields s =
     (case sg_aggregation s of None \<Rightarrow> [] | Some a \<Rightarrow> (case ag_field a of None \<Rightarrow> [] | Some f \<Rightarrow> [f]))"

definition population_fields :: "execution_segment \<Rightarrow> pystr list" where
  "population_fields s = fromkeys (sg_metrics s @ map fc_field (sg_filters s) @ aggregation_fields s)"

definition metric_field_ids :: "execution_segment \<Rightarrow> pystr list" where
  "metric_field_ids s =
     fromkeys (sg_metrics s
       @ map fc_field (filter (\<lambda>c. fc_operator c = IS_MISSING \<or> fc_operator c = IS_NOT_MISSING) (sg_filters s))
       @ aggregation_fields s)"

definition row_state :: "raw_product_row \<Rightarrow> date \<Rightarrow> state_evaluation result" where
  "row_state row as_of =
     (if rw_product_type row \<in> {OVERSEAS_ETF, OVERSEAS_ETN, PUBLIC_FUND}
      then Inr \<lparr>se_product_id = rw_product_id row, se_eligible = True, se_state_ids = [cp ''source_state_only''],
                se_warnings = [cp ''validated eligibility is unsupported'']\<rparr>
      else evaluate_state \<lparr>pp_product_type = rw_product_type row, pp_product_id = rw_product_id row,
                            pp_values = rw_values row\<rparr> as_of)"

definition row_matched :: "policy_engine \<Rightarrow> execution_segment \<Rightarrow> raw_product_row \<Rightarrow> bool result" where
  "row_matched pe s row = all_result (policy_matches (pe_ratings pe) row) (sg_filters s)"

definition population_matched :: "policy_engine \<Rightarrow> execution_segment \<Rightarrow> raw_product_row \<Rightarrow> bool result" where
  "population_matched pe s row =
     all_result (\<lambda>c. rbind (projection (pe_fields pe) (fc_field c) (rw_product_type row)) (\<lambda>proj.
         if fp_metric_id proj = None then policy_matches (pe_ratings pe) row c else Inr True)) (sg_filters s)"

definition exclude_by_filter :: "policy_pass \<Rightarrow> policy_pass" where
  "exclude_by_filter st =
     st\<lparr>ps_excluded_filter := ps_excluded_filter st + 1,
        ps_segment_excluded_filter := ps_segment_excluded_filter st + 1\<rparr>"

definition process_row ::
  "policy_engine \<Rightarrow> query_plan \<Rightarrow> execution_segment \<Rightarrow> policy_pass \<Rightarrow> raw_product_row \<Rightarrow> policy_pass result" where
  "process_row pe plan s st row =
     rbind (row_matched pe s row) (\<lambda>matched.
     rbind (population_matched pe s row) (\<lambda>population.
       if \<not> matched \<and> \<not> population then Inr (exclude_by_filter st)
       else
         rbind (row_state row (qp_as_of_date plan)) (\<lambda>state.
         rbind (if population \<and> se_eligible state
                then metric_values pe row (population_fields s) (qp_intent plan) else Inr []) (\<lambda>pop.
           let st = st\<lparr>ps_population_metric_values := ps_population_metric_values st @ pop\<rparr> in
           if \<not> matched then Inr (exclude_by_filter st)
           else
             let prow = \<lparr>pr_raw = row, pr_state = state\<rparr>;
                 st = st\<lparr>ps_warnings := ps_warnings st @ se_warnings state,
                         ps_source_rows := ps_source_rows st @ [prow]\<rparr> in
             if \<not> se_eligible state
             then Inr (st\<lparr>ps_excluded_state := ps_excluded_state st + 1,
                          ps_segment_excluded_state := ps_segment_excluded_state st + 1\<rparr>)
             else rbind (metric_values pe row (metric_field_ids s) (qp_intent plan)) (\<lambda>mvs.
                    Inr (st\<lparr>ps_included := ps_included st @ [prow],
                            ps_metric_values := ps_metric_values st @ mvs\<rparr>))))))"

fun process_rows ::
  "policy_engine \<Rightarrow> query_plan \<Rightarrow> execution_segment \<Rightarrow> policy_pass \<Rightarrow> raw_product_row list \<Rightarrow> policy_pass result" where
  "process_rows pe plan s st [] = Inr st"
| "process_rows pe plan s st (row # rows) =
     rbind (process_row pe plan s st row) (\<lambda>st. process_rows pe plan s st rows)"

definition process_segment ::
  "policy_engine \<Rightarrow> query_plan \<Rightarrow> policy_pass \<Rightarrow> execution_segment \<Rightarrow> raw_segment_result \<Rightarrow> policy_pass result" where
  "process_segment pe plan st s raw =
     rbind (raise_if (sg_product_type s \<noteq> rsr_product_type raw) (ValueError ''policy segment identity differs'')) (\<lambda>_.
     rbind (process_rows pe plan s (st\<lparr>ps_segment_excluded_filter := 0, ps_segment_excluded_state := 0\<rparr>) (rsr_rows raw))
       (\<lambda>st. Inr (st\<lparr>ps_segment_exclusions := dict_set (ps_segment_exclusions st) (sg_product_type s)
                       (ps_segment_excluded_filter st, ps_segment_excluded_state st)\<rparr>)))"

text \<open>\<open>zip(..., strict=True)\<close> raises when one side ends first.\<close>

fun process_segments ::
  "policy_engine \<Rightarrow> query_plan \<Rightarrow> policy_pass \<Rightarrow> execution_segment list \<Rightarrow> raw_segment_result list \<Rightarrow> policy_pass result" where
  "process_segments pe plan st [] [] = Inr st"
| "process_segments pe plan st (s # ss) (r # rs) =
     rbind (process_segment pe plan st s r) (\<lambda>st. process_segments pe plan st ss rs)"
| "process_segments pe plan st ss rs = Inl (ValueError ''zip() arguments differ in length'')"

section \<open>Values, partitions and ranks\<close>

definition requested_period :: "registry_bundle \<Rightarrow> metric_value list \<Rightarrow> pystr option result" where
  "requested_period regs vs =
     rbind (find_result (\<lambda>v. rbind (metric_entry regs (mv_metric_id v)) (\<lambda>metric.
              Inr (md_comparability_group metric = cp ''historical_total_return''))) vs) (\<lambda>found.
       case found of
         None \<Rightarrow> Inr None
       | Some v \<Rightarrow> rbind (metric_entry regs (mv_metric_id v)) (\<lambda>metric. Inr (md_period metric)))"

definition policy_operation :: "intent \<Rightarrow> operation" where
  "policy_operation i =
     (if i = SCREEN_RANK then OP_RANK else if i = AGGREGATE_INTENT then OP_AGGREGATE else OP_DISPLAY)"

definition policy_values :: "operation \<Rightarrow> metric_policy_result \<Rightarrow> metric_value list" where
  "policy_values oper mp =
     (if oper = OP_RANK \<or> oper = OP_AGGREGATE then mp_comparison_valid_values mp else mp_recorded_values mp)"

definition policy_partitions ::
  "registry_bundle \<Rightarrow> execution_bundle \<Rightarrow> operation \<Rightarrow> metric_value list \<Rightarrow> pystr option
     \<Rightarrow> compatibility_partition list result" where
  "policy_partitions regs b oper vs per =
     rbind (if eb_top_k_scope b = PER_PRODUCT_TYPE
            then rbind (traverse (\<lambda>s. partition_values regs (filter (\<lambda>v. mv_product_type v = sg_product_type s) vs) per)
                          (eb_segments b)) (\<lambda>pss. Inr (concat pss))
            else if vs \<noteq> [] then partition_values regs vs per else Inr []) (\<lambda>partitions.
     rbind (raise_if ((oper = OP_RANK \<or> oper = OP_AGGREGATE) \<and> eb_top_k_scope b = GLOBAL \<and> length partitions > 1)
              (ValueError ''global scope requires one final partition'')) (\<lambda>_. Inr partitions))"

text \<open>\<open>xs[:k]\<close>, also for a negative \<open>k\<close>.\<close>

definition slice_to :: "int \<Rightarrow> 'a list \<Rightarrow> 'a list" where
  "slice_to k xs = (if 0 \<le> k then take (nat k) xs else take (length xs - nat (- k)) xs)"

text \<open>A \<open>StopIteration\<close> raised inside a generator expression surfaces as a \<open>RuntimeError\<close>.\<close>

definition in_generator :: "'a result \<Rightarrow> 'a result" where
  "in_generator r =
     (case r of Inl StopIteration \<Rightarrow> Inl (RuntimeError ''generator raised StopIteration'') | _ \<Rightarrow> r)"

definition default_descending :: "query_plan \<Rightarrow> bool" where
  "default_descending plan = (case qp_sort plan of [] \<Rightarrow> False | s # _ \<Rightarrow> ss_direction s = DESC)"

text \<open>The direction of a partition, and the first field of a segment for a metric.\<close>

definition partition_descending ::
  "policy_engine \<Rightarrow> execution_bundle \<Rightarrow> query_plan \<Rightarrow> compatibility_partition \<Rightarrow> bool result" where
  "partition_descending pe b plan p =
     (if qp_intent plan = SCREEN_RANK \<and> eb_top_k_scope b = PER_PRODUCT_TYPE
      then (case pn_values p of
              [] \<Rightarrow> Inl IndexError
            | v # _ \<Rightarrow>
               rbind (find_result (\<lambda>x. rbind (projection (pe_fields pe) (ss_field x) (mv_product_type v)) (\<lambda>proj.
                          Inr (fp_metric_id proj = Some (mv_metric_id v))))
                        (concat (map sg_sort (filter (\<lambda>s. sg_product_type s = mv_product_type v) (eb_segments b))))) (\<lambda>found.
                 case found of None \<Rightarrow> Inl StopIteration | Some x \<Rightarrow> Inr (ss_direction x = DESC)))
      else Inr (default_descending plan))"

definition rank_field :: "policy_engine \<Rightarrow> execution_bundle \<Rightarrow> metric_value \<Rightarrow> pystr result" where
  "rank_field pe b v =
     rbind (find_result (\<lambda>f. rbind (projection (pe_fields pe) f (mv_product_type v)) (\<lambda>proj.
                Inr (fp_metric_id proj = Some (mv_metric_id v))))
              (concat (map sg_metrics (filter (\<lambda>s. sg_product_type s = mv_product_type v) (eb_segments b))))) (\<lambda>found.
       case found of None \<Rightarrow> Inl StopIteration | Some f \<Rightarrow> Inr f)"

definition rank_result ::
  "policy_engine \<Rightarrow> execution_bundle \<Rightarrow> compatibility_partition \<Rightarrow> ranked_metric_value \<Rightarrow> rank_policy_result result" where
  "rank_result pe b p item =
     in_generator (
     rbind (next_or_raise (filter (\<lambda>s. sg_product_type s = mv_product_type (rk_value item)) (eb_segments b))) (\<lambda>s.
     rbind (rank_field pe b (rk_value item)) (\<lambda>f.
       Inr \<lparr>rp_value = rk_value item, rp_native_result_grain = sg_native_result_grain s,
            rp_partition_key = pn_compatibility_key p, rp_field_id = f, rp_rank = rk_rank item,
            rp_tie_count = rk_tie_count item, rp_policy_id = mv_metric_id (rk_value item) @ cp '':rank'',
            rp_evidence_requirements = [cp ''value'', cp ''quality'', cp ''tie'']\<rparr>)))"

text \<open>
  Sorting by \<open>(value.value, value.product_id)\<close>: values of different kinds, or a missing value
  next to a present one, do not compare.
\<close>

definition optional_key :: "scalar option \<Rightarrow> skey" where
  "optional_key v = (case v of None \<Rightarrow> (4, 0, []) | Some s \<Rightarrow> scalar_key s)"

definition sort_values :: "bool \<Rightarrow> metric_value list \<Rightarrow> metric_value list result" where
  "sort_values descending vs =
     (if length (fromkeys (map (fst \<circ> optional_key \<circ> mv_value) vs)) \<le> 1
      then Inr (py_sorted_by descending (\<lambda>v. (optional_key (mv_value v), mv_product_id v)) vs)
      else Inl (TypeError ''not supported between instances''))"

definition select_partition ::
  "policy_engine \<Rightarrow> execution_bundle \<Rightarrow> query_plan \<Rightarrow> compatibility_partition
     \<Rightarrow> (compatibility_partition \<times> rank_policy_result list) result" where
  "select_partition pe b plan p =
     rbind (partition_descending pe b plan p) (\<lambda>descending.
       if qp_intent plan = SCREEN_RANK
       then rbind (tie_rank (pn_values p) descending) (\<lambda>ranked.
            let selected = filter (\<lambda>item. rk_rank item \<le> qp_top_k plan) ranked in
            rbind (traverse (rank_result pe b p) selected) (\<lambda>ranks.
              Inr (p\<lparr>pn_selected_values := map rk_value selected\<rparr>, ranks)))
       else rbind (sort_values descending (pn_values p)) (\<lambda>vs.
              Inr (p\<lparr>pn_selected_values := slice_to (qp_top_k plan) vs\<rparr>, [])))"

section \<open>Rows\<close>

definition sort_field_value :: "pystr \<Rightarrow> policy_row \<Rightarrow> scalar option result" where
  "sort_field_value f row =
     (case next_or_none (\<lambda>v. rf_field_id v = f) (rw_values (pr_raw row)) of
        None \<Rightarrow> Inl StopIteration
      | Some v \<Rightarrow> Inr (rf_value v))"

definition sort_pass :: "sort_spec \<Rightarrow> policy_row list \<Rightarrow> policy_row list result" where
  "sort_pass item ordered =
     rbind (traverse (\<lambda>row. rbind (sort_field_value (ss_field item) row) (\<lambda>v. Inr (v, row))) ordered) (\<lambda>keyed.
     rbind (scalar_sort (ss_direction item = DESC) fst
              (List.map_filter (\<lambda>(v, row). map_option (\<lambda>s. (s, row)) v) keyed)) (\<lambda>valued.
       Inr (map snd valued @ map snd (filter (\<lambda>(v, row). v = None) keyed))))"

fun sort_passes :: "sort_spec list \<Rightarrow> policy_row list \<Rightarrow> policy_row list result" where
  "sort_passes [] ordered = Inr ordered"
| "sort_passes (item # items) ordered = rbind (sort_pass item ordered) (sort_passes items)"

definition sort_rows :: "policy_row list \<Rightarrow> sort_spec list \<Rightarrow> policy_row list result" where
  "sort_rows rows specs = sort_passes (rev specs) (py_sorted (rw_product_id \<circ> pr_raw) rows)"

definition field_segments :: "policy_engine \<Rightarrow> execution_bundle \<Rightarrow> operation \<Rightarrow> execution_segment list result" where
  "field_segments pe b oper =
     (if oper = OP_DISPLAY then Inr (eb_segments b)
      else filter_result (\<lambda>s. rbind (any_result (\<lambda>f. rbind (projection (pe_fields pe) f (sg_product_type s)) (\<lambda>proj.
               Inr (fp_metric_id proj \<noteq> None))) (sg_metrics s)) (\<lambda>found. Inr (\<not> found))) (eb_segments b))"

definition rows_of_type :: "policy_row list \<Rightarrow> product_type \<Rightarrow> policy_row list" where
  "rows_of_type rows pt = filter (\<lambda>r. rw_product_type (pr_raw r) = pt) rows"

definition select_rows ::
  "execution_bundle \<Rightarrow> query_plan \<Rightarrow> execution_segment list \<Rightarrow> policy_row list \<Rightarrow> policy_row list result" where
  "select_rows b plan fsegs included =
     (if eb_top_k_scope b = GLOBAL
      then rbind (sort_rows (filter (\<lambda>r. rw_product_type (pr_raw r) \<in> set (map sg_product_type fsegs)) included)
                    (qp_sort plan)) (\<lambda>rows. Inr (slice_to (qp_top_k plan) rows))
      else rbind (in_generator (traverse (\<lambda>s.
                    rbind (sort_rows (rows_of_type included (sg_product_type s)) (sg_sort s)) (\<lambda>rows.
                      Inr (slice_to (sg_top_k s) rows))) fsegs)) (\<lambda>rss. Inr (concat rss)))"

definition display_partition :: "policy_row list \<Rightarrow> compatibility_partition \<Rightarrow> compatibility_partition" where
  "display_partition selected p =
     p\<lparr>pn_selected_values := filter (\<lambda>v. (mv_product_type v, mv_product_id v)
         \<in> set (map (\<lambda>r. (rw_product_type (pr_raw r), rw_product_id (pr_raw r))) selected)) (pn_values p)\<rparr>"

section \<open>Aggregates\<close>

definition aggregate :: "aggregation_function \<Rightarrow> decimal list \<Rightarrow> scalar option result" where
  "aggregate fn values =
     (if values = [] then Inr None
      else case fn of
        MIN_FN \<Rightarrow> Inr (map_option SDec (min_by dval values))
      | MAX_FN \<Rightarrow> Inr (map_option SDec (max_by dval values))
      | SUM_FN \<Rightarrow> rbind (dec_sum 28 dec_zero values) (\<lambda>s. Inr (Some (SDec s)))
      | AVG_FN \<Rightarrow> rbind (dec_sum 38 dec_zero values) (\<lambda>s.
                  rbind (dec_div_nat 38 s (length values)) (\<lambda>q.
                  rbind (dec_quantize 38 q (-18)) (\<lambda>a. Inr (Some (SDec a)))))
      | COUNT_FN \<Rightarrow> Inr (Some (SInt (int (length values)))))"

definition row_matches_partition :: "pystr option \<Rightarrow> policy_row \<Rightarrow> bool" where
  "row_matches_partition currency row =
     (case currency of
        None \<Rightarrow> True
      | Some c \<Rightarrow> (case first_value (pr_raw row) (cp ''currency'') of Some v \<Rightarrow> scalar_eq v (SStr c) | None \<Rightarrow> False))"

definition partition_rows ::
  "policy_engine \<Rightarrow> compatibility_partition list \<Rightarrow> execution_segment \<Rightarrow> aggregation_spec \<Rightarrow> policy_row list
     \<Rightarrow> (pystr \<times> policy_row list) list result" where
  "partition_rows pe partitions s a segment_rows =
     rbind (case ag_field a of
              None \<Rightarrow> Inr []
            | Some f \<Rightarrow> filter_result (\<lambda>p. any_result (\<lambda>v.
                 if mv_product_type v \<noteq> sg_product_type s then Inr False
                 else rbind (projection (pe_fields pe) f (sg_product_type s)) (\<lambda>proj.
                        Inr (Some (mv_metric_id v) = fp_metric_id proj))) (pn_values p)) partitions) (\<lambda>applicable.
       Inr (if applicable \<noteq> []
            then map (\<lambda>p. (pn_compatibility_key p, filter (row_matches_partition (pn_currency p)) segment_rows)) applicable
            else [(cp ''count:'' @ result_grain_value (sg_native_result_grain s) @ cp '':''
                     @ product_type_value (sg_product_type s), segment_rows)]))"

text \<open>\<open>by_field[field]\<close> for the grouping fields of a row.\<close>

definition group_values_of :: "pystr list \<Rightarrow> policy_row \<Rightarrow> raw_field_value list result" where
  "group_values_of fs row =
     traverse (\<lambda>f. case field_item (rw_values (pr_raw row)) f of Some v \<Rightarrow> Inr v | None \<Rightarrow> Inl (KeyError f)) fs"

text \<open>
  The dictionary of groups. Keys are tuples of values compared with Python's equality; a group
  keeps the field values of its first row.
\<close>

definition row_groups ::
  "pystr list \<Rightarrow> policy_row list \<Rightarrow> (raw_field_value list \<times> policy_row list) list result" where
  "row_groups group_by rows =
     rbind (traverse (\<lambda>row. rbind (group_values_of group_by row) (\<lambda>gvs. Inr (gvs, row))) rows) (\<lambda>keyed.
       let groups = map (\<lambda>(k, grs). (fst (hd grs), map snd grs))
                      (group_into [] (\<lambda>(gvs, row). map (optional_key \<circ> rf_value) gvs) keyed);
           groups = (if groups = [] \<and> group_by = [] then [([], [])] else groups)
       in Inr (py_sorted (\<lambda>(gvs, rows). map (value_str \<circ> rf_value) gvs) groups))"

definition numbers_of :: "pystr option \<Rightarrow> product_type \<Rightarrow> pystr list \<Rightarrow> metric_value list \<Rightarrow> decimal list" where
  "numbers_of metric_id pt product_ids values =
     List.map_filter (\<lambda>v. if Some (mv_metric_id v) = metric_id \<and> mv_product_type v = pt \<and> mv_product_id v \<in> set product_ids
                     then (case mv_value v of Some (SDec d) \<Rightarrow> Some d | _ \<Rightarrow> None) else None) values"

definition segment_excluded_state :: "(product_type \<times> int \<times> int) list \<Rightarrow> product_type \<Rightarrow> int result" where
  "segment_excluded_state exclusions pt =
     (case map_of exclusions pt of None \<Rightarrow> Inl (KeyError (product_type_value pt)) | Some (_, n) \<Rightarrow> Inr n)"

definition group_aggregate ::
  "policy_engine \<Rightarrow> metric_value list \<Rightarrow> (product_type \<times> int \<times> int) list \<Rightarrow> execution_segment \<Rightarrow> aggregation_spec
     \<Rightarrow> pystr \<Rightarrow> raw_field_value list \<times> policy_row list \<Rightarrow> aggregate_policy_result result" where
  "group_aggregate pe values exclusions s a key g =
     (case g of (gvs, rows) \<Rightarrow>
       let product_ids = map (rw_product_id \<circ> pr_raw) rows in
       rbind (case ag_field a of
                None \<Rightarrow> Inr (Some (SInt (int (length rows))), int (length rows), 0, cp ''count:'' @ aggregation_value (ag_function a))
              | Some f \<Rightarrow>
                 rbind (projection (pe_fields pe) f (sg_product_type s)) (\<lambda>proj.
                   let numbers = numbers_of (fp_metric_id proj) (sg_product_type s) product_ids values in
                   rbind (aggregate (ag_function a) numbers) (\<lambda>value.
                     Inr (value, int (length numbers), int (length rows) - int (length numbers),
                          opt_str (fp_metric_id proj) @ cp '':'' @ aggregation_value (ag_function a))))) (\<lambda>(value, included, excluded, policy).
       rbind (if ag_group_by a = [] then segment_excluded_state exclusions (sg_product_type s) else Inr 0) (\<lambda>state_excluded.
         Inr \<lparr>ar_product_type = sg_product_type s, ar_native_result_grain = sg_native_result_grain s,
              ar_partition_key = key, ar_field_id = ag_field a, ar_group_values = gvs, ar_value = value,
              ar_included_count = included, ar_excluded_count = excluded + state_excluded, ar_policy_id = policy,
              ar_evidence_requirements = [cp ''value'', cp ''quality'', cp ''count''], ar_product_ids = product_ids\<rparr>)))"

definition order_aggregates ::
  "execution_segment \<Rightarrow> aggregation_spec \<Rightarrow> aggregate_policy_result list \<Rightarrow> aggregate_policy_result list result" where
  "order_aggregates s a ars =
     (case sg_sort s of
        x # _ \<Rightarrow>
          if Some (ss_field x) = ag_field a
          then rbind (scalar_sort (ss_direction x = DESC) fst
                        (List.map_filter (\<lambda>r. map_option (\<lambda>v. (v, r)) (ar_value r)) ars)) (\<lambda>valued.
                 Inr (map snd valued @ filter (\<lambda>r. ar_value r = None) ars))
          else Inr ars
      | [] \<Rightarrow> Inr ars)"

definition segment_aggregates ::
  "policy_engine \<Rightarrow> metric_value list \<Rightarrow> compatibility_partition list \<Rightarrow> policy_pass \<Rightarrow> execution_segment
     \<Rightarrow> aggregate_policy_result list result" where
  "segment_aggregates pe values partitions st s =
     (case sg_aggregation s of
        None \<Rightarrow> Inr []
      | Some a \<Rightarrow>
         rbind (partition_rows pe partitions s a (rows_of_type (ps_included st) (sg_product_type s))) (\<lambda>prs.
         rbind (traverse (\<lambda>(key, rows).
            rbind (row_groups (ag_group_by a) rows) (\<lambda>groups.
            rbind (traverse (group_aggregate pe values (ps_segment_exclusions st) s a key) groups) (\<lambda>ars.
            rbind (order_aggregates s a ars) (\<lambda>ars. Inr (slice_to (sg_top_k s) ars))))) prs) (\<lambda>arss.
           Inr (concat arss))))"

section \<open>The pipeline\<close>

definition policy_apply ::
  "policy_engine \<Rightarrow> raw_execution_result \<Rightarrow> execution_bundle \<Rightarrow> policy_execution_result result" where
  "policy_apply pe raw b =
     (let plan = vp_plan (eb_validated_plan b); oper = policy_operation (qp_intent plan); regs = pe_registries pe in
      rbind (process_segments pe plan initial_pass (eb_segments b) (rer_segments raw)) (\<lambda>st.
      rbind (requested_period regs (ps_metric_values st)) (\<lambda>per.
      rbind (apply_metric_policy regs oper (ps_metric_values st)) (\<lambda>mp.
      let vs = policy_values oper mp in
      rbind (policy_partitions regs b oper vs per) (\<lambda>partitions.
      rbind (traverse (select_partition pe b plan) partitions) (\<lambda>selections.
      rbind (field_segments pe b oper) (\<lambda>fsegs.
      rbind (select_rows b plan fsegs (ps_included st)) (\<lambda>selected_rows.
      let selected = (if oper = OP_DISPLAY then map (display_partition selected_rows \<circ> fst) selections
                      else map fst selections) in
      rbind (traverse (segment_aggregates pe vs selected st) (eb_segments b)) (\<lambda>aggregates.
        Inr \<lparr>px_included_rows = ps_included st, px_excluded_filter_count = ps_excluded_filter st,
             px_excluded_state_count = ps_excluded_state st,
             px_excluded_metric_count = int (length (ps_metric_values st)) - int (length vs),
             px_metric_policy = mp, px_dual_lens_labels = dual_lens_labels mp, px_selected_rows = selected_rows,
             px_partitions = selected, px_aggregates = concat aggregates, px_ranks = concat (map snd selections),
             px_warnings = fromkeys (ps_warnings st @ mp_warnings mp), px_source_rows = ps_source_rows st,
             px_metric_values = ps_metric_values st, px_population_metric_values = ps_population_metric_values st,
             px_limitations = eb_limitations b\<rparr>)))))))))"


section \<open>Conservation of the row loop\<close>

text \<open>What a step of the row loop adds: at most one source row, with its state.\<close>

definition source_of :: "policy_engine \<Rightarrow> query_plan \<Rightarrow> execution_segment \<Rightarrow> raw_product_row \<Rightarrow> policy_row list" where
  "source_of pe plan s row =
     (if row_matched pe s row = Inr True
      then (case row_state row (qp_as_of_date plan) of Inr e \<Rightarrow> [\<lparr>pr_raw = row, pr_state = e\<rparr>] | Inl _ \<Rightarrow> []) else [])"

definition eligible_rows :: "policy_row list \<Rightarrow> policy_row list" where
  "eligible_rows rows = filter (\<lambda>r. se_eligible (pr_state r)) rows"

text \<open>The counters of a pass agree with its rows.\<close>

definition balanced :: "policy_pass \<Rightarrow> raw_product_row list \<Rightarrow> policy_row list \<Rightarrow> bool" where
  "balanced st seen source \<longleftrightarrow>
     ps_source_rows st = source \<and> ps_included st = eligible_rows source \<and>
     ps_excluded_filter st + int (length source) = int (length seen) \<and>
     ps_excluded_state st + int (length (eligible_rows source)) = int (length source)"

lemma process_row_balanced:
  assumes "process_row pe plan s st row = Inr st'" and "balanced st seen source"
  shows "balanced st' (seen @ [row]) (source @ source_of pe plan s row)"
proof -
  from assms(1) obtain m p where m: "row_matched pe s row = Inr m" "population_matched pe s row = Inr p"
    by (auto simp: process_row_def rbind_eq_Inr_iff)
  show ?thesis
  proof (cases m)
    case False
    then have "source_of pe plan s row = []" using m by (simp add: source_of_def)
    moreover from assms(1) m False have "ps_source_rows st' = ps_source_rows st \<and> ps_included st' = ps_included st \<and>
        ps_excluded_filter st' = ps_excluded_filter st + 1 \<and> ps_excluded_state st' = ps_excluded_state st"
      by (cases p) (auto simp: process_row_def rbind_eq_Inr_iff exclude_by_filter_def Let_def)
    ultimately show ?thesis using assms(2) by (auto simp: balanced_def)
  next
    case True
    from assms(1) m True obtain e where e: "row_state row (qp_as_of_date plan) = Inr e"
      by (auto simp: process_row_def rbind_eq_Inr_iff)
    with m True have so: "source_of pe plan s row = [\<lparr>pr_raw = row, pr_state = e\<rparr>]" by (simp add: source_of_def)
    show ?thesis
    proof (cases "se_eligible e")
      case True
      with assms(1) m \<open>m\<close> e have "ps_source_rows st' = ps_source_rows st @ [\<lparr>pr_raw = row, pr_state = e\<rparr>] \<and>
          ps_included st' = ps_included st @ [\<lparr>pr_raw = row, pr_state = e\<rparr>] \<and>
          ps_excluded_filter st' = ps_excluded_filter st \<and> ps_excluded_state st' = ps_excluded_state st"
        by (auto simp: process_row_def rbind_eq_Inr_iff Let_def)
      then show ?thesis using assms(2) so True by (auto simp: balanced_def eligible_rows_def)
    next
      case False
      with assms(1) m \<open>m\<close> e have "ps_source_rows st' = ps_source_rows st @ [\<lparr>pr_raw = row, pr_state = e\<rparr>] \<and>
          ps_included st' = ps_included st \<and>
          ps_excluded_filter st' = ps_excluded_filter st \<and> ps_excluded_state st' = ps_excluded_state st + 1"
        by (auto simp: process_row_def rbind_eq_Inr_iff Let_def)
      then show ?thesis using assms(2) so False by (auto simp: balanced_def eligible_rows_def)
    qed
  qed
qed

lemma process_rows_balanced:
  assumes "process_rows pe plan s st rows = Inr st'" and "balanced st seen source"
  shows "balanced st' (seen @ rows) (source @ concat (map (source_of pe plan s) rows))"
  using assms
proof (induction rows arbitrary: st seen source)
  case (Cons row rows)
  then obtain st1 where st1: "process_row pe plan s st row = Inr st1" "process_rows pe plan s st1 rows = Inr st'"
    by (auto simp: rbind_eq_Inr_iff)
  from Cons.IH [OF st1(2) process_row_balanced [OF st1(1) Cons.prems(2)]] show ?case by simp
qed simp

lemma process_segments_balanced:
  assumes "process_segments pe plan st ss rs = Inr st'" and "balanced st seen source"
  shows "balanced st' (seen @ concat (map rsr_rows rs))
           (source @ concat (map2 (\<lambda>s r. concat (map (source_of pe plan s) (rsr_rows r))) ss rs)) \<and>
         map sg_product_type ss = map rsr_product_type rs"
  using assms
proof (induction pe plan st ss rs arbitrary: st' seen source rule: process_segments.induct)
  case (2 pe plan st s ss r rs)
  then obtain st1 where st1: "process_segment pe plan st s r = Inr st1" "process_segments pe plan st1 ss rs = Inr st'"
    by (auto simp: rbind_eq_Inr_iff)
  let ?st = "st\<lparr>ps_segment_excluded_filter := 0, ps_segment_excluded_state := 0\<rparr>"
  from st1(1) obtain st2 where st2: "sg_product_type s = rsr_product_type r" "process_rows pe plan s ?st (rsr_rows r) = Inr st2"
      "st1 = st2\<lparr>ps_segment_exclusions := dict_set (ps_segment_exclusions st2) (sg_product_type s)
                       (ps_segment_excluded_filter st2, ps_segment_excluded_state st2)\<rparr>"
    by (auto simp: process_segment_def rbind_eq_Inr_iff)
  have "balanced ?st seen source" using 2(3) by (simp add: balanced_def)
  from process_rows_balanced [OF st2(2) this]
  have "balanced st1 (seen @ rsr_rows r) (source @ concat (map (source_of pe plan s) (rsr_rows r)))"
    by (simp add: st2(3) balanced_def)
  from 2(1) [OF st1(2) this] st2(1) show ?case by simp
qed auto

lemma source_of_rows:
  assumes "\<And>row. row \<in> set rows \<Longrightarrow> row_matched pe s row = Inr True \<Longrightarrow> \<exists>e. row_state row (qp_as_of_date plan) = Inr e"
  shows "map pr_raw (concat (map (source_of pe plan s) rows)) = filter (\<lambda>row. row_matched pe s row = Inr True) rows"
  using assms
proof (induction rows)
  case (Cons row rows)
  then show ?case using Cons.prems [of row] by (cases "row_state row (qp_as_of_date plan)") (auto simp: source_of_def)
qed simp

lemma source_of_state: "p \<in> set (source_of pe plan s row) \<Longrightarrow> row_state (pr_raw p) (qp_as_of_date plan) = Inr (pr_state p)"
  by (cases "row_matched pe s row = Inr True"; cases "row_state row (qp_as_of_date plan)") (simp_all add: source_of_def)

lemma process_row_state:
  assumes "process_row pe plan s st row = Inr st'" and "row_matched pe s row = Inr True"
  shows "\<exists>e. row_state row (qp_as_of_date plan) = Inr e"
  using assms by (auto simp: process_row_def rbind_eq_Inr_iff)

lemma process_rows_state:
  assumes "process_rows pe plan s st rows = Inr st'" and "row \<in> set rows" and "row_matched pe s row = Inr True"
  shows "\<exists>e. row_state row (qp_as_of_date plan) = Inr e"
  using assms(1,2)
proof (induction rows arbitrary: st)
  case (Cons x xs)
  then show ?case using process_row_state [OF _ assms(3)] by (auto simp: rbind_eq_Inr_iff)
qed simp

lemma process_segments_matched:
  assumes "process_segments pe plan st ss rs = Inr st'"
  shows "map pr_raw (concat (map2 (\<lambda>s r. concat (map (source_of pe plan s) (rsr_rows r))) ss rs)) =
     concat (map2 (\<lambda>s r. filter (\<lambda>row. row_matched pe s row = Inr True) (rsr_rows r)) ss rs)"
  using assms
proof (induction pe plan st ss rs arbitrary: st' rule: process_segments.induct)
  case (2 pe plan st s ss r rs)
  then obtain st0 st1 st2 where st: "process_rows pe plan s st0 (rsr_rows r) = Inr st1" "process_segments pe plan st2 ss rs = Inr st'"
    by (auto simp: rbind_eq_Inr_iff process_segment_def)
  have "map pr_raw (concat (map (source_of pe plan s) (rsr_rows r))) = filter (\<lambda>row. row_matched pe s row = Inr True) (rsr_rows r)"
    using process_rows_state [OF st(1)] by (intro source_of_rows) blast
  with 2(1) [OF st(2)] show ?case by simp
qed auto

section \<open>The row order\<close>

definition row_key :: "pystr \<Rightarrow> policy_row \<Rightarrow> skey option" where
  "row_key f r = map_option scalar_key (first_value (pr_raw r) f)"

text \<open>One sort key: present values in the requested direction, missing values last.\<close>

definition key_before :: "sort_spec \<Rightarrow> policy_row \<Rightarrow> policy_row \<Rightarrow> bool" where
  "key_before x r s =
     (case (row_key (ss_field x) r, row_key (ss_field x) s) of
        (Some a, Some b) \<Rightarrow> (if ss_direction x = DESC then b < a else a < b)
      | (Some _, None) \<Rightarrow> True
      | _ \<Rightarrow> False)"

text \<open>The lexicographic order of all keys, the product identifier last.\<close>

fun row_before :: "sort_spec list \<Rightarrow> policy_row \<Rightarrow> policy_row \<Rightarrow> bool" where
  "row_before [] r s = (rw_product_id (pr_raw r) \<le> rw_product_id (pr_raw s))"
| "row_before (x # xs) r s =
     (key_before x r s \<or> row_key (ss_field x) r = row_key (ss_field x) s \<and> row_before xs r s)"

lemma sorted_wrt_filter_iff: "sorted_wrt R (filter P xs) \<longleftrightarrow> sorted_wrt (\<lambda>a b. P a \<and> P b \<longrightarrow> R a b) xs"
  by (induction xs) auto

lemma sorted_wrt_stable:
  assumes "\<And>k. filter (\<lambda>y. key y = k) out = filter (\<lambda>y. key y = k) xs" and "sorted_wrt R xs"
    and "sorted_wrt (\<lambda>a b. key a = key b \<or> S a b) out"
  shows "sorted_wrt (\<lambda>a b. S a b \<or> key a = key b \<and> R a b) out"
proof -
  have R: "sorted_wrt (\<lambda>a b. key a = k \<and> key b = k \<longrightarrow> R a b) out" for k
    unfolding sorted_wrt_filter_iff [symmetric] assms(1) by (rule sorted_wrt_filter [OF assms(2)])
  show ?thesis
    unfolding sorted_wrt_iff_nth_less
  proof (intro allI impI)
    fix i j assume ij: "i < j" "j < length out"
    with assms(3) have "key (out ! i) = key (out ! j) \<or> S (out ! i) (out ! j)" by (simp add: sorted_wrt_iff_nth_less)
    with R [of "key (out ! i)"] ij show "S (out ! i) (out ! j) \<or> key (out ! i) = key (out ! j) \<and> R (out ! i) (out ! j)"
      by (auto simp: sorted_wrt_iff_nth_less)
  qed
qed

lemma sort_keyed:
  assumes "traverse (\<lambda>row. rbind (sort_field_value f row) (\<lambda>v. Inr (v, row))) xs = Inr keyed"
  shows "keyed = map (\<lambda>row. (first_value (pr_raw row) f, row)) xs"
  using assms
proof (induction xs arbitrary: keyed)
  case (Cons x xs)
  then show ?case
    by (auto simp: sort_field_value_def first_value_def rbind_def split: sum.splits option.splits)
qed simp

lemma insort_key_map_inner: "insort_key f (p x) (map p xs) = map p (insort_key (\<lambda>y. f (p y)) x xs)"
  by (induction xs) auto

lemma sort_key_map_inner: "sort_key f (map p xs) = map p (sort_key (\<lambda>y. f (p y)) xs)"
  by (induction xs) (auto simp: insort_key_map_inner)

lemma scalar_sort_map:
  assumes "scalar_sort d f (map p xs) = Inr ys"
  shows "\<exists>zs. scalar_sort d (\<lambda>x. f (p x)) xs = Inr zs \<and> ys = map p zs"
proof -
  have "one_kind f (map p xs)" "ys = py_sorted_by d (scalar_key \<circ> f) (map p xs)"
    using assms by (simp_all add: scalar_sort_def split: if_splits)
  moreover have "py_sorted_by d (scalar_key \<circ> f) (map p xs) = map p (py_sorted_by d (scalar_key \<circ> (\<lambda>x. f (p x))) xs)"
    by (cases d; simp only: py_sorted_by_def py_sorted_def py_sorted_desc_def rev_map sort_key_map_inner comp_def if_True if_False)
  moreover have "one_kind f (map p xs) = one_kind (\<lambda>x. f (p x)) xs" by (simp add: one_kind_iff)
  ultimately show ?thesis unfolding scalar_sort_def by simp
qed

lemma sort_pass_Inr:
  assumes "sort_pass x xs = Inr out"
  obtains vs where "scalar_sort (ss_direction x = DESC) (\<lambda>r. the (first_value (pr_raw r) (ss_field x)))
        (filter (\<lambda>r. first_value (pr_raw r) (ss_field x) \<noteq> None) xs) = Inr vs"
    and "out = vs @ filter (\<lambda>r. first_value (pr_raw r) (ss_field x) = None) xs"
proof -
  let ?v = "\<lambda>r. first_value (pr_raw r) (ss_field x)"
  from assms obtain keyed valued where k: "traverse (\<lambda>row. rbind (sort_field_value (ss_field x) row) (\<lambda>v. Inr (v, row))) xs = Inr keyed"
    and v: "scalar_sort (ss_direction x = DESC) fst (List.map_filter (\<lambda>(v, row). map_option (\<lambda>s. (s, row)) v) keyed) = Inr valued"
    and out: "out = map snd valued @ map snd (filter (\<lambda>(v, row). v = None) keyed)"
    by (auto simp: sort_pass_def rbind_eq_Inr_iff)
  have k: "keyed = map (\<lambda>row. (?v row, row)) xs" by (rule sort_keyed [OF k])
  have mf: "List.map_filter (\<lambda>(v, row). map_option (\<lambda>s. (s, row)) v) keyed = map (\<lambda>r. (the (?v r), r)) (filter (\<lambda>r. ?v r \<noteq> None) xs)"
    unfolding k by (induction xs) (auto simp: List.map_filter_simps)
  have fn: "map snd (filter (\<lambda>(v, row). v = None) keyed) = filter (\<lambda>r. ?v r = None) xs"
    unfolding k by (induction xs) auto
  from scalar_sort_map [OF v [unfolded mf]] obtain zs where
      "scalar_sort (ss_direction x = DESC) (\<lambda>r. the (?v r)) (filter (\<lambda>r. ?v r \<noteq> None) xs) = Inr zs"
      "valued = map (\<lambda>r. (the (?v r), r)) zs" by auto
  then show thesis by (intro that) (simp_all add: out fn comp_def)
qed

lemma sort_pass_before:
  assumes "sort_pass x xs = Inr out" and "sorted_wrt R xs"
  shows "mset out = mset xs \<and>
     sorted_wrt (\<lambda>a b. key_before x a b \<or> row_key (ss_field x) a = row_key (ss_field x) b \<and> R a b) out"
proof -
  let ?v = "\<lambda>r. first_value (pr_raw r) (ss_field x)"
  from sort_pass_Inr [OF assms(1)] obtain vs where
      vs: "scalar_sort (ss_direction x = DESC) (\<lambda>r. the (?v r)) (filter (\<lambda>r. ?v r \<noteq> None) xs) = Inr vs"
    and out: "out = vs @ filter (\<lambda>r. ?v r = None) xs" .
  have m: "mset vs = mset (filter (\<lambda>r. ?v r \<noteq> None) xs)" by (rule scalar_sort_mset [OF vs])
  then have some: "?v r \<noteq> None" if "r \<in> set vs" for r
    using that mset_eq_setD [OF m] by auto
  have "filter (\<lambda>r. row_key (ss_field x) r = k) out = filter (\<lambda>r. row_key (ss_field x) r = k) xs" for k
  proof (cases k)
    case None
    have "filter (\<lambda>r. ?v r = None) vs = []" using some by (auto simp: filter_empty_conv)
    with None show ?thesis by (simp add: out row_key_def)
  next
    case (Some s)
    have "filter (\<lambda>r. row_key (ss_field x) r = k) vs = filter (\<lambda>r. scalar_key (the (?v r)) = s) vs"
    proof (rule filter_cong [OF refl])
      fix r assume "r \<in> set vs"
      with some [of r] Some show "(row_key (ss_field x) r = k) = (scalar_key (the (?v r)) = s)" by (auto simp: row_key_def)
    qed
    also have "\<dots> = filter (\<lambda>r. scalar_key (the (?v r)) = s) (filter (\<lambda>r. ?v r \<noteq> None) xs)"
      by (rule scalar_sort_stable [OF vs])
    also have "\<dots> = filter (\<lambda>r. row_key (ss_field x) r = k) xs"
      unfolding filter_filter by (rule filter_cong) (use Some in \<open>auto simp: row_key_def\<close>)
    finally show ?thesis using Some by (auto simp: out row_key_def filter_empty_conv)
  qed
  moreover have "sorted_wrt (\<lambda>a b. row_key (ss_field x) a = row_key (ss_field x) b \<or> key_before x a b) out"
    unfolding out sorted_wrt_append
  proof (intro conjI ballI)
    show "sorted_wrt (\<lambda>a b. row_key (ss_field x) a = row_key (ss_field x) b \<or> key_before x a b) vs"
    proof (rule sorted_wrt_mono_rel [OF _ scalar_sort_sorted [OF vs]])
      fix a b assume "a \<in> set vs" "b \<in> set vs" and le: "if ss_direction x = DESC then scalar_key (the (?v b)) \<le> scalar_key (the (?v a))
          else scalar_key (the (?v a)) \<le> scalar_key (the (?v b))"
      with some obtain u w where "?v a = Some u" "?v b = Some w" by blast
      with le show "row_key (ss_field x) a = row_key (ss_field x) b \<or> key_before x a b"
        by (cases "ss_direction x = DESC") (auto simp: row_key_def key_before_def)
    qed
    show "sorted_wrt (\<lambda>a b. row_key (ss_field x) a = row_key (ss_field x) b \<or> key_before x a b) (filter (\<lambda>r. ?v r = None) xs)"
      by (rule sorted_wrt_mono_rel [of _ "\<lambda>_ _. True"]) (auto simp: row_key_def sorted_wrt_iff_nth_less)
  next
    fix a b assume "a \<in> set vs" "b \<in> set (filter (\<lambda>r. ?v r = None) xs)"
    with some [of a] show "row_key (ss_field x) a = row_key (ss_field x) b \<or> key_before x a b"
      by (auto simp: row_key_def key_before_def)
  qed
  ultimately have "sorted_wrt (\<lambda>a b. key_before x a b \<or> row_key (ss_field x) a = row_key (ss_field x) b \<and> R a b) out"
    using assms(2) by (intro sorted_wrt_stable [where key = "row_key (ss_field x)" and xs = xs])
  then show ?thesis by (simp add: out m union_filter_mset_complement)
qed

lemma sort_passes_before:
  assumes "sort_passes (rev specs) xs = Inr out" and "sorted_wrt (row_before []) xs"
  shows "mset out = mset xs \<and> sorted_wrt (row_before specs) out"
  using assms
proof (induction specs arbitrary: out)
  case (Cons x specs)
  have split: "sort_passes (ys @ [x]) zs = rbind (sort_passes ys zs) (sort_pass x)" for ys zs
    by (induction ys arbitrary: zs) (auto simp: rbind_def split: sum.splits)
  from Cons.prems(1) obtain mid where mid: "sort_passes (rev specs) xs = Inr mid" "sort_pass x mid = Inr out"
    by (auto simp: split rbind_eq_Inr_iff)
  from Cons.IH [OF mid(1) Cons.prems(2)] have "mset mid = mset xs" "sorted_wrt (row_before specs) mid" by blast+
  with sort_pass_before [OF mid(2), of "row_before specs"] show ?case by simp
qed simp

lemma sort_rows_before:
  assumes "sort_rows rows specs = Inr out"
  shows "mset out = mset rows \<and> sorted_wrt (row_before specs) out"
proof -
  have "sorted_wrt (row_before []) (py_sorted (rw_product_id \<circ> pr_raw) rows)"
    using sorted_py_sorted [of "rw_product_id \<circ> pr_raw" rows] by (auto simp: sorted_map intro: sorted_wrt_mono_rel [rotated])
  from sort_passes_before [OF assms [unfolded sort_rows_def] this] show ?thesis by simp
qed

section \<open>Filtering and the reference\<close>




text \<open>
  On a date the two differ: plans carry dates as ISO text, which the policy converts and the
  reference compares as it is, so that equality never holds and an inequality raises.
\<close>

lemma reference_date_literals:
  assumes "row_value row (fc_field c) = Some (SDate d)" and "fc_value c = CScalar (SStr t)"
  shows "fc_operator c = EQ \<Longrightarrow> reference_matches row c = Inr False"
    and "fc_operator c \<in> {GT, GTE, LT, LTE} \<Longrightarrow> \<exists>e. reference_matches row c = Inl e"
  using assms
  by (auto simp: reference_matches_def equals_clause_def scalar_eq_def compare_with_def scalar_less_def scalar_le_def scalar_kind_def)

lemma policy_date_literals:
  assumes "first_value row (fc_field c) = Some (SDate d)" and "fc_value c = CScalar (SStr t)" and "fromisoformat t = Some d"
    and "fc_operator c = EQ"
  shows "policy_matches ratings row c = Inr True"
  using assms by (auto simp: policy_matches_def date_target_def date_literal_def compare_matches_def equals_clause_def)


section \<open>Ranked selections\<close>

lemma policy_apply_Inr:
  assumes "policy_apply pe raw b = Inr r"
  defines "plan \<equiv> vp_plan (eb_validated_plan b)"
  obtains st mp per partitions selections fsegs where
    "process_segments pe plan initial_pass (eb_segments b) (rer_segments raw) = Inr st"
    "apply_metric_policy (pe_registries pe) (policy_operation (qp_intent plan)) (ps_metric_values st) = Inr mp"
    "policy_partitions (pe_registries pe) b (policy_operation (qp_intent plan)) (policy_values (policy_operation (qp_intent plan)) mp) per = Inr partitions"
    "traverse (select_partition pe b plan) partitions = Inr selections"
    "field_segments pe b (policy_operation (qp_intent plan)) = Inr fsegs"
    "select_rows b plan fsegs (ps_included st) = Inr (px_selected_rows r)"
    "px_included_rows r = ps_included st" "px_source_rows r = ps_source_rows st"
    "px_excluded_filter_count r = ps_excluded_filter st" "px_excluded_state_count r = ps_excluded_state st"
    "px_metric_values r = ps_metric_values st" "px_metric_policy r = mp"
    "px_excluded_metric_count r = int (length (ps_metric_values st)) - int (length (policy_values (policy_operation (qp_intent plan)) mp))"
    "px_ranks r = concat (map snd selections)"
    "px_partitions r = (if policy_operation (qp_intent plan) = OP_DISPLAY
        then map (display_partition (px_selected_rows r) \<circ> fst) selections else map fst selections)"
  using assms(1) unfolding policy_apply_def Let_def plan_def [symmetric]
  by (auto simp only: rbind_eq_Inr_iff Inr_inject policy_execution_result.simps elim!: exE conjE)




section \<open>Selected rows and groups\<close>

lemma slice_to_prefix: "set (slice_to k xs) \<subseteq> set xs" "0 \<le> k \<Longrightarrow> int (length (slice_to k xs)) \<le> k"
  by (auto simp: slice_to_def dest: in_set_takeD)

lemma in_generator_Inr [simp]: "in_generator r = Inr x \<longleftrightarrow> r = Inr x"
  by (auto simp: in_generator_def split: sum.splits py_error.splits)

lemma sort_rows_set: "sort_rows rows specs = Inr out \<Longrightarrow> set out = set rows"
  using sort_rows_before mset_eq_setD by blast

lemma select_rows_global:
  assumes "select_rows b plan fsegs included = Inr out" and "eb_top_k_scope b = GLOBAL"
  shows "set out \<subseteq> set included \<and> (0 \<le> qp_top_k plan \<longrightarrow> int (length out) \<le> qp_top_k plan) \<and>
     sorted_wrt (row_before (qp_sort plan)) out"
proof -
  from assms obtain rows where rows: "sort_rows (filter (\<lambda>r. rw_product_type (pr_raw r) \<in> set (map sg_product_type fsegs)) included)
      (qp_sort plan) = Inr rows" "out = slice_to (qp_top_k plan) rows"
    by (auto simp: select_rows_def rbind_eq_Inr_iff)
  have "sorted_wrt (row_before (qp_sort plan)) out"
    using sort_rows_before [OF rows(1)] by (simp add: rows(2) slice_to_def sorted_wrt_take)
  moreover have "set out \<subseteq> set included"
    using slice_to_prefix(1) [of "qp_top_k plan" rows] sort_rows_set [OF rows(1)] by (auto simp: rows(2))
  moreover have "0 \<le> qp_top_k plan \<longrightarrow> int (length out) \<le> qp_top_k plan" using slice_to_prefix(2) rows(2) by blast
  ultimately show ?thesis by blast
qed

lemma mset_concat_map_cong: "mset xs = mset ys \<Longrightarrow> mset (concat (map f xs)) = mset (concat (map f ys))"
proof -
  have "mset (concat (map f zs)) = sum_mset (image_mset (mset \<circ> f) (mset zs))" for zs by (induction zs) auto
  then show "mset xs = mset ys \<Longrightarrow> ?thesis" by simp
qed

text \<open>Every group consists of the rows that share the group's values, and no row is lost.\<close>

lemma row_groups_conserve:
  assumes "row_groups group_by rows = Inr gs"
  shows "mset (concat (map snd gs)) = mset rows"
proof -
  let ?key = "\<lambda>(gvs, row). map (optional_key \<circ> rf_value) gvs"
  from assms obtain keyed where keyed: "traverse (\<lambda>row. rbind (group_values_of group_by row) (\<lambda>gvs. Inr (gvs, row))) rows = Inr keyed"
    and gs: "gs = (let groups = map (\<lambda>(k, grs). (fst (hd grs), map snd grs)) (group_into [] ?key keyed);
           groups = (if groups = [] \<and> group_by = [] then [([], [])] else groups)
       in py_sorted (\<lambda>(gvs, rows). map (value_str \<circ> rf_value) gvs) groups)"
    by (auto simp: row_groups_def rbind_eq_Inr_iff Let_def)
  have rows: "map snd keyed = rows"
    using keyed by (induction rows arbitrary: keyed) (auto simp: rbind_def split: sum.splits)
  let ?groups = "map (\<lambda>(k, grs). (fst (hd grs), map snd grs)) (group_into [] ?key keyed)"
  have "mset (concat (map snd ?groups)) = mset (map snd (concat (map snd (group_into [] ?key keyed))))"
    by (simp add: map_concat comp_def case_prod_beta)
  also have "\<dots> = mset rows"
    unfolding group_into_eq mset_map mset_group_by_key unfolding mset_map [symmetric] rows by (rule refl)
  finally have g: "mset (concat (map snd ?groups)) = mset rows" .
  have "mset (concat (map snd gs)) = mset (concat (map snd (if ?groups = [] \<and> group_by = [] then [([], [])] else ?groups)))"
    unfolding gs Let_def by (rule mset_concat_map_cong) simp
  also have "\<dots> = mset (concat (map snd ?groups))" by (simp only: split: if_split) simp
  finally show ?thesis by (simp only: g)
qed

lemma row_groups_share:
  assumes "row_groups group_by rows = Inr gs" and "g \<in> set gs" and "row \<in> set (snd g)"
  shows "\<exists>vs. group_values_of group_by row = Inr vs \<and> map (optional_key \<circ> rf_value) vs = map (optional_key \<circ> rf_value) (fst g)"
proof -
  let ?key = "\<lambda>(gvs :: raw_field_value list, row :: policy_row). map (optional_key \<circ> rf_value) gvs"
  from assms(1) obtain keyed where keyed: "traverse (\<lambda>row. rbind (group_values_of group_by row) (\<lambda>gvs. Inr (gvs, row))) rows = Inr keyed"
    and gs: "set gs = set (let groups = map (\<lambda>(k, grs). (fst (hd grs), map snd grs)) (group_into [] ?key keyed)
           in if groups = [] \<and> group_by = [] then [([], [])] else groups)"
    by (auto simp: row_groups_def rbind_eq_Inr_iff Let_def)
  have k: "group_values_of group_by r = Inr vs" if "(vs, r) \<in> set keyed" for vs r
    using traverse_member [OF keyed that] by (auto simp: rbind_eq_Inr_iff)
  from assms(2,3) gs obtain k' grs where "(k', grs) \<in> set (group_by_key ?key keyed)" and g: "g = (fst (hd grs), map snd grs)"
    unfolding group_into_eq by (auto simp: Let_def split: if_splits)
  then have grs: "grs = filter (\<lambda>x. ?key x = k') keyed" by (auto simp: group_by_key_def)
  from assms(3) g obtain vs where vs: "(vs, row) \<in> set grs" by auto
  then have "hd grs \<in> set grs" by (cases grs) auto
  with grs have "?key (hd grs) = k'" by auto
  with vs grs k [of vs row] g show ?thesis by (auto simp: case_prod_beta)
qed

section \<open>Aggregates\<close>

text \<open>The coefficient of a decimal at a common exponent.\<close>

definition scaled :: "int \<Rightarrow> decimal \<Rightarrow> nat" where
  "scaled e d = dcoeff d * 10 ^ nat (dexp d - e)"

lemma scaled_add:
  assumes "e \<le> dexp a" and "e \<le> dexp b"
  shows "scaled e (dec_add_exact a b) \<le> scaled e a + scaled e b"
proof -
  let ?m = "min (dexp a) (dexp b)"
  let ?x = "signed_int (dneg a) (dcoeff a) * 10 ^ nat (dexp a - ?m) + signed_int (dneg b) (dcoeff b) * 10 ^ nat (dexp b - ?m)"
  have part: "10 ^ nat (dexp d - ?m) * 10 ^ nat (?m - e) = (10 :: nat) ^ nat (dexp d - e)" if "?m \<le> dexp d" for d
    using that assms by (simp add: power_add [symmetric] nat_add_distrib [symmetric])
  have s: "\<bar>signed_int n c\<bar> = int c" for n c by (simp add: signed_int_def)
  have "\<bar>?x\<bar> \<le> \<bar>signed_int (dneg a) (dcoeff a) * 10 ^ nat (dexp a - ?m)\<bar> + \<bar>signed_int (dneg b) (dcoeff b) * 10 ^ nat (dexp b - ?m)\<bar>"
    by (rule abs_triangle_ineq)
  also have "\<dots> = int (dcoeff a * 10 ^ nat (dexp a - ?m) + dcoeff b * 10 ^ nat (dexp b - ?m))" by (simp add: abs_mult s)
  finally have "nat \<bar>?x\<bar> \<le> dcoeff a * 10 ^ nat (dexp a - ?m) + dcoeff b * 10 ^ nat (dexp b - ?m)" by linarith
  then have "nat \<bar>?x\<bar> * 10 ^ nat (?m - e) \<le> (dcoeff a * 10 ^ nat (dexp a - ?m) + dcoeff b * 10 ^ nat (dexp b - ?m)) * 10 ^ nat (?m - e)"
    by (rule mult_le_mono1)
  also have "\<dots> = scaled e a + scaled e b"
    by (simp add: scaled_def add_mult_distrib mult.assoc part)
  finally show ?thesis by (simp add: scaled_def dec_add_exact_def Let_def)
qed

lemma ndigits_le: "n < 10 ^ k \<Longrightarrow> 0 < k \<Longrightarrow> ndigits n \<le> k"
proof (cases "n = 0")
  case False
  assume "n < 10 ^ k"
  moreover have "10 ^ (ndigits n - 1) \<le> n" using False ndigits_lower by simp
  ultimately have "10 ^ (ndigits n - 1) < (10 :: nat) ^ k" by linarith
  then show ?thesis by (simp add: power_strict_increasing_iff)
qed (simp add: ndigits.simps [of 0])

lemma dec_sum_exact:
  assumes "scaled e acc + sum_list (map (scaled e) ds) < 10 ^ prec" and "0 < prec"
    and "Emin - int prec + 1 \<le> e" and "e \<le> dexp acc" and "dexp acc \<le> Emax - int prec + 1" and "\<forall>d \<in> set ds. e \<le> dexp d"
  shows "\<exists>s. dec_sum prec acc ds = Inr s \<and> dval s = dval acc + sum_list (map dval ds)"
  using assms
proof (induction ds arbitrary: acc)
  case (Cons d ds)
  let ?s = "dec_add_exact acc d"
  have exp: "dexp ?s = min (dexp acc) (dexp d)" by (simp add: dec_add_exact_def Let_def)
  have sc: "scaled e ?s \<le> scaled e acc + scaled e d" using Cons.prems by (intro scaled_add) auto
  have "dcoeff ?s \<le> scaled e ?s" by (simp add: scaled_def)
  with sc Cons.prems(1) have "dcoeff ?s < 10 ^ prec" by simp
  then have "ndigits (dcoeff ?s) \<le> prec" using Cons.prems(2) by (rule ndigits_le)
  then have added: "dec_add prec acc d = Inr ?s" unfolding dec_add_def
    using Cons.prems exp by (intro dec_fix_exact) auto
  have "\<exists>s. dec_sum prec ?s ds = Inr s \<and> dval s = dval ?s + sum_list (map dval ds)"
    using Cons.prems sc exp by (intro Cons.IH) auto
  then show ?case by (auto simp: added dval_dec_add_exact)
qed simp

lemma dec_zero_scaled [simp]: "scaled e dec_zero = 0"
  by (simp add: scaled_def dec_zero_def)

section \<open>An example run\<close>

definition example_metric_registry :: registry_bundle where
  "example_metric_registry =
     \<lparr>rb_metrics = [(cp ''m'', example_metric [DOMESTIC_BOND] ''g'' ''p'')], rb_fields = [(cp ''y'', example_field [] None [cp ''m''] [GTE])],
      rb_targetless_aggregations = []\<rparr>"

definition example_engine :: policy_engine where
  "example_engine =
     \<lparr>pe_registries = example_metric_registry,
      pe_fields = \<lparr>fr_projections = [((cp ''y'', DOMESTIC_BOND), \<lparr>fp_field_id = cp ''y'', fp_product_type = DOMESTIC_BOND,
           fp_table_name = cp ''silver_bond_instrument'', fp_column_name = cp ''y'', fp_quality_column_name = cp ''y__quality_status'',
           fp_value_type = cp ''decimal'', fp_metric_id = Some (cp ''m'')\<rparr>)], fr_registries = example_metric_registry\<rparr>,
      pe_ratings = packaged_ratings\<rparr>"

definition example_raw :: "string \<Rightarrow> nat \<Rightarrow> raw_product_row" where
  "example_raw pid y =
     \<lparr>rw_product_type = DOMESTIC_BOND, rw_native_result_grain = INSTRUMENT, rw_product_id = cp pid,
      rw_values = [\<lparr>rf_field_id = cp ''y'', rf_value = Some (SDec (Dec False y 0)), rf_quality_status = cp ''valid''\<rparr>]\<rparr>"

definition example_rows :: "raw_product_row list" where
  "example_rows = [example_raw ''c'' 5, example_raw ''a'' 5, example_raw ''b'' 1]"

definition example_execution :: raw_execution_result where
  "example_execution =
     \<lparr>rer_segments = [\<lparr>rsr_product_type = DOMESTIC_BOND, rsr_native_result_grain = INSTRUMENT, rsr_rows = example_rows,
        rsr_candidate_count = 3, rsr_max_batch_rows = 3\<rparr>], rer_candidate_count = 3\<rparr>"

definition example_sort :: "sort_spec list" where
  "example_sort = [\<lparr>ss_field = cp ''y'', ss_direction = DESC\<rparr>]"

definition example_clause :: filter_clause where
  "example_clause = \<lparr>fc_field = cp ''y'', fc_operator = GTE, fc_has_value = True, fc_value = CScalar (SInt 2)\<rparr>"

definition example_ranking_segment :: execution_segment where
  "example_ranking_segment =
     \<lparr>sg_product_type = DOMESTIC_BOND, sg_native_result_grain = INSTRUMENT, sg_filters = [example_clause], sg_metrics = [cp ''y''],
      sg_sort = example_sort, sg_aggregation = None, sg_top_k = 1, sg_holding_constituent_filter = None\<rparr>"

definition example_ranking :: execution_bundle where
  "example_ranking =
     \<lparr>eb_validated_plan = example_validated\<lparr>vp_plan := example_plan\<lparr>qp_product_types := [DOMESTIC_BOND], qp_filters := [example_clause],
          qp_metrics := [cp ''y''], qp_sort := example_sort, qp_top_k := 1, qp_top_k_scope := GLOBAL\<rparr>\<rparr>,
      eb_top_k_scope = GLOBAL, eb_segments = [example_ranking_segment], eb_comparison_partitions = [],
      eb_response_grain = INSTRUMENT, eb_limitations = []\<rparr>"

definition example_policy_result :: policy_execution_result where
  "example_policy_result = projr (policy_apply example_engine example_execution example_ranking)"

lemma example_applied: "policy_apply example_engine example_execution example_ranking = Inr example_policy_result"
proof -
  have "\<not> isl (policy_apply example_engine example_execution example_ranking)" by code_simp
  then show ?thesis by (simp add: example_policy_result_def)
qed

section \<open>Properties\<close>

text \<open>C18. Every candidate row is accounted for. The rows that the pipeline keeps as source rows are, in
  order, exactly the rows that match every filter of their segment, each with the state its policy
  gives; the included rows are the eligible ones among them; and the counts of rows included, excluded
  by state and excluded by filters add up to the number of candidates.\<close>

theorem pipeline_accounts_for_rows:
  assumes "policy_apply pe raw b = Inr r"
  defines "as_of \<equiv> qp_as_of_date (vp_plan (eb_validated_plan b))"
  shows "map pr_raw (px_source_rows r) =
       concat (map2 (\<lambda>s rs. filter (\<lambda>row. row_matched pe s row = Inr True) (rsr_rows rs)) (eb_segments b) (rer_segments raw)) \<and>
     (\<forall>p \<in> set (px_source_rows r). row_state (pr_raw p) as_of = Inr (pr_state p)) \<and>
     px_included_rows r = filter (\<lambda>p. se_eligible (pr_state p)) (px_source_rows r) \<and>
     int (length (px_included_rows r)) + px_excluded_state_count r + px_excluded_filter_count r
       = int (sum_list (map (length \<circ> rsr_rows) (rer_segments raw)))"
proof -
  let ?plan = "vp_plan (eb_validated_plan b)"
  from assms(1) obtain st where st: "process_segments pe ?plan initial_pass (eb_segments b) (rer_segments raw) = Inr st"
      "px_included_rows r = ps_included st" "px_source_rows r = ps_source_rows st"
      "px_excluded_filter_count r = ps_excluded_filter st" "px_excluded_state_count r = ps_excluded_state st"
    by (rule policy_apply_Inr)
  have "balanced initial_pass [] []" by (simp add: balanced_def initial_pass_def eligible_rows_def)
  from process_segments_balanced [OF st(1) this]
  have bal: "balanced st (concat (map rsr_rows (rer_segments raw)))
      (concat (map2 (\<lambda>s r. concat (map (source_of pe ?plan s) (rsr_rows r))) (eb_segments b) (rer_segments raw)))"
    by simp
  have "row_state (pr_raw p) as_of = Inr (pr_state p)" if "p \<in> set (source_of pe ?plan s row)" for p s row
    unfolding as_of_def by (rule source_of_state [OF that])
  then have states: "\<forall>p \<in> set (px_source_rows r). row_state (pr_raw p) as_of = Inr (pr_state p)"
    using bal by (auto simp: st(3) balanced_def)
  have "map pr_raw (px_source_rows r) =
      concat (map2 (\<lambda>s rs. filter (\<lambda>row. row_matched pe s row = Inr True) (rsr_rows rs)) (eb_segments b) (rer_segments raw))"
    using bal process_segments_matched [OF st(1)] by (simp add: st(3) balanced_def)
  with states bal show ?thesis
    by (auto simp: st balanced_def eligible_rows_def length_concat comp_def)
qed

theorem pipeline_accounts_for_rows_witness:
  "map pr_raw (px_source_rows example_policy_result) = [example_raw ''c'' 5, example_raw ''a'' 5]"
proof -
  have "map (row_matched example_engine example_ranking_segment) example_rows = [Inr True, Inr True, Inr False]" by code_simp
  then have "filter (\<lambda>row. row_matched example_engine example_ranking_segment row = Inr True) example_rows
      = [example_raw ''c'' 5, example_raw ''a'' 5]" by (simp add: example_rows_def)
  with pipeline_accounts_for_rows [OF example_applied] show ?thesis by (simp add: example_ranking_def example_execution_def)
qed

text \<open>C20. Repeated stable sorting is lexicographic order. Ordering rows by one stable pass per sort key, last
  key first, gives a permutation of the rows ordered by the keys in the order they are listed, each in its
  direction and with missing values last, ties resolved by product identifier.\<close>

theorem rows_sorted_lexicographically:
  assumes "sort_rows rows specs = Inr out"
  shows "mset out = mset rows \<and> sorted_wrt (row_before specs) out"
  by (rule sort_rows_before [OF assms])

theorem rows_sorted_lexicographically_witness:
  "\<exists>out. sort_rows (px_included_rows example_policy_result) example_sort = Inr out \<and> sorted_wrt (row_before example_sort) out"
proof -
  let ?r = "sort_rows (px_included_rows example_policy_result) example_sort"
  have "\<not> isl ?r" by code_simp
  then obtain out where "?r = Inr out" by (cases ?r) auto
  with rows_sorted_lexicographically [OF this] show ?thesis by blast
qed








text \<open>C23. Aggregates are exact. A minimum or maximum is an attained bound of the values, a count is their
  number, and a sum whose coefficients at the finest exponent stay below the 28 digits of the default
  context is the exact sum.\<close>

theorem aggregates_exact:
  assumes "vs \<noteq> []"
  shows "(\<exists>m \<in> set vs. aggregate MIN_FN vs = Inr (Some (SDec m)) \<and> (\<forall>v \<in> set vs. dval m \<le> dval v)) \<and>
     (\<exists>m \<in> set vs. aggregate MAX_FN vs = Inr (Some (SDec m)) \<and> (\<forall>v \<in> set vs. dval v \<le> dval m)) \<and>
     aggregate COUNT_FN vs = Inr (Some (SInt (int (length vs)))) \<and>
     (\<forall>e. -999999 \<le> e \<and> e \<le> 0 \<and> (\<forall>v \<in> set vs. e \<le> dexp v) \<and> sum_list (map (scaled e) vs) < 10 ^ 28 \<longrightarrow>
        (\<exists>s. aggregate SUM_FN vs = Inr (Some (SDec s)) \<and> dval s = sum_list (map dval vs)))"
proof (intro conjI allI impI)
  from assms obtain m where m: "min_by dval vs = Some m" using min_by_defined by blast
  with assms min_by_Some [OF m] show "\<exists>m \<in> set vs. aggregate MIN_FN vs = Inr (Some (SDec m)) \<and> (\<forall>v \<in> set vs. dval m \<le> dval v)"
    by (intro bexI [of _ m]) (auto simp: aggregate_def)
  from assms obtain m where m: "max_by dval vs = Some m" using max_by_defined by blast
  with assms max_by_Some [OF m] show "\<exists>m \<in> set vs. aggregate MAX_FN vs = Inr (Some (SDec m)) \<and> (\<forall>v \<in> set vs. dval v \<le> dval m)"
    by (intro bexI [of _ m]) (auto simp: aggregate_def)
  show "aggregate COUNT_FN vs = Inr (Some (SInt (int (length vs))))" using assms by (simp add: aggregate_def)
next
  fix e :: int assume e: "-999999 \<le> e \<and> e \<le> 0 \<and> (\<forall>v \<in> set vs. e \<le> dexp v) \<and> sum_list (map (scaled e) vs) < 10 ^ 28"
  then have "\<exists>s. dec_sum 28 dec_zero vs = Inr s \<and> dval s = dval dec_zero + sum_list (map dval vs)"
    by (intro dec_sum_exact [of e]) (auto simp: Emin_def Emax_def, simp_all add: dec_zero_def)
  then show "\<exists>s. aggregate SUM_FN vs = Inr (Some (SDec s)) \<and> dval s = sum_list (map dval vs)"
    using assms by (auto simp: aggregate_def)
qed

theorem aggregates_exact_witness:
  "\<exists>s. aggregate SUM_FN [Dec False 5 (-1), Dec True 25 (-2)] = Inr (Some (SDec s)) \<and>
       dval s = dval (Dec False 5 (-1)) + dval (Dec True 25 (-2))"
proof -
  have "sum_list (map (scaled (-2)) [Dec False 5 (-1), Dec True 25 (-2)]) < 10 ^ 28" by (simp add: scaled_def)
  then show ?thesis using aggregates_exact [of "[Dec False 5 (-1), Dec True 25 (-2)]"] by fastforce
qed

text \<open>Groups lose no row and mix none. The groups of an aggregation contain every row of the partition
  exactly once, and every row of a group has the values the group is published with.\<close>

theorem groups_conserve_rows:
  assumes "row_groups group_by rows = Inr gs"
  shows "mset (concat (map snd gs)) = mset rows \<and>
     (\<forall>g \<in> set gs. \<forall>row \<in> set (snd g). \<exists>vs. group_values_of group_by row = Inr vs \<and>
        map (optional_key \<circ> rf_value) vs = map (optional_key \<circ> rf_value) (fst g))"
  using row_groups_conserve [OF assms] row_groups_share [OF assms] by blast

theorem groups_conserve_rows_witness:
  "\<exists>gs. row_groups [cp ''y''] (px_included_rows example_policy_result) = Inr gs \<and>
     mset (concat (map snd gs)) = mset (px_included_rows example_policy_result)"
proof -
  let ?r = "row_groups [cp ''y''] (px_included_rows example_policy_result)"
  have "\<not> isl ?r" by code_simp
  then obtain gs where "?r = Inr gs" by (cases ?r) auto
  with groups_conserve_rows [OF this] show ?thesis by blast
qed

end
