(* ===== verification/Field_Tables.thy ===== *)
theory Field_Tables
  imports Bonds
begin

text \<open>
  What the wide product tables share. A product record with dozens of wrapped fields
  (\<open>ListedProduct\<close>, \<open>OverseasListedProduct\<close>, \<open>PublicFundItem\<close>) is the table of its fields, each
  with its source column and the declared type of its value, and the list of its wrapped values by
  field name. The locale \<open>field_table\<close> is the contract between a table and the parser of its
  fields: from it follow, once, that all fields of a row are parsed, that the record passes the type
  check of its model and that its lineage validator accepts it.
\<close>

section \<open>Wrapped values of any declared type\<close>

datatype listed_product_type = ETF | ETN

datatype cell_value =
    VText pystr | VDecimal decimal | VDate date | VBool bool | VInteger int | VProductType listed_product_type

datatype field_kind = KText | KDecimal | KDate | KBool | KInteger | KProductType

fun value_kind :: "cell_value \<Rightarrow> field_kind" where
  "value_kind (VText _) = KText"
| "value_kind (VDecimal _) = KDecimal"
| "value_kind (VDate _) = KDate"
| "value_kind (VBool _) = KBool"
| "value_kind (VInteger _) = KInteger"
| "value_kind (VProductType _) = KProductType"

type_synonym wrapped = "cell_value normalized_value"
type_synonym field_column = "string \<times> string \<times> field_kind"
type_synonym field_values = "(string \<times> wrapped) list"

abbreviation column_of :: "field_column \<Rightarrow> pystr" where
  "column_of fc \<equiv> cp (fst (snd fc))"

abbreviation kind_of :: "field_column \<Rightarrow> field_kind" where
  "kind_of fc \<equiv> snd (snd fc)"

text \<open>A wrapped value of one type, as a value of the union.\<close>

definition wrap :: "('v \<Rightarrow> cell_value) \<Rightarrow> 'v normalized_value \<Rightarrow> wrapped" where
  "wrap con n =
     \<lparr>nv_raw_value = nv_raw_value n, nv_normalized_value = map_option con (nv_normalized_value n),
      nv_quality_status = nv_quality_status n, nv_rule_id = nv_rule_id n, nv_rule_version = nv_rule_version n,
      nv_source = nv_source n\<rparr>"

definition wrapped_result :: "('v \<Rightarrow> cell_value) \<Rightarrow> 'v normalized_value result \<Rightarrow> wrapped result" where
  "wrapped_result con r = rbind r (\<lambda>n. Inr (wrap con n))"

definition typed :: "field_kind \<Rightarrow> wrapped \<Rightarrow> bool" where
  "typed k w = (case nv_normalized_value w of None \<Rightarrow> True | Some v \<Rightarrow> value_kind v = k)"

section \<open>Records as tables\<close>

text \<open>The values of all fields, in the order of the table.\<close>

definition parse_fields :: "(source_row \<Rightarrow> field_column \<Rightarrow> wrapped result) \<Rightarrow> source_row \<Rightarrow> field_column list \<Rightarrow> field_values result" where
  "parse_fields parse row columns = traverse (\<lambda>fc. rbind (parse row fc) (\<lambda>w. Inr (fst fc, w))) columns"

text \<open>\<open>getattr(record, name)\<close> and \<open>values[name]\<close>.\<close>

definition field_of :: "field_values \<Rightarrow> string \<Rightarrow> wrapped result" where
  "field_of values f = (case map_of values f of None \<Rightarrow> Inl (KeyError (cp f)) | Some w \<Rightarrow> Inr w)"

text \<open>The strict type check of a model with these fields: each is present with its type, and no other.\<close>

definition check_model_fields :: "field_column list \<Rightarrow> field_values \<Rightarrow> unit result" where
  "check_model_fields columns values =
     rbind (traverse (\<lambda>fc. case map_of values (fst fc) of
                None \<Rightarrow> Inl (ValueError ''missing'')
              | Some w \<Rightarrow> raise_if (\<not> typed (kind_of fc) w) (ValueError ''is_instance_of'')) columns) (\<lambda>_.
       raise_if (list_ex (\<lambda>(f, _). f \<notin> set (map fst columns)) values) (ValueError ''extra_forbidden''))"

text \<open>The identity of the row a wrapper was read from.\<close>

type_synonym row_identity = "posix_path \<times> pystr \<times> int \<times> pystr \<times> date"

definition row_identity :: "source_cell_locator \<Rightarrow> row_identity" where
  "row_identity l =
     (loc_source_file l, loc_source_sheet l, loc_source_row_number l, loc_source_checksum l, loc_source_snapshot_date l)"

text \<open>The loop of a listed product's lineage validator, with the 1-based position of the column.\<close>

fun check_columns ::
  "string \<Rightarrow> string \<Rightarrow> row_identity \<Rightarrow> int \<Rightarrow> field_column list \<Rightarrow> field_values \<Rightarrow> unit result" where
  "check_columns label table expected n [] values = Inr ()"
| "check_columns label table expected n (fc # fcs) values =
     rbind (field_of values (fst fc)) (\<lambda>w.
     let source = nv_source w in
     rbind (raise_if (loc_source_table source \<noteq> cp table) (ValueError (label @ '' wrapper must name '' @ table))) (\<lambda>_.
     rbind (raise_if (loc_source_column_name source \<noteq> column_of fc)
              (ValueError (label @ '' wrapper source column does not match field''))) (\<lambda>_.
     rbind (raise_if (loc_source_column_number source \<noteq> n)
              (ValueError (label @ '' wrapper source column order is invalid''))) (\<lambda>_.
     rbind (raise_if (row_identity source \<noteq> expected) (ValueError (label @ '' wrappers must share one source row''))) (\<lambda>_.
       check_columns label table expected (n + 1) fcs values)))))"

definition check_listed_lineage :: "string \<Rightarrow> string \<Rightarrow> field_column list \<Rightarrow> field_values \<Rightarrow> unit result" where
  "check_listed_lineage label table columns values =
     rbind (field_of values ''base_index'') (\<lambda>anchor.
       check_columns label table (row_identity (nv_source anchor)) 1 columns values)"

section \<open>Laws of wrapping\<close>

lemma wrap_simps [simp]:
  "nv_raw_value (wrap con n) = nv_raw_value n" "nv_normalized_value (wrap con n) = map_option con (nv_normalized_value n)"
  "nv_quality_status (wrap con n) = nv_quality_status n" "nv_rule_id (wrap con n) = nv_rule_id n"
  "nv_source (wrap con n) = nv_source n" "lineage_of (wrap con n) = lineage_of n"
  by (simp_all add: wrap_def lineage_of_def)

lemma typed_wrap: "(\<And>v. value_kind (con v) = k) \<Longrightarrow> typed k (wrap con n)"
  by (simp add: typed_def split: option.splits)

text \<open>What a field parser delivers for a cell: the cell's lineage, the declared type, a usable rule.\<close>

definition delivers :: "source_row \<Rightarrow> field_column \<Rightarrow> wrapped \<Rightarrow> bool" where
  "delivers row fc w \<longleftrightarrow>
     carries row (column_of fc) (lineage_of w) \<and> typed (kind_of fc) w \<and> nv_rule_id w \<noteq> [] \<and> encodable (nv_rule_id w)"

context lineage_parser
begin

text \<open>A cell parser, wrapped for a field of its type, delivers.\<close>

lemma delivers_wrapped:
  assumes "row_ok row" and "row_cell row (column_of fc) = Inr c" and "rid \<noteq> []" and "encodable rid" and "rv \<noteq> []"
    and "\<And>v. value_kind (con v) = kind_of fc"
  shows "\<exists>w. wrapped_result con (parse rid rv row (column_of fc)) = Inr w \<and> delivers row fc w"
proof -
  from total [OF assms(1,2,3,5)] obtain n where n: "parse rid rv row (column_of fc) = Inr n" by blast
  have "carries row (column_of fc) (lineage_of (wrap con n))"
    using lineage [OF n] by (auto simp: carries_def lineage_of_def)
  with n rule [OF n] assms(3,4,6) show ?thesis
    by (simp add: wrapped_result_def delivers_def typed_wrap)
qed

end

lemma delivers_made:
  assumes "row_ok row" and "row_cell row (column_of fc) = Inr c" and "rid \<noteq> []" and "encodable rid" and "rv \<noteq> []"
    and "\<And>v. value_kind (con v) = kind_of fc"
  shows "\<exists>w. wrapped_result con (make_normalized_value row (column_of fc) v q rid rv) = Inr w \<and> delivers row fc w"
  using assms by (simp add: make_normalized_value_ok wrapped_result_def delivers_def typed_wrap carries_def lineage_of_def)

section \<open>The contract of a table of fields\<close>

locale field_table =
  fixes columns :: "field_column list" and parse :: "source_row \<Rightarrow> field_column \<Rightarrow> wrapped result"
  assumes fields_distinct: "distinct (map fst columns)"
    and parsed: "row_ok row \<Longrightarrow> has_columns row (map column_of columns) \<Longrightarrow> fc \<in> set columns \<Longrightarrow>
      \<exists>w. parse row fc = Inr w \<and> delivers row fc w"
begin

lemma fields_parsed:
  assumes "row_ok row" and "has_columns row (map column_of columns)"
  shows "\<exists>vs. parse_fields parse row columns = Inr vs \<and> list_all2 (\<lambda>fc (f, w). f = fst fc \<and> delivers row fc w) columns vs"
proof -
  have one: "\<exists>w. parse row fc = Inr w \<and> delivers row fc w" if "fc \<in> set columns" for fc
    by (rule parsed [OF assms that])
  have "\<exists>vs. traverse (\<lambda>fc. rbind (parse row fc) (\<lambda>w. Inr (fst fc, w))) fcs = Inr vs \<and>
      list_all2 (\<lambda>fc (f, w). f = fst fc \<and> delivers row fc w) fcs vs" if "set fcs \<subseteq> set columns" for fcs
    using that
  proof (induction fcs)
    case (Cons fc fcs)
    from Cons.prems have "fc \<in> set columns" by simp
    from one [OF this] obtain w where "parse row fc = Inr w" "delivers row fc w" by blast
    moreover from Cons obtain vs where "traverse (\<lambda>fc. rbind (parse row fc) (\<lambda>w. Inr (fst fc, w))) fcs = Inr vs"
      "list_all2 (\<lambda>fc (f, w). f = fst fc \<and> delivers row fc w) fcs vs" by auto
    ultimately show ?case by simp
  qed simp
  from this [of columns] show ?thesis by (simp add: parse_fields_def)
qed

lemma value_found:
  assumes "list_all2 (\<lambda>fc (f, w). f = fst fc \<and> delivers row fc w) columns vs" and "fc \<in> set columns"
  shows "\<exists>w. map_of vs (fst fc) = Some w \<and> delivers row fc w"
proof -
  have "\<exists>w. map_of ws (fst fc) = Some w \<and> delivers row fc w"
    if "list_all2 (\<lambda>fc (f, w). f = fst fc \<and> delivers row fc w) fcs ws" "distinct (map fst fcs)" "fc \<in> set fcs" for fcs ws
    using that
  proof (induction fcs ws rule: list_all2_induct)
    case (Cons x xs y ys)
    obtain f w where y: "y = (f, w)" by (cases y)
    show ?case
    proof (cases "fc = x")
      case True
      with Cons.hyps(1) y show ?thesis by simp
    next
      case False
      with Cons.prems have "fc \<in> set xs" and "fst fc \<noteq> fst x" by (auto simp: image_iff)
      with Cons y show ?thesis by simp
    qed
  qed simp
  from this [OF assms(1) fields_distinct assms(2)] show ?thesis .
qed

lemma names_kept: "list_all2 (\<lambda>fc (f, w). f = fst fc \<and> delivers row fc w) columns vs \<Longrightarrow> map fst vs = map fst columns"
  by (induction rule: list_all2_induct) auto

text \<open>The model accepts the parsed fields, and a listed product's lineage validator too.\<close>

lemma model_accepts:
  assumes "list_all2 (\<lambda>fc (f, w). f = fst fc \<and> delivers row fc w) columns vs"
  shows "check_model_fields columns vs = Inr ()"
proof -
  have ok: "(case map_of vs (fst fc) of None \<Rightarrow> Inl (ValueError ''missing'')
      | Some w \<Rightarrow> raise_if (\<not> typed (kind_of fc) w) (ValueError ''is_instance_of'')) = Inr ()" if "fc \<in> set columns" for fc
    using value_found [OF assms that] by (auto simp: delivers_def)
  have "traverse (\<lambda>fc. case map_of vs (fst fc) of None \<Rightarrow> Inl (ValueError ''missing'')
      | Some w \<Rightarrow> raise_if (\<not> typed (kind_of fc) w) (ValueError ''is_instance_of'')) columns = Inr (map (\<lambda>_. ()) columns)"
    by (rule traverse_cong_Inr) (rule ok)
  moreover have "\<not> list_ex (\<lambda>(f, _). f \<notin> set (map fst columns)) vs"
    unfolding names_kept [OF assms, symmetric] by (auto simp: list_ex_iff) (metis fst_conv imageI)
  ultimately show ?thesis by (simp add: check_model_fields_def)
qed

lemma column_number:
  assumes "row_ok row" and "map sc_column_name (sr_cells row) = map column_of columns" and "i < length columns"
    and "carries row (column_of (columns ! i)) (lineage_of w)"
  shows "loc_source_column_name (nv_source w) = column_of (columns ! i)" and "loc_source_column_number (nv_source w) = int i + 1"
    and "loc_source_table (nv_source w) = sr_source_table row"
    and "row_identity (nv_source w) = (sr_source_file row, sr_source_sheet row, sr_source_row_number row,
           sr_source_checksum row, sr_source_snapshot_date row)"
proof -
  let ?cells = "sr_cells row"
  have len: "length ?cells = length columns" using assms(2) map_eq_imp_length_eq by blast
  from assms(1) have d: "distinct (map sc_column_name ?cells)"
    and num: "map sc_excel_column_number ?cells = map int [1..<length ?cells + 1]"
    by (auto simp: row_ok_def validate_raw_lineage_Inr_iff)
  from assms(4) obtain c where c: "row_cell row (column_of (columns ! i)) = Inr c" "nv_source w = locator_of row c"
    by (auto simp: carries_def lineage_of_def)
  from row_cell_Inr [OF c(1)] obtain j where j: "j < length ?cells" "c = ?cells ! j" "sc_column_name c = column_of (columns ! i)"
    by (auto simp: in_set_conv_nth)
  have "map sc_column_name ?cells ! i = column_of (columns ! i)" using assms(2,3) by simp
  then have "map sc_column_name ?cells ! j = map sc_column_name ?cells ! i" using j by simp
  with d j(1) assms(3) len have "j = i" by (metis length_map nth_eq_iff_index_eq)
  have "map sc_excel_column_number ?cells ! i = int i + 1" 
    using assms(3) len by (simp only: num) (simp del: upt_Suc)
  then show "loc_source_column_number (nv_source w) = int i + 1"
    using \<open>j = i\<close> j c(2) assms(3) len by (simp add: locator_of_def)
  show "loc_source_column_name (nv_source w) = column_of (columns ! i)" "loc_source_table (nv_source w) = sr_source_table row"
    "row_identity (nv_source w) = (sr_source_file row, sr_source_sheet row, sr_source_row_number row,
           sr_source_checksum row, sr_source_snapshot_date row)"
    using j(3) c(2) by (simp_all add: locator_of_def row_identity_def)
qed

lemma lineage_accepts:
  assumes "row_ok row" and "map sc_column_name (sr_cells row) = map column_of columns" and "sr_source_table row = cp table"
    and "list_all2 (\<lambda>fc (f, w). f = fst fc \<and> delivers row fc w) columns vs" and "''base_index'' \<in> set (map fst columns)"
  shows "check_listed_lineage label table columns vs = Inr ()"
proof -
  let ?id = "(sr_source_file row, sr_source_sheet row, sr_source_row_number row, sr_source_checksum row, sr_source_snapshot_date row)"
  have found: "\<exists>w. field_of vs (fst (columns ! i)) = Inr w \<and> loc_source_column_name (nv_source w) = column_of (columns ! i) \<and>
      loc_source_column_number (nv_source w) = int i + 1 \<and> loc_source_table (nv_source w) = cp table \<and> row_identity (nv_source w) = ?id"
    if i: "i < length columns" for i
  proof -
    from value_found [OF assms(4), of "columns ! i"] i obtain w where w: "map_of vs (fst (columns ! i)) = Some w" "delivers row (columns ! i) w"
      by auto
    then have "carries row (column_of (columns ! i)) (lineage_of w)" by (simp add: delivers_def)
    from column_number [OF assms(1,2) i this] w(1) assms(3) show ?thesis by (simp add: field_of_def)
  qed
  have "check_columns label table ?id (int n + 1) (drop n columns) vs = Inr ()" if "n \<le> length columns" for n
    using that
  proof (induction "length columns - n" arbitrary: n)
    case (Suc k)
    then have n: "n < length columns" by simp
    have "check_columns label table ?id (int (Suc n) + 1) (drop (Suc n) columns) vs = Inr ()" using Suc n by (intro Suc.hyps(1)) auto
    with found [OF n] show ?case
      by (auto simp: Cons_nth_drop_Suc [OF n, symmetric] add.commute simp del: drop_Suc)
  qed simp
  from this [of 0] have c: "check_columns label table ?id 1 columns vs = Inr ()" by simp
  from assms(5) obtain i where "i < length columns" "fst (columns ! i) = ''base_index''" by (auto simp: in_set_conv_nth)
  with found [of i] c show ?thesis by (auto simp: check_listed_lineage_def)
qed

end

end
