(* ===== verification/Listed.thy ===== *)
theory Listed
  imports Field_Tables
begin

text \<open>
  Listed products: the contracts \<open>finproof/domain/domestic_listed.py\<close> and \<open>overseas_listed.py\<close>
  and the normalizers \<open>finproof/data/normalization/domestic_listed.py\<close> and \<open>overseas_listed.py\<close>,
  which turn one source row into one ETF or ETN with a wrapped value per column, quarantine rows
  without an identity and report the cells outside their domain.
\<close>

section \<open>Shared by both normalizers\<close>

abbreviation listed_rule_version :: pystr where "listed_rule_version \<equiv> cp ''2.0.0''"

definition listed_type_of :: "pystr \<Rightarrow> listed_product_type option" where
  "listed_type_of raw = (if raw = cp ''ETF'' then Some ETF else if raw = cp ''ETN'' then Some ETN else None)"

definition listed_type_value :: "pystr \<Rightarrow> source_row \<Rightarrow> listed_product_type normalized_value result" where
  "listed_type_value rule_id row =
     rbind (row_cell row (cp ''pd_grp_no'')) (\<lambda>cell.
       let v = listed_type_of (sc_raw_value cell) in
       make_normalized_value row (cp ''pd_grp_no'') v (if v \<noteq> None then VALID else MALFORMED_SOURCE_ROW)
         rule_id listed_rule_version)"

text \<open>The blocking issues of the identity parts that are missing.\<close>

definition listed_identity_issues :: "source_row \<Rightarrow> (bool \<times> pystr \<times> pystr \<times> pystr) list \<Rightarrow> data_quality_issue list result" where
  "listed_identity_issues row candidates =
     traverse (\<lambda>(_, column, rule_id, reason).
         issue_from_row row column rule_id listed_rule_version BLOCKER MALFORMED_SOURCE_ROW reason True)
       (filter (\<lambda>(missing, _). missing) candidates)"

definition listed_warning_issue :: "source_row \<Rightarrow> pystr \<times> pystr \<times> quality_status \<times> pystr \<Rightarrow> data_quality_issue result" where
  "listed_warning_issue row w =
     (case w of (column, rule_id, status, reason) \<Rightarrow>
        issue_from_row row column rule_id listed_rule_version WARNING status reason False)"

section \<open>domain/domestic_listed.py\<close>

text \<open>The columns of the source table in order, with the declared types of \<open>ListedProduct\<close>.\<close>

definition DOMESTIC_FIELD_COLUMNS :: "field_column list" where
  "DOMESTIC_FIELD_COLUMNS =
     [(''base_index'', ''cu_base_index'', KText), (''other_fee'', ''cu_charge_etc_rt'', KDecimal),
      (''total_fee'', ''cu_charge_rt'', KDecimal), (''manager'', ''cu_fund_mgmt_co'', KText),
      (''leverage_factor'', ''cu_lev_fector'', KDecimal), (''strategy'', ''cu_strtegy'', KText),
      (''custom_update_date'', ''cu_upt_dt'', KDate), (''daily_bid_price'', ''du_bpr'', KDecimal),
      (''tracking_error'', ''du_chas_errt'', KDecimal), (''tracking_error_base_date'', ''du_chas_errt_base_dt'', KDate),
      (''close_price'', ''du_clpr'', KDecimal), (''difference_rate'', ''du_diff_rt'', KDecimal),
      (''difference_rate_base_date'', ''du_diff_rt_base_dt'', KDate), (''return_1d'', ''du_er_1d'', KDecimal),
      (''return_1m'', ''du_er_1m'', KDecimal), (''return_1y'', ''du_er_1y'', KDecimal),
      (''return_3m'', ''du_er_3m'', KDecimal), (''return_6m'', ''du_er_6m'', KDecimal),
      (''return_ytd'', ''du_er_ytd'', KDecimal), (''daily_high_price'', ''du_hpr'', KDecimal),
      (''aum_secondary'', ''du_last_aum'', KDecimal), (''last_nav'', ''du_last_nav'', KDecimal),
      (''daily_low_price'', ''du_lpr'', KDecimal), (''nav_base_date'', ''du_nav_base_dt'', KDate),
      (''nav_change_amount'', ''du_nav_rnf_amt'', KDecimal), (''previous_nav'', ''du_nav_yday'', KDecimal),
      (''daily_update_date'', ''du_upt_dt'', KDate), (''daily_value'', ''du_val_1d'', KDecimal),
      (''daily_value_1m'', ''du_val_1m'', KDecimal), (''daily_value_5d'', ''du_val_5d'', KDecimal),
      (''volatility_1m'', ''du_vlty_1m'', KDecimal), (''volatility_1y'', ''du_vlty_1y'', KDecimal),
      (''volatility_3m'', ''du_vlty_3m'', KDecimal), (''volatility_6m'', ''du_vlty_6m'', KDecimal),
      (''volatility_base_date'', ''du_vlty_base_dt'', KDate), (''daily_volume'', ''du_vol_1d'', KDecimal),
      (''average_volume_1m'', ''du_vol_avg_1m'', KDecimal), (''average_volume_5d'', ''du_vol_avg_5d'', KDecimal),
      (''average_coupon'', ''fn_average_coupon'', KDecimal), (''average_maturity'', ''fn_average_maturity'', KDecimal),
      (''average_quality'', ''fn_average_quality'', KText), (''fundamentals_base_date'', ''fn_base_dt'', KDate),
      (''effective_duration'', ''fn_effective_duration'', KDecimal),
      (''effective_maturity'', ''fn_effective_maturity'', KDecimal),
      (''modified_duration'', ''fn_modified_duration'', KDecimal), (''nominal_maturity'', ''fn_nominal_maturity'', KDecimal),
      (''portfolio_date'', ''fn_portfolio_dt'', KDate), (''short_name'', ''pd_abrv_nm'', KText),
      (''circulating_net_assets'', ''pd_circ_net_tamt'', KDecimal),
      (''circulating_share_count'', ''pd_circ_stk_cnt'', KDecimal), (''currency'', ''pd_curr_cd'', KText),
      (''currency_name'', ''pd_curr_nm'', KText), (''annual_distribution_amount'', ''pd_divd_amt_ann'', KDecimal),
      (''distribution_per_share'', ''pd_divd_amt_pshr'', KDecimal), (''distribution_base_date'', ''pd_dvid_base_dt'', KDate),
      (''distribution_cycle'', ''pd_dvid_cycl'', KText), (''distribution_income'', ''pd_dvid_inc_dist'', KDecimal),
      (''distribution_nav'', ''pd_dvid_nav'', KDecimal), (''distribution_pay_count'', ''pd_dvid_pay_cnt'', KDecimal),
      (''distribution_pay_months'', ''pd_dvid_pay_months'', KText),
      (''distribution_price_base_date'', ''pd_dvid_prc_base_dt'', KDate),
      (''distribution_tax_basis'', ''pd_dvid_tax_basis'', KText), (''distribution_yield'', ''pd_dvid_yield'', KDecimal),
      (''exchange_market_code'', ''pd_exg_mkt_cd'', KText), (''exchange_market_name'', ''pd_exg_mkt_nm'', KText),
      (''product_type'', ''pd_grp_no'', KProductType), (''isin'', ''pd_isin_cd'', KText),
      (''product_id'', ''pd_itm_no'', KText), (''market_identifier'', ''pd_itm_no_ma'', KText),
      (''listed_share_count'', ''pd_lst_stk_cnt'', KDecimal), (''listing_end_date'', ''pd_lste_dt'', KDate),
      (''listing_date'', ''pd_lstg_dt'', KDate), (''market_code'', ''pd_mkt_id'', KText),
      (''market_name'', ''pd_mkt_nm'', KText), (''aum_primary'', ''pd_net_tamt'', KDecimal), (''name'', ''pd_nm'', KText),
      (''pension_risk_name'', ''pd_pen_risk_nm'', KText), (''pension_trade_flag_raw'', ''pd_pen_tr_yn'', KText),
      (''ric'', ''pd_ric'', KText), (''risk_code'', ''pd_risk_cd'', KText), (''risk_name'', ''pd_risk_nm'', KText),
      (''sale_flag'', ''pd_sale_yn'', KBool), (''sector_code'', ''pd_sect_cd'', KText),
      (''spac_flag_raw'', ''pd_spac_yn'', KText), (''share_count'', ''pd_stk_cnt'', KDecimal),
      (''ticker'', ''pd_ticker'', KText), (''suspension_flag'', ''pd_tr_yn'', KBool),
      (''ref_asset_type'', ''ref_ast_type'', KText), (''ref_base_date'', ''ref_base_dt'', KDate),
      (''ref_base_index'', ''ref_base_index'', KText), (''ref_manager'', ''ref_fund_mgmt_co'', KText),
      (''ref_region'', ''ref_geo_focus'', KText), (''realtime_market_price'', ''ru_mkt_price'', KDecimal),
      (''realtime_market_volume'', ''ru_mkt_volume'', KDecimal), (''core_flag_raw'', ''wu_core_yn'', KText),
      (''asset_type'', ''wu_inv_ast_type'', KText), (''region'', ''wu_inv_rgn'', KText),
      (''weekly_update_date'', ''wu_upt_dt'', KDate)]"

record listed_product =
  lp_values :: field_values
  lp_is_eligible_at_as_of :: "bool derived_value"

definition validate_listed_product :: "listed_product \<Rightarrow> listed_product result" where
  "validate_listed_product p =
     rbind (check_model_fields DOMESTIC_FIELD_COLUMNS (lp_values p)) (\<lambda>_.
     rbind (check_listed_lineage ''domestic'' ''PREF01N001'' DOMESTIC_FIELD_COLUMNS (lp_values p)) (\<lambda>_. Inr p))"

section \<open>normalization/domestic_listed.py\<close>

definition domestic_date_fields :: "string list" where
  "domestic_date_fields =
     [''custom_update_date'', ''tracking_error_base_date'', ''difference_rate_base_date'', ''nav_base_date'',
      ''daily_update_date'', ''volatility_base_date'', ''fundamentals_base_date'', ''portfolio_date'',
      ''distribution_base_date'', ''distribution_price_base_date'', ''listing_end_date'', ''listing_date'', ''ref_base_date'',
      ''weekly_update_date'']"

definition domestic_decimal_fields :: "string list" where
  "domestic_decimal_fields =
     [''other_fee'', ''total_fee'', ''leverage_factor'', ''daily_bid_price'', ''tracking_error'', ''close_price'',
      ''difference_rate'', ''return_1d'', ''return_1m'', ''return_1y'', ''return_3m'', ''return_6m'', ''return_ytd'',
      ''daily_high_price'', ''aum_secondary'', ''last_nav'', ''daily_low_price'', ''nav_change_amount'', ''previous_nav'',
      ''daily_value'', ''daily_value_1m'', ''daily_value_5d'', ''volatility_1m'', ''volatility_1y'', ''volatility_3m'',
      ''volatility_6m'', ''daily_volume'', ''average_volume_1m'', ''average_volume_5d'', ''average_coupon'',
      ''average_maturity'', ''effective_duration'', ''effective_maturity'', ''modified_duration'', ''nominal_maturity'',
      ''circulating_net_assets'', ''circulating_share_count'', ''annual_distribution_amount'', ''distribution_per_share'',
      ''distribution_income'', ''distribution_nav'', ''distribution_pay_count'', ''distribution_yield'',
      ''listed_share_count'', ''aum_primary'', ''share_count'', ''realtime_market_price'', ''realtime_market_volume'']"

abbreviation domestic_table :: pystr where "domestic_table \<equiv> cp ''PREF01N001''"

definition domestic_product_type :: "source_row \<Rightarrow> listed_product_type normalized_value result" where
  "domestic_product_type row = listed_type_value (cp ''domestic_listed.product_type'') row"

definition domestic_identity_issues ::
  "source_row \<Rightarrow> pystr normalized_value \<Rightarrow> listed_product_type normalized_value \<Rightarrow> data_quality_issue list result" where
  "domestic_identity_issues row product_id product_type =
     listed_identity_issues row
       [(nv_normalized_value product_type = None, cp ''pd_grp_no'', cp ''domestic_listed.product_type'',
         cp ''Domestic listed product group has an invalid source format.''),
        (nv_normalized_value product_id = None, cp ''pd_itm_no'', cp ''domestic_listed.product_id'',
         cp ''Domestic listed product identifier has an invalid source format.'')]"

definition domestic_text :: "source_row \<Rightarrow> pystr \<Rightarrow> pystr \<Rightarrow> pystr normalized_value result" where
  "domestic_text row column rule_id = parse_text row column rule_id listed_rule_version"

definition domestic_currency :: "source_row \<Rightarrow> pystr normalized_value result" where
  "domestic_currency row =
     rbind (row_cell row (cp ''pd_curr_cd'')) (\<lambda>cell.
       let raw = sc_raw_value cell in
       if py_strip raw = [] then domestic_text row (cp ''pd_curr_cd'') (cp ''domestic_listed.currency'')
       else let v = (if raw = cp ''CURR_CD_KRW'' then Some (cp ''KRW'') else None) in
            make_normalized_value row (cp ''pd_curr_cd'') v (if v \<noteq> None then VALID else OUT_OF_DOMAIN)
              (cp ''domestic_listed.currency'') listed_rule_version)"

definition domestic_date :: "source_row \<Rightarrow> pystr \<Rightarrow> pystr \<Rightarrow> bool \<Rightarrow> date normalized_value result" where
  "domestic_date row column rule_id allow_max_sentinel = parse_yyyymmdd row column allow_max_sentinel rule_id listed_rule_version"

definition domestic_decimal :: "source_row \<Rightarrow> pystr \<Rightarrow> pystr \<Rightarrow> decimal normalized_value result" where
  "domestic_decimal row column rule_id = parse_decimal row column RECORDED_ZERO rule_id listed_rule_version"

text \<open>The flag maps \<open>{"1": True, "0": False}\<close> and \<open>{"0": False, "1": True}\<close>.\<close>

definition flag_map :: "pystr \<Rightarrow> bool option" where
  "flag_map raw = (if raw = cp ''1'' then Some True else if raw = cp ''0'' then Some False else None)"

definition domestic_flag :: "source_row \<Rightarrow> pystr \<Rightarrow> (pystr \<Rightarrow> bool option) \<Rightarrow> pystr \<Rightarrow> bool normalized_value result" where
  "domestic_flag row column mapping rule_id =
     rbind (row_cell row column) (\<lambda>cell.
       let raw = sc_raw_value cell; v = mapping raw in
       make_normalized_value row column v
         (if py_strip raw = [] then MISSING_BLANK else if v \<noteq> None then VALID else OUT_OF_DOMAIN)
         rule_id listed_rule_version)"

text \<open>One turn of the loop over the columns.\<close>

definition domestic_field ::
  "pystr normalized_value \<Rightarrow> listed_product_type normalized_value \<Rightarrow> source_row \<Rightarrow> field_column \<Rightarrow> wrapped result" where
  "domestic_field product_id product_type row fc =
     (let f = fst fc; column = column_of fc; rule_id = cp (''domestic_listed.'' @ f) in
      if f = ''product_id'' then Inr (wrap VText product_id)
      else if f = ''product_type'' then Inr (wrap VProductType product_type)
      else if f = ''currency'' then wrapped_result VText (domestic_currency row)
      else if f = ''sale_flag'' then wrapped_result VBool (domestic_flag row column flag_map rule_id)
      else if f = ''suspension_flag'' then wrapped_result VBool (domestic_flag row column flag_map rule_id)
      else if f \<in> set domestic_date_fields
      then wrapped_result VDate (domestic_date row column rule_id (f = ''listing_end_date''))
      else if f \<in> set domestic_decimal_fields then wrapped_result VDecimal (domestic_decimal row column rule_id)
      else wrapped_result VText (domestic_text row column rule_id))"

definition bool_of :: "wrapped \<Rightarrow> bool option" where
  "bool_of w = (case nv_normalized_value w of Some (VBool b) \<Rightarrow> Some b | _ \<Rightarrow> None)"

definition date_of :: "wrapped \<Rightarrow> date option" where
  "date_of w = (case nv_normalized_value w of Some (VDate d) \<Rightarrow> Some d | _ \<Rightarrow> None)"

definition derive_eligibility :: "wrapped \<Rightarrow> wrapped \<Rightarrow> wrapped \<Rightarrow> wrapped \<Rightarrow> date \<Rightarrow> bool derived_value" where
  "derive_eligibility sale_flag suspension_flag listing_date listing_end_date as_of =
     (let sale = bool_of sale_flag; suspended = bool_of suspension_flag; start = date_of listing_date;
          finish = date_of listing_end_date;
          (value, status) =
            (if sale = Some False \<or> suspended = Some True
                \<or> (case start of Some d \<Rightarrow> d > as_of | None \<Rightarrow> False) \<or> (case finish of Some d \<Rightarrow> d < as_of | None \<Rightarrow> False)
             then (Some False, VALID)
             else if sale = None then (None, nv_quality_status sale_flag)
             else if suspended = None then (None, nv_quality_status suspension_flag)
             else if start = None then (None, nv_quality_status listing_date)
             else if finish = None \<and> nv_quality_status listing_end_date \<notin> {MISSING_BLANK, SENTINEL_MAX_DATE}
             then (None, nv_quality_status listing_end_date)
             else (Some True, VALID))
      in \<lparr>dv_value = value, dv_quality_status = status, dv_rule_id = cp ''domestic_listed.is_eligible_at_as_of'',
          dv_rule_version = listed_rule_version, dv_as_of_date = as_of,
          dv_inputs = map nv_source [sale_flag, suspension_flag, listing_date, listing_end_date]\<rparr>)"

definition domestic_warnings :: "field_values \<Rightarrow> (pystr \<times> pystr \<times> quality_status \<times> pystr) list" where
  "domestic_warnings values =
     map (\<lambda>(_, w). (loc_source_column_name (nv_source w), nv_rule_id w, nv_quality_status w,
            cp ''Domestic listed field is outside its supported source domain.''))
       (filter (\<lambda>(_, w). nv_quality_status w = INVALID_FORMAT \<or> nv_quality_status w = OUT_OF_DOMAIN) values)"

definition normalize_domestic_listed :: "source_row \<Rightarrow> date \<Rightarrow> listed_product normalization_result result" where
  "normalize_domestic_listed row as_of =
     rbind (raise_if (sr_source_table row \<noteq> domestic_table)
              (NormalizationContractError domestic_table (sr_source_table row))) (\<lambda>_.
     rbind (parse_identifier row (cp ''pd_itm_no'') (cp ''domestic_listed.product_id'') listed_rule_version) (\<lambda>product_id.
     rbind (domestic_product_type row) (\<lambda>product_type.
     rbind (domestic_identity_issues row product_id product_type) (\<lambda>quarantine.
       if quarantine \<noteq> [] then normalization_result_of None quarantine
       else
         rbind (parse_fields (domestic_field product_id product_type) row DOMESTIC_FIELD_COLUMNS) (\<lambda>values.
         rbind (field_of values ''sale_flag'') (\<lambda>sale_flag.
         rbind (field_of values ''suspension_flag'') (\<lambda>suspension_flag.
         rbind (field_of values ''listing_date'') (\<lambda>listing_date.
         rbind (field_of values ''listing_end_date'') (\<lambda>listing_end_date.
         rbind (validate_listed_product \<lparr>lp_values = values, lp_is_eligible_at_as_of =
                  derive_eligibility sale_flag suspension_flag listing_date listing_end_date as_of\<rparr>) (\<lambda>rec.
         rbind (traverse (listed_warning_issue row) (domestic_warnings values)) (\<lambda>issues.
           normalization_result_of (Some rec) issues)))))))))))"

section \<open>domain/overseas_listed.py\<close>

definition OVERSEAS_FIELD_COLUMNS :: "field_column list" where
  "OVERSEAS_FIELD_COLUMNS =
     [(''base_index'', ''cu_base_index'', KText), (''total_fee'', ''cu_charge_rt'', KDecimal),
      (''etn_flag_raw'', ''cu_etn_yn'', KText), (''manager'', ''cu_fund_mgmt_co'', KText),
      (''replication_method'', ''cu_index_repl_mthd'', KText), (''index_tracking_flag_raw'', ''cu_index_tracking_yn'', KText),
      (''inverse_short_flag_raw'', ''cu_inverse_short_yn'', KText), (''leverage_factor'', ''cu_lev_fector'', KDecimal),
      (''strategy'', ''cu_strtegy'', KText), (''custom_update_date'', ''cu_upt_dt'', KDate),
      (''daily_base_date_match_raw'', ''du_base_dt_match_yn'', KText), (''daily_bid_price'', ''du_bpr'', KDecimal),
      (''close_price'', ''du_clpr'', KDecimal), (''close_price_base_date'', ''du_clpr_base_dt'', KDate),
      (''daily_close_source'', ''du_clpr_src'', KText), (''difference_rate_raw_metric'', ''du_diff_rt'', KDecimal),
      (''return_1d'', ''du_er_1d'', KDecimal), (''daily_high_price'', ''du_hpr'', KDecimal),
      (''aum'', ''du_last_aum'', KDecimal), (''last_nav'', ''du_last_nav'', KDecimal),
      (''daily_low_price'', ''du_lpr'', KDecimal), (''nav_base_date'', ''du_nav_base_dt'', KDate),
      (''daily_open_price'', ''du_opr'', KDecimal), (''daily_update_date'', ''du_upt_dt'', KDate),
      (''daily_value'', ''du_val_1d'', KDecimal), (''daily_volume'', ''du_vol_1d'', KDecimal),
      (''ticker'', ''pd_abrv_nm'', KText), (''source_currency_raw'', ''pd_curr_cd'', KText),
      (''exchange_market_code'', ''pd_exg_mkt_cd'', KText), (''product_type'', ''pd_grp_no'', KProductType),
      (''isin'', ''pd_isin_cd'', KText), (''product_id'', ''pd_itm_no'', KText),
      (''market_identifier'', ''pd_itm_no_ma'', KText), (''lipper_id'', ''pd_lipper_id'', KText),
      (''listing_date'', ''pd_lstg_dt'', KDate), (''listing_price'', ''pd_lst_price'', KDecimal),
      (''listed_share_count'', ''pd_lst_stk_cnt'', KDecimal), (''market_code'', ''pd_mkt_id'', KText),
      (''name'', ''pd_nm'', KText), (''sale_flag_raw'', ''pd_sale_yn'', KText), (''trading_currency'', ''pd_trd_ccy'', KText),
      (''suspension_flag_raw'', ''pd_tr_yn'', KText), (''us_cik'', ''pd_us_cik'', KText),
      (''realtime_market_price'', ''ru_mkt_price'', KDecimal), (''realtime_market_volume'', ''ru_mkt_volume'', KDecimal),
      (''core_flag_raw'', ''wu_core_yn'', KText), (''asset_type'', ''wu_inv_ast_type'', KText),
      (''region'', ''wu_inv_rgn'', KText), (''weekly_update_date'', ''wu_upt_dt'', KDate)]"

record overseas_listed_product =
  op_values :: field_values

definition validate_overseas_product :: "overseas_listed_product \<Rightarrow> overseas_listed_product result" where
  "validate_overseas_product p =
     rbind (check_model_fields OVERSEAS_FIELD_COLUMNS (op_values p)) (\<lambda>_.
     rbind (check_listed_lineage ''overseas'' ''PREF02N001'' OVERSEAS_FIELD_COLUMNS (op_values p)) (\<lambda>_. Inr p))"

section \<open>normalization/overseas_listed.py\<close>

text \<open>The fields read as numbers and as dates, in the order their warnings are collected.\<close>

definition overseas_numeric_fields :: "string list" where
  "overseas_numeric_fields =
     [''total_fee'', ''leverage_factor'', ''daily_bid_price'', ''close_price'', ''difference_rate_raw_metric'', ''return_1d'',
      ''daily_high_price'', ''aum'', ''last_nav'', ''daily_low_price'', ''daily_open_price'', ''daily_value'',
      ''daily_volume'', ''listing_price'', ''listed_share_count'', ''realtime_market_price'', ''realtime_market_volume'']"

definition overseas_date_fields :: "string list" where
  "overseas_date_fields =
     [''custom_update_date'', ''close_price_base_date'', ''nav_base_date'', ''daily_update_date'', ''listing_date'',
      ''weekly_update_date'']"

abbreviation overseas_table :: pystr where "overseas_table \<equiv> cp ''PREF02N001''"

definition overseas_product_type :: "source_row \<Rightarrow> listed_product_type normalized_value result" where
  "overseas_product_type row = listed_type_value (cp ''overseas_listed.product_type'') row"

definition issue_sort_key :: "data_quality_issue \<Rightarrow> int \<times> pystr \<times> pystr" where
  "issue_sort_key i = (loc_source_column_number (dq_source i), dq_rule_id i, dq_issue_id i)"

definition overseas_identity_issues ::
  "source_row \<Rightarrow> pystr normalized_value \<Rightarrow> listed_product_type normalized_value \<Rightarrow> data_quality_issue list result" where
  "overseas_identity_issues row product_id product_type =
     rbind (listed_identity_issues row
       [(nv_normalized_value product_type = None, cp ''pd_grp_no'', cp ''overseas_listed.product_type'',
         cp ''Overseas listed product group has an invalid source format.''),
        (nv_normalized_value product_id = None, cp ''pd_itm_no'', cp ''overseas_listed.product_id'',
         cp ''Overseas listed product identifier has an invalid source format.'')])
       (\<lambda>issues. Inr (py_sorted issue_sort_key issues))"

definition overseas_text :: "source_row \<Rightarrow> pystr \<Rightarrow> pystr \<Rightarrow> pystr normalized_value result" where
  "overseas_text row column rule_id = parse_text row column rule_id listed_rule_version"

definition overseas_decimal :: "source_row \<Rightarrow> pystr \<Rightarrow> pystr \<Rightarrow> decimal normalized_value result" where
  "overseas_decimal row column rule_id = parse_decimal row column RECORDED_ZERO rule_id listed_rule_version"

definition overseas_date :: "source_row \<Rightarrow> pystr \<Rightarrow> pystr \<Rightarrow> date normalized_value result" where
  "overseas_date row column rule_id = parse_yyyymmdd row column False rule_id listed_rule_version"

definition overseas_currency :: "source_row \<Rightarrow> pystr normalized_value result" where
  "overseas_currency row =
     rbind (row_cell row (cp ''pd_trd_ccy'')) (\<lambda>cell.
       let raw = sc_raw_value cell in
       if py_strip raw = [] then overseas_text row (cp ''pd_trd_ccy'') (cp ''overseas_listed.trading_currency'')
       else let v = (if is_upper3 raw then Some raw else None) in
            make_normalized_value row (cp ''pd_trd_ccy'') v (if v \<noteq> None then VALID else OUT_OF_DOMAIN)
              (cp ''overseas_listed.trading_currency'') listed_rule_version)"

text \<open>The argument of the constructor for one field.\<close>

definition overseas_field ::
  "pystr normalized_value \<Rightarrow> listed_product_type normalized_value \<Rightarrow> source_row \<Rightarrow> field_column \<Rightarrow> wrapped result" where
  "overseas_field product_id product_type row fc =
     (let f = fst fc; column = column_of fc; rule_id = cp (''overseas_listed.'' @ f) in
      if f = ''product_id'' then Inr (wrap VText product_id)
      else if f = ''product_type'' then Inr (wrap VProductType product_type)
      else if f = ''trading_currency'' then wrapped_result VText (overseas_currency row)
      else if f \<in> set overseas_numeric_fields then wrapped_result VDecimal (overseas_decimal row column rule_id)
      else if f \<in> set overseas_date_fields then wrapped_result VDate (overseas_date row column rule_id)
      else wrapped_result VText (overseas_text row column rule_id))"

definition overseas_warnings :: "field_values \<Rightarrow> (pystr \<times> pystr \<times> quality_status \<times> pystr) list result" where
  "overseas_warnings values =
     rbind (traverse (field_of values) overseas_numeric_fields) (\<lambda>numeric.
     rbind (traverse (field_of values) overseas_date_fields) (\<lambda>dates.
     rbind (field_of values ''trading_currency'') (\<lambda>currency.
       let invalid = (\<lambda>reason ws. map (\<lambda>w. (loc_source_column_name (nv_source w), nv_rule_id w, INVALID_FORMAT, reason))
             (filter (\<lambda>w. nv_quality_status w = INVALID_FORMAT) ws)) in
       Inr (invalid (cp ''Overseas listed numeric value is invalid.'') numeric
            @ invalid (cp ''Overseas listed date value is invalid.'') dates
            @ (if nv_quality_status currency = OUT_OF_DOMAIN
               then [(cp ''pd_trd_ccy'', nv_rule_id currency, OUT_OF_DOMAIN, cp ''Overseas listed trading currency is invalid.'')]
               else [])))))"

definition normalize_overseas_listed :: "source_row \<Rightarrow> overseas_listed_product normalization_result result" where
  "normalize_overseas_listed row =
     rbind (raise_if (sr_source_table row \<noteq> overseas_table)
              (NormalizationContractError overseas_table (sr_source_table row))) (\<lambda>_.
     rbind (parse_exact_source_identity row (cp ''pd_itm_no'') (cp ''overseas_listed.product_id'') listed_rule_version) (\<lambda>product_id.
     rbind (overseas_product_type row) (\<lambda>product_type.
     rbind (overseas_identity_issues row product_id product_type) (\<lambda>quarantine.
       if quarantine \<noteq> [] then normalization_result_of None quarantine
       else
         rbind (parse_fields (overseas_field product_id product_type) row OVERSEAS_FIELD_COLUMNS) (\<lambda>values.
         rbind (validate_overseas_product \<lparr>op_values = values\<rparr>) (\<lambda>rec.
         rbind (overseas_warnings values) (\<lambda>ws.
         rbind (traverse (listed_warning_issue row) ws) (\<lambda>issues.
           normalization_result_of (Some rec) (py_sorted issue_sort_key issues)))))))))"


section \<open>The tables meet the contract\<close>

text \<open>
  The sets of date and number fields that the normalizers consult are exactly the fields that the
  records declare as dates and numbers, and the columns that a parser names itself are its own.
\<close>

lemma domestic_fields_distinct: "distinct (map fst DOMESTIC_FIELD_COLUMNS)"
  by code_simp

lemma domestic_kinds:
  "map fst (filter (\<lambda>fc. kind_of fc = KDate) DOMESTIC_FIELD_COLUMNS) = domestic_date_fields"
  "map fst (filter (\<lambda>fc. kind_of fc = KDecimal) DOMESTIC_FIELD_COLUMNS) = domestic_decimal_fields"
  "map fst (filter (\<lambda>fc. kind_of fc \<notin> {KDate, KDecimal, KText}) DOMESTIC_FIELD_COLUMNS)
     = [''product_type'', ''sale_flag'', ''suspension_flag'']"
  "map_of DOMESTIC_FIELD_COLUMNS ''product_id'' = Some (''pd_itm_no'', KText)"
  "map_of DOMESTIC_FIELD_COLUMNS ''product_type'' = Some (''pd_grp_no'', KProductType)"
  "map_of DOMESTIC_FIELD_COLUMNS ''currency'' = Some (''pd_curr_cd'', KText)"
  "map_of DOMESTIC_FIELD_COLUMNS ''sale_flag'' = Some (''pd_sale_yn'', KBool)"
  "map_of DOMESTIC_FIELD_COLUMNS ''suspension_flag'' = Some (''pd_tr_yn'', KBool)"
  by code_simp+

lemma overseas_fields_distinct: "distinct (map fst OVERSEAS_FIELD_COLUMNS)"
  by code_simp

lemma overseas_kinds:
  "map fst (filter (\<lambda>fc. kind_of fc = KDecimal) OVERSEAS_FIELD_COLUMNS) = overseas_numeric_fields"
  "map fst (filter (\<lambda>fc. kind_of fc = KDate) OVERSEAS_FIELD_COLUMNS) = overseas_date_fields"
  "map fst (filter (\<lambda>fc. kind_of fc \<notin> {KDate, KDecimal, KText}) OVERSEAS_FIELD_COLUMNS) = [''product_type'']"
  "map_of OVERSEAS_FIELD_COLUMNS ''product_id'' = Some (''pd_itm_no'', KText)"
  "map_of OVERSEAS_FIELD_COLUMNS ''product_type'' = Some (''pd_grp_no'', KProductType)"
  "map_of OVERSEAS_FIELD_COLUMNS ''trading_currency'' = Some (''pd_trd_ccy'', KText)"
  by code_simp+

text \<open>With distinct fields, a field is in such a selection exactly when its own entry is.\<close>

lemma selected_iff:
  assumes "distinct (map fst fcs)" and "map fst (filter P fcs) = fs" and "fc \<in> set fcs"
  shows "fst fc \<in> set fs \<longleftrightarrow> P fc"
proof
  assume "fst fc \<in> set fs"
  then obtain fc' where "fc' \<in> set fcs" "P fc'" "fst fc' = fst fc" using assms(2) by auto
  with assms(1,3) have "fc' = fc" by (auto simp: distinct_map inj_on_def)
  with \<open>P fc'\<close> show "P fc" by simp
qed (use assms in auto)

lemma entry_iff:
  assumes "distinct (map fst fcs)" and "map_of fcs f = Some v" and "fc \<in> set fcs" and "fst fc = f"
  shows "snd fc = v"
  using assms map_of_eq_Some_iff [OF assms(1), of f] by (metis option.inject surjective_pairing)

lemma domestic_entry:
  assumes "fc \<in> set DOMESTIC_FIELD_COLUMNS"
  shows "fst fc = ''product_id'' \<Longrightarrow> snd fc = (''pd_itm_no'', KText)"
    and "fst fc = ''product_type'' \<Longrightarrow> snd fc = (''pd_grp_no'', KProductType)"
    and "fst fc = ''currency'' \<Longrightarrow> snd fc = (''pd_curr_cd'', KText)"
    and "fst fc = ''sale_flag'' \<or> fst fc = ''suspension_flag'' \<Longrightarrow> kind_of fc = KBool"
    and "fst fc \<in> set domestic_date_fields \<longleftrightarrow> kind_of fc = KDate"
    and "fst fc \<in> set domestic_decimal_fields \<longleftrightarrow> kind_of fc = KDecimal"
    and "fst fc \<notin> {''product_type'', ''sale_flag'', ''suspension_flag''} \<Longrightarrow> kind_of fc \<in> {KDate, KDecimal, KText}"
proof -
  note entry = entry_iff [OF domestic_fields_distinct _ assms] and selected = selected_iff [OF domestic_fields_distinct _ assms]
  show "fst fc = ''product_id'' \<Longrightarrow> snd fc = (''pd_itm_no'', KText)" by (rule entry [OF domestic_kinds(4)])
  show "fst fc = ''product_type'' \<Longrightarrow> snd fc = (''pd_grp_no'', KProductType)" by (rule entry [OF domestic_kinds(5)])
  show "fst fc = ''currency'' \<Longrightarrow> snd fc = (''pd_curr_cd'', KText)" by (rule entry [OF domestic_kinds(6)])
  show "fst fc = ''sale_flag'' \<or> fst fc = ''suspension_flag'' \<Longrightarrow> kind_of fc = KBool"
    using entry [OF domestic_kinds(7)] entry [OF domestic_kinds(8)] by (elim disjE) simp_all
  show "fst fc \<in> set domestic_date_fields \<longleftrightarrow> kind_of fc = KDate" by (rule selected [OF domestic_kinds(1)])
  show "fst fc \<in> set domestic_decimal_fields \<longleftrightarrow> kind_of fc = KDecimal" by (rule selected [OF domestic_kinds(2)])
  have "fst fc \<in> set [''product_type'', ''sale_flag'', ''suspension_flag''] \<longleftrightarrow> kind_of fc \<notin> {KDate, KDecimal, KText}"
    by (rule selected [OF domestic_kinds(3)])
  then show "fst fc \<notin> {''product_type'', ''sale_flag'', ''suspension_flag''} \<Longrightarrow> kind_of fc \<in> {KDate, KDecimal, KText}"
    unfolding list.set by blast
qed

lemma overseas_entry:
  assumes "fc \<in> set OVERSEAS_FIELD_COLUMNS"
  shows "fst fc = ''product_id'' \<Longrightarrow> snd fc = (''pd_itm_no'', KText)"
    and "fst fc = ''product_type'' \<Longrightarrow> snd fc = (''pd_grp_no'', KProductType)"
    and "fst fc = ''trading_currency'' \<Longrightarrow> snd fc = (''pd_trd_ccy'', KText)"
    and "fst fc \<in> set overseas_numeric_fields \<longleftrightarrow> kind_of fc = KDecimal"
    and "fst fc \<in> set overseas_date_fields \<longleftrightarrow> kind_of fc = KDate"
    and "fst fc \<noteq> ''product_type'' \<Longrightarrow> kind_of fc \<in> {KDate, KDecimal, KText}"
proof -
  note entry = entry_iff [OF overseas_fields_distinct _ assms] and selected = selected_iff [OF overseas_fields_distinct _ assms]
  show "fst fc = ''product_id'' \<Longrightarrow> snd fc = (''pd_itm_no'', KText)" by (rule entry [OF overseas_kinds(4)])
  show "fst fc = ''product_type'' \<Longrightarrow> snd fc = (''pd_grp_no'', KProductType)" by (rule entry [OF overseas_kinds(5)])
  show "fst fc = ''trading_currency'' \<Longrightarrow> snd fc = (''pd_trd_ccy'', KText)" by (rule entry [OF overseas_kinds(6)])
  show "fst fc \<in> set overseas_numeric_fields \<longleftrightarrow> kind_of fc = KDecimal" by (rule selected [OF overseas_kinds(1)])
  show "fst fc \<in> set overseas_date_fields \<longleftrightarrow> kind_of fc = KDate" by (rule selected [OF overseas_kinds(2)])
  have "fst fc \<in> set [''product_type''] \<longleftrightarrow> kind_of fc \<notin> {KDate, KDecimal, KText}"
    by (rule selected [OF overseas_kinds(3)])
  then show "fst fc \<noteq> ''product_type'' \<Longrightarrow> kind_of fc \<in> {KDate, KDecimal, KText}" unfolding list.set by blast
qed


lemma listed_type_value_Inr:
  assumes "listed_type_value rid row = Inr v"
  shows "carries row (cp ''pd_grp_no'') (lineage_of v) \<and> nv_rule_id v = rid \<and>
     nv_normalized_value v = listed_type_of (raw_of row (cp ''pd_grp_no''))"
  using assms by (auto simp: listed_type_value_def rbind_eq_Inr_iff Let_def raw_of_def carries_def lineage_of_def
      dest!: make_normalized_value_Inr)

lemma listed_type_value_total:
  assumes "row_ok row" and "cp ''pd_grp_no'' \<in> set (map sc_column_name (sr_cells row))" and "rid \<noteq> []"
  shows "\<exists>v. listed_type_value rid row = Inr v"
  using row_cell_present [OF assms(2)] assms(1,3) by (auto simp: listed_type_value_def Let_def make_normalized_value_ok)

lemma domestic_currency_delivers:
  assumes "row_ok row" and "row_cell row (column_of fc) = Inr c" and "column_of fc = cp ''pd_curr_cd''" and "kind_of fc = KText"
  shows "\<exists>w. wrapped_result VText (domestic_currency row) = Inr w \<and> delivers row fc w"
proof -
  have "\<exists>w. wrapped_result VText (domestic_text row (column_of fc) (cp ''domestic_listed.currency'')) = Inr w \<and> delivers row fc w"
    unfolding domestic_text_def using assms by (intro text_parser.delivers_wrapped) (simp_all add: encodable_cp)
  moreover have "\<exists>w. wrapped_result VText (make_normalized_value row (column_of fc) v q (cp ''domestic_listed.currency'') listed_rule_version)
      = Inr w \<and> delivers row fc w" for v q
    using assms by (intro delivers_made) (simp_all add: encodable_cp)
  ultimately show ?thesis using assms(2,3) by (simp add: domestic_currency_def Let_def)
qed

lemma overseas_currency_delivers:
  assumes "row_ok row" and "row_cell row (column_of fc) = Inr c" and "column_of fc = cp ''pd_trd_ccy''" and "kind_of fc = KText"
  shows "\<exists>w. wrapped_result VText (overseas_currency row) = Inr w \<and> delivers row fc w"
proof -
  have "\<exists>w. wrapped_result VText (overseas_text row (column_of fc) (cp ''overseas_listed.trading_currency'')) = Inr w \<and> delivers row fc w"
    unfolding overseas_text_def using assms by (intro text_parser.delivers_wrapped) (simp_all add: encodable_cp)
  moreover have "\<exists>w. wrapped_result VText (make_normalized_value row (column_of fc) v q (cp ''overseas_listed.trading_currency'') listed_rule_version)
      = Inr w \<and> delivers row fc w" for v q
    using assms by (intro delivers_made) (simp_all add: encodable_cp)
  ultimately show ?thesis using assms(2,3) by (simp add: overseas_currency_def Let_def)
qed

lemma domestic_flag_delivers:
  assumes "row_ok row" and "row_cell row (column_of fc) = Inr c" and "kind_of fc = KBool" and "rid \<noteq> []" and "encodable rid"
  shows "\<exists>w. wrapped_result VBool (domestic_flag row (column_of fc) mapping rid) = Inr w \<and> delivers row fc w"
proof -
  have "\<exists>w. wrapped_result VBool (make_normalized_value row (column_of fc) v q rid listed_rule_version) = Inr w \<and> delivers row fc w" for v q
    using assms by (intro delivers_made) simp_all
  then show ?thesis using assms(2) by (simp add: domestic_flag_def Let_def)
qed

lemma domestic_field_delivers:
  assumes "row_ok row" and "fc \<in> set DOMESTIC_FIELD_COLUMNS" and "row_cell row (column_of fc) = Inr c"
    and "parse_identifier row (cp ''pd_itm_no'') (cp ''domestic_listed.product_id'') listed_rule_version = Inr pid"
    and "domestic_product_type row = Inr pt"
  shows "\<exists>w. domestic_field pid pt row fc = Inr w \<and> delivers row fc w"
proof -
  obtain f col k where fc: "fc = (f, col, k)" by (cases fc)
  note e = domestic_entry [OF assms(2)]
  have rid: "cp (''domestic_listed.'' @ f) \<noteq> []" "encodable (cp (''domestic_listed.'' @ f))" by (simp_all add: encodable_cp)
  note cell = assms(1) assms(3)
  consider (pid) "f = ''product_id''" | (ptype) "f = ''product_type''" | (cur) "f = ''currency''"
    | (flag) "f = ''sale_flag'' \<or> f = ''suspension_flag''"
    | (date) "\<not> (f = ''product_id'' \<or> f = ''product_type'' \<or> f = ''currency'' \<or> f = ''sale_flag'' \<or> f = ''suspension_flag'')" "f \<in> set domestic_date_fields"
    | (dec) "\<not> (f = ''product_id'' \<or> f = ''product_type'' \<or> f = ''currency'' \<or> f = ''sale_flag'' \<or> f = ''suspension_flag'')" "f \<notin> set domestic_date_fields"
        "f \<in> set domestic_decimal_fields"
    | (plain) "\<not> (f = ''product_id'' \<or> f = ''product_type'' \<or> f = ''currency'' \<or> f = ''sale_flag'' \<or> f = ''suspension_flag'')" "f \<notin> set domestic_date_fields"
        "f \<notin> set domestic_decimal_fields"
    by satx
  then show ?thesis
  proof cases
    case pid
    with e(1) have "k = KText" "col = ''pd_itm_no''" by (simp_all add: fc)
    then show ?thesis
      using parse_identifier_carries [OF assms(4)] ident_parser.rule [OF assms(4)] pid
      by (simp add: fc domestic_field_def delivers_def typed_wrap encodable_cp)
  next
    case ptype
    with e(2) have "k = KProductType" "col = ''pd_grp_no''" by (simp_all add: fc)
    then show ?thesis
      using listed_type_value_Inr [OF assms(5) [unfolded domestic_product_type_def]] ptype
      by (simp add: fc domestic_field_def delivers_def typed_wrap encodable_cp)
  next
    case cur
    with e(3) have "kind_of fc = KText" "column_of fc = cp ''pd_curr_cd''" by (simp_all add: fc)
    from domestic_currency_delivers [OF cell this(2,1)] cur show ?thesis by (simp add: fc domestic_field_def)
  next
    case flag
    with e(4) have "kind_of fc = KBool" by (simp add: fc)
    from domestic_flag_delivers [OF cell this rid, of flag_map] flag show ?thesis by (auto simp: fc domestic_field_def Let_def)
  next
    case date
    with e(5) have "kind_of fc = KDate" by (simp add: fc)
    then have "\<exists>w. wrapped_result VDate (domestic_date row (column_of fc) (cp (''domestic_listed.'' @ f)) (f = ''listing_end_date'')) = Inr w
        \<and> delivers row fc w"
      unfolding domestic_date_def by (intro date_parser.delivers_wrapped [OF cell rid]) simp_all
    with date show ?thesis by (simp add: fc domestic_field_def Let_def)
  next
    case dec
    with e(6) have "kind_of fc = KDecimal" by (simp add: fc)
    then have "\<exists>w. wrapped_result VDecimal (domestic_decimal row (column_of fc) (cp (''domestic_listed.'' @ f))) = Inr w \<and> delivers row fc w"
      unfolding domestic_decimal_def by (intro dec_parser.delivers_wrapped [OF cell rid]) simp_all
    with dec show ?thesis by (simp add: fc domestic_field_def Let_def)
  next
    case plain
    with e(5,6,7) have "kind_of fc = KText" by (simp add: fc)
    then have "\<exists>w. wrapped_result VText (domestic_text row (column_of fc) (cp (''domestic_listed.'' @ f))) = Inr w \<and> delivers row fc w"
      unfolding domestic_text_def by (intro text_parser.delivers_wrapped [OF cell rid]) simp_all
    with plain show ?thesis by (simp add: fc domestic_field_def Let_def)
  qed
qed

lemma overseas_field_delivers:
  assumes "row_ok row" and "fc \<in> set OVERSEAS_FIELD_COLUMNS" and "row_cell row (column_of fc) = Inr c"
    and "parse_exact_source_identity row (cp ''pd_itm_no'') (cp ''overseas_listed.product_id'') listed_rule_version = Inr pid"
    and "overseas_product_type row = Inr pt"
  shows "\<exists>w. overseas_field pid pt row fc = Inr w \<and> delivers row fc w"
proof -
  obtain f col k where fc: "fc = (f, col, k)" by (cases fc)
  note e = overseas_entry [OF assms(2)]
  have rid: "cp (''overseas_listed.'' @ f) \<noteq> []" "encodable (cp (''overseas_listed.'' @ f))" by (simp_all add: encodable_cp)
  note cell = assms(1) assms(3)
  consider (pid) "f = ''product_id''" | (ptype) "f = ''product_type''" | (cur) "f = ''trading_currency''"
    | (dec) "\<not> (f = ''product_id'' \<or> f = ''product_type'' \<or> f = ''trading_currency'')" "f \<in> set overseas_numeric_fields"
    | (date) "\<not> (f = ''product_id'' \<or> f = ''product_type'' \<or> f = ''trading_currency'')" "f \<notin> set overseas_numeric_fields"
        "f \<in> set overseas_date_fields"
    | (plain) "\<not> (f = ''product_id'' \<or> f = ''product_type'' \<or> f = ''trading_currency'')" "f \<notin> set overseas_numeric_fields"
        "f \<notin> set overseas_date_fields"
    by satx
  then show ?thesis
  proof cases
    case pid
    with e(1) have "k = KText" "col = ''pd_itm_no''" by (simp_all add: fc)
    moreover have "carries row (cp ''pd_itm_no'') (lineage_of pid)" by (rule carriesI) (rule exact_parser.lineage [OF assms(4)])
    ultimately show ?thesis
      using exact_parser.rule [OF assms(4)] pid by (simp add: fc overseas_field_def delivers_def typed_wrap encodable_cp)
  next
    case ptype
    with e(2) have "k = KProductType" "col = ''pd_grp_no''" by (simp_all add: fc)
    then show ?thesis
      using listed_type_value_Inr [OF assms(5) [unfolded overseas_product_type_def]] ptype
      by (simp add: fc overseas_field_def delivers_def typed_wrap encodable_cp)
  next
    case cur
    with e(3) have "kind_of fc = KText" "column_of fc = cp ''pd_trd_ccy''" by (simp_all add: fc)
    from overseas_currency_delivers [OF cell this(2,1)] cur show ?thesis by (simp add: fc overseas_field_def)
  next
    case dec
    with e(4) have "kind_of fc = KDecimal" by (simp add: fc)
    then have "\<exists>w. wrapped_result VDecimal (overseas_decimal row (column_of fc) (cp (''overseas_listed.'' @ f))) = Inr w \<and> delivers row fc w"
      unfolding overseas_decimal_def by (intro dec_parser.delivers_wrapped [OF cell rid]) simp_all
    with dec show ?thesis by (simp add: fc overseas_field_def Let_def)
  next
    case date
    with e(5) have "kind_of fc = KDate" by (simp add: fc)
    then have "\<exists>w. wrapped_result VDate (overseas_date row (column_of fc) (cp (''overseas_listed.'' @ f))) = Inr w \<and> delivers row fc w"
      unfolding overseas_date_def by (intro date_parser.delivers_wrapped [OF cell rid]) simp_all
    with date show ?thesis by (simp add: fc overseas_field_def Let_def)
  next
    case plain
    with e(4,5,6) have "kind_of fc = KText" by (simp add: fc)
    then have "\<exists>w. wrapped_result VText (overseas_text row (column_of fc) (cp (''overseas_listed.'' @ f))) = Inr w \<and> delivers row fc w"
      unfolding overseas_text_def by (intro text_parser.delivers_wrapped [OF cell rid]) simp_all
    with plain show ?thesis by (simp add: fc overseas_field_def Let_def)
  qed
qed

text \<open>The parser of a field together with the identity it is given, as one function of the row.\<close>

definition domestic_parse :: "source_row \<Rightarrow> field_column \<Rightarrow> wrapped result" where
  "domestic_parse row fc =
     rbind (parse_identifier row (cp ''pd_itm_no'') (cp ''domestic_listed.product_id'') listed_rule_version) (\<lambda>pid.
     rbind (domestic_product_type row) (\<lambda>pt. domestic_field pid pt row fc))"

definition overseas_parse :: "source_row \<Rightarrow> field_column \<Rightarrow> wrapped result" where
  "overseas_parse row fc =
     rbind (parse_exact_source_identity row (cp ''pd_itm_no'') (cp ''overseas_listed.product_id'') listed_rule_version) (\<lambda>pid.
     rbind (overseas_product_type row) (\<lambda>pt. overseas_field pid pt row fc))"

lemma has_table_column:
  "has_columns row (map column_of fcs) \<Longrightarrow> map_of fcs f = Some (c, k) \<Longrightarrow> cp c \<in> set (map sc_column_name (sr_cells row))"
  by (drule map_of_SomeD) (force simp: has_columns_def list_all_iff)

lemma domestic_identity_total:
  assumes "row_ok row" and "has_columns row (map column_of DOMESTIC_FIELD_COLUMNS)"
  obtains pid pt where "parse_identifier row (cp ''pd_itm_no'') (cp ''domestic_listed.product_id'') listed_rule_version = Inr pid"
    and "domestic_product_type row = Inr pt"
proof -
  obtain c where c: "row_cell row (cp ''pd_itm_no'') = Inr c"
    using row_cell_present [OF has_table_column [OF assms(2) domestic_kinds(4)]] by blast
  have "\<exists>pid. parse_identifier row (cp ''pd_itm_no'') (cp ''domestic_listed.product_id'') listed_rule_version = Inr pid"
    by (rule ident_parser.total [OF assms(1) c]) simp_all
  moreover have "\<exists>pt. domestic_product_type row = Inr pt"
    unfolding domestic_product_type_def
    by (rule listed_type_value_total [OF assms(1) has_table_column [OF assms(2) domestic_kinds(5)]]) simp
  ultimately show thesis using that by blast
qed

lemma overseas_identity_total:
  assumes "row_ok row" and "has_columns row (map column_of OVERSEAS_FIELD_COLUMNS)"
  obtains pid pt where "parse_exact_source_identity row (cp ''pd_itm_no'') (cp ''overseas_listed.product_id'') listed_rule_version = Inr pid"
    and "overseas_product_type row = Inr pt"
proof -
  obtain c where c: "row_cell row (cp ''pd_itm_no'') = Inr c"
    using row_cell_present [OF has_table_column [OF assms(2) overseas_kinds(4)]] by blast
  have "\<exists>pid. parse_exact_source_identity row (cp ''pd_itm_no'') (cp ''overseas_listed.product_id'') listed_rule_version = Inr pid"
    by (rule exact_parser.total [OF assms(1) c]) simp_all
  moreover have "\<exists>pt. overseas_product_type row = Inr pt"
    unfolding overseas_product_type_def
    by (rule listed_type_value_total [OF assms(1) has_table_column [OF assms(2) overseas_kinds(5)]]) simp
  ultimately show thesis using that by blast
qed

interpretation domestic: field_table DOMESTIC_FIELD_COLUMNS domestic_parse
proof
  show "distinct (map fst DOMESTIC_FIELD_COLUMNS)" by (rule domestic_fields_distinct)
  fix row fc assume r: "row_ok row" "has_columns row (map column_of DOMESTIC_FIELD_COLUMNS)" "fc \<in> set DOMESTIC_FIELD_COLUMNS"
  from domestic_identity_total [OF r(1,2)] obtain pid pt where
    p: "parse_identifier row (cp ''pd_itm_no'') (cp ''domestic_listed.product_id'') listed_rule_version = Inr pid"
    "domestic_product_type row = Inr pt" .
  obtain c where "row_cell row (column_of fc) = Inr c" using has_columns_cell [OF r(2), of "column_of fc"] r(3) by auto
  from domestic_field_delivers [OF r(1,3) this p] show "\<exists>w. domestic_parse row fc = Inr w \<and> delivers row fc w"
    by (simp add: domestic_parse_def p)
qed

interpretation overseas: field_table OVERSEAS_FIELD_COLUMNS overseas_parse
proof
  show "distinct (map fst OVERSEAS_FIELD_COLUMNS)" by (rule overseas_fields_distinct)
  fix row fc assume r: "row_ok row" "has_columns row (map column_of OVERSEAS_FIELD_COLUMNS)" "fc \<in> set OVERSEAS_FIELD_COLUMNS"
  from overseas_identity_total [OF r(1,2)] obtain pid pt where
    p: "parse_exact_source_identity row (cp ''pd_itm_no'') (cp ''overseas_listed.product_id'') listed_rule_version = Inr pid"
    "overseas_product_type row = Inr pt" .
  obtain c where "row_cell row (column_of fc) = Inr c" using has_columns_cell [OF r(2), of "column_of fc"] r(3) by auto
  from overseas_field_delivers [OF r(1,3) this p] show "\<exists>w. overseas_parse row fc = Inr w \<and> delivers row fc w"
    by (simp add: overseas_parse_def p)
qed


section \<open>Issues of a canonical row\<close>

text \<open>A row of a verified workbook whose columns are those of the table, in its order.\<close>

definition canonical_row :: "string \<Rightarrow> field_column list \<Rightarrow> source_row \<Rightarrow> bool" where
  "canonical_row table fcs row \<longleftrightarrow>
     row_ok row \<and> sr_source_table row = cp table \<and> map sc_column_name (sr_cells row) = map column_of fcs"

lemma canonical_row_columns: "canonical_row table fcs row \<Longrightarrow> has_columns row (map column_of fcs)"
  by (auto simp: canonical_row_def has_columns_def list_all_iff)

lemma canonical_row_cell: "canonical_row table fcs row \<Longrightarrow> fc \<in> set fcs \<Longrightarrow> \<exists>c. row_cell row (column_of fc) = Inr c"
  using canonical_row_columns has_columns_cell by fastforce

lemma identity_issues_total:
  assumes "row_ok row" and "\<forall>(m, col, rid, reason) \<in> set cs. col \<in> set (map sc_column_name (sr_cells row)) \<and> rid \<noteq> [] \<and> encodable rid"
  shows "\<exists>is. listed_identity_issues row cs = Inr is \<and> (is = [] \<longleftrightarrow> \<not> list_ex fst cs) \<and> (\<forall>i \<in> set is. dq_quarantined i)"
proof -
  let ?issue = "\<lambda>(_, col, rid, reason). issue_from_row row col rid listed_rule_version BLOCKER MALFORMED_SOURCE_ROW reason True"
  have one: "\<exists>i. ?issue x = Inr i \<and> dq_quarantined i" if x: "x \<in> set (filter (\<lambda>(m, _). m) cs)" for x
  proof -
    obtain m col rid reason where xs: "x = (m, col, rid, reason)" by (cases x)
    with x assms(2) have c: "col \<in> set (map sc_column_name (sr_cells row))" "rid \<noteq> []" "encodable rid" by auto
    from row_cell_present [OF c(1)] obtain cell where "row_cell row col = Inr cell" by blast
    from issue_from_row_ok [OF assms(1) this c(2,3), of listed_rule_version BLOCKER MALFORMED_SOURCE_ROW reason True]
    show ?thesis by (auto simp: xs encodable_cp)
  qed
  from traverse_all [of "filter (\<lambda>(m, _). m) cs" ?issue dq_quarantined, OF one] obtain "is" where i: "listed_identity_issues row cs = Inr is" "\<forall>i \<in> set is. dq_quarantined i"
    by (auto simp: listed_identity_issues_def)
  then have "length is = length (filter (\<lambda>(m, _). m) cs)" unfolding listed_identity_issues_def by (blast dest: traverse_length)
  then have "is = [] \<longleftrightarrow> filter (\<lambda>(m, _). m) cs = []" by (metis length_0_conv)
  moreover have "filter (\<lambda>(m, _). m) cs = filter fst cs" by (rule filter_cong) auto
  ultimately have "is = [] \<longleftrightarrow> \<not> list_ex fst cs" by (simp add: filter_empty_conv list_ex_iff del: split_paired_All)
  with i show ?thesis by blast
qed

text \<open>The warning issue of a usable warning says what the warning says and does not quarantine.\<close>

definition usable_warning :: "source_row \<Rightarrow> pystr \<times> pystr \<times> quality_status \<times> pystr \<Rightarrow> bool" where
  "usable_warning row w =
     (case w of (col, rid, q, reason) \<Rightarrow> col \<in> set (map sc_column_name (sr_cells row)) \<and> rid \<noteq> [] \<and> encodable rid)"

definition warning_of :: "data_quality_issue \<Rightarrow> pystr \<times> pystr \<times> quality_status \<times> pystr" where
  "warning_of i = (loc_source_column_name (dq_source i), dq_rule_id i, dq_quality_status i, dq_reason i)"

lemma listed_warning_total:
  assumes "row_ok row" and "usable_warning row w"
  shows "\<exists>i. listed_warning_issue row w = Inr i \<and> \<not> dq_quarantined i \<and> warning_of i = w"
proof -
  obtain col rid q reason where w: "w = (col, rid, q, reason)" by (cases w)
  with assms(2) have c: "col \<in> set (map sc_column_name (sr_cells row))" "rid \<noteq> []" "encodable rid" by (auto simp: usable_warning_def)
  from row_cell_present [OF c(1)] obtain cell where cell: "row_cell row col = Inr cell" by blast
  with row_cell_Inr have "sc_column_name cell = col" by blast
  with issue_from_row_ok [OF assms(1) cell c(2,3), of listed_rule_version WARNING q reason False]
  show ?thesis by (auto simp: w listed_warning_issue_def warning_of_def locator_of_def encodable_cp)
qed

lemma listed_warnings_total:
  assumes "row_ok row" and "list_all (usable_warning row) ws"
  shows "\<exists>is. traverse (listed_warning_issue row) ws = Inr is \<and> \<not> list_ex dq_quarantined is \<and> map warning_of is = ws"
  using assms(2)
proof (induction ws)
  case (Cons w ws)
  from Cons.prems have "usable_warning row w" by simp
  from listed_warning_total [OF assms(1) this] Cons show ?case by auto
qed simp

lemma delivered_usable:
  assumes "delivers row fc w" and "canonical_row table fcs row"
  shows "usable_warning row (loc_source_column_name (nv_source w), nv_rule_id w, q, reason)"
proof -
  from assms(1) obtain c where "row_cell row (column_of fc) = Inr c" "nv_source w = locator_of row c"
    by (auto simp: delivers_def carries_def lineage_of_def)
  then have "loc_source_column_name (nv_source w) \<in> set (map sc_column_name (sr_cells row))"
    by (auto simp: locator_of_def dest!: row_cell_Inr)
  with assms(1) show ?thesis by (simp add: usable_warning_def delivers_def)
qed

lemma list_all2_delivers:
  "list_all2 (\<lambda>fc (f, w). f = fst fc \<and> delivers row fc w) fcs vs \<Longrightarrow> (f, w) \<in> set vs \<Longrightarrow> \<exists>fc \<in> set fcs. f = fst fc \<and> delivers row fc w"
  by (induction rule: list_all2_induct) auto

text \<open>The three values of the eligibility derivation.\<close>

lemma derive_eligibility_values:
  "dv_value (derive_eligibility sale susp start finish as_of) = Some True \<longleftrightarrow>
     bool_of sale = Some True \<and> bool_of susp = Some False \<and> (\<exists>d. date_of start = Some d \<and> d \<le> as_of) \<and>
     (case date_of finish of Some d \<Rightarrow> as_of \<le> d | None \<Rightarrow> nv_quality_status finish \<in> {MISSING_BLANK, SENTINEL_MAX_DATE})"
  "dv_value (derive_eligibility sale susp start finish as_of) = Some False \<longleftrightarrow>
     bool_of sale = Some False \<or> bool_of susp = Some True \<or> (\<exists>d. date_of start = Some d \<and> as_of < d) \<or>
     (\<exists>d. date_of finish = Some d \<and> d < as_of)"
  by (cases "bool_of sale"; cases "bool_of susp"; cases "date_of start"; cases "date_of finish";
      auto simp: derive_eligibility_def Let_def)+

section \<open>Domestic rows\<close>

lemma domestic_identity_value:
  assumes "parse_identifier row (cp ''pd_itm_no'') rid rv = Inr pid" and "domestic_product_type row = Inr pt"
  shows "nv_normalized_value pid \<noteq> None \<longleftrightarrow> is_identifier (raw_of row (cp ''pd_itm_no''))"
    and "nv_normalized_value pt = listed_type_of (raw_of row (cp ''pd_grp_no''))"
proof -
  show "nv_normalized_value pid \<noteq> None \<longleftrightarrow> is_identifier (raw_of row (cp ''pd_itm_no''))"
    using assms(1) by (auto simp: parse_identifier_def raw_of_def rbind_eq_Inr_iff Let_def dest!: make_normalized_value_Inr split: if_splits)
  show "nv_normalized_value pt = listed_type_of (raw_of row (cp ''pd_grp_no''))"
    using listed_type_value_Inr [OF assms(2) [unfolded domestic_product_type_def]] by blast
qed

text \<open>The result for a row of the table: quarantine without an identity, otherwise the complete record.\<close>

lemma normalize_domestic_cases:
  assumes "canonical_row ''PREF01N001'' DOMESTIC_FIELD_COLUMNS row"
  shows "\<exists>n. normalize_domestic_listed row as_of = Inr n \<and>
     (if is_identifier (raw_of row (cp ''pd_itm_no'')) \<and> listed_type_of (raw_of row (cp ''pd_grp_no'')) \<noteq> None
      then \<exists>p sale susp start finish. nr_record n = Some p \<and>
          list_all2 (\<lambda>fc (f, w). f = fst fc \<and> delivers row fc w) DOMESTIC_FIELD_COLUMNS (lp_values p) \<and>
          map warning_of (nr_issues n) = domestic_warnings (lp_values p) \<and>
          map_of (lp_values p) ''sale_flag'' = Some sale \<and> map_of (lp_values p) ''suspension_flag'' = Some susp \<and>
          map_of (lp_values p) ''listing_date'' = Some start \<and> map_of (lp_values p) ''listing_end_date'' = Some finish \<and>
          lp_is_eligible_at_as_of p = derive_eligibility sale susp start finish as_of
      else nr_record n = None)"
proof -
  let ?cols = DOMESTIC_FIELD_COLUMNS
  have row: "row_ok row" "sr_source_table row = domestic_table" and cols: "has_columns row (map column_of ?cols)"
    using assms canonical_row_columns [OF assms] by (auto simp: canonical_row_def)
  obtain pid pt where p: "parse_identifier row (cp ''pd_itm_no'') (cp ''domestic_listed.product_id'') listed_rule_version = Inr pid"
    "domestic_product_type row = Inr pt" by (rule domestic_identity_total [OF row(1) cols])
  note ids = domestic_identity_value [OF p]
  have "\<exists>is. domestic_identity_issues row pid pt = Inr is \<and>
      (is = [] \<longleftrightarrow> nv_normalized_value pid \<noteq> None \<and> nv_normalized_value pt \<noteq> None) \<and> (\<forall>i \<in> set is. dq_quarantined i)"
    unfolding domestic_identity_issues_def
    using identity_issues_total [OF row(1), of "[(nv_normalized_value pt = None, cp ''pd_grp_no'', cp ''domestic_listed.product_type'',
         cp ''Domestic listed product group has an invalid source format.''),
        (nv_normalized_value pid = None, cp ''pd_itm_no'', cp ''domestic_listed.product_id'',
         cp ''Domestic listed product identifier has an invalid source format.'')]"]
      has_table_column [OF cols domestic_kinds(4)] has_table_column [OF cols domestic_kinds(5)]
    by (auto simp: encodable_cp)
  then obtain q where q: "domestic_identity_issues row pid pt = Inr q"
    "q = [] \<longleftrightarrow> nv_normalized_value pid \<noteq> None \<and> nv_normalized_value pt \<noteq> None" "\<forall>i \<in> set q. dq_quarantined i" by blast
  note start = normalize_domestic_listed_def row(2) p q(1)
  show ?thesis
  proof (cases "q = []")
    case False
    with q(3) have "list_ex dq_quarantined q" by (cases q) auto
    with False q(2) ids show ?thesis by (auto simp: start normalization_result_of_def validate_quarantine_equivalence_def)
  next
    case True
    have "parse_fields (domestic_field pid pt) row ?cols = parse_fields domestic_parse row ?cols"
      by (simp add: parse_fields_def domestic_parse_def p)
    with domestic.fields_parsed [OF row(1) cols] obtain vs where
      vs: "parse_fields (domestic_field pid pt) row ?cols = Inr vs" "list_all2 (\<lambda>fc (f, w). f = fst fc \<and> delivers row fc w) ?cols vs" by auto
    have fld: "\<exists>w. map_of vs f = Some w \<and> field_of vs f = Inr w" if "f \<in> set (map fst ?cols)" for f
      using domestic.value_found [OF vs(2)] that by (auto simp: field_of_def) (metis fst_conv option.simps(5))
    have dates: "''listing_date'' \<in> set (map fst ?cols)" "''listing_end_date'' \<in> set (map fst ?cols)"
      "''base_index'' \<in> set (map fst ?cols)"
      by (simp_all add: DOMESTIC_FIELD_COLUMNS_def)
    have flags: "''sale_flag'' \<in> set (map fst ?cols)" "''suspension_flag'' \<in> set (map fst ?cols)"
      using domestic_kinds(7,8) by (force dest!: map_of_SomeD)+
    obtain sale susp st fin where f: "map_of vs ''sale_flag'' = Some sale" "field_of vs ''sale_flag'' = Inr sale"
      "map_of vs ''suspension_flag'' = Some susp" "field_of vs ''suspension_flag'' = Inr susp"
      "map_of vs ''listing_date'' = Some st" "field_of vs ''listing_date'' = Inr st"
      "map_of vs ''listing_end_date'' = Some fin" "field_of vs ''listing_end_date'' = Inr fin"
      using fld [OF flags(1)] fld [OF flags(2)] fld [OF dates(1)] fld [OF dates(2)] by blast
    let ?p = "\<lparr>lp_values = vs, lp_is_eligible_at_as_of = derive_eligibility sale susp st fin as_of\<rparr>"
    have valid: "validate_listed_product ?p = Inr ?p"
      using domestic.model_accepts [OF vs(2)] domestic.lineage_accepts [OF row(1) _ row(2) vs(2) dates(3), of "''domestic''"] assms
      by (simp add: validate_listed_product_def canonical_row_def)
    have "list_all (usable_warning row) (domestic_warnings vs)"
      using delivered_usable [OF _ assms] list_all2_delivers [OF vs(2)] by (fastforce simp: domestic_warnings_def list_all_iff)
    from listed_warnings_total [OF row(1) this] obtain "is" where
      i: "traverse (listed_warning_issue row) (domestic_warnings vs) = Inr is" "\<not> list_ex dq_quarantined is" "map warning_of is = domestic_warnings vs"
      by blast
    have "normalize_domestic_listed row as_of = Inr \<lparr>nr_record = Some ?p, nr_issues = is\<rparr>"
      using True vs(1) f valid i by (simp add: start normalization_result_of_def validate_quarantine_equivalence_def)
    with True q(2) ids vs(2) i(3) f show ?thesis by auto
  qed
qed

interpretation domestic_normalizer: quarantining_normalizer "\<lambda>(row, as_of). normalize_domestic_listed row as_of"
proof
  fix s n
  assume "(case s of (row, as_of) \<Rightarrow> normalize_domestic_listed row as_of) = Inr n"
  then show "\<exists>rec issues. normalization_result_of rec issues = Inr n"
    by (cases s) (auto simp: normalize_domestic_listed_def rbind_eq_Inr_iff split: if_splits)
qed


section \<open>Overseas rows\<close>

lemma overseas_identity_value:
  assumes "parse_exact_source_identity row (cp ''pd_itm_no'') rid rv = Inr pid" and "overseas_product_type row = Inr pt"
  shows "nv_normalized_value pid \<noteq> None \<longleftrightarrow>
      py_strip (raw_of row (cp ''pd_itm_no'')) \<noteq> [] \<and> py_strip (raw_of row (cp ''pd_itm_no'')) = raw_of row (cp ''pd_itm_no'')"
    and "nv_normalized_value pt = listed_type_of (raw_of row (cp ''pd_grp_no''))"
proof -
  show "nv_normalized_value pid \<noteq> None \<longleftrightarrow>
      py_strip (raw_of row (cp ''pd_itm_no'')) \<noteq> [] \<and> py_strip (raw_of row (cp ''pd_itm_no'')) = raw_of row (cp ''pd_itm_no'')"
    using assms(1) by (auto simp: parse_exact_source_identity_def raw_of_def rbind_eq_Inr_iff Let_def dest!: make_normalized_value_Inr split: if_splits)
  show "nv_normalized_value pt = listed_type_of (raw_of row (cp ''pd_grp_no''))"
    using listed_type_value_Inr [OF assms(2) [unfolded overseas_product_type_def]] by blast
qed

lemma overseas_warnings_usable:
  assumes "canonical_row table OVERSEAS_FIELD_COLUMNS row"
    and "list_all2 (\<lambda>fc (f, w). f = fst fc \<and> delivers row fc w) OVERSEAS_FIELD_COLUMNS vs"
  shows "\<exists>ws. overseas_warnings vs = Inr ws \<and> list_all (usable_warning row) ws"
proof -
  have fld: "\<exists>w. field_of vs f = Inr w \<and> (\<exists>fc. delivers row fc w)" if "f \<in> set (map fst OVERSEAS_FIELD_COLUMNS)" for f
    using overseas.value_found [OF assms(2)] that by (auto simp: field_of_def) (metis fst_conv option.simps(5))
  have names: "f \<in> set (map fst OVERSEAS_FIELD_COLUMNS)" if "f \<in> set overseas_numeric_fields \<or> f \<in> set overseas_date_fields" for f
    using that unfolding overseas_kinds(1,2) [symmetric] by auto
  obtain nums where nums: "traverse (field_of vs) overseas_numeric_fields = Inr nums" "\<forall>w \<in> set nums. \<exists>fc. delivers row fc w"
    using traverse_all [of overseas_numeric_fields "field_of vs" "\<lambda>w. \<exists>fc. delivers row fc w"] fld names by blast
  obtain dates where dates: "traverse (field_of vs) overseas_date_fields = Inr dates" "\<forall>w \<in> set dates. \<exists>fc. delivers row fc w"
    using traverse_all [of overseas_date_fields "field_of vs" "\<lambda>w. \<exists>fc. delivers row fc w"] fld names by blast
  have cur: "''trading_currency'' \<in> set (map fst OVERSEAS_FIELD_COLUMNS)"
    using map_of_SomeD [OF overseas_kinds(6)] by force
  from fld [OF this] obtain c fc where c: "field_of vs ''trading_currency'' = Inr c" "delivers row fc c" by blast
  have "cp ''pd_trd_ccy'' \<in> set (map sc_column_name (sr_cells row))"
    by (rule has_table_column [OF canonical_row_columns [OF assms(1)] overseas_kinds(6)])
  with c(2) have u: "usable_warning row (cp ''pd_trd_ccy'', nv_rule_id c, OUT_OF_DOMAIN, r)" for r
    by (simp add: usable_warning_def delivers_def)
  have "list_all (usable_warning row) (map (\<lambda>w. (loc_source_column_name (nv_source w), nv_rule_id w, INVALID_FORMAT, r))
      (filter (\<lambda>w. nv_quality_status w = INVALID_FORMAT) ws))" if "\<forall>w \<in> set ws. \<exists>fc. delivers row fc w" for ws r
    using that delivered_usable [OF _ assms(1)] by (auto simp: list_all_iff)
  from this [OF nums(2)] this [OF dates(2)] u show ?thesis
    by (simp add: overseas_warnings_def nums(1) dates(1) c(1) Let_def)
qed

lemma normalize_overseas_cases:
  assumes "canonical_row ''PREF02N001'' OVERSEAS_FIELD_COLUMNS row"
  shows "\<exists>n. normalize_overseas_listed row = Inr n \<and>
     (if py_strip (raw_of row (cp ''pd_itm_no'')) \<noteq> [] \<and> py_strip (raw_of row (cp ''pd_itm_no'')) = raw_of row (cp ''pd_itm_no'')
         \<and> listed_type_of (raw_of row (cp ''pd_grp_no'')) \<noteq> None
      then \<exists>p ws. nr_record n = Some p \<and>
          list_all2 (\<lambda>fc (f, w). f = fst fc \<and> delivers row fc w) OVERSEAS_FIELD_COLUMNS (op_values p) \<and>
          overseas_warnings (op_values p) = Inr ws \<and> mset (map warning_of (nr_issues n)) = mset ws \<and>
          sorted (map issue_sort_key (nr_issues n))
      else nr_record n = None)"
proof -
  let ?cols = OVERSEAS_FIELD_COLUMNS
  have row: "row_ok row" "sr_source_table row = overseas_table" and cols: "has_columns row (map column_of ?cols)"
    using assms canonical_row_columns [OF assms] by (auto simp: canonical_row_def)
  obtain pid pt where p: "parse_exact_source_identity row (cp ''pd_itm_no'') (cp ''overseas_listed.product_id'') listed_rule_version = Inr pid"
    "overseas_product_type row = Inr pt" by (rule overseas_identity_total [OF row(1) cols])
  note ids = overseas_identity_value [OF p]
  have "\<exists>is. overseas_identity_issues row pid pt = Inr is \<and>
      (is = [] \<longleftrightarrow> nv_normalized_value pid \<noteq> None \<and> nv_normalized_value pt \<noteq> None) \<and> (\<forall>i \<in> set is. dq_quarantined i)"
    unfolding overseas_identity_issues_def
    using identity_issues_total [OF row(1), of "[(nv_normalized_value pt = None, cp ''pd_grp_no'', cp ''overseas_listed.product_type'',
         cp ''Overseas listed product group has an invalid source format.''),
        (nv_normalized_value pid = None, cp ''pd_itm_no'', cp ''overseas_listed.product_id'',
         cp ''Overseas listed product identifier has an invalid source format.'')]"]
      has_table_column [OF cols overseas_kinds(4)] has_table_column [OF cols overseas_kinds(5)]
    by (auto simp: encodable_cp) (metis length_0_conv length_py_sorted)+
  then obtain q where q: "overseas_identity_issues row pid pt = Inr q"
    "q = [] \<longleftrightarrow> nv_normalized_value pid \<noteq> None \<and> nv_normalized_value pt \<noteq> None" "\<forall>i \<in> set q. dq_quarantined i" by blast
  note start = normalize_overseas_listed_def row(2) p q(1)
  show ?thesis
  proof (cases "q = []")
    case False
    with q(3) have "list_ex dq_quarantined q" by (cases q) auto
    with False q(2) ids show ?thesis by (auto simp: start normalization_result_of_def validate_quarantine_equivalence_def)
  next
    case True
    have "parse_fields (overseas_field pid pt) row ?cols = parse_fields overseas_parse row ?cols"
      by (simp add: parse_fields_def overseas_parse_def p)
    with overseas.fields_parsed [OF row(1) cols] obtain vs where
      vs: "parse_fields (overseas_field pid pt) row ?cols = Inr vs" "list_all2 (\<lambda>fc (f, w). f = fst fc \<and> delivers row fc w) ?cols vs" by auto
    have base: "''base_index'' \<in> set (map fst ?cols)" by (simp add: OVERSEAS_FIELD_COLUMNS_def)
    have valid: "validate_overseas_product \<lparr>op_values = vs\<rparr> = Inr \<lparr>op_values = vs\<rparr>"
      using overseas.model_accepts [OF vs(2)] overseas.lineage_accepts [OF row(1) _ row(2) vs(2) base, of "''overseas''"] assms
      by (simp add: validate_overseas_product_def canonical_row_def)
    obtain ws where ws: "overseas_warnings vs = Inr ws" "list_all (usable_warning row) ws"
      using overseas_warnings_usable [OF assms vs(2)] by blast
    from listed_warnings_total [OF row(1) ws(2)] obtain "is" where
      i: "traverse (listed_warning_issue row) ws = Inr is" "\<not> list_ex dq_quarantined is" "map warning_of is = ws" by blast
    have "\<not> list_ex dq_quarantined (py_sorted issue_sort_key is)" using i(2) by (simp add: list_ex_iff)
    then have "normalize_overseas_listed row = Inr \<lparr>nr_record = Some \<lparr>op_values = vs\<rparr>, nr_issues = py_sorted issue_sort_key is\<rparr>"
      using True vs(1) valid ws(1) i(1) by (simp add: start normalization_result_of_def validate_quarantine_equivalence_def)
    moreover have "mset (map warning_of (py_sorted issue_sort_key is)) = mset ws"
      using i(3) by (metis mset_map mset_py_sorted)
    ultimately show ?thesis using True q(2) ids vs(2) ws(1) sorted_py_sorted [of issue_sort_key "is"] by auto
  qed
qed

interpretation overseas_normalizer: quarantining_normalizer normalize_overseas_listed
proof
  fix s n
  assume "normalize_overseas_listed s = Inr n"
  then show "\<exists>rec issues. normalization_result_of rec issues = Inr n"
    by (auto simp: normalize_overseas_listed_def rbind_eq_Inr_iff split: if_splits)
qed


section \<open>A concrete row of a table\<close>

definition table_row :: "string \<Rightarrow> field_column list \<Rightarrow> (string \<times> string) list \<Rightarrow> source_row" where
  "table_row table fcs values =
     example_row table 7 (map (\<lambda>fc. (column_of fc, case map_of values (fst (snd fc)) of Some v \<Rightarrow> v | None \<Rightarrow> '''')) fcs)"

lemma example_row_ok:
  assumes "table \<noteq> []" and "0 < n" and "distinct (map fst cells)" and "[] \<notin> set (map fst cells)" and "list_all encodable (map fst cells)"
  shows "row_ok (example_row table n cells)"
proof -
  let ?cell = "\<lambda>(i, col, raw). \<lparr>sc_column_name = col, sc_excel_column_number = int i,
          sc_excel_column_letter = excel_column_letter (int i), sc_raw_value = cp raw, sc_applicable_date = None\<rparr>"
  let ?zip = "zip [1..<length cells + 1] cells"
  have names: "map sc_column_name (map ?cell ?zip) = map fst cells"
    by (rule nth_equalityI) (auto simp: nth_append split: prod.splits simp del: upt_Suc)
  have nums: "map sc_excel_column_number (map ?cell ?zip) = map int [1..<length cells + 1]"
    by (rule nth_equalityI) (auto split: prod.splits simp del: upt_Suc)
  have raws: "map sc_raw_value (map ?cell ?zip) = map (cp \<circ> snd) cells"
    by (rule nth_equalityI) (auto split: prod.splits simp del: upt_Suc)
  have "validate_excel_column_letter c = Inr c" if "c \<in> set (map ?cell ?zip)" for c
    using that by (auto simp: validate_excel_column_letter_def in_set_zip simp del: upt_Suc)
  then have cells: "\<exists>ds. traverse validate_excel_column_letter (map ?cell ?zip) = Inr ds" by (intro traverse_Inr_total) blast
  have enc: "list_all encodable (map (cp \<circ> snd) cells)" by (simp add: list_all_iff encodable_cp)
  have app: "list_all (\<lambda>c. case sc_applicable_date c of None \<Rightarrow> True | Some d \<Rightarrow> valid_date d) (map ?cell ?zip)"
    by (auto simp: list_all_iff)
  have fixed: "is_sha256_hex (replicate 64 97)" "\<not> unsafe_path \<lparr>path_absolute = False, path_parts = [cp ''products.xlsx'']\<rparr>"
    "valid_date (Date 2026 8 22)" by code_simp+
  show ?thesis
    unfolding row_ok_def validate_raw_lineage_Inr_iff example_row_def source_row.simps
    using names nums raws cells enc app fixed assms by (simp add: encodable_cp del: upt_Suc)
qed

lemma canonical_table_row:
  assumes "distinct (map (\<lambda>fc. fst (snd fc)) fcs)" and "'''' \<notin> set (map (\<lambda>fc. fst (snd fc)) fcs)" and "table \<noteq> []"
  shows "canonical_row table fcs (table_row table fcs values)"
proof -
  let ?cells = "map (\<lambda>fc. (column_of fc, case map_of values (fst (snd fc)) of Some v \<Rightarrow> v | None \<Rightarrow> '''')) fcs"
  have "distinct (map fst ?cells)" using assms(1) by (simp add: distinct_map inj_on_def)
  moreover have "[] \<notin> set (map fst ?cells)" using assms(2) by (auto simp: image_iff)
  moreover have "list_all encodable (map fst ?cells)" by (simp add: list_all_iff encodable_cp)
  ultimately have "row_ok (table_row table fcs values)"
    unfolding table_row_def using assms(3) by (intro example_row_ok) simp_all
  moreover have "map sc_column_name (sr_cells (table_row table fcs values)) = map column_of fcs"
    by (rule nth_equalityI) (auto simp: table_row_def example_row_def split: prod.splits simp del: upt_Suc)
  ultimately show ?thesis by (simp add: canonical_row_def table_row_def example_row_def)
qed

lemma table_row_raw:
  assumes "fc \<in> set fcs" and "distinct (map (\<lambda>fc. fst (snd fc)) fcs)" and "'''' \<notin> set (map (\<lambda>fc. fst (snd fc)) fcs)" and "table \<noteq> []"
  shows "raw_of (table_row table fcs values) (column_of fc) = cp (case map_of values (fst (snd fc)) of Some v \<Rightarrow> v | None \<Rightarrow> '''')"
proof -
  let ?row = "table_row table fcs values"
  from assms(1) obtain i where i: "i < length fcs" "fc = fcs ! i" by (auto simp: in_set_conv_nth)
  from canonical_table_row [OF assms(2,3,4)] have can: "canonical_row table fcs ?row" .
  obtain c where c: "row_cell ?row (column_of fc) = Inr c" using canonical_row_cell [OF can assms(1)] by blast
  from row_cell_Inr [OF c] obtain j where j: "j < length (sr_cells ?row)" "c = sr_cells ?row ! j" "sc_column_name c = column_of fc"
    by (auto simp: in_set_conv_nth)
  have len: "length (sr_cells ?row) = length fcs" using can by (metis canonical_row_def length_map)
  have "map sc_column_name (sr_cells ?row) = map column_of fcs" using can by (simp add: canonical_row_def)
  then have "column_of (fcs ! j) = column_of (fcs ! i)" using j len i by (metis nth_map)
  then have "fst (snd (fcs ! j)) = fst (snd (fcs ! i))" by simp
  with assms(2) i j(1) len have "j = i" by (metis (mono_tags, lifting) length_map nth_eq_iff_index_eq nth_map)
  with j(2) i len have "sc_raw_value c = cp (case map_of values (fst (snd fc)) of Some v \<Rightarrow> v | None \<Rightarrow> '''')"
    by (simp add: table_row_def example_row_def split: prod.splits)
  then show ?thesis using c by (simp add: raw_of_def)
qed

lemma domestic_columns_distinct:
  "distinct (map (\<lambda>fc. fst (snd fc)) DOMESTIC_FIELD_COLUMNS)" "'''' \<notin> set (map (\<lambda>fc. fst (snd fc)) DOMESTIC_FIELD_COLUMNS)"
proof -
  have "sorted_wrt (<) (map column_of DOMESTIC_FIELD_COLUMNS)" by (rule successively_strict) code_simp
  then have "distinct (map column_of DOMESTIC_FIELD_COLUMNS)" using strict_sorted_iff by blast
  then show "distinct (map (\<lambda>fc. fst (snd fc)) DOMESTIC_FIELD_COLUMNS)" by (simp add: distinct_map inj_on_def)
  show "'''' \<notin> set (map (\<lambda>fc. fst (snd fc)) DOMESTIC_FIELD_COLUMNS)" by (simp add: DOMESTIC_FIELD_COLUMNS_def)
qed

lemma overseas_columns_distinct:
  "distinct (map (\<lambda>fc. fst (snd fc)) OVERSEAS_FIELD_COLUMNS)" "'''' \<notin> set (map (\<lambda>fc. fst (snd fc)) OVERSEAS_FIELD_COLUMNS)"
  by (code_simp, simp add: OVERSEAS_FIELD_COLUMNS_def)


definition domestic_example :: source_row where
  "domestic_example = table_row ''PREF01N001'' DOMESTIC_FIELD_COLUMNS [(''pd_itm_no'', ''KR7069500007''), (''pd_grp_no'', ''ETF'')]"

definition overseas_example :: source_row where
  "overseas_example = table_row ''PREF02N001'' OVERSEAS_FIELD_COLUMNS [(''pd_itm_no'', ''SPY.P''), (''pd_grp_no'', ''ETF'')]"

lemma domestic_example_row:
  "canonical_row ''PREF01N001'' DOMESTIC_FIELD_COLUMNS domestic_example"
  "raw_of domestic_example (cp ''pd_itm_no'') = cp ''KR7069500007''" "raw_of domestic_example (cp ''pd_grp_no'') = cp ''ETF''"
proof -
  note d = domestic_columns_distinct
  have i: "(''product_id'', ''pd_itm_no'', KText) \<in> set DOMESTIC_FIELD_COLUMNS" "(''product_type'', ''pd_grp_no'', KProductType) \<in> set DOMESTIC_FIELD_COLUMNS"
    using map_of_SomeD [OF domestic_kinds(4)] map_of_SomeD [OF domestic_kinds(5)] by simp_all
  show "canonical_row ''PREF01N001'' DOMESTIC_FIELD_COLUMNS domestic_example"
    unfolding domestic_example_def by (rule canonical_table_row [OF d]) simp
  show "raw_of domestic_example (cp ''pd_itm_no'') = cp ''KR7069500007''"
    using table_row_raw [OF i(1) d, of "''PREF01N001''" "[(''pd_itm_no'', ''KR7069500007''), (''pd_grp_no'', ''ETF'')]"] by (simp add: domestic_example_def)
  show "raw_of domestic_example (cp ''pd_grp_no'') = cp ''ETF''"
    using table_row_raw [OF i(2) d, of "''PREF01N001''" "[(''pd_itm_no'', ''KR7069500007''), (''pd_grp_no'', ''ETF'')]"] by (simp add: domestic_example_def)
qed

lemma overseas_example_row:
  "canonical_row ''PREF02N001'' OVERSEAS_FIELD_COLUMNS overseas_example"
  "raw_of overseas_example (cp ''pd_itm_no'') = cp ''SPY.P''" "raw_of overseas_example (cp ''pd_grp_no'') = cp ''ETF''"
proof -
  note d = overseas_columns_distinct
  have i: "(''product_id'', ''pd_itm_no'', KText) \<in> set OVERSEAS_FIELD_COLUMNS" "(''product_type'', ''pd_grp_no'', KProductType) \<in> set OVERSEAS_FIELD_COLUMNS"
    using map_of_SomeD [OF overseas_kinds(4)] map_of_SomeD [OF overseas_kinds(5)] by simp_all
  show "canonical_row ''PREF02N001'' OVERSEAS_FIELD_COLUMNS overseas_example"
    unfolding overseas_example_def by (rule canonical_table_row [OF d]) simp
  show "raw_of overseas_example (cp ''pd_itm_no'') = cp ''SPY.P''"
    using table_row_raw [OF i(1) d, of "''PREF02N001''" "[(''pd_itm_no'', ''SPY.P''), (''pd_grp_no'', ''ETF'')]"] by (simp add: overseas_example_def)
  show "raw_of overseas_example (cp ''pd_grp_no'') = cp ''ETF''"
    using table_row_raw [OF i(2) d, of "''PREF02N001''" "[(''pd_itm_no'', ''SPY.P''), (''pd_grp_no'', ''ETF'')]"] by (simp add: overseas_example_def)
qed

section \<open>Properties\<close>

text \<open>C24. Domestic listed rows are normalized or quarantined, never lost. On every verified row with the
  columns of the table the normalizer returns; it yields a product exactly when the identifier and
  the product group are valid, and otherwise a quarantined issue.\<close>

theorem domestic_listed_total:
  assumes "canonical_row ''PREF01N001'' DOMESTIC_FIELD_COLUMNS row"
  shows "\<exists>n. normalize_domestic_listed row as_of = Inr n \<and>
     (nr_record n \<noteq> None \<longleftrightarrow> is_identifier (raw_of row (cp ''pd_itm_no'')) \<and> raw_of row (cp ''pd_grp_no'') \<in> {cp ''ETF'', cp ''ETN''}) \<and>
     (nr_record n = None \<longleftrightarrow> (\<exists>i \<in> set (nr_issues n). dq_quarantined i))"
proof -
  from normalize_domestic_cases [OF assms, of as_of] obtain n where n: "normalize_domestic_listed row as_of = Inr n"
    "nr_record n \<noteq> None \<longleftrightarrow> is_identifier (raw_of row (cp ''pd_itm_no'')) \<and> listed_type_of (raw_of row (cp ''pd_grp_no'')) \<noteq> None"
    by (cases "is_identifier (raw_of row (cp ''pd_itm_no'')) \<and> listed_type_of (raw_of row (cp ''pd_grp_no'')) \<noteq> None") auto
  moreover have "nr_record n = None \<longleftrightarrow> (\<exists>i \<in> set (nr_issues n). dq_quarantined i)"
    using domestic_normalizer.record_iff_not_quarantined [of "(row, as_of)" n] n(1) by simp
  ultimately show ?thesis by (auto simp: listed_type_of_def)
qed

theorem domestic_listed_total_witness:
  "\<exists>n. normalize_domestic_listed domestic_example (Date 2026 8 22) = Inr n \<and> nr_record n \<noteq> None"
proof -
  have "is_identifier (raw_of domestic_example (cp ''pd_itm_no''))" unfolding domestic_example_row(2) by code_simp
  then show ?thesis using domestic_listed_total [OF domestic_example_row(1), of "Date 2026 8 22"] domestic_example_row(3) by auto
qed

text \<open>C25. A domestic product is a faithful image of its row. Every field keeps the raw text and the locator of
  its own column and has its declared type, and the warnings are, in column order, exactly the fields
  whose text is malformed or outside its domain.\<close>

theorem domestic_listed_faithful:
  assumes "canonical_row ''PREF01N001'' DOMESTIC_FIELD_COLUMNS row" and "normalize_domestic_listed row as_of = Inr n"
    and "nr_record n = Some p"
  shows "list_all2 (\<lambda>fc (f, w). f = fst fc \<and> carries row (column_of fc) (lineage_of w) \<and> typed (kind_of fc) w)
       DOMESTIC_FIELD_COLUMNS (lp_values p) \<and>
     map warning_of (nr_issues n) = domestic_warnings (lp_values p)"
proof -
  have "list_all2 (\<lambda>fc (f, w). f = fst fc \<and> delivers row fc w) DOMESTIC_FIELD_COLUMNS (lp_values p) \<and>
      map warning_of (nr_issues n) = domestic_warnings (lp_values p)"
    using normalize_domestic_cases [OF assms(1), of as_of] assms(2,3) by (auto split: if_splits)
  then show ?thesis by (auto simp: delivers_def elim!: list_all2_mono)
qed

theorem domestic_listed_faithful_witness:
  "\<exists>n p. normalize_domestic_listed domestic_example (Date 2026 8 22) = Inr n \<and> nr_record n = Some p \<and>
     map warning_of (nr_issues n) = domestic_warnings (lp_values p)"
proof -
  have "is_identifier (raw_of domestic_example (cp ''pd_itm_no''))" "listed_type_of (raw_of domestic_example (cp ''pd_grp_no'')) \<noteq> None"
    unfolding domestic_example_row(2,3) by code_simp+
  then obtain n p where "normalize_domestic_listed domestic_example (Date 2026 8 22) = Inr n" "nr_record n = Some p"
    using normalize_domestic_cases [OF domestic_example_row(1), of "Date 2026 8 22"] by auto
  with domestic_listed_faithful [OF domestic_example_row(1) this] show ?thesis by blast
qed

text \<open>C26. Eligibility is three-valued and honest. A domestic product is marked eligible exactly when it is
  known to be on sale, known not to be suspended, already listed, and not yet past its listing end,
  which may be open; it is marked ineligible exactly when an obstacle is recorded; and in every other
  case the value is absent, never guessed.\<close>

theorem eligibility_three_valued:
  "(dv_value (derive_eligibility sale susp start finish as_of) = Some True \<longleftrightarrow>
       bool_of sale = Some True \<and> bool_of susp = Some False \<and> (\<exists>d. date_of start = Some d \<and> d \<le> as_of) \<and>
       (case date_of finish of Some d \<Rightarrow> as_of \<le> d | None \<Rightarrow> nv_quality_status finish \<in> {MISSING_BLANK, SENTINEL_MAX_DATE})) \<and>
   (dv_value (derive_eligibility sale susp start finish as_of) = Some False \<longleftrightarrow>
       bool_of sale = Some False \<or> bool_of susp = Some True \<or> (\<exists>d. date_of start = Some d \<and> as_of < d) \<or>
       (\<exists>d. date_of finish = Some d \<and> d < as_of))"
  unfolding derive_eligibility_values by blast

text \<open>Overseas listed rows are normalized or quarantined. On every verified row with the columns of the
  table the normalizer returns; it yields a product exactly when the identifier is a stripped,
  non-empty text and the product group is valid; every field of a product keeps the lineage and the
  type of its column; and the issues are the warnings of the product, ordered by column.\<close>

theorem overseas_listed_total:
  assumes "canonical_row ''PREF02N001'' OVERSEAS_FIELD_COLUMNS row"
  shows "\<exists>n. normalize_overseas_listed row = Inr n \<and>
     (nr_record n \<noteq> None \<longleftrightarrow> raw_of row (cp ''pd_itm_no'') \<noteq> [] \<and> py_strip (raw_of row (cp ''pd_itm_no'')) = raw_of row (cp ''pd_itm_no'') \<and>
        raw_of row (cp ''pd_grp_no'') \<in> {cp ''ETF'', cp ''ETN''}) \<and>
     (nr_record n = None \<longleftrightarrow> (\<exists>i \<in> set (nr_issues n). dq_quarantined i)) \<and>
     (\<forall>p. nr_record n = Some p \<longrightarrow>
        list_all2 (\<lambda>fc (f, w). f = fst fc \<and> carries row (column_of fc) (lineage_of w) \<and> typed (kind_of fc) w)
          OVERSEAS_FIELD_COLUMNS (op_values p) \<and>
        (\<exists>ws. overseas_warnings (op_values p) = Inr ws \<and> mset (map warning_of (nr_issues n)) = mset ws) \<and>
        sorted (map issue_sort_key (nr_issues n)))"
proof -
  let ?id = "raw_of row (cp ''pd_itm_no'')"
  let ?ok = "py_strip ?id \<noteq> [] \<and> py_strip ?id = ?id \<and> listed_type_of (raw_of row (cp ''pd_grp_no'')) \<noteq> None"
  from normalize_overseas_cases [OF assms] obtain n where n: "normalize_overseas_listed row = Inr n"
    "nr_record n \<noteq> None \<longleftrightarrow> ?ok" and rec: "\<And>p. nr_record n = Some p \<Longrightarrow>
      list_all2 (\<lambda>fc (f, w). f = fst fc \<and> delivers row fc w) OVERSEAS_FIELD_COLUMNS (op_values p) \<and>
      (\<exists>ws. overseas_warnings (op_values p) = Inr ws \<and> mset (map warning_of (nr_issues n)) = mset ws) \<and>
      sorted (map issue_sort_key (nr_issues n))"
    by (cases ?ok) auto
  have ok: "?ok \<longleftrightarrow> ?id \<noteq> [] \<and> py_strip ?id = ?id \<and> raw_of row (cp ''pd_grp_no'') \<in> {cp ''ETF'', cp ''ETN''}"
    by (auto simp: listed_type_of_def)
  have lin: "list_all2 (\<lambda>fc (f, w). f = fst fc \<and> carries row (column_of fc) (lineage_of w) \<and> typed (kind_of fc) w)
      OVERSEAS_FIELD_COLUMNS (op_values p)" if "nr_record n = Some p" for p
    using rec [OF that] by (auto simp: delivers_def elim!: list_all2_mono)
  show ?thesis
  proof (intro exI [of _ n] conjI)
    show "nr_record n = None \<longleftrightarrow> (\<exists>i \<in> set (nr_issues n). dq_quarantined i)"
      by (rule overseas_normalizer.record_iff_not_quarantined [OF n(1)])
    show "\<forall>p. nr_record n = Some p \<longrightarrow>
        list_all2 (\<lambda>fc (f, w). f = fst fc \<and> carries row (column_of fc) (lineage_of w) \<and> typed (kind_of fc) w)
          OVERSEAS_FIELD_COLUMNS (op_values p) \<and>
        (\<exists>ws. overseas_warnings (op_values p) = Inr ws \<and> mset (map warning_of (nr_issues n)) = mset ws) \<and>
        sorted (map issue_sort_key (nr_issues n))"
      using lin rec by simp
  qed (simp_all only: n ok)
qed

theorem overseas_listed_total_witness:
  "\<exists>n. normalize_overseas_listed overseas_example = Inr n \<and> nr_record n \<noteq> None"
proof -
  have "py_strip (raw_of overseas_example (cp ''pd_itm_no'')) = raw_of overseas_example (cp ''pd_itm_no'')"
    unfolding overseas_example_row(2) by code_simp
  then show ?thesis
    using overseas_listed_total [OF overseas_example_row(1)] overseas_example_row(2,3) by auto
qed

end
