(* ===== verification/Funds.thy ===== *)
theory Funds
  imports Listed
begin

text \<open>
  Public funds: the item contract of \<open>finproof/domain/public_funds.py\<close> (\<open>PublicFundItem\<close>, its
  columns and its lineage validator) and the normalizer
  \<open>finproof/data/normalization/public_funds.py\<close>, which turns one refreshed source row into one
  fund item, splits its attribute codes and checks them against the declared count.
\<close>

section \<open>domain/public_funds.py\<close>

text \<open>The fields of \<open>PublicFundItem\<close> in declaration order, with their columns and types.\<close>

definition PUBLIC_FUND_FIELDS :: "field_column list" where
  "PUBLIC_FUND_FIELDS =
     [(''benchmark_english_name'', ''bmrk_eng_nm'', KText), (''benchmark_name'', ''bmrk_nm'', KText),
      (''currency'', ''curr_cd'', KText), (''exchange_traded_flag_raw'', ''exchdg_yn'', KText),
      (''establishment_country_code'', ''fd_estb_ctry_cd'', KText), (''region_description'', ''fd_ivst_rgn_desc'', KText),
      (''return_18m'', ''fd_mm18_ern_r'', KDecimal), (''return_1m'', ''fd_mm1_ern_r'', KDecimal),
      (''return_3m'', ''fd_mm3_ern_r'', KDecimal), (''return_6m'', ''fd_mm6_ern_r'', KDecimal),
      (''net_assets'', ''fd_nast_suma'', KDecimal), (''establishment_type_code'', ''fd_set_pcd'', KText),
      (''return_1w'', ''fd_wk1_ern_r'', KDecimal), (''return_1y'', ''fd_yr1_ern_r'', KDecimal),
      (''return_2y'', ''fd_yr2_ern_r'', KDecimal), (''return_3y'', ''fd_yr3_ern_r'', KDecimal),
      (''return_5y'', ''fd_yr5_ern_r'', KDecimal), (''foreign_base_price_flag_raw'', ''frc_bpr_itm_yn'', KText),
      (''fss_item_id'', ''fss_itm_no'', KText), (''hedge_fund_flag_raw'', ''hdge_fd_yn'', KText),
      (''interest_dividend_description'', ''int_dvd_desc'', KText), (''short_name'', ''itm_abrv_nm'', KText),
      (''english_short_name'', ''itm_eabrv_nm'', KText), (''english_name'', ''itm_eng_nm'', KText),
      (''name'', ''itm_nm'', KText), (''fund_item_id'', ''itm_no'', KText),
      (''kofia_classification_code'', ''kofia_fd_ccd'', KText), (''ksd_id'', ''ksd_itm_no'', KText),
      (''manager_item_id'', ''mtco_itm_no'', KText), (''offshore_fund_flag_raw'', ''ofsfd_yn'', KText),
      (''fund_type_raw'', ''or_attr_desc'', KText), (''manager_external_code'', ''or_co_xtn_itt_cd'', KText),
      (''overseas_fund_description'', ''ovrs_fd_desc'', KText), (''investor_type_description'', ''pers_corp_desc'', KText),
      (''professional_sale_control_code'', ''pfiv_sale_cntl_tcd'', KText), (''attribute_count'', ''prfd_attr_cnt'', KInteger),
      (''attribute_search_text'', ''prfd_attr_search_text'', KText), (''private_fund_description'', ''prvo_fd_desc'', KText),
      (''offering_type_description'', ''prvo_pbff_desc'', KText), (''family_candidate_key'', ''rptt_ksd_itm_no'', KText),
      (''sale_status_raw'', ''sale_yn'', KText), (''standard_item_id'', ''std_itm_no'', KText),
      (''mirae_sale_flag_raw'', ''thco_sale_yn'', KText), (''trustee_external_code'', ''trusc_xtn_itt_cd'', KText),
      (''risk_code'', ''zrin_fd_ivst_risk_gcd'', KText), (''risk_name'', ''zrin_fd_ivst_risk_grd_nm'', KText)]"

definition PUBLIC_FUND_FIELD_COLUMNS :: "field_column list" where
  "PUBLIC_FUND_FIELD_COLUMNS =
     filter (\<lambda>fc. fst fc \<notin> {''attribute_count'', ''attribute_search_text''}) PUBLIC_FUND_FIELDS
     @ [(''attribute_count'', ''prfd_attr_cnt'', KInteger), (''attribute_search_text'', ''prfd_attr_search_text'', KText)]"

definition PUBLIC_FUND_SOURCE_COLUMNS :: "string list" where
  "PUBLIC_FUND_SOURCE_COLUMNS =
     [''bmrk_eng_nm'', ''bmrk_nm'', ''bns_bpr'', ''curr_cd'', ''exchdg_yn'', ''fd_daily_bas_dt'', ''fd_estb_ctry_cd'',
      ''fd_ivst_rgn_desc'', ''fd_last_dstb_actg_bss_dt'', ''fd_last_dstb_actg_eot_dt'', ''fd_last_dstb_r'', ''fd_mm18_ern_r'',
      ''fd_mm1_ern_r'', ''fd_mm3_ern_r'', ''fd_mm6_ern_r'', ''fd_nast_suma'', ''fd_price_bas_dt'', ''fd_prsv_r'', ''fd_sbpr'',
      ''fd_set_pcd'', ''fd_wk1_ern_r'', ''fd_yr1_ern_r'', ''fd_yr2_ern_r'', ''fd_yr3_ern_r'', ''fd_yr5_ern_r'',
      ''frc_bpr_itm_yn'', ''fss_itm_no'', ''han_clas_fee_type'', ''han_clas_nm'', ''han_clas_policies'',
      ''han_clas_sales_channel'', ''hdge_fd_yn'', ''int_dvd_desc'', ''itm_abrv_nm'', ''itm_eabrv_nm'', ''itm_eng_nm'',
      ''itm_nm'', ''itm_no'', ''kofia_fd_ccd'', ''ksd_itm_no'', ''mtco_itm_no'', ''ofsfd_yn'', ''ofwk_trus_rwrd_r'',
      ''or_attr_desc'', ''or_co_rwrd_r'', ''or_co_xtn_itt_cd'', ''ovrs_fd_desc'', ''pers_corp_desc'', ''pfiv_sale_cntl_tcd'',
      ''prfd_attr_cds'', ''prfd_attr_cnt'', ''prfd_attr_search_text'', ''prvo_fd_desc'', ''prvo_pbff_desc'',
      ''rptt_ksd_itm_no'', ''sale_co_rwrd_r'', ''sale_yn'', ''std_itm_no'', ''thco_sale_yn'', ''trusc_rwrd_r'',
      ''trusc_xtn_itt_cd'', ''zrin_attr_nms'', ''zrin_btyp_cd'', ''zrin_btyp_nm'', ''zrin_dmst_bd_cmst_rt'',
      ''zrin_dmst_stk_cmst_rt'', ''zrin_etc_ast_cmst_rt'', ''zrin_fd_cmst_rt'', ''zrin_fd_ivst_risk_gcd'',
      ''zrin_fd_ivst_risk_grd_nm'', ''zrin_liqt_cmst_rt'', ''zrin_ovrs_bd_cmst_rt'', ''zrin_ovrs_stk_cmst_rt'', ''zrin_pcd'',
      ''zrin_ptn_nm'']"

record public_fund_item =
  fi_source_row :: source_row
  fi_attribute_codes :: "pystr list"
  fi_values :: field_values

text \<open>\<open>() if raw == "" else tuple(raw.split(","))\<close>\<close>

definition comma_split :: "pystr \<Rightarrow> pystr list" where
  "comma_split raw = (if raw = [] then [] else py_split 44 raw)"

fun check_fund_fields :: "source_row \<Rightarrow> field_values \<Rightarrow> field_column list \<Rightarrow> unit result" where
  "check_fund_fields row values [] = Inr ()"
| "check_fund_fields row values (fc # fcs) =
     rbind (field_of values (fst fc)) (\<lambda>w.
     rbind (row_cell row (column_of fc)) (\<lambda>cell.
     rbind (raise_if (nv_raw_value w \<noteq> sc_raw_value cell)
              (ValueError ''public-fund wrapper raw value does not match source row'')) (\<lambda>_.
     rbind (locator_from_row row (column_of fc)) (\<lambda>l.
     rbind (raise_if (nv_source w \<noteq> l) (ValueError ''public-fund wrapper locator does not match source row'')) (\<lambda>_.
       check_fund_fields row values fcs)))))"

definition validate_fund_item :: "public_fund_item \<Rightarrow> public_fund_item result" where
  "validate_fund_item item =
     (let row = fi_source_row item in
      rbind (check_model_fields PUBLIC_FUND_FIELDS (fi_values item)) (\<lambda>_.
      rbind (raise_if (sr_source_table row \<noteq> cp ''PRFD01N001'') (ValueError ''public-fund source row must name PRFD01N001'')) (\<lambda>_.
      rbind (raise_if (map sc_column_name (sr_cells row) \<noteq> map cp PUBLIC_FUND_SOURCE_COLUMNS)
               (ValueError ''public-fund source row must use canonical column order'')) (\<lambda>_.
      rbind (row_cell row (cp ''prfd_attr_cds'')) (\<lambda>cell.
      rbind (raise_if (fi_attribute_codes item \<noteq> comma_split (sc_raw_value cell))
               (ValueError ''attribute_codes must preserve the exact comma split'')) (\<lambda>_.
      rbind (check_fund_fields row (fi_values item) PUBLIC_FUND_FIELD_COLUMNS) (\<lambda>_. Inr item)))))))"

section \<open>normalization/public_funds.py\<close>

abbreviation fund_table :: pystr where "fund_table \<equiv> cp ''PRFD01N001''"
abbreviation fund_rule_version :: pystr where "fund_rule_version \<equiv> cp ''1.0.0''"

text \<open>The retired grouping entry points.\<close>

definition retired_fund_path :: "'a \<Rightarrow> 'b result" where
  "retired_fund_path rows = Inl (RuntimeError ''public-fund source-row grouping/collapse path is retired'')"

definition validate_item_key :: "source_row \<Rightarrow> pystr normalized_value result" where
  "validate_item_key row =
     rbind (raise_if (sr_source_table row \<noteq> fund_table) (NormalizationContractError fund_table (sr_source_table row))) (\<lambda>_.
       parse_identifier row (cp ''itm_no'') (cp ''public_fund.fund_item_id'') fund_rule_version)"

definition fund_text :: "source_row \<Rightarrow> pystr \<Rightarrow> string \<Rightarrow> pystr normalized_value result" where
  "fund_text row column f = parse_text row column (cp (''public_fund.'' @ f)) fund_rule_version"

definition fund_decimal :: "source_row \<Rightarrow> pystr \<Rightarrow> string \<Rightarrow> decimal normalized_value result" where
  "fund_decimal row column f = parse_decimal row column RECORDED_ZERO (cp (''public_fund.'' @ f)) fund_rule_version"

definition registered_return :: "source_row \<Rightarrow> pystr \<Rightarrow> string \<Rightarrow> decimal normalized_value result" where
  "registered_return row column f =
     rbind (fund_decimal row column f) (\<lambda>w.
       Inr (case nv_normalized_value w of
              Some d \<Rightarrow> if dval d < -100 then w\<lparr>nv_quality_status := OUT_OF_DOMAIN\<rparr> else w
            | None \<Rightarrow> w))"

definition fund_currency :: "source_row \<Rightarrow> pystr normalized_value result" where
  "fund_currency row =
     rbind (row_cell row (cp ''curr_cd'')) (\<lambda>cell.
       let raw = sc_raw_value cell in
       if py_strip raw = [] then fund_text row (cp ''curr_cd'') ''currency''
       else if raw = cp ''KRW'' \<or> raw = cp ''USD''
       then make_normalized_value row (cp ''curr_cd'') (Some raw) VALID (cp ''public_fund.currency'') fund_rule_version
       else make_normalized_value row (cp ''curr_cd'') None OUT_OF_DOMAIN (cp ''public_fund.currency'') fund_rule_version)"

definition fund_type :: "source_row \<Rightarrow> pystr normalized_value result" where
  "fund_type row =
     rbind (fund_text row (cp ''or_attr_desc'') ''fund_type_raw'') (\<lambda>w.
       if nv_normalized_value w \<noteq> Some (cp ''06'') then Inr w
       else make_normalized_value row (cp ''or_attr_desc'') (Some (cp ''06'')) MIXED_SOURCE_VALUES
              (cp ''public_fund.fund_type_unmapped_code'') fund_rule_version)"

definition fund_risk_text :: "source_row \<Rightarrow> pystr \<Rightarrow> string \<Rightarrow> pystr normalized_value result" where
  "fund_risk_text row column f = parse_literal_null_text row column (cp (''public_fund.'' @ f)) fund_rule_version"

text \<open>The numeric fields in the order their issues are collected, and those held to the registered domain.\<close>

definition fund_numeric_fields :: "string list" where
  "fund_numeric_fields =
     [''return_18m'', ''return_1m'', ''return_3m'', ''return_6m'', ''net_assets'', ''return_1w'', ''return_1y'', ''return_2y'',
      ''return_3y'', ''return_5y'']"

definition registered_return_fields :: "string list" where
  "registered_return_fields = [''return_18m'', ''return_2y'', ''return_3y'', ''return_5y'']"

text \<open>The argument of the constructor for one field.\<close>

definition fund_field ::
  "pystr normalized_value \<Rightarrow> int normalized_value \<Rightarrow> source_row \<Rightarrow> field_column \<Rightarrow> wrapped result" where
  "fund_field fund_item_id attribute_count row fc =
     (let f = fst fc; column = column_of fc in
      if f = ''fund_item_id'' then Inr (wrap VText fund_item_id)
      else if f = ''attribute_count'' then Inr (wrap VInteger attribute_count)
      else if f = ''currency'' then wrapped_result VText (fund_currency row)
      else if f = ''fund_type_raw'' then wrapped_result VText (fund_type row)
      else if f = ''risk_code'' \<or> f = ''risk_name'' then wrapped_result VText (fund_risk_text row column f)
      else if f \<in> set registered_return_fields then wrapped_result VDecimal (registered_return row column f)
      else if f \<in> set fund_numeric_fields then wrapped_result VDecimal (fund_decimal row column f)
      else wrapped_result VText (fund_text row column f))"

definition fund_issue_sort_key :: "data_quality_issue \<Rightarrow> int \<times> int \<times> pystr \<times> pystr" where
  "fund_issue_sort_key i =
     (loc_source_row_number (dq_source i), loc_source_column_number (dq_source i), dq_rule_id i, dq_issue_id i)"

definition fund_warning_issue :: "source_row \<Rightarrow> pystr \<times> pystr \<times> quality_status \<times> pystr \<Rightarrow> data_quality_issue result" where
  "fund_warning_issue row w =
     (case w of (column, rule_id, status, reason) \<Rightarrow>
        rbind (raise_if (column \<notin> set (map cp PUBLIC_FUND_SOURCE_COLUMNS))
                 (ValueError ''public-fund issue column must be declared'')) (\<lambda>_.
          issue_from_row row column rule_id fund_rule_version WARNING status reason False))"

definition fund_key_issue :: "source_row \<Rightarrow> data_quality_issue result" where
  "fund_key_issue row =
     issue_from_row row (cp ''itm_no'') (cp ''public_fund.malformed_item'') fund_rule_version BLOCKER MALFORMED_SOURCE_ROW
       (cp ''Public-fund item identifier has an invalid source format.'') True"

definition count_warning :: "pystr list \<Rightarrow> int normalized_value \<Rightarrow> (pystr \<times> pystr \<times> quality_status \<times> pystr) list" where
  "count_warning codes attribute_count =
     (if nv_quality_status attribute_count = INVALID_FORMAT
      then [(cp ''prfd_attr_cnt'', nv_rule_id attribute_count, INVALID_FORMAT, cp ''Public-fund attribute count is invalid.'')]
      else if nv_normalized_value attribute_count \<noteq> Some (int (length codes))
      then [(cp ''prfd_attr_cnt'', cp ''public_fund.attribute_count_mismatch'', MIXED_SOURCE_VALUES,
             cp ''Public-fund attribute count differs from the comma-split list.'')]
      else [])"

definition fund_warnings ::
  "field_values \<Rightarrow> pystr list \<Rightarrow> int normalized_value \<Rightarrow> (pystr \<times> pystr \<times> quality_status \<times> pystr) list result" where
  "fund_warnings values codes attribute_count =
     rbind (traverse (field_of values) fund_numeric_fields) (\<lambda>numeric.
     rbind (field_of values ''currency'') (\<lambda>currency.
     rbind (field_of values ''fund_type_raw'') (\<lambda>fund_type_raw.
       let with_status = (\<lambda>status reason. map (\<lambda>w. (loc_source_column_name (nv_source w), nv_rule_id w, status, reason))
             (filter (\<lambda>w. nv_quality_status w = status) numeric)) in
       Inr (with_status INVALID_FORMAT (cp ''Public-fund numeric value is invalid.'')
            @ with_status OUT_OF_DOMAIN (cp ''Public-fund return is below the registered comparison domain.'')
            @ (if nv_quality_status currency = OUT_OF_DOMAIN
               then [(cp ''curr_cd'', nv_rule_id currency, OUT_OF_DOMAIN, cp ''Public-fund currency is invalid.'')] else [])
            @ (if nv_quality_status fund_type_raw = MIXED_SOURCE_VALUES
               then [(cp ''or_attr_desc'', nv_rule_id fund_type_raw, MIXED_SOURCE_VALUES,
                      cp ''Public-fund type code has mixed source semantics.'')] else [])
            @ count_warning codes attribute_count))))"

definition normalize_public_fund_item :: "source_row \<Rightarrow> public_fund_item normalization_result result" where
  "normalize_public_fund_item row =
     rbind (validate_item_key row) (\<lambda>fund_item_id.
       if nv_normalized_value fund_item_id = None
       then rbind (fund_key_issue row) (\<lambda>issue. normalization_result_of None [issue])
       else
         rbind (row_cell row (cp ''prfd_attr_cds'')) (\<lambda>cell.
         let codes = comma_split (sc_raw_value cell) in
         rbind (parse_integer row (cp ''prfd_attr_cnt'') RECORDED_ZERO (cp ''public_fund.attribute_count'') fund_rule_version) (\<lambda>attribute_count.
         rbind (parse_fields (fund_field fund_item_id attribute_count) row PUBLIC_FUND_FIELDS) (\<lambda>values.
         rbind (validate_fund_item \<lparr>fi_source_row = row, fi_attribute_codes = codes, fi_values = values\<rparr>) (\<lambda>rec.
         rbind (fund_warnings values codes attribute_count) (\<lambda>ws.
         rbind (traverse (fund_warning_issue row) ws) (\<lambda>issues.
           normalization_result_of (Some rec) (py_sorted fund_issue_sort_key issues))))))))"

section \<open>The table of fund fields meets the contract\<close>

lemma fund_fields_distinct: "distinct (map fst PUBLIC_FUND_FIELDS)"
  by code_simp

lemma fund_kinds:
  "map fst (filter (\<lambda>fc. kind_of fc = KDecimal) PUBLIC_FUND_FIELDS) = fund_numeric_fields"
  "map fst (filter (\<lambda>fc. kind_of fc \<notin> {KDecimal, KText}) PUBLIC_FUND_FIELDS) = [''attribute_count'']"
  "map_of PUBLIC_FUND_FIELDS ''fund_item_id'' = Some (''itm_no'', KText)"
  "map_of PUBLIC_FUND_FIELDS ''attribute_count'' = Some (''prfd_attr_cnt'', KInteger)"
  "map_of PUBLIC_FUND_FIELDS ''currency'' = Some (''curr_cd'', KText)"
  "map_of PUBLIC_FUND_FIELDS ''fund_type_raw'' = Some (''or_attr_desc'', KText)"
  "map_of PUBLIC_FUND_FIELDS ''risk_code'' = Some (''zrin_fd_ivst_risk_gcd'', KText)"
  "map_of PUBLIC_FUND_FIELDS ''risk_name'' = Some (''zrin_fd_ivst_risk_grd_nm'', KText)"
  by code_simp+

lemma registered_are_numeric: "list_all (\<lambda>f. f \<in> set fund_numeric_fields) registered_return_fields"
  by code_simp

lemma fund_entry:
  assumes "fc \<in> set PUBLIC_FUND_FIELDS"
  shows "fst fc = ''fund_item_id'' \<Longrightarrow> snd fc = (''itm_no'', KText)"
    and "fst fc = ''attribute_count'' \<Longrightarrow> snd fc = (''prfd_attr_cnt'', KInteger)"
    and "fst fc = ''currency'' \<Longrightarrow> snd fc = (''curr_cd'', KText)"
    and "fst fc = ''fund_type_raw'' \<Longrightarrow> snd fc = (''or_attr_desc'', KText)"
    and "fst fc = ''risk_code'' \<or> fst fc = ''risk_name'' \<Longrightarrow> kind_of fc = KText"
    and "fst fc \<in> set fund_numeric_fields \<longleftrightarrow> kind_of fc = KDecimal"
    and "fst fc \<in> set registered_return_fields \<Longrightarrow> kind_of fc = KDecimal"
    and "fst fc \<noteq> ''attribute_count'' \<Longrightarrow> kind_of fc \<in> {KDecimal, KText}"
proof -
  note entry = entry_iff [OF fund_fields_distinct _ assms] and selected = selected_iff [OF fund_fields_distinct _ assms]
  show "fst fc = ''fund_item_id'' \<Longrightarrow> snd fc = (''itm_no'', KText)" by (rule entry [OF fund_kinds(3)])
  show "fst fc = ''attribute_count'' \<Longrightarrow> snd fc = (''prfd_attr_cnt'', KInteger)" by (rule entry [OF fund_kinds(4)])
  show "fst fc = ''currency'' \<Longrightarrow> snd fc = (''curr_cd'', KText)" by (rule entry [OF fund_kinds(5)])
  show "fst fc = ''fund_type_raw'' \<Longrightarrow> snd fc = (''or_attr_desc'', KText)" by (rule entry [OF fund_kinds(6)])
  show "fst fc = ''risk_code'' \<or> fst fc = ''risk_name'' \<Longrightarrow> kind_of fc = KText"
    using entry [OF fund_kinds(7)] entry [OF fund_kinds(8)] by (elim disjE) simp_all
  show dec: "fst fc \<in> set fund_numeric_fields \<longleftrightarrow> kind_of fc = KDecimal" by (rule selected [OF fund_kinds(1)])
  show "kind_of fc = KDecimal" if "fst fc \<in> set registered_return_fields"
    using that registered_are_numeric [unfolded list_all_iff, rule_format, OF that] by (simp only: dec)
  have "fst fc \<in> set [''attribute_count''] \<longleftrightarrow> kind_of fc \<notin> {KDecimal, KText}" by (rule selected [OF fund_kinds(2)])
  then show "fst fc \<noteq> ''attribute_count'' \<Longrightarrow> kind_of fc \<in> {KDecimal, KText}" unfolding list.set by blast
qed

lemma fund_currency_delivers:
  assumes "row_ok row" and "row_cell row (column_of fc) = Inr c" and "column_of fc = cp ''curr_cd''" and "kind_of fc = KText"
  shows "\<exists>w. wrapped_result VText (fund_currency row) = Inr w \<and> delivers row fc w"
proof -
  have "\<exists>w. wrapped_result VText (fund_text row (column_of fc) ''currency'') = Inr w \<and> delivers row fc w"
    unfolding fund_text_def using assms by (intro text_parser.delivers_wrapped) (simp_all add: encodable_cp)
  moreover have "\<exists>w. wrapped_result VText (make_normalized_value row (column_of fc) v q (cp ''public_fund.currency'') fund_rule_version)
      = Inr w \<and> delivers row fc w" for v q
    using assms by (intro delivers_made) (simp_all add: encodable_cp)
  ultimately show ?thesis using assms(2,3) by (simp add: fund_currency_def Let_def)
qed

lemma fund_type_delivers:
  assumes "row_ok row" and "row_cell row (column_of fc) = Inr c" and "column_of fc = cp ''or_attr_desc''" and "kind_of fc = KText"
  shows "\<exists>w. wrapped_result VText (fund_type row) = Inr w \<and> delivers row fc w"
proof -
  have "\<exists>w. wrapped_result VText (fund_text row (column_of fc) ''fund_type_raw'') = Inr w \<and> delivers row fc w"
    unfolding fund_text_def using assms by (intro text_parser.delivers_wrapped) (simp_all add: encodable_cp)
  then obtain n where n: "fund_text row (column_of fc) ''fund_type_raw'' = Inr n" "delivers row fc (wrap VText n)"
    by (auto simp: wrapped_result_def rbind_eq_Inr_iff)
  moreover have "\<exists>w. wrapped_result VText (make_normalized_value row (column_of fc) v q (cp ''public_fund.fund_type_unmapped_code'') fund_rule_version)
      = Inr w \<and> delivers row fc w" for v q
    using assms by (intro delivers_made) (simp_all add: encodable_cp)
  ultimately show ?thesis using assms(3) by (simp add: fund_type_def) (simp add: wrapped_result_def)
qed

text \<open>Marking a return as outside its domain changes neither its lineage nor its value.\<close>

lemma registered_return_delivers:
  assumes "row_ok row" and "row_cell row (column_of fc) = Inr c" and "kind_of fc = KDecimal"
  shows "\<exists>w. wrapped_result VDecimal (registered_return row (column_of fc) f) = Inr w \<and> delivers row fc w"
proof -
  have "\<exists>w. wrapped_result VDecimal (fund_decimal row (column_of fc) f) = Inr w \<and> delivers row fc w"
    unfolding fund_decimal_def using assms by (intro dec_parser.delivers_wrapped) (simp_all add: encodable_cp)
  then obtain n where n: "fund_decimal row (column_of fc) f = Inr n" "delivers row fc (wrap VDecimal n)"
    by (auto simp: wrapped_result_def rbind_eq_Inr_iff)
  then have "delivers row fc (wrap VDecimal (n\<lparr>nv_quality_status := q\<rparr>))" for q
    by (simp add: delivers_def typed_def lineage_of_def)
  with n show ?thesis by (simp add: registered_return_def wrapped_result_def split: option.splits)
qed

lemma fund_field_delivers:
  assumes "row_ok row" and "fc \<in> set PUBLIC_FUND_FIELDS" and "row_cell row (column_of fc) = Inr c"
    and "parse_identifier row (cp ''itm_no'') (cp ''public_fund.fund_item_id'') fund_rule_version = Inr pid"
    and "parse_integer row (cp ''prfd_attr_cnt'') RECORDED_ZERO (cp ''public_fund.attribute_count'') fund_rule_version = Inr cnt"
  shows "\<exists>w. fund_field pid cnt row fc = Inr w \<and> delivers row fc w"
proof -
  obtain f col k where fc: "fc = (f, col, k)" by (cases fc)
  note e = fund_entry [OF assms(2)]
  have rid: "cp (''public_fund.'' @ f) \<noteq> []" "encodable (cp (''public_fund.'' @ f))" by (simp_all add: encodable_cp)
  note cell = assms(1) assms(3)
  let ?named = "f = ''fund_item_id'' \<or> f = ''attribute_count'' \<or> f = ''currency'' \<or> f = ''fund_type_raw'' \<or> f = ''risk_code'' \<or> f = ''risk_name''"
  consider (pid) "f = ''fund_item_id''" | (cnt) "f = ''attribute_count''" | (cur) "f = ''currency''" | (type) "f = ''fund_type_raw''"
    | (risk) "f = ''risk_code'' \<or> f = ''risk_name''"
    | (ret) "\<not> ?named" "f \<in> set registered_return_fields"
    | (dec) "\<not> ?named" "f \<notin> set registered_return_fields" "f \<in> set fund_numeric_fields"
    | (plain) "\<not> ?named" "f \<notin> set registered_return_fields" "f \<notin> set fund_numeric_fields"
    by satx
  then show ?thesis
  proof cases
    case pid
    with e(1) have "k = KText" "col = ''itm_no''" by (simp_all add: fc)
    then show ?thesis
      using parse_identifier_carries [OF assms(4)] ident_parser.rule [OF assms(4)] pid
      by (simp add: fc fund_field_def delivers_def typed_wrap encodable_cp)
  next
    case cnt
    with e(2) have "k = KInteger" "col = ''prfd_attr_cnt''" by (simp_all add: fc)
    moreover have "carries row (cp ''prfd_attr_cnt'') (lineage_of cnt)" by (rule carriesI) (rule int_parser.lineage [OF assms(5)])
    ultimately show ?thesis
      using int_parser.rule [OF assms(5)] cnt by (simp add: fc fund_field_def delivers_def typed_wrap encodable_cp)
  next
    case cur
    with e(3) have "kind_of fc = KText" "column_of fc = cp ''curr_cd''" by (simp_all add: fc)
    from fund_currency_delivers [OF cell this(2,1)] cur show ?thesis by (simp add: fc fund_field_def)
  next
    case type
    with e(4) have "kind_of fc = KText" "column_of fc = cp ''or_attr_desc''" by (simp_all add: fc)
    from fund_type_delivers [OF cell this(2,1)] type show ?thesis by (simp add: fc fund_field_def)
  next
    case risk
    with e(5) have "kind_of fc = KText" by (simp add: fc)
    then have "\<exists>w. wrapped_result VText (fund_risk_text row (column_of fc) f) = Inr w \<and> delivers row fc w"
      unfolding fund_risk_text_def by (intro null_parser.delivers_wrapped [OF cell rid]) simp_all
    with risk show ?thesis by (auto simp: fc fund_field_def Let_def)
  next
    case ret
    with e(7) have "kind_of fc = KDecimal" by (simp add: fc)
    from registered_return_delivers [OF cell this, of f] ret show ?thesis by (simp add: fc fund_field_def Let_def)
  next
    case dec
    with e(6) have "kind_of fc = KDecimal" by (simp add: fc)
    then have "\<exists>w. wrapped_result VDecimal (fund_decimal row (column_of fc) f) = Inr w \<and> delivers row fc w"
      unfolding fund_decimal_def by (intro dec_parser.delivers_wrapped [OF cell rid]) simp_all
    with dec show ?thesis by (simp add: fc fund_field_def Let_def)
  next
    case plain
    with e(6,8) have "kind_of fc = KText" by (simp add: fc)
    then have "\<exists>w. wrapped_result VText (fund_text row (column_of fc) f) = Inr w \<and> delivers row fc w"
      unfolding fund_text_def by (intro text_parser.delivers_wrapped [OF cell rid]) simp_all
    with plain show ?thesis by (simp add: fc fund_field_def Let_def)
  qed
qed

section \<open>Rows of the fund table\<close>

text \<open>The columns of the refreshed table; a row of it may hold more columns than the item reads.\<close>

definition fund_columns :: "field_column list" where
  "fund_columns = map (\<lambda>c. (c, c, KText)) PUBLIC_FUND_SOURCE_COLUMNS"

lemma fund_columns_names: "map column_of fund_columns = map cp PUBLIC_FUND_SOURCE_COLUMNS"
  by (simp add: fund_columns_def)

primrec subsequence :: "'a list \<Rightarrow> 'a list \<Rightarrow> bool" where
  "subsequence xs [] = (xs = [])"
| "subsequence xs (y # ys) = (case xs of [] \<Rightarrow> True | x # xs' \<Rightarrow> if x = y then subsequence xs' ys else subsequence xs ys)"

lemma subsequence_set: "subsequence xs ys \<Longrightarrow> set xs \<subseteq> set ys"
proof (induction ys arbitrary: xs)
  case (Cons y ys)
  then show ?case by (cases xs) (fastforce split: if_splits)+
qed simp

lemma fund_field_columns: "set (map (\<lambda>fc. fst (snd fc)) PUBLIC_FUND_FIELDS) \<subseteq> set PUBLIC_FUND_SOURCE_COLUMNS"
proof -
  have "subsequence (map (\<lambda>fc. fst (snd fc)) PUBLIC_FUND_FIELDS) PUBLIC_FUND_SOURCE_COLUMNS" by code_simp
  then show ?thesis by (rule subsequence_set)
qed

lemma fund_source_sorted: "sorted_wrt (<) (map cp PUBLIC_FUND_SOURCE_COLUMNS)" "sorted_wrt (<) (map column_of PUBLIC_FUND_FIELDS)"
  by (rule successively_strict, code_simp)+

lemma fund_column_determines:
  assumes "fc \<in> set PUBLIC_FUND_FIELDS" and "fc' \<in> set PUBLIC_FUND_FIELDS" and "column_of fc = column_of fc'"
  shows "fc = fc'"
proof -
  have "distinct (map column_of PUBLIC_FUND_FIELDS)" using fund_source_sorted(2) strict_sorted_iff by blast
  with assms show ?thesis by (auto simp: distinct_map inj_on_def)
qed

abbreviation fund_row :: "source_row \<Rightarrow> bool" where
  "fund_row row \<equiv> canonical_row ''PRFD01N001'' fund_columns row"

lemma fund_row_has_columns: "fund_row row \<Longrightarrow> has_columns row (map column_of PUBLIC_FUND_FIELDS)"
  using fund_field_columns by (auto simp: canonical_row_def has_columns_def list_all_iff fund_columns_names simp del: cp_eq_iff)

lemma fund_row_column:
  assumes "fund_row row" and "c \<in> set PUBLIC_FUND_SOURCE_COLUMNS"
  shows "\<exists>cell. row_cell row (cp c) = Inr cell"
  using assms by (intro row_cell_present) (auto simp: canonical_row_def fund_columns_names)

lemma attribute_code_column: "''prfd_attr_cds'' \<in> set PUBLIC_FUND_SOURCE_COLUMNS"
  by (simp add: PUBLIC_FUND_SOURCE_COLUMNS_def)

definition fund_parse :: "source_row \<Rightarrow> field_column \<Rightarrow> wrapped result" where
  "fund_parse row fc =
     rbind (parse_identifier row (cp ''itm_no'') (cp ''public_fund.fund_item_id'') fund_rule_version) (\<lambda>pid.
     rbind (parse_integer row (cp ''prfd_attr_cnt'') RECORDED_ZERO (cp ''public_fund.attribute_count'') fund_rule_version) (\<lambda>cnt.
       fund_field pid cnt row fc))"

lemma fund_identity_total:
  assumes "row_ok row" and "has_columns row (map column_of PUBLIC_FUND_FIELDS)"
  obtains pid cnt where "parse_identifier row (cp ''itm_no'') (cp ''public_fund.fund_item_id'') fund_rule_version = Inr pid"
    and "parse_integer row (cp ''prfd_attr_cnt'') RECORDED_ZERO (cp ''public_fund.attribute_count'') fund_rule_version = Inr cnt"
proof -
  obtain c where c: "row_cell row (cp ''itm_no'') = Inr c"
    using row_cell_present [OF has_table_column [OF assms(2) fund_kinds(3)]] by blast
  obtain d where d: "row_cell row (cp ''prfd_attr_cnt'') = Inr d"
    using row_cell_present [OF has_table_column [OF assms(2) fund_kinds(4)]] by blast
  have "\<exists>pid. parse_identifier row (cp ''itm_no'') (cp ''public_fund.fund_item_id'') fund_rule_version = Inr pid"
    by (rule ident_parser.total [OF assms(1) c]) simp_all
  moreover have "\<exists>cnt. parse_integer row (cp ''prfd_attr_cnt'') RECORDED_ZERO (cp ''public_fund.attribute_count'') fund_rule_version = Inr cnt"
    by (rule int_parser.total [OF assms(1) d]) simp_all
  ultimately show thesis using that by blast
qed

interpretation funds: field_table PUBLIC_FUND_FIELDS fund_parse
proof
  show "distinct (map fst PUBLIC_FUND_FIELDS)" by (rule fund_fields_distinct)
  fix row fc assume r: "row_ok row" "has_columns row (map column_of PUBLIC_FUND_FIELDS)" "fc \<in> set PUBLIC_FUND_FIELDS"
  from fund_identity_total [OF r(1,2)] obtain pid cnt where
    p: "parse_identifier row (cp ''itm_no'') (cp ''public_fund.fund_item_id'') fund_rule_version = Inr pid"
    "parse_integer row (cp ''prfd_attr_cnt'') RECORDED_ZERO (cp ''public_fund.attribute_count'') fund_rule_version = Inr cnt" .
  obtain c where "row_cell row (column_of fc) = Inr c" using has_columns_cell [OF r(2), of "column_of fc"] r(3) by auto
  from fund_field_delivers [OF r(1,3) this p] show "\<exists>w. fund_parse row fc = Inr w \<and> delivers row fc w"
    by (simp add: fund_parse_def p)
qed

text \<open>The lineage validator accepts the parsed fields.\<close>

lemma fund_lineage_accepts:
  assumes "row_ok row" and "list_all2 (\<lambda>fc (f, w). f = fst fc \<and> delivers row fc w) PUBLIC_FUND_FIELDS vs"
    and "set fcs \<subseteq> set PUBLIC_FUND_FIELDS"
  shows "check_fund_fields row vs fcs = Inr ()"
  using assms(3)
proof (induction fcs)
  case (Cons fc fcs)
  then have "fc \<in> set PUBLIC_FUND_FIELDS" by simp
  from funds.value_found [OF assms(2) this] obtain w where w: "map_of vs (fst fc) = Some w" "delivers row fc w" by blast
  then obtain c where c: "row_cell row (column_of fc) = Inr c" "nv_raw_value w = sc_raw_value c" "nv_source w = locator_of row c"
    by (auto simp: delivers_def carries_def lineage_of_def)
  with w(1) Cons locator_from_row_ok [OF assms(1) c(1)] show ?case by (simp add: field_of_def)
qed simp

lemma fund_field_columns_sub: "set PUBLIC_FUND_FIELD_COLUMNS \<subseteq> set PUBLIC_FUND_FIELDS"
proof -
  have "map_of PUBLIC_FUND_FIELDS ''attribute_search_text'' = Some (''prfd_attr_search_text'', KText)" by code_simp
  then have "(''attribute_search_text'', ''prfd_attr_search_text'', KText) \<in> set PUBLIC_FUND_FIELDS"
    "(''attribute_count'', ''prfd_attr_cnt'', KInteger) \<in> set PUBLIC_FUND_FIELDS"
    using fund_kinds(4) by (blast dest: map_of_SomeD)+
  then show ?thesis unfolding PUBLIC_FUND_FIELD_COLUMNS_def set_append set_filter list.set by blast
qed

section \<open>Warnings of a fund row\<close>

lemma fund_warning_total:
  assumes "fund_row row" and "usable_warning row w"
  shows "\<exists>i. fund_warning_issue row w = Inr i \<and> \<not> dq_quarantined i \<and> warning_of i = w"
proof -
  obtain col rid q reason where w: "w = (col, rid, q, reason)" by (cases w)
  with assms(2) have c: "col \<in> set (map sc_column_name (sr_cells row))" "rid \<noteq> []" "encodable rid" by (auto simp: usable_warning_def)
  have declared: "set (map sc_column_name (sr_cells row)) = set (map cp PUBLIC_FUND_SOURCE_COLUMNS)"
    using assms(1) by (simp only: canonical_row_def fund_columns_names)
  from row_cell_present [OF c(1)] obtain cell where cell: "row_cell row col = Inr cell" by blast
  with row_cell_Inr have "sc_column_name cell = col" by blast
  moreover from assms(1) have "row_ok row" by (simp add: canonical_row_def)
  from issue_from_row_ok [OF this cell c(2,3), of fund_rule_version WARNING q reason False] obtain i where
    "issue_from_row row col rid fund_rule_version WARNING q reason False = Inr i" "\<not> dq_quarantined i" "dq_quality_status i = q"
    "dq_rule_id i = rid" "dq_source i = locator_of row cell" "dq_reason i = reason"
    by (auto simp: encodable_cp)
  ultimately show ?thesis using c(1) unfolding declared by (simp add: w fund_warning_issue_def warning_of_def locator_of_def)
qed

lemma fund_warnings_total:
  assumes "fund_row row" and "list_all (usable_warning row) ws"
  shows "\<exists>is. traverse (fund_warning_issue row) ws = Inr is \<and> \<not> list_ex dq_quarantined is \<and> map warning_of is = ws"
  using assms(2)
proof (induction ws)
  case (Cons w ws)
  from Cons.prems have "usable_warning row w" by simp
  from fund_warning_total [OF assms(1) this] Cons show ?case by auto
qed simp

text \<open>What the parsed fields of a row are, for the collected warnings.\<close>

definition fund_values :: "source_row \<Rightarrow> field_values \<Rightarrow> bool" where
  "fund_values row vs \<longleftrightarrow> list_all2 (\<lambda>fc (f, w). f = fst fc \<and> delivers row fc w) PUBLIC_FUND_FIELDS vs"

lemma fund_value:
  assumes "fund_values row vs" and "f \<in> set (map fst PUBLIC_FUND_FIELDS)"
  shows "\<exists>w fc. field_of vs f = Inr w \<and> fc \<in> set PUBLIC_FUND_FIELDS \<and> fst fc = f \<and> delivers row fc w"
proof -
  from assms(2) obtain fc where fc: "fc \<in> set PUBLIC_FUND_FIELDS" "fst fc = f" by auto
  from funds.value_found [OF assms(1) [unfolded fund_values_def] fc(1)] obtain w where "map_of vs f = Some w" "delivers row fc w"
    using fc(2) by blast
  with fc show ?thesis by (intro exI [of _ w] exI [of _ fc]) (simp add: field_of_def)
qed

lemma fund_field_names:
  "f \<in> set fund_numeric_fields \<Longrightarrow> f \<in> set (map fst PUBLIC_FUND_FIELDS)"
  "''currency'' \<in> set (map fst PUBLIC_FUND_FIELDS)" "''fund_type_raw'' \<in> set (map fst PUBLIC_FUND_FIELDS)"
  unfolding fund_kinds(1) [symmetric] using map_of_SomeD [OF fund_kinds(5)] map_of_SomeD [OF fund_kinds(6)] by force+

lemma delivered_column: "delivers row fc w \<Longrightarrow> loc_source_column_name (nv_source w) = column_of fc"
  by (auto simp: delivers_def carries_def lineage_of_def locator_of_def dest: row_cell_Inr)

text \<open>No field but the count itself reads the count column, so its warnings are those of the count.\<close>

lemma fund_warnings_usable:
  assumes "fund_row row" and "fund_values row vs" and "nv_rule_id cnt \<noteq> []" and "encodable (nv_rule_id cnt)"
  shows "\<exists>ws. fund_warnings vs codes cnt = Inr (ws @ count_warning codes cnt) \<and>
     list_all (usable_warning row) (ws @ count_warning codes cnt) \<and> (\<forall>w \<in> set ws. fst w \<noteq> cp ''prfd_attr_cnt'')"
proof -
  let ?num = "\<lambda>w. \<exists>fc. delivers row fc w \<and> column_of fc \<noteq> cp ''prfd_attr_cnt''"
  have num: "\<exists>w. field_of vs f = Inr w \<and> ?num w" if f: "f \<in> set fund_numeric_fields" for f
  proof -
    from fund_value [OF assms(2) fund_field_names(1) [OF f]] obtain w fc where
      w: "field_of vs f = Inr w" "fc \<in> set PUBLIC_FUND_FIELDS" "fst fc = f" "delivers row fc w" by blast
    with f fund_entry(6) [OF w(2)] have "kind_of fc = KDecimal" by simp
    moreover have "kind_of fc = KInteger" if "column_of fc = cp ''prfd_attr_cnt''"
      using fund_column_determines [OF w(2) map_of_SomeD [OF fund_kinds(4)]] that by simp
    ultimately have "column_of fc \<noteq> cp ''prfd_attr_cnt''" by auto
    with w(1,4) show ?thesis by blast
  qed
  from traverse_all [of fund_numeric_fields "field_of vs" ?num, OF num] obtain nums where
    nums: "traverse (field_of vs) fund_numeric_fields = Inr nums" "\<forall>w \<in> set nums. ?num w" by blast
  from fund_value [OF assms(2) fund_field_names(2)] obtain cur where cur: "field_of vs ''currency'' = Inr cur" "nv_rule_id cur \<noteq> []" "encodable (nv_rule_id cur)"
    by (auto simp: delivers_def)
  from fund_value [OF assms(2) fund_field_names(3)] obtain ty where ty: "field_of vs ''fund_type_raw'' = Inr ty" "nv_rule_id ty \<noteq> []" "encodable (nv_rule_id ty)"
    by (auto simp: delivers_def)
  have col: "cp c \<in> set (map sc_column_name (sr_cells row))" if "map_of PUBLIC_FUND_FIELDS f = Some (c, k)" for c f k
    by (rule has_table_column [OF fund_row_has_columns [OF assms(1)] that])
  let ?from = "\<lambda>q r. map (\<lambda>w. (loc_source_column_name (nv_source w), nv_rule_id w, q, r)) (filter (\<lambda>w. nv_quality_status w = q) nums)"
  have f: "list_all (usable_warning row) (?from q r) \<and> (\<forall>w \<in> set (?from q r). fst w \<noteq> cp ''prfd_attr_cnt'')" for q r
    using nums(2) delivered_usable [OF _ assms(1)] delivered_column by (fastforce simp: list_all_iff)
  have u: "usable_warning row (cp ''curr_cd'', nv_rule_id cur, q, r)" "usable_warning row (cp ''or_attr_desc'', nv_rule_id ty, q, r)"
    "list_all (usable_warning row) (count_warning codes cnt)" for q r
    using col [OF fund_kinds(4)] col [OF fund_kinds(5)] col [OF fund_kinds(6)] cur(2,3) ty(2,3) assms(3,4)
    by (simp_all add: usable_warning_def count_warning_def encodable_cp)
  let ?ws = "?from INVALID_FORMAT (cp ''Public-fund numeric value is invalid.'')
      @ ?from OUT_OF_DOMAIN (cp ''Public-fund return is below the registered comparison domain.'')
      @ (if nv_quality_status cur = OUT_OF_DOMAIN
         then [(cp ''curr_cd'', nv_rule_id cur, OUT_OF_DOMAIN, cp ''Public-fund currency is invalid.'')] else [])
      @ (if nv_quality_status ty = MIXED_SOURCE_VALUES
         then [(cp ''or_attr_desc'', nv_rule_id ty, MIXED_SOURCE_VALUES, cp ''Public-fund type code has mixed source semantics.'')] else [])"
  have "fund_warnings vs codes cnt = Inr (?ws @ count_warning codes cnt)"
    by (simp add: fund_warnings_def nums(1) cur(1) ty(1) Let_def)
  moreover have "list_all (usable_warning row) (?ws @ count_warning codes cnt)" using f u by (simp only: list_all_append) simp
  moreover have "\<forall>w \<in> set ?ws. fst w \<noteq> cp ''prfd_attr_cnt''" using f by (simp only: set_append ball_Un) simp
  ultimately show ?thesis by blast
qed

section \<open>The normalizer\<close>

lemma fund_count_value:
  assumes "parse_integer row (cp ''prfd_attr_cnt'') RECORDED_ZERO rid rv = Inr cnt"
  shows "nv_quality_status cnt = INVALID_FORMAT \<Longrightarrow> nv_normalized_value cnt = None"
  using assms unfolding parse_integer_def integer_cell_def parse_finite_decimal_def
  by (auto simp: rbind_eq_Inr_iff Let_def dest!: make_normalized_value_Inr split: prod.splits option.splits if_splits decimal_literal.splits)

lemma count_warning_iff:
  assumes "nv_quality_status cnt = INVALID_FORMAT \<Longrightarrow> nv_normalized_value cnt = None"
  shows "(\<exists>w \<in> set (count_warning codes cnt). fst w = cp ''prfd_attr_cnt'') \<longleftrightarrow> nv_normalized_value cnt \<noteq> Some (int (length codes))"
  using assms by (auto simp: count_warning_def)

lemma fund_identity_value:
  "parse_identifier row (cp ''itm_no'') rid rv = Inr pid \<Longrightarrow> nv_normalized_value pid \<noteq> None \<longleftrightarrow> is_identifier (raw_of row (cp ''itm_no''))"
  by (auto simp: parse_identifier_def raw_of_def rbind_eq_Inr_iff Let_def dest!: make_normalized_value_Inr split: if_splits)

lemma issue_of_warning:
  assumes "set (map g is) = set (ws @ vs)" and "\<forall>w \<in> set ws. fst w \<noteq> c"
  shows "(\<exists>i \<in> set is. fst (g i) = c) \<longleftrightarrow> (\<exists>w \<in> set vs. fst w = c)"
proof -
  have "(\<exists>i \<in> set is. fst (g i) = c) \<longleftrightarrow> (\<exists>w \<in> set (map g is). fst w = c)" by simp
  also have "\<dots> \<longleftrightarrow> (\<exists>w \<in> set vs. fst w = c)" unfolding assms(1) using assms(2) by auto
  finally show ?thesis .
qed

text \<open>The declared count in the record is the parsed count.\<close>

lemma fund_count_field:
  assumes "parse_fields (fund_field pid cnt) row PUBLIC_FUND_FIELDS = Inr vs" and "fund_values row vs"
  shows "map_of vs ''attribute_count'' = Some (wrap VInteger cnt)"
proof -
  let ?fc = "(''attribute_count'', ''prfd_attr_cnt'', KInteger)"
  have fc: "?fc \<in> set PUBLIC_FUND_FIELDS" by (rule map_of_SomeD [OF fund_kinds(4)])
  have "fund_field pid cnt row ?fc = Inr (wrap VInteger cnt)" by (simp add: fund_field_def)
  then have "(''attribute_count'', wrap VInteger cnt) \<in> set vs"
    using traverse_image [OF assms(1) [unfolded parse_fields_def] fc] by simp
  moreover have "distinct (map fst vs)"
    using funds.names_kept [OF assms(2) [unfolded fund_values_def]] fund_fields_distinct by simp
  ultimately show ?thesis by simp
qed

lemma normalize_fund_cases:
  assumes "fund_row row"
  shows "\<exists>n. normalize_public_fund_item row = Inr n \<and>
     (if is_identifier (raw_of row (cp ''itm_no''))
      then \<exists>p ws cnt. nr_record n = Some p \<and> fi_source_row p = row \<and> fund_values row (fi_values p) \<and>
          fi_attribute_codes p = comma_split (raw_of row (cp ''prfd_attr_cds'')) \<and>
          map_of (fi_values p) ''attribute_count'' = Some (wrap VInteger cnt) \<and>
          (nv_quality_status cnt = INVALID_FORMAT \<longrightarrow> nv_normalized_value cnt = None) \<and>
          fund_warnings (fi_values p) (fi_attribute_codes p) cnt = Inr (ws @ count_warning (fi_attribute_codes p) cnt) \<and>
          mset (map warning_of (nr_issues n)) = mset (ws @ count_warning (fi_attribute_codes p) cnt) \<and>
          (\<forall>w \<in> set ws. fst w \<noteq> cp ''prfd_attr_cnt'') \<and> sorted (map fund_issue_sort_key (nr_issues n))
      else nr_record n = None)"
proof -
  have row: "row_ok row" "sr_source_table row = fund_table" "map sc_column_name (sr_cells row) = map cp PUBLIC_FUND_SOURCE_COLUMNS"
    and cols: "has_columns row (map column_of PUBLIC_FUND_FIELDS)"
    using assms fund_row_has_columns [OF assms] by (auto simp: canonical_row_def fund_columns_names)
  obtain pid cnt where p: "parse_identifier row (cp ''itm_no'') (cp ''public_fund.fund_item_id'') fund_rule_version = Inr pid"
    "parse_integer row (cp ''prfd_attr_cnt'') RECORDED_ZERO (cp ''public_fund.attribute_count'') fund_rule_version = Inr cnt"
    by (rule fund_identity_total [OF row(1) cols])
  note ids = fund_identity_value [OF p(1)]
  note start = normalize_public_fund_item_def validate_item_key_def row(2) p
  show ?thesis
  proof (cases "is_identifier (raw_of row (cp ''itm_no''))")
    case False
    obtain c where "row_cell row (cp ''itm_no'') = Inr c" using row_cell_present [OF has_table_column [OF cols fund_kinds(3)]] by blast
    from issue_from_row_ok [OF row(1) this, of "cp ''public_fund.malformed_item''" fund_rule_version BLOCKER MALFORMED_SOURCE_ROW
        "cp ''Public-fund item identifier has an invalid source format.''" True]
    obtain i where "fund_key_issue row = Inr i" "dq_quarantined i" by (auto simp: fund_key_issue_def encodable_cp)
    with False ids show ?thesis by (auto simp: start normalization_result_of_def validate_quarantine_equivalence_def)
  next
    case True
    with ids obtain v where v: "nv_normalized_value pid = Some v" by blast
    obtain cell where cell: "row_cell row (cp ''prfd_attr_cds'') = Inr cell" using fund_row_column [OF assms attribute_code_column] by blast
    then have raw: "sc_raw_value cell = raw_of row (cp ''prfd_attr_cds'')" by (simp add: raw_of_def)
    let ?codes = "comma_split (raw_of row (cp ''prfd_attr_cds''))"
    have "parse_fields (fund_field pid cnt) row PUBLIC_FUND_FIELDS = parse_fields fund_parse row PUBLIC_FUND_FIELDS"
      by (simp add: parse_fields_def fund_parse_def p)
    with funds.fields_parsed [OF row(1) cols] obtain vs where
      vs: "parse_fields (fund_field pid cnt) row PUBLIC_FUND_FIELDS = Inr vs" "fund_values row vs" by (auto simp: fund_values_def)
    note vs' = vs(2) [unfolded fund_values_def]
    let ?p = "\<lparr>fi_source_row = row, fi_attribute_codes = ?codes, fi_values = vs\<rparr>"
    have valid: "validate_fund_item ?p = Inr ?p"
      using funds.model_accepts [OF vs'] fund_lineage_accepts [OF row(1) vs' fund_field_columns_sub] row cell
      by (simp add: validate_fund_item_def raw)
    have rule: "nv_rule_id cnt \<noteq> []" "encodable (nv_rule_id cnt)" using int_parser.rule [OF p(2)] by (simp_all add: encodable_cp)
    from fund_warnings_usable [OF assms vs(2) rule, of ?codes] obtain ws where
      ws: "fund_warnings vs ?codes cnt = Inr (ws @ count_warning ?codes cnt)" "list_all (usable_warning row) (ws @ count_warning ?codes cnt)"
      "\<forall>w \<in> set ws. fst w \<noteq> cp ''prfd_attr_cnt''" by blast
    from fund_warnings_total [OF assms ws(2)] obtain "is" where
      i: "traverse (fund_warning_issue row) (ws @ count_warning ?codes cnt) = Inr is" "\<not> list_ex dq_quarantined is"
      "map warning_of is = ws @ count_warning ?codes cnt" by blast
    have "\<not> list_ex dq_quarantined (py_sorted fund_issue_sort_key is)" using i(2) by (simp add: list_ex_iff)
    then have n: "normalize_public_fund_item row = Inr \<lparr>nr_record = Some ?p, nr_issues = py_sorted fund_issue_sort_key is\<rparr>"
      using v cell vs(1) valid ws(1) i(1)
      by (simp add: start raw normalization_result_of_def validate_quarantine_equivalence_def)
    have m: "mset (map warning_of (py_sorted fund_issue_sort_key is)) = mset (ws @ count_warning ?codes cnt)"
      using i(3) by (metis mset_map mset_py_sorted)
    note rest = fund_count_field [OF vs] fund_count_value [OF p(2)] ws(1,3) m vs(2) sorted_py_sorted [of fund_issue_sort_key "is"]
    show ?thesis
      unfolding if_P [OF True] n
      by (intro exI [of _ "\<lparr>nr_record = Some ?p, nr_issues = py_sorted fund_issue_sort_key is\<rparr>"] exI [of _ ?p] exI [of _ ws] exI [of _ cnt] conjI)
        (use rest in simp_all)
  qed
qed

lemma fund_record_shape:
  assumes "fund_row row" and "normalize_public_fund_item row = Inr n" and "nr_record n = Some p"
  obtains ws cnt where "fi_source_row p = row" and "fund_values row (fi_values p)"
    and "fi_attribute_codes p = comma_split (raw_of row (cp ''prfd_attr_cds''))"
    and "map_of (fi_values p) ''attribute_count'' = Some (wrap VInteger cnt)"
    and "nv_quality_status cnt = INVALID_FORMAT \<Longrightarrow> nv_normalized_value cnt = None"
    and "fund_warnings (fi_values p) (fi_attribute_codes p) cnt = Inr (ws @ count_warning (fi_attribute_codes p) cnt)"
    and "mset (map warning_of (nr_issues n)) = mset (ws @ count_warning (fi_attribute_codes p) cnt)"
    and "\<forall>w \<in> set ws. fst w \<noteq> cp ''prfd_attr_cnt''" and "sorted (map fund_issue_sort_key (nr_issues n))"
proof -
  note cases = normalize_fund_cases [OF assms(1), unfolded assms(2) sum.inject]
  show thesis
  proof (cases "is_identifier (raw_of row (cp ''itm_no''))")
    case True
    from cases [unfolded if_P [OF True]] obtain q ws cnt where q: "nr_record n = Some q" "fi_source_row q = row" "fund_values row (fi_values q)"
      "fi_attribute_codes q = comma_split (raw_of row (cp ''prfd_attr_cds''))"
      "map_of (fi_values q) ''attribute_count'' = Some (wrap VInteger cnt)"
      "nv_quality_status cnt = INVALID_FORMAT \<longrightarrow> nv_normalized_value cnt = None"
      "fund_warnings (fi_values q) (fi_attribute_codes q) cnt = Inr (ws @ count_warning (fi_attribute_codes q) cnt)"
      "mset (map warning_of (nr_issues n)) = mset (ws @ count_warning (fi_attribute_codes q) cnt)"
      "\<forall>w \<in> set ws. fst w \<noteq> cp ''prfd_attr_cnt''" "sorted (map fund_issue_sort_key (nr_issues n))" by blast
    from q(1) assms(3) have "q = p" by simp
    note q' = q [unfolded \<open>q = p\<close>]
    show thesis by (rule that [OF q'(2-5) _ q'(7-10)]) (use q'(6) in blast)
  next
    case False
    with cases assms(3) show thesis by simp
  qed
qed

interpretation fund_normalizer: quarantining_normalizer normalize_public_fund_item
proof
  fix s n
  assume "normalize_public_fund_item s = Inr n"
  then show "\<exists>rec issues. normalization_result_of rec issues = Inr n"
    by (auto simp: normalize_public_fund_item_def rbind_eq_Inr_iff Let_def split: if_splits)
qed

section \<open>A concrete fund row\<close>

lemma fund_columns_distinct:
  "distinct (map (\<lambda>fc. fst (snd fc)) fund_columns)" "'''' \<notin> set (map (\<lambda>fc. fst (snd fc)) fund_columns)"
proof -
  have "distinct (map cp PUBLIC_FUND_SOURCE_COLUMNS)" using fund_source_sorted(1) strict_sorted_iff by blast
  then show "distinct (map (\<lambda>fc. fst (snd fc)) fund_columns)" by (simp add: fund_columns_def distinct_map comp_def)
  show "'''' \<notin> set (map (\<lambda>fc. fst (snd fc)) fund_columns)" by (simp add: fund_columns_def PUBLIC_FUND_SOURCE_COLUMNS_def)
qed

definition fund_example :: source_row where
  "fund_example = table_row ''PRFD01N001'' fund_columns
     [(''itm_no'', ''KR5101000001''), (''prfd_attr_cds'', ''A1,B2''), (''prfd_attr_cnt'', ''3'')]"

lemma fund_example_raw:
  assumes "c \<in> set PUBLIC_FUND_SOURCE_COLUMNS"
  shows "raw_of fund_example (cp c) = cp (case map_of [(''itm_no'', ''KR5101000001''), (''prfd_attr_cds'', ''A1,B2''), (''prfd_attr_cnt'', ''3'')] c of
     Some v \<Rightarrow> v | None \<Rightarrow> '''')"
proof -
  have "(c, c, KText) \<in> set fund_columns" using assms by (simp add: fund_columns_def)
  from table_row_raw [OF this fund_columns_distinct, of "''PRFD01N001''" "[(''itm_no'', ''KR5101000001''), (''prfd_attr_cds'', ''A1,B2''), (''prfd_attr_cnt'', ''3'')]"]
  show ?thesis by (simp add: fund_example_def)
qed

lemma fund_example_row:
  "fund_row fund_example" "raw_of fund_example (cp ''itm_no'') = cp ''KR5101000001''" "raw_of fund_example (cp ''prfd_attr_cds'') = cp ''A1,B2''"
proof -
  show "fund_row fund_example" unfolding fund_example_def by (rule canonical_table_row [OF fund_columns_distinct]) simp
  have "''itm_no'' \<in> set PUBLIC_FUND_SOURCE_COLUMNS" by (simp add: PUBLIC_FUND_SOURCE_COLUMNS_def)
  from fund_example_raw [OF this] show "raw_of fund_example (cp ''itm_no'') = cp ''KR5101000001''" by simp
  from fund_example_raw [OF attribute_code_column] show "raw_of fund_example (cp ''prfd_attr_cds'') = cp ''A1,B2''" by simp
qed

lemma fund_example_record: "\<exists>n p. normalize_public_fund_item fund_example = Inr n \<and> nr_record n = Some p"
proof -
  have "is_identifier (raw_of fund_example (cp ''itm_no''))" unfolding fund_example_row(2) by code_simp
  with normalize_fund_cases [OF fund_example_row(1)] show ?thesis by auto
qed

section \<open>Properties\<close>

text \<open>C27. Fund rows are normalized or quarantined. On every verified row of the fund table the normalizer
  returns; it yields an item exactly when the item number is a valid identifier and a quarantined
  issue otherwise; the item keeps its row, and every field keeps the text and the locator of its
  column with the declared type; and the issues are the warnings of the item, ordered by column.\<close>

theorem public_fund_total:
  assumes "canonical_row ''PRFD01N001'' fund_columns row"
  shows "\<exists>n. normalize_public_fund_item row = Inr n \<and>
     (nr_record n \<noteq> None \<longleftrightarrow> is_identifier (raw_of row (cp ''itm_no''))) \<and>
     (nr_record n = None \<longleftrightarrow> (\<exists>i \<in> set (nr_issues n). dq_quarantined i)) \<and>
     (\<forall>p. nr_record n = Some p \<longrightarrow> fi_source_row p = row \<and>
        list_all2 (\<lambda>fc (f, w). f = fst fc \<and> carries row (column_of fc) (lineage_of w) \<and> typed (kind_of fc) w)
          PUBLIC_FUND_FIELDS (fi_values p) \<and>
        (\<exists>cnt ws. map_of (fi_values p) ''attribute_count'' = Some (wrap VInteger cnt) \<and>
           fund_warnings (fi_values p) (fi_attribute_codes p) cnt = Inr ws \<and> mset (map warning_of (nr_issues n)) = mset ws) \<and>
        sorted (map fund_issue_sort_key (nr_issues n)))"
proof -
  obtain n where n: "normalize_public_fund_item row = Inr n" using normalize_fund_cases [OF assms] by blast
  note cases = normalize_fund_cases [OF assms, unfolded n sum.inject ex_simps simp_thms]
  have ident: "nr_record n \<noteq> None \<longleftrightarrow> is_identifier (raw_of row (cp ''itm_no''))"
    using cases by (cases "is_identifier (raw_of row (cp ''itm_no''))") auto
  have rec: "fi_source_row p = row \<and> fund_values row (fi_values p) \<and>
        (\<exists>cnt ws. map_of (fi_values p) ''attribute_count'' = Some (wrap VInteger cnt) \<and>
           fund_warnings (fi_values p) (fi_attribute_codes p) cnt = Inr ws \<and> mset (map warning_of (nr_issues n)) = mset ws) \<and>
        sorted (map fund_issue_sort_key (nr_issues n))" if "nr_record n = Some p" for p
    by (rule fund_record_shape [OF assms n that]) blast
  have lin: "list_all2 (\<lambda>fc (f, w). f = fst fc \<and> carries row (column_of fc) (lineage_of w) \<and> typed (kind_of fc) w)
      PUBLIC_FUND_FIELDS (fi_values p)" if "nr_record n = Some p" for p
    by (rule list_all2_mono [OF conjunct1 [OF conjunct2 [OF rec [OF that]], unfolded fund_values_def]]) (auto simp: delivers_def)
  show ?thesis
    by (intro exI [of _ n] conjI allI impI n ident fund_normalizer.record_iff_not_quarantined [OF n] lin)
      (use rec in blast)+
qed

theorem public_fund_total_witness:
  "\<exists>n. normalize_public_fund_item fund_example = Inr n \<and> nr_record n \<noteq> None"
proof -
  have "is_identifier (raw_of fund_example (cp ''itm_no''))" unfolding fund_example_row(2) by code_simp
  with public_fund_total [OF fund_example_row(1)] show ?thesis by blast
qed

text \<open>C28. Attribute codes round-trip and their declared count is checked. The codes of an item joined by commas
  are the source text, no code contains a comma, and an empty text has no codes; an issue is raised on
  the count column exactly when the declared count is not the number of codes.\<close>

theorem fund_attribute_codes_exact:
  assumes "canonical_row ''PRFD01N001'' fund_columns row" and "normalize_public_fund_item row = Inr n" and "nr_record n = Some p"
  shows "py_join [44] (fi_attribute_codes p) = raw_of row (cp ''prfd_attr_cds'') \<and>
     (\<forall>code \<in> set (fi_attribute_codes p). 44 \<notin> set code) \<and>
     (fi_attribute_codes p = [] \<longleftrightarrow> raw_of row (cp ''prfd_attr_cds'') = []) \<and>
     ((\<exists>i \<in> set (nr_issues n). loc_source_column_name (dq_source i) = cp ''prfd_attr_cnt'') \<longleftrightarrow>
        (\<forall>w. map_of (fi_values p) ''attribute_count'' = Some w \<longrightarrow>
           nv_normalized_value w \<noteq> Some (VInteger (int (length (fi_attribute_codes p))))))"
proof -
  let ?codes = "fi_attribute_codes p"
  obtain ws cnt where
    c: "?codes = comma_split (raw_of row (cp ''prfd_attr_cds''))" "map_of (fi_values p) ''attribute_count'' = Some (wrap VInteger cnt)"
    "nv_quality_status cnt = INVALID_FORMAT \<Longrightarrow> nv_normalized_value cnt = None"
    "mset (map warning_of (nr_issues n)) = mset (ws @ count_warning ?codes cnt)" "\<forall>w \<in> set ws. fst w \<noteq> cp ''prfd_attr_cnt''"
    by (rule fund_record_shape [OF assms]) (rule that)
  have "set (map warning_of (nr_issues n)) = set (ws @ count_warning ?codes cnt)" by (rule mset_eq_setD [OF c(4)])
  then have "(\<exists>i \<in> set (nr_issues n). fst (warning_of i) = cp ''prfd_attr_cnt'') \<longleftrightarrow> (\<exists>w \<in> set (count_warning ?codes cnt). fst w = cp ''prfd_attr_cnt'')"
    by (rule issue_of_warning [OF _ c(5)])
  then have i: "(\<exists>i \<in> set (nr_issues n). loc_source_column_name (dq_source i) = cp ''prfd_attr_cnt'') \<longleftrightarrow>
      nv_normalized_value cnt \<noteq> Some (int (length ?codes))"
    using count_warning_iff [OF c(3)] by (simp add: warning_of_def)
  have s: "py_split 44 t \<noteq> []" for t by (induction t) (auto split: list.splits)
  have "py_join [44] ?codes = raw_of row (cp ''prfd_attr_cds'')" using py_join_split [of 44] by (simp add: c(1) comma_split_def)
  moreover have "\<forall>code \<in> set ?codes. 44 \<notin> set code" using py_split_no_sep [of _ 44] by (auto simp: c(1) comma_split_def)
  ultimately show ?thesis using i c(2) s by (auto simp: c(1) comma_split_def)
qed

theorem fund_attribute_codes_exact_witness:
  "\<exists>n p. normalize_public_fund_item fund_example = Inr n \<and> nr_record n = Some p \<and>
     py_join [44] (fi_attribute_codes p) = cp ''A1,B2''"
proof -
  from fund_example_record obtain n p where n: "normalize_public_fund_item fund_example = Inr n" "nr_record n = Some p" by blast
  with fund_attribute_codes_exact [OF fund_example_row(1) n] show ?thesis unfolding fund_example_row(3) by blast
qed

end
