(* ===== verification/Evidence.thy ===== *)
theory Evidence
  imports Query_Plan Listed
begin

text \<open>
  Evidence and verified claims: the contracts of \<open>finproof/domain/evidence.py\<close> and
  \<open>finproof/domain/answers.py\<close>, the safety check \<open>finproof/answer/safety.py\<close> and the claim
  verifier \<open>finproof/evidence/verifier.py\<close>. Korean literals of the sources are lists of code
  points.
\<close>

section \<open>domain/evidence.py\<close>

text \<open>What an evidence item may hold: a scalar, the enum of a listed product, or a tuple of decimals.\<close>

datatype evidence_object = EScalar scalar | EListedType listed_product_type | EDecimals "decimal list"

record direct_evidence =
  de_evidence_id :: pystr
  de_product_type :: product_type
  de_product_id :: "pystr option"
  de_field_id :: pystr
  de_value :: "evidence_object normalized_value"

record derived_evidence =
  ve_evidence_id :: pystr
  ve_product_type :: product_type
  ve_product_id :: "pystr option"
  ve_field_id :: pystr
  ve_value :: "evidence_object derived_value"

datatype evidence_summary_kind =
  ES_COUNT | ES_EXCLUSION | ES_RANK | ES_TIE | ES_PARTITION | ES_AGGREGATE | ES_RECORDED | ES_COVERAGE

record evidence_summary_value =
  sv_field_id :: pystr
  sv_value :: "scalar option"

record evidence_summary =
  es_summary_id :: pystr
  es_kind :: evidence_summary_kind
  es_included_count :: int
  es_excluded_count :: int
  es_evidence_ids :: "pystr list"
  es_policy_versions :: "pystr list"
  es_validated_plan_sha256 :: pystr
  es_version_bundle_sha256 :: pystr
  es_artifact_manifest_hash :: pystr
  es_product_types :: "product_type list"
  es_native_result_grains :: "result_grain list"
  es_partition_key :: "pystr option"
  es_product_id :: "pystr option"
  es_metric_id :: "pystr option"
  es_rank :: "int option"
  es_tie_count :: "int option"
  es_value :: "scalar option"
  es_group_values :: "evidence_summary_value list"

abbreviation optional_text :: "nat \<Rightarrow> nat \<Rightarrow> pystr option \<Rightarrow> bool" where
  "optional_text lo hi t \<equiv> (case t of None \<Rightarrow> True | Some s \<Rightarrow> bounded_text lo hi s)"

definition summary_fields_ok :: "evidence_summary \<Rightarrow> bool" where
  "summary_fields_ok s \<longleftrightarrow>
     bounded_text 1 200 (es_summary_id s) \<and> 0 \<le> es_included_count s \<and> 0 \<le> es_excluded_count s \<and>
     length (es_evidence_ids s) \<le> 100 \<and> 1 \<le> length (es_policy_versions s) \<and> length (es_policy_versions s) \<le> 32 \<and>
     is_sha256_hex (es_validated_plan_sha256 s) \<and> is_sha256_hex (es_version_bundle_sha256 s) \<and>
     is_sha256_hex (es_artifact_manifest_hash s) \<and> length (es_product_types s) \<le> 6 \<and>
     length (es_native_result_grains s) \<le> 3 \<and> optional_text 1 300 (es_partition_key s) \<and>
     optional_text 1 300 (es_product_id s) \<and> optional_text 1 100 (es_metric_id s) \<and>
     (case es_rank s of None \<Rightarrow> True | Some r \<Rightarrow> 1 \<le> r) \<and> (case es_tie_count s of None \<Rightarrow> True | Some t \<Rightarrow> 1 \<le> t) \<and>
     length (es_group_values s) \<le> 2 \<and> list_all (\<lambda>v. bounded_text 1 100 (sv_field_id v)) (es_group_values s)"

definition validate_unique_references :: "evidence_summary \<Rightarrow> evidence_summary result" where
  "validate_unique_references s =
     rbind (raise_if (\<not> summary_fields_ok s) (ValueError ''summary fields'')) (\<lambda>_.
     rbind (raise_if (\<not> distinct (es_evidence_ids s)) (ValueError ''evidence IDs must be unique'')) (\<lambda>_.
     rbind (raise_if (\<not> distinct (es_policy_versions s)) (ValueError ''policy versions must be unique'')) (\<lambda>_. Inr s)))"

datatype holding_coverage_state = COMPLETE | PARTIAL_TOP_10 | UNAVAILABLE

fun coverage_state_value :: "holding_coverage_state \<Rightarrow> pystr" where
  "coverage_state_value COMPLETE = cp ''complete''"
| "coverage_state_value PARTIAL_TOP_10 = cp ''partial_top_10''"
| "coverage_state_value UNAVAILABLE = cp ''unavailable''"

record holding_record_ref =
  hr_evidence_id :: pystr
  hr_owner_product_type :: product_type
  hr_owner_product_id :: pystr
  hr_generation_id :: pystr
  hr_constituent_identifier :: pystr
  hr_constituent_identifier_type :: pystr
  hr_display_name :: pystr
  hr_source_kind :: pystr
  hr_source_as_of_date :: date
  hr_source_row_ordinal :: int

record holding_coverage_ref =
  hc_evidence_id :: pystr
  hc_owner_product_type :: product_type
  hc_owner_product_id :: pystr
  hc_coverage_state :: holding_coverage_state
  hc_source_generation_id :: "pystr option"
  hc_observed_holding_count :: int
  hc_limitation_code :: pystr
  hc_source_kind :: "pystr option"
  hc_source_as_of_date :: "date option"

definition validate_coverage_shape :: "holding_coverage_ref \<Rightarrow> holding_coverage_ref result" where
  "validate_coverage_shape c =
     (if \<not> (bounded_text 1 200 (hc_evidence_id c) \<and> bounded_text 1 300 (hc_owner_product_id c) \<and>
             optional_text 1 300 (hc_source_generation_id c) \<and> 0 \<le> hc_observed_holding_count c \<and>
             optional_text 1 200 (hc_source_kind c))
      then Inl (ValueError ''coverage fields'')
      else if hc_coverage_state c = UNAVAILABLE
      then (if hc_source_generation_id c \<noteq> None \<or> hc_source_kind c \<noteq> None \<or> hc_source_as_of_date c \<noteq> None
               \<or> hc_observed_holding_count c \<noteq> 0 \<or> hc_limitation_code c \<noteq> cp ''source_unavailable''
            then Inl (ValueError ''unavailable holding coverage reference differs'') else Inr c)
      else if hc_source_generation_id c = None \<or> hc_source_kind c = None \<or> hc_source_as_of_date c = None
      then Inl (ValueError ''admitted holding coverage reference differs'')
      else Inr c)"

record evidence_bundle =
  eb_direct :: "direct_evidence list"
  eb_derived :: "derived_evidence list"
  eb_summaries :: "evidence_summary list"
  eb_material_policy_limitations :: "pystr list"
  eb_holding_records :: "holding_record_ref list"
  eb_holding_coverage :: "holding_coverage_ref list"

definition evidence_ids :: "evidence_bundle \<Rightarrow> pystr list" where
  "evidence_ids e =
     map de_evidence_id (eb_direct e) @ map ve_evidence_id (eb_derived e) @ map es_summary_id (eb_summaries e)
     @ map hr_evidence_id (eb_holding_records e) @ map hc_evidence_id (eb_holding_coverage e)"

definition validate_global_evidence_ids :: "evidence_bundle \<Rightarrow> evidence_bundle result" where
  "validate_global_evidence_ids e =
     (if \<not> (length (eb_direct e) \<le> 100 \<and> length (eb_derived e) \<le> 100 \<and> length (eb_summaries e) \<le> 200 \<and>
             length (eb_material_policy_limitations e) \<le> 100 \<and> length (eb_holding_records e) \<le> 50 \<and>
             length (eb_holding_coverage e) \<le> 50)
      then Inl (ValueError ''bundle length'')
      else if length (evidence_ids e) > 500 then Inl (ValueError ''global evidence ID bound exceeded'')
      else if \<not> distinct (evidence_ids e) then Inl (ValueError ''evidence IDs must be globally unique'')
      else Inr e)"

section \<open>domain/answers.py\<close>

datatype claim_kind = NUMERIC | TEXT_CLAIM | LIMITATION | CANDIDATE | RECOMMENDATION

datatype value_sign = POSITIVE | NEGATIVE | ZERO

record answer_request =
  rq_question_id :: pystr
  rq_question :: pystr

record answer_claim =
  ac_claim_id :: pystr
  ac_kind :: claim_kind
  ac_text :: pystr
  ac_product_type :: "product_type option"
  ac_product_types :: "product_type list"
  ac_native_result_grains :: "result_grain list"
  ac_partition_key :: "pystr option"
  ac_product_id :: "pystr option"
  ac_field_id :: "pystr option"
  ac_value :: "scalar option"
  ac_group_values :: "evidence_summary_value list"
  ac_evidence_ids :: "pystr list"
  ac_sign :: "value_sign option"

text \<open>The field constraints; a claim value is never a \<open>datetime\<close>.\<close>

definition validate_answer_claim :: "answer_claim \<Rightarrow> answer_claim result" where
  "validate_answer_claim c =
     (if bounded_text 1 200 (ac_claim_id c) \<and> bounded_text 1 2000 (ac_text c) \<and> length (ac_product_types c) \<le> 6 \<and>
         length (ac_native_result_grains c) \<le> 3 \<and> optional_text 1 300 (ac_partition_key c) \<and>
         optional_text 1 300 (ac_product_id c) \<and> optional_text 1 100 (ac_field_id c) \<and>
         (case ac_value c of Some (SDateTime _) \<Rightarrow> False | _ \<Rightarrow> True) \<and>
         length (ac_group_values c) \<le> 2 \<and> length (ac_evidence_ids c) \<le> 100
      then Inr c else Inl (ValueError ''claim fields''))"

record answer_text =
  at_text :: pystr
  at_claims :: "answer_claim list"

text \<open>\<open>AnswerDraft\<close> and \<open>VerifiedAnswer\<close> have the same fields and constraints.\<close>

type_synonym answer_draft = answer_text
type_synonym verified_answer = answer_text

definition make_answer_text :: "pystr \<Rightarrow> answer_claim list \<Rightarrow> answer_text result" where
  "make_answer_text t cs =
     (if bounded_text 1 12000 t \<and> length cs \<le> 300 then Inr \<lparr>at_text = t, at_claims = cs\<rparr>
      else Inl (ValueError ''answer fields''))"

record surface_part =
  sp_part_id :: pystr
  sp_text :: pystr
  sp_claim_ids :: "pystr list"
  sp_limitation_codes :: "pystr list"

definition unique_references :: "surface_part \<Rightarrow> surface_part result" where
  "unique_references p =
     (if \<not> (bounded_text 1 100 (sp_part_id p) \<and> bounded_text 1 12000 (sp_text p) \<and> length (sp_claim_ids p) \<le> 300 \<and>
             length (sp_limitation_codes p) \<le> 100)
      then Inl (ValueError ''surface fields'')
      else if \<not> distinct (sp_claim_ids p) \<or> \<not> distinct (sp_limitation_codes p)
      then Inl (ValueError ''surface references must be unique'')
      else Inr p)"

section \<open>answer/safety.py\<close>

text \<open>The forbidden patterns of the answer registry; \<open>None\<close> when it does not hold a tuple of texts.\<close>

type_synonym forbidden_patterns = "pystr list option"

definition require_safe_claim :: "forbidden_patterns \<Rightarrow> answer_claim \<Rightarrow> unit result" where
  "require_safe_claim patterns c =
     (if ac_kind c = RECOMMENDATION then Inl (ValueError ''recommendation claim is unsupported'')
      else case patterns of
        None \<Rightarrow> Inl (TypeError ''answer safety registry differs'')
      | Some ps \<Rightarrow> raise_if (list_ex (\<lambda>p. py_contains (ac_text c) p) ps) (ValueError ''recommendation claim is unsupported''))"

section \<open>evidence/verifier.py\<close>

record evidence_value =
  ev_product_types :: "product_type list"
  ev_grains :: "result_grain list"
  ev_partition_key :: "pystr option"
  ev_product_id :: "pystr option"
  ev_field_id :: "pystr option"
  ev_value :: "evidence_object option"
  ev_group_values :: "evidence_summary_value list"

text \<open>The dictionary of evidence values; a later item with the same identifier replaces an earlier one.\<close>

definition evidence_values :: "evidence_bundle \<Rightarrow> (pystr \<times> evidence_value) list" where
  "evidence_values e =
     map (\<lambda>d. (de_evidence_id d, \<lparr>ev_product_types = [de_product_type d], ev_grains = [], ev_partition_key = None,
            ev_product_id = de_product_id d, ev_field_id = Some (de_field_id d),
            ev_value = nv_normalized_value (de_value d), ev_group_values = []\<rparr>)) (eb_direct e)
     @ map (\<lambda>d. (ve_evidence_id d, \<lparr>ev_product_types = [ve_product_type d], ev_grains = [], ev_partition_key = None,
            ev_product_id = ve_product_id d, ev_field_id = Some (ve_field_id d),
            ev_value = dv_value (ve_value d), ev_group_values = []\<rparr>)) (eb_derived e)
     @ map (\<lambda>s. (es_summary_id s, \<lparr>ev_product_types = es_product_types s, ev_grains = es_native_result_grains s,
            ev_partition_key = es_partition_key s, ev_product_id = es_product_id s, ev_field_id = es_metric_id s,
            ev_value = map_option EScalar (es_value s), ev_group_values = es_group_values s\<rparr>)) (eb_summaries e)
     @ map (\<lambda>h. (hr_evidence_id h, \<lparr>ev_product_types = [hr_owner_product_type h], ev_grains = [], ev_partition_key = None,
            ev_product_id = Some (hr_owner_product_id h), ev_field_id = Some (cp ''holding_constituent''),
            ev_value = Some (EScalar (SStr (hr_constituent_identifier h))), ev_group_values = []\<rparr>)) (eb_holding_records e)
     @ map (\<lambda>h. (hc_evidence_id h, \<lparr>ev_product_types = [hc_owner_product_type h], ev_grains = [], ev_partition_key = None,
            ev_product_id = Some (hc_owner_product_id h), ev_field_id = Some (cp ''holding_coverage''),
            ev_value = Some (EScalar (SStr (coverage_state_value (hc_coverage_state h)))), ev_group_values = []\<rparr>)) (eb_holding_coverage e)"

definition lookup_value :: "(pystr \<times> evidence_value) list \<Rightarrow> pystr \<Rightarrow> evidence_value option" where
  "lookup_value values i = map_of (rev values) i"

text \<open>\<open>type(a) is type(b) and a == b\<close> for an evidence value and a claim value.\<close>

fun scalar_same :: "scalar \<Rightarrow> scalar \<Rightarrow> bool" where
  "scalar_same (SStr a) (SStr b) = (a = b)"
| "scalar_same (SInt a) (SInt b) = (a = b)"
| "scalar_same (SDec a) (SDec b) = (dval a = dval b)"
| "scalar_same (SBool a) (SBool b) = (a = b)"
| "scalar_same (SDate a) (SDate b) = (a = b)"
| "scalar_same (SDateTime a) (SDateTime b) = (a = b)"
| "scalar_same _ _ = False"

definition same_value :: "evidence_object option \<Rightarrow> scalar option \<Rightarrow> bool" where
  "same_value v c =
     (case (v, c) of
        (None, None) \<Rightarrow> True
      | (Some (EScalar a), Some b) \<Rightarrow> scalar_same a b
      | _ \<Rightarrow> False)"

text \<open>Equality of two tuples of group values, with Python's equality of the values.\<close>

definition group_value_eq :: "evidence_summary_value \<Rightarrow> evidence_summary_value \<Rightarrow> bool" where
  "group_value_eq a b \<longleftrightarrow>
     sv_field_id a = sv_field_id b \<and>
     (case (sv_value a, sv_value b) of (None, None) \<Rightarrow> True | (Some x, Some y) \<Rightarrow> scalar_eq x y | _ \<Rightarrow> False)"

definition group_values_eq :: "evidence_summary_value list \<Rightarrow> evidence_summary_value list \<Rightarrow> bool" where
  "group_values_eq xs ys \<longleftrightarrow> list_all2 group_value_eq xs ys"

definition value_item_matches :: "answer_claim \<Rightarrow> evidence_value \<Rightarrow> bool" where
  "value_item_matches c i \<longleftrightarrow>
     (ac_product_types c = [] \<or> ev_product_types i = ac_product_types c) \<and>
     (ev_grains i = [] \<or> ev_product_types i = ac_product_types c) \<and>
     (ac_native_result_grains c = [] \<or> ev_grains i = ac_native_result_grains c) \<and>
     (ev_grains i = [] \<or> ev_grains i = ac_native_result_grains c) \<and>
     (ac_partition_key c = None \<or> ev_partition_key i = ac_partition_key c) \<and>
     (ev_partition_key i = None \<or> ev_partition_key i = ac_partition_key c) \<and>
     (case ac_product_type c of None \<Rightarrow> True | Some t \<Rightarrow> ev_product_types i = [t]) \<and>
     ev_product_id i = ac_product_id c \<and> ev_field_id i = ac_field_id c \<and> same_value (ev_value i) (ac_value c) \<and>
     (ac_group_values c = [] \<or> group_values_eq (ev_group_values i) (ac_group_values c)) \<and>
     (ev_group_values i = [] \<or> group_values_eq (ev_group_values i) (ac_group_values c))"

definition number_sign :: "rat \<Rightarrow> value_sign" where
  "number_sign n = (if n > 0 then POSITIVE else if n < 0 then NEGATIVE else ZERO)"

definition sign_matches :: "evidence_object option \<Rightarrow> value_sign \<Rightarrow> bool" where
  "sign_matches v s =
     (case v of
        Some (EScalar (SInt n)) \<Rightarrow> s = number_sign (of_int n)
      | Some (EScalar (SDec d)) \<Rightarrow> s = number_sign (dval d)
      | _ \<Rightarrow> False)"

definition matches_value_claim :: "answer_claim \<Rightarrow> (pystr \<times> evidence_value) list \<Rightarrow> bool" where
  "matches_value_claim c values =
     (let referenced = map (lookup_value values) (ac_evidence_ids c) in
      if list_ex (\<lambda>i. i = None) referenced then False
      else case List.find (value_item_matches c) (map the referenced) of
        None \<Rightarrow> False
      | Some i \<Rightarrow> (case ac_sign c of None \<Rightarrow> True | Some s \<Rightarrow> sign_matches (ev_value i) s))"

definition matches_candidate_claim :: "answer_claim \<Rightarrow> (pystr \<times> evidence_value) list \<Rightarrow> bool" where
  "matches_candidate_claim c values =
     (let referenced = map (lookup_value values) (ac_evidence_ids c) in
      referenced \<noteq> [] \<and>
      list_all (\<lambda>i. case i of None \<Rightarrow> False
                   | Some v \<Rightarrow> map Some (ev_product_types v) = [ac_product_type c] \<and> ev_product_id v = ac_product_id c) referenced)"

text \<open>The evidence that a claim about one product must cite when that product has holdings.\<close>

definition owner_holding_ids :: "evidence_bundle \<Rightarrow> product_type \<Rightarrow> pystr \<Rightarrow> pystr list" where
  "owner_holding_ids e t i =
     map hr_evidence_id (filter (\<lambda>h. hr_owner_product_type h = t \<and> hr_owner_product_id h = i) (eb_holding_records e))"

definition owner_coverage_ids :: "evidence_bundle \<Rightarrow> product_type \<Rightarrow> pystr \<Rightarrow> pystr list" where
  "owner_coverage_ids e t i =
     map hc_evidence_id (filter (\<lambda>h. hc_owner_product_type h = t \<and> hc_owner_product_id h = i) (eb_holding_coverage e))"

definition owner_identity_ids :: "evidence_bundle \<Rightarrow> product_type \<Rightarrow> pystr \<Rightarrow> pystr list" where
  "owner_identity_ids e t i =
     map de_evidence_id (filter (\<lambda>d. de_product_type d = t \<and> de_product_id d = Some i \<and> de_field_id d = cp ''product_id'') (eb_direct e))"

definition require_holding_claim_evidence :: "answer_claim \<Rightarrow> evidence_bundle \<Rightarrow> unit result" where
  "require_holding_claim_evidence c e =
     (case (ac_product_type c, ac_product_id c) of
        (Some t, Some i) \<Rightarrow>
          let holding_ids = owner_holding_ids e t i; coverage_ids = owner_coverage_ids e t i;
              owner_ids = owner_identity_ids e t i; referenced = set (ac_evidence_ids c) in
          if holding_ids = [] then Inr ()
          else raise_if (owner_ids = [] \<or> coverage_ids = []
                  \<or> \<not> list_all (\<lambda>required. referenced \<inter> set required \<noteq> {}) [owner_ids, holding_ids, coverage_ids])
                 (ValueError ''holding evidence is incomplete'')
      | _ \<Rightarrow> Inr ())"

abbreviation overseas_return_prefix :: pystr where
  "overseas_return_prefix \<equiv> [54644, 50808, 32, 69, 84, 70, 47, 69, 84, 78, 51032, 32, 49, 45380, 32, 49688, 51061, 47456]"
abbreviation top_ten_phrase :: pystr where "top_ten_phrase \<equiv> [49345, 50948, 32, 49, 48, 44060, 32, 48512, 48516, 32, 51088, 47308]"
abbreviation holdings_phrase :: pystr where "holdings_phrase \<equiv> [44396, 49457, 51333, 47785, 32, 51088, 47308]"
abbreviation not_provided_phrase :: pystr where "not_provided_phrase \<equiv> [51228, 44277, 46104, 51648, 32, 50506, 50500]"
abbreviation partial_phrase :: pystr where "partial_phrase \<equiv> [48512, 48516, 32, 48276, 50948]"

definition py_endswith :: "pystr \<Rightarrow> pystr \<Rightarrow> bool" where
  "py_endswith s t = py_startswith (rev s) (rev t)"

definition required_limitation_evidence :: "pystr \<Rightarrow> evidence_bundle \<Rightarrow> pystr list" where
  "required_limitation_evidence limitation e =
     (if py_startswith limitation overseas_return_prefix
      then map es_summary_id (filter (\<lambda>s. es_partition_key s = Some (cp ''limitation:overseas-return-1y'')) (eb_summaries e))
      else if py_contains limitation top_ten_phrase
      then map hc_evidence_id (filter (\<lambda>h. hc_coverage_state h = PARTIAL_TOP_10) (eb_holding_coverage e))
      else if py_contains limitation holdings_phrase
      then let state = (if py_contains limitation not_provided_phrase then Some (cp ''unavailable'')
                        else if py_contains limitation partial_phrase then Some (cp ''partial_top_10'') else None) in
           map es_summary_id (filter (\<lambda>s. es_kind s = ES_COVERAGE \<and>
             (case es_product_types s of [] \<Rightarrow> False | t # _ \<Rightarrow> py_startswith limitation (product_type_value t)) \<and>
             (case state of None \<Rightarrow> True
              | Some st \<Rightarrow> (case es_partition_key s of None \<Rightarrow> False | Some k \<Rightarrow> py_endswith k (cp '':'' @ st)))) (eb_summaries e))
      else [])"

definition requires_limitation_evidence :: "pystr \<Rightarrow> bool" where
  "requires_limitation_evidence limitation \<longleftrightarrow>
     py_startswith limitation overseas_return_prefix \<or> py_contains limitation top_ten_phrase \<or> py_contains limitation holdings_phrase"

text \<open>The checks of one claim, in order.\<close>

definition verify_claim :: "forbidden_patterns \<Rightarrow> pystr \<Rightarrow> evidence_bundle \<Rightarrow> answer_claim \<Rightarrow> unit result" where
  "verify_claim patterns draft_text e c =
     (let values = evidence_values e in
      rbind (require_safe_claim patterns c) (\<lambda>_.
      rbind (raise_if (\<not> py_contains draft_text (ac_text c)) (ValueError ''claim text differs from answer projection'')) (\<lambda>_.
      rbind (raise_if (ac_kind c = NUMERIC \<and> ac_evidence_ids c = []) (ValueError ''numeric claim requires evidence'')) (\<lambda>_.
      rbind (raise_if (\<not> set (ac_evidence_ids c) \<subseteq> set (map fst values)) (ValueError ''claim differs from evidence'')) (\<lambda>_.
      rbind (raise_if (ac_kind c = CANDIDATE \<and> \<not> matches_candidate_claim c values) (ValueError ''claim differs from evidence'')) (\<lambda>_.
      rbind (if ac_kind c = CANDIDATE \<or> list_ex (\<lambda>s. es_kind s = ES_RANK \<and> es_summary_id s \<in> set (ac_evidence_ids c)) (eb_summaries e)
             then require_holding_claim_evidence c e else Inr ()) (\<lambda>_.
      rbind (case (ac_kind c, ac_value c) of
               (LIMITATION, Some (SStr l)) \<Rightarrow>
                 let required = required_limitation_evidence l e in
                 raise_if (requires_limitation_evidence l \<and> (required = [] \<or> \<not> set required \<subseteq> set (ac_evidence_ids c)))
                   (ValueError ''holding limitation evidence differs'')
             | _ \<Rightarrow> Inr ()) (\<lambda>_.
        raise_if ((ac_kind c = NUMERIC \<or> ac_field_id c \<noteq> None) \<and> \<not> matches_value_claim c values)
          (ValueError ''claim differs from evidence'')))))))))"

definition claim_limitation :: "answer_claim \<Rightarrow> pystr option" where
  "claim_limitation c = (case (ac_kind c, ac_value c) of (LIMITATION, Some (SStr l)) \<Rightarrow> Some l | _ \<Rightarrow> None)"

definition claimed_limitations :: "answer_claim list \<Rightarrow> pystr list" where
  "claimed_limitations cs = List.map_filter claim_limitation cs"

definition verify_answer :: "forbidden_patterns \<Rightarrow> answer_draft \<Rightarrow> evidence_bundle \<Rightarrow> verified_answer result" where
  "verify_answer patterns draft e =
     rbind (raise_if (\<not> set (eb_material_policy_limitations e) \<subseteq> set (claimed_limitations (at_claims draft)))
              (ValueError ''material policy limitation is missing'')) (\<lambda>_.
     rbind (traverse (verify_claim patterns (at_text draft) e) (at_claims draft)) (\<lambda>_.
       make_answer_text (at_text draft) (at_claims draft)))"

section \<open>What a verified answer guarantees\<close>

text \<open>A claim is backed by an item of the bundle that it cites.\<close>

definition backed :: "evidence_bundle \<Rightarrow> answer_claim \<Rightarrow> bool" where
  "backed e c \<longleftrightarrow>
     list_ex (\<lambda>(i, v). i \<in> set (ac_evidence_ids c) \<and> ev_product_id v = ac_product_id c \<and> ev_field_id v = ac_field_id c \<and>
        same_value (ev_value v) (ac_value c) \<and>
        (case ac_product_type c of None \<Rightarrow> True | Some t \<Rightarrow> ev_product_types v = [t]) \<and>
        (case ac_sign c of None \<Rightarrow> True | Some s \<Rightarrow> sign_matches (ev_value v) s)) (evidence_values e)"

lemma lookup_value_member: "lookup_value values i = Some v \<Longrightarrow> (i, v) \<in> set values"
  by (auto simp: lookup_value_def dest: map_of_SomeD)

lemma matches_value_claim_backed:
  assumes "matches_value_claim c (evidence_values e)"
  shows "backed e c"
proof -
  let ?ref = "map (lookup_value (evidence_values e)) (ac_evidence_ids c)"
  from assms have none: "\<not> list_ex (\<lambda>i. i = None) ?ref" by (auto simp: matches_value_claim_def Let_def)
  with assms obtain i where i: "List.find (value_item_matches c) (map the ?ref) = Some i"
    "case ac_sign c of None \<Rightarrow> True | Some s \<Rightarrow> sign_matches (ev_value i) s"
    by (auto simp: matches_value_claim_def Let_def split: option.splits)
  from i(1) have "i \<in> set (map the ?ref)" "value_item_matches c i" by (auto simp: find_Some_iff)
  then obtain k where k: "k \<in> set (ac_evidence_ids c)" "i = the (lookup_value (evidence_values e) k)" by auto
  with none have "lookup_value (evidence_values e) k = Some i" by (cases "lookup_value (evidence_values e) k") (force simp: list_ex_iff)+
  from lookup_value_member [OF this] k(1) i(2) \<open>value_item_matches c i\<close> show ?thesis
    by (auto simp: backed_def list_ex_iff value_item_matches_def)
qed

lemma verify_claim_Inr:
  assumes "verify_claim patterns t e c = Inr ()"
  shows "ac_kind c \<noteq> RECOMMENDATION" and "\<exists>ps. patterns = Some ps \<and> \<not> list_ex (\<lambda>p. py_contains (ac_text c) p) ps"
    and "py_contains t (ac_text c)" and "set (ac_evidence_ids c) \<subseteq> set (map fst (evidence_values e))"
    and "ac_kind c = NUMERIC \<or> ac_field_id c \<noteq> None \<Longrightarrow> backed e c"
    and "ac_kind c = CANDIDATE \<Longrightarrow> matches_candidate_claim c (evidence_values e) \<and> require_holding_claim_evidence c e = Inr ()"
proof -
  note v = assms [unfolded verify_claim_def Let_def rbind_eq_Inr_iff raise_if_eq_Inr_iff, simplified]
  show "ac_kind c \<noteq> RECOMMENDATION" "\<exists>ps. patterns = Some ps \<and> \<not> list_ex (\<lambda>p. py_contains (ac_text c) p) ps"
    using v by (auto simp: require_safe_claim_def split: if_splits option.splits)
  show "py_contains t (ac_text c)" "set (ac_evidence_ids c) \<subseteq> set (map fst (evidence_values e))" using v by auto
  show "backed e c" if "ac_kind c = NUMERIC \<or> ac_field_id c \<noteq> None"
    using v that by (intro matches_value_claim_backed) auto
  show "ac_kind c = CANDIDATE \<Longrightarrow> matches_candidate_claim c (evidence_values e) \<and> require_holding_claim_evidence c e = Inr ()"
    using v by simp
qed

lemma evidence_values_ids: "map fst (evidence_values e) = evidence_ids e"
  by (simp add: evidence_values_def evidence_ids_def comp_def)

lemma verify_answer_Inr:
  assumes "verify_answer patterns draft e = Inr a"
  shows "a = draft" and "set (eb_material_policy_limitations e) \<subseteq> set (claimed_limitations (at_claims draft))"
    and "c \<in> set (at_claims draft) \<Longrightarrow> verify_claim patterns (at_text draft) e c = Inr ()"
proof -
  from assms obtain us where lim: "set (eb_material_policy_limitations e) \<subseteq> set (claimed_limitations (at_claims draft))"
    and us: "traverse (verify_claim patterns (at_text draft) e) (at_claims draft) = Inr us" and a: "a = draft"
    by (auto simp: verify_answer_def rbind_eq_Inr_iff make_answer_text_def split: if_splits)
  from lim a show "a = draft" "set (eb_material_policy_limitations e) \<subseteq> set (claimed_limitations (at_claims draft))" by simp_all
  show "verify_claim patterns (at_text draft) e c = Inr ()" if "c \<in> set (at_claims draft)"
    using traverse_image [OF us that] by auto
qed

text \<open>A bundle with one count and one material limitation, and a draft about it.\<close>

definition example_summary :: evidence_summary where
  "example_summary =
     \<lparr>es_summary_id = cp ''summary:count'', es_kind = ES_COUNT, es_included_count = 3, es_excluded_count = 0, es_evidence_ids = [],
      es_policy_versions = [cp ''state:1''], es_validated_plan_sha256 = replicate 64 97, es_version_bundle_sha256 = replicate 64 97,
      es_artifact_manifest_hash = replicate 64 97, es_product_types = [], es_native_result_grains = [], es_partition_key = None,
      es_product_id = None, es_metric_id = None, es_rank = None, es_tie_count = None, es_value = Some (SInt 3), es_group_values = []\<rparr>"

definition example_evidence :: evidence_bundle where
  "example_evidence = \<lparr>eb_direct = [], eb_derived = [], eb_summaries = [example_summary], eb_material_policy_limitations = [cp ''snapshot''],
     eb_holding_records = [], eb_holding_coverage = []\<rparr>"

definition example_claim :: "string \<Rightarrow> claim_kind \<Rightarrow> string \<Rightarrow> answer_claim" where
  "example_claim i k t =
     \<lparr>ac_claim_id = cp i, ac_kind = k, ac_text = cp t, ac_product_type = None, ac_product_types = [], ac_native_result_grains = [],
      ac_partition_key = None, ac_product_id = None, ac_field_id = None, ac_value = Some (SStr (cp t)), ac_group_values = [],
      ac_evidence_ids = [], ac_sign = None\<rparr>"

definition example_draft :: answer_draft where
  "example_draft = \<lparr>at_text = cp ''snapshot: count 3'', at_claims =
     [example_claim ''claim:snapshot'' LIMITATION ''snapshot'',
      (example_claim ''claim:count'' NUMERIC ''count 3'')\<lparr>ac_value := Some (SInt 3), ac_evidence_ids := [cp ''summary:count''], ac_sign := Some POSITIVE\<rparr>]\<rparr>"

end
