(* ===== verification/Canonical_Json.thy ===== *)
theory Canonical_Json
  imports Source
begin

text \<open>
  Canonical JSON and logical hashes: \<open>finproof/data/artifacts/hashing.py\<close>. \<open>canonical_scalar\<close>
  maps Python values to JSON values, \<open>canonical_json_bytes\<close> prints them with sorted keys and no
  spaces and encodes them, and the digests of schemas and tables are taken over those bytes. The
  digests identify content only if the printed form does: it is shown to be injective.
\<close>

section \<open>Values\<close>

text \<open>
  The values that reach the canonical form: \<open>PTime\<close> is a \<open>datetime\<close> with its microseconds and,
  when aware, its UTC offset in seconds; \<open>PEnum\<close> the value of a string enum; \<open>PSeq\<close> a list or a
  tuple; \<open>PMap\<close> a mapping with string keys in its own order; \<open>POther\<close> any value of another type,
  among them mappings with other keys.
\<close>

datatype py_value =
    PNone | PBool bool | PInt int | PStr pystr | PDec decimal | PTime datetime nat "int option" | PDate date
  | PEnum pystr | PPath posix_path | PSeq "py_value list" | PMap "(pystr \<times> py_value) list" | POther

datatype json = JNull | JBool bool | JInt int | JStr pystr | JArr "json list" | JObj "(pystr \<times> json) list"

section \<open>canonical\_scalar\<close>

text \<open>\<open>format(d, "f")\<close> without its sign: the integer part and, when the exponent is negative, the fraction.\<close>

definition fixed_parts :: "decimal \<Rightarrow> pystr \<times> pystr option" where
  "fixed_parts d =
     (let ds = nat_digits (dcoeff d) in
      if 0 \<le> dexp d then (ds @ replicate (nat (dexp d)) 48, None)
      else let k = nat (- dexp d) in
        if length ds \<le> k then ([48], Some (replicate (k - length ds) 48 @ ds))
        else (take (length ds - k) ds, Some (drop (length ds - k) ds)))"

definition rstrip_zeros :: "pystr \<Rightarrow> pystr" where
  "rstrip_zeros s = rev (dropWhile (\<lambda>c. c = 48) (rev s))"

definition canonical_decimal :: "decimal \<Rightarrow> pystr result" where
  "canonical_decimal d =
     (if dcoeff d = 0 then Inr (cp ''0'')
      else
        let (integer, fraction) = fixed_parts d;
            digits = rstrip_zeros (case fraction of None \<Rightarrow> [] | Some f \<Rightarrow> f);
            stripped = dropWhile (\<lambda>c. c = 48) integer;
            significant = (if stripped = [] then [48] else stripped) in
        rbind (raise_if (length significant > 20 \<or> length digits > 18)
                 (ValueError ''Decimal does not fit decimal128(38,18)'')) (\<lambda>_.
          Inr ((if dneg d then [45] else []) @ integer
               @ (if fraction \<noteq> None \<and> digits \<noteq> [] then 46 # digits else []))))"

text \<open>\<open>isoformat(timespec="microseconds")\<close>, with \<open>Z\<close> for the exact UTC offset.\<close>

definition microseconds_str :: "nat \<Rightarrow> pystr" where
  "microseconds_str n = map (\<lambda>k. 48 + n div 10 ^ k mod 10) [5, 4, 3, 2, 1, 0]"

definition canonical_datetime :: "datetime \<Rightarrow> nat \<Rightarrow> int option \<Rightarrow> pystr result" where
  "canonical_datetime t us offset =
     (let rendered = isoformat (dt_date t) @ [84] @ two_digits (dt_hour t) @ [58] @ two_digits (dt_minute t)
            @ [58] @ two_digits (dt_second t) @ [46] @ microseconds_str us in
      case offset of
        None \<Rightarrow> Inr rendered
      | Some z \<Rightarrow> if z \<noteq> 0 then Inl (ValueError ''aware datetime must have exact UTC offset'') else Inr (rendered @ [90]))"

lemma traverse_cong [fundef_cong]: "xs = ys \<Longrightarrow> (\<And>x. x \<in> set ys \<Longrightarrow> f x = g x) \<Longrightarrow> traverse f xs = traverse g ys"
proof (hypsubst)
  assume "\<And>x. x \<in> set ys \<Longrightarrow> f x = g x"
  then show "traverse f ys = traverse g ys" 
  proof (induction ys)
    case (Cons y ys)
    then show ?case by (cases "g y") simp_all
  qed simp
qed

text \<open>The entries of a mapping are visited in the order of their keys.\<close>

function (sequential) canonical_scalar :: "py_value \<Rightarrow> json result" where
  "canonical_scalar PNone = Inr JNull"
| "canonical_scalar (PBool b) = Inr (JBool b)"
| "canonical_scalar (PInt n) = Inr (JInt n)"
| "canonical_scalar (PStr s) = Inr (JStr s)"
| "canonical_scalar (PDec d) = rbind (canonical_decimal d) (\<lambda>s. Inr (JStr s))"
| "canonical_scalar (PTime t us offset) = rbind (canonical_datetime t us offset) (\<lambda>s. Inr (JStr s))"
| "canonical_scalar (PDate d) = Inr (JStr (isoformat d))"
| "canonical_scalar (PEnum s) = Inr (JStr s)"
| "canonical_scalar (PPath p) = Inr (JStr (as_posix p))"
| "canonical_scalar (PSeq vs) = rbind (traverse canonical_scalar vs) (\<lambda>js. Inr (JArr js))"
| "canonical_scalar (PMap kvs) =
     rbind (traverse (\<lambda>kv. rbind (canonical_scalar (snd kv)) (\<lambda>j. Inr (fst kv, j))) (py_sorted fst kvs)) (\<lambda>js. Inr (JObj js))"
| "canonical_scalar POther = Inl (TypeError ''unsupported canonical value type'')"
  by pat_completeness auto

termination
proof (relation "measure size")
  fix kvs and kv :: "pystr \<times> py_value"
  assume "kv \<in> set (py_sorted fst kvs)"
  then have "kv \<in> set kvs" by simp
  then have "size (snd kv) < size_list (size_prod (\<lambda>x. 0) size) kvs" by (rule size_list_estimation) (cases kv, simp)
  then show "(snd kv, PMap kvs) \<in> measure size" by simp
qed (auto intro!: size_list_estimation' [OF _ order_refl] simp: less_Suc_eq_le)

section \<open>canonical\_json\_bytes\<close>

definition json_escape :: "nat \<Rightarrow> pystr" where
  "json_escape c =
     (if c = 34 then [92, 34] else if c = 92 then [92, 92] else if c = 10 then [92, 110] else if c = 13 then [92, 114]
      else if c = 9 then [92, 116] else if c = 12 then [92, 102] else if c = 8 then [92, 98]
      else if c < 32 then [92, 117, 48, 48, hex_digit (c div 16), hex_digit (c mod 16)] else [c])"

definition json_string :: "pystr \<Rightarrow> pystr" where
  "json_string s = [34] @ concat (map json_escape s) @ [34]"

text \<open>\<open>json.dumps(value, ensure_ascii=False, sort_keys=True, separators=(",", ":"))\<close>\<close>

fun json_dumps :: "json \<Rightarrow> pystr" where
  "json_dumps JNull = cp ''null''"
| "json_dumps (JBool b) = (if b then cp ''true'' else cp ''false'')"
| "json_dumps (JInt n) = int_str n"
| "json_dumps (JStr s) = json_string s"
| "json_dumps (JArr js) = [91] @ py_join [44] (map json_dumps js) @ [93]"
| "json_dumps (JObj kjs) =
     [123] @ py_join [44] (map (\<lambda>(k, t). json_string k @ [58] @ t) (py_sorted fst (map (\<lambda>(k, j). (k, json_dumps j)) kjs))) @ [125]"

definition canonical_json_bytes :: "py_value \<Rightarrow> bool \<Rightarrow> nat list result" where
  "canonical_json_bytes v terminal_newline =
     rbind (canonical_scalar v) (\<lambda>j.
     rbind (utf8_encode (json_dumps j)) (\<lambda>bs. Inr (bs @ (if terminal_newline then [10] else []))))"

section \<open>UTF-8 is injective\<close>

lemma utf8_parts:
  fixes c :: nat
  shows "c = c div 64 * 64 + c mod 64" and "c = c div 4096 * 4096 + c div 64 mod 64 * 64 + c mod 64"
    and "c = c div 262144 * 262144 + c div 4096 mod 64 * 4096 + c div 64 mod 64 * 64 + c mod 64"
proof -
  have 1: "c div 4096 = c div 64 div 64" using div_mult2_eq [of c 64 64] by simp
  have 2: "c div 262144 = c div 64 div 64 div 64" using div_mult2_eq [of c 4096 64] 1 by simp
  note m = div_mult_mod_eq [of c 64] div_mult_mod_eq [of "c div 64" 64] div_mult_mod_eq [of "c div 64 div 64" 64]
  show "c = c div 64 * 64 + c mod 64" "c = c div 4096 * 4096 + c div 64 mod 64 * 64 + c mod 64"
    "c = c div 262144 * 262144 + c div 4096 mod 64 * 4096 + c div 64 mod 64 * 64 + c mod 64"
    unfolding 1 2 using m by linarith+
qed

lemma utf8_char_prefix: "utf8_char c @ x = utf8_char d @ y \<Longrightarrow> c = d \<and> x = y"
proof -
  assume eq: "utf8_char c @ x = utf8_char d @ y"
  have lead: "c < 2048 \<Longrightarrow> c div 64 < 32" "c < 65536 \<Longrightarrow> c div 4096 < 16" for c :: nat by (simp_all add: div_less_iff_less_mult)
  note p = utf8_parts [of c] utf8_parts [of d] and l = lead [of c] lead [of d]
  consider "c < 128" | "\<not> c < 128" "c < 2048" | "\<not> c < 2048" "c < 65536" | "\<not> c < 65536" by linarith
  then show ?thesis
  proof cases
    case 1
    with eq show ?thesis by (auto simp: utf8_char_def split: if_splits)
  next
    case 2
    with eq l have "x = y \<and> c div 64 = d div 64 \<and> c mod 64 = d mod 64"
      by (auto simp: utf8_char_def split: if_splits)
    with p(1,4) show ?thesis by metis
  next
    case 3
    with eq l have "x = y \<and> c div 4096 = d div 4096 \<and> c div 64 mod 64 = d div 64 mod 64 \<and> c mod 64 = d mod 64"
      by (auto simp: utf8_char_def split: if_splits)
    with p(2,5) show ?thesis by metis
  next
    case 4
    with eq l have "x = y \<and> c div 262144 = d div 262144 \<and> c div 4096 mod 64 = d div 4096 mod 64
        \<and> c div 64 mod 64 = d div 64 mod 64 \<and> c mod 64 = d mod 64"
      by (auto simp: utf8_char_def split: if_splits)
    with p(3,6) show ?thesis by metis
  qed
qed

lemma utf8_chars_inj: "concat (map utf8_char s) = concat (map utf8_char t) \<Longrightarrow> s = t"
proof (induction s arbitrary: t)
  case Nil
  have "utf8_char c \<noteq> []" for c by (simp add: utf8_char_def)
  with Nil show ?case by (cases t) auto
next
  case (Cons c s)
  have "utf8_char c \<noteq> []" by (simp add: utf8_char_def)
  with Cons.prems obtain d u where t: "t = d # u" by (cases t) auto
  with Cons.prems utf8_char_prefix [of c _ d] Cons.IH show ?case by simp
qed

lemma utf8_encode_inj: "utf8_encode s = Inr b \<Longrightarrow> utf8_encode t = Inr b \<Longrightarrow> s = t"
  by (auto simp: utf8_encode_def intro: utf8_chars_inj split: if_splits)

section \<open>JSON texts are a prefix code\<close>

definition short_escape :: "nat \<Rightarrow> nat option" where
  "short_escape c =
     (if c = 34 then Some 34 else if c = 92 then Some 92 else if c = 10 then Some 110 else if c = 13 then Some 114
      else if c = 9 then Some 116 else if c = 12 then Some 102 else if c = 8 then Some 98 else None)"

lemma json_escape_cases:
  "json_escape c = (case short_escape c of
      Some e \<Rightarrow> [92, e]
    | None \<Rightarrow> if c < 32 then [92, 117, 48, 48, hex_digit (c div 16), hex_digit (c mod 16)] else [c])"
  by (simp add: json_escape_def short_escape_def)

lemma short_escape_inj: "short_escape c = Some e \<Longrightarrow> short_escape d = Some e \<Longrightarrow> c = d"
  by (simp add: short_escape_def split: if_splits)

lemma short_escape_facts: "short_escape c = Some e \<Longrightarrow> e \<noteq> 117" "short_escape c = None \<Longrightarrow> c \<noteq> 92"
  by (auto simp: short_escape_def split: if_splits)

lemma hex_digit_inj: "hex_digit a = hex_digit b \<Longrightarrow> a < 16 \<Longrightarrow> b < 16 \<Longrightarrow> a = b"
  by (auto simp: hex_digit_def split: if_splits)

lemma hex_digits_inj:
  assumes "hex_digit (c div 16) = hex_digit (d div 16)" "hex_digit (c mod 16) = hex_digit (d mod 16)"
    and "c < 32" "d < 32"
  shows "c = d"
proof -
  have "c div 16 = d div 16" "c mod 16 = d mod 16" using assms by (auto intro: hex_digit_inj)
  then show "c = d" by (metis div_mult_mod_eq)
qed

lemma json_escape_prefix:
  assumes "json_escape c @ x = json_escape d @ y"
  shows "c = d \<and> x = y"
proof (cases "short_escape c"; cases "short_escape d")
  fix e f assume "short_escape c = Some e" "short_escape d = Some f"
  with assms short_escape_inj [of c e d] show ?thesis by (simp add: json_escape_cases)
next
  assume n: "short_escape c = None" "short_escape d = None"
  with assms short_escape_facts(2) [of c] short_escape_facts(2) [of d] hex_digits_inj [of c d] show ?thesis
    by (cases "c < 32"; cases "d < 32") (simp_all add: json_escape_cases)
next
  fix e assume "short_escape c = None" "short_escape d = Some e"
  with assms short_escape_facts(1) [of d e] short_escape_facts(2) [of c] show ?thesis
    by (cases "c < 32") (simp_all add: json_escape_cases)
next
  fix e assume "short_escape c = Some e" "short_escape d = None"
  with assms short_escape_facts(1) [of c e] short_escape_facts(2) [of d] show ?thesis
    by (cases "d < 32") (simp_all add: json_escape_cases)
qed

lemma json_escape_head [simp]: "json_escape c @ x \<noteq> 34 # y" "34 # y \<noteq> json_escape c @ x"
  by (auto simp: json_escape_def)

lemma escaped_prefix:
  "concat (map json_escape s) @ 34 # x = concat (map json_escape t) @ 34 # y \<Longrightarrow> s = t \<and> x = y"
proof (induction s arbitrary: t)
  case Nil
  then show ?case by (cases t) simp_all
next
  case (Cons c s)
  note IH = Cons.IH
  show ?case
  proof (cases t)
    case Nil
    with Cons.prems show ?thesis by simp
  next
    case (Cons d u)
    with Cons.prems have "json_escape c @ concat (map json_escape s) @ 34 # x = json_escape d @ concat (map json_escape u) @ 34 # y"
      by simp
    from json_escape_prefix [OF this] IH Cons show ?thesis by simp
  qed
qed

lemma json_string_prefix: "json_string s @ x = json_string t @ y \<Longrightarrow> s = t \<and> x = y"
  by (rule escaped_prefix) (simp add: json_string_def)

text \<open>What may follow a JSON value: nothing, or a character that cannot continue a number.\<close>

definition ends_value :: "pystr \<Rightarrow> bool" where
  "ends_value r \<longleftrightarrow> r = [] \<or> \<not> is_digit (hd r)"

lemma nat_digits_digits: "list_all is_digit (nat_digits n)"
proof (induction n rule: nat_digits.induct)
  case (1 n)
  have d: "is_digit (48 + n mod 10)" "n < 10 \<Longrightarrow> is_digit (48 + n)" by (simp_all add: is_digit_def)
  with 1 show ?case by (subst nat_digits.simps) simp
qed

lemma nat_digits_nonempty [simp]: "nat_digits n \<noteq> []" "[] \<noteq> nat_digits n"
  by (subst nat_digits.simps, simp)+

lemma nat_digits_inj: "nat_digits m = nat_digits n \<Longrightarrow> m = n"
proof (induction m arbitrary: n rule: nat_digits.induct)
  case (1 m)
  note eq = "1.prems" [unfolded nat_digits.simps [of m] nat_digits.simps [of n]]
  show ?case
  proof (cases "m < 10 \<or> n < 10")
    case True
    with eq show ?thesis by (auto split: if_splits simp: Cons_eq_append_conv append_eq_Cons_conv)
  next
    case False
    with eq have "nat_digits (m div 10) = nat_digits (n div 10)" "m mod 10 = n mod 10" by simp_all
    moreover have "m div 10 = n div 10" using "1.IH" False calculation(1) by simp
    ultimately show ?thesis by (metis div_mult_mod_eq)
  qed
qed

lemma digits_prefix:
  assumes "list_all is_digit a" and "list_all is_digit b" and "a @ x = b @ y" and "ends_value x" and "ends_value y"
  shows "a = b \<and> x = y"
proof -
  have tw: "takeWhile is_digit (d @ r) = d" if "list_all is_digit d" "ends_value r" for d r
    using that by (cases r) (auto simp: list_all_iff ends_value_def takeWhile_append2)
  have "a = b" using tw [OF assms(1,4)] tw [OF assms(2,5)] assms(3) by simp
  with assms(3) show ?thesis by simp
qed

lemma nat_digits_no_minus [simp]: "nat_digits n @ x \<noteq> 45 # y" "45 # y \<noteq> nat_digits n @ x"
  using nat_digits_digits [of n] by (cases "nat_digits n"; auto simp: is_digit_def)+

lemma int_str_prefix:
  assumes "int_str m @ x = int_str n @ y" and "ends_value x" and "ends_value y"
  shows "m = n \<and> x = y"
proof -
  have "nat_digits a = nat_digits b \<and> x = y" if "nat_digits a @ x = nat_digits b @ y" for a b
    by (rule digits_prefix [OF nat_digits_digits nat_digits_digits that assms(2,3)])
  then have "a = b \<and> x = y" if "nat_digits a @ x = nat_digits b @ y" for a b
    using that nat_digits_inj by blast
  note same = this
  show ?thesis
  proof (cases "m < 0"; cases "n < 0")
    assume "m < 0" "n < 0"
    with assms(1) same [of "nat (- m)" "nat (- n)"] show ?thesis by (simp add: int_str_def) linarith
  next
    assume "\<not> m < 0" "\<not> n < 0"
    with assms(1) same [of "nat m" "nat n"] show ?thesis by (simp add: int_str_def) linarith
  qed (use assms(1) in \<open>simp_all add: int_str_def\<close>)
qed

text \<open>Items joined by commas and closed by a bracket are read back item by item.\<close>

definition joined :: "('a \<Rightarrow> pystr) \<Rightarrow> 'a list \<Rightarrow> nat \<Rightarrow> pystr \<Rightarrow> pystr" where
  "joined f xs e r = py_join [44] (map f xs) @ e # r"

lemma joined_Cons: "joined f (x # xs) e r = f x @ (if xs = [] then e # r else 44 # joined f xs e r)"
  by (cases xs) (simp_all add: joined_def)

definition item_start :: "pystr \<Rightarrow> bool" where
  "item_start t \<longleftrightarrow> t \<noteq> [] \<and> hd t \<noteq> 93 \<and> hd t \<noteq> 125"

lemma joined_prefix:
  assumes items: "\<And>a b x y. a \<in> set as \<Longrightarrow> b \<in> set bs \<Longrightarrow> f a @ x = f b @ y \<Longrightarrow> ends_value x \<Longrightarrow> ends_value y \<Longrightarrow> a = b \<and> x = y"
    and start: "\<And>a. item_start (f a)" and e: "e = 93 \<or> e = 125"
    and eq: "joined f as e x = joined f bs e y"
  shows "as = bs \<and> x = y"
  using items eq
proof (induction as arbitrary: bs)
  have head: "f a @ r \<noteq> e # z" "e # z \<noteq> f a @ r" for a r z using start [of a] e by (cases "f a"; auto simp: item_start_def)+
  {
    case Nil
    show ?case
    proof (cases bs)
      case (Cons b bs')
      with Nil(2) have "e # x = f b @ (if bs' = [] then e # y else 44 # joined f bs' e y)" by (simp only: joined_Cons) (simp add: joined_def)
      with head show ?thesis by metis
    qed (use Nil(2) in \<open>simp add: joined_def\<close>)
  next
    case (Cons a as)
    note IH = Cons.IH and items = Cons.prems(1) and eq = Cons.prems(2)
    let ?rest = "\<lambda>us z. if us = [] then e # z else 44 # joined f us e z"
    have ends: "ends_value (?rest us z)" for us z using e by (auto simp: ends_value_def is_digit_def)
    show ?case
    proof (cases bs)
      case Nil
      with eq have "f a @ ?rest as x = e # y" by (simp only: joined_Cons) (simp add: joined_def)
      with head show ?thesis by metis
    next
      case (Cons b bs')
      with eq have "f a @ ?rest as x = f b @ ?rest bs' y" by (simp only: joined_Cons)
      from items [OF _ _ this ends ends] Cons have ab: "a = b" "?rest as x = ?rest bs' y" by simp_all
      show ?thesis
      proof (cases "as = [] \<or> bs' = []")
        case True
        with ab e Cons show ?thesis by (auto split: if_splits)
      next
        case False
        with ab have "joined f as e x = joined f bs' e y" by simp
        from IH [OF _ this] items Cons have "as = bs' \<and> x = y" by (meson list.set_intros(2))
        with Cons ab show ?thesis by simp
      qed
    qed
  }
qed

section \<open>The printed form determines the value\<close>

text \<open>The JSON values that \<open>canonical_scalar\<close> produces: the keys of every object are in order.\<close>

fun in_order :: "json \<Rightarrow> bool" where
  "in_order (JArr js) \<longleftrightarrow> list_all in_order js"
| "in_order (JObj kjs) \<longleftrightarrow> sorted (map fst kjs) \<and> list_all (\<lambda>kj. in_order (snd kj)) kjs"
| "in_order _ \<longleftrightarrow> True"

lemma canonical_scalar_in_order: "canonical_scalar v = Inr j \<Longrightarrow> in_order j"
proof (induction v arbitrary: j rule: canonical_scalar.induct)
  case (10 vs)
  then obtain js where js: "traverse canonical_scalar vs = Inr js" and j: "j = JArr js" by (auto simp: rbind_eq_Inr_iff)
  have "in_order k" if "k \<in> set js" for k using traverse_member [OF js that] "10.IH" by auto
  then show ?case by (simp add: j list_all_iff)
next
  case (11 kvs)
  let ?f = "\<lambda>kv. rbind (canonical_scalar (snd kv)) (\<lambda>j. Inr (fst kv, j))"
  from "11.prems" obtain js where js: "traverse ?f (py_sorted fst kvs) = Inr js" and j: "j = JObj js" by (auto simp: rbind_eq_Inr_iff)
  have "map fst js = map fst (py_sorted fst kvs)"
    using js unfolding traverse_eq_Inr_iff
    by (intro sym [OF list_all2_eq [THEN iffD2]]) (auto simp: list_all2_map1 list_all2_map2 rbind_eq_Inr_iff elim!: list_all2_mono)
  moreover have "in_order (snd kj)" if "kj \<in> set js" for kj
    using traverse_member [OF js that] "11.IH" by (auto simp: rbind_eq_Inr_iff)
  ultimately show ?case by (simp add: j list_all_iff py_sorted_def)
qed (auto simp: rbind_eq_Inr_iff)

definition json_entry :: "pystr \<times> json \<Rightarrow> pystr" where
  "json_entry kj = json_string (fst kj) @ [58] @ json_dumps (snd kj)"

lemma json_dumps_object: "sorted (map fst kjs) \<Longrightarrow> json_dumps (JObj kjs) @ r = 123 # joined json_entry kjs 125 r"
proof -
  assume "sorted (map fst kjs)"
  then have "py_sorted fst (map (\<lambda>(k, j). (k, json_dumps j)) kjs) = map (\<lambda>(k, j). (k, json_dumps j)) kjs"
    unfolding py_sorted_def by (intro sort_key_id_if_sorted) (simp add: comp_def case_prod_beta)
  moreover have "json_entry = (\<lambda>kj. json_string (fst kj) @ 58 # json_dumps (snd kj))" by (rule ext) (simp add: json_entry_def)
  ultimately show ?thesis by (simp add: joined_def comp_def case_prod_beta)
qed

lemma json_dumps_array: "json_dumps (JArr js) @ r = 91 # joined json_dumps js 93 r"
  by (simp add: joined_def)

lemma int_str_start: "\<exists>c r. int_str n = c # r \<and> (c = 45 \<or> is_digit c)"
  using nat_digits_digits [of "nat n"] by (cases "nat_digits (nat n)") (auto simp: int_str_def)

text \<open>The first character tells the constructor.\<close>

fun json_head :: "json \<Rightarrow> nat \<Rightarrow> bool" where
  "json_head JNull c \<longleftrightarrow> c = 110"
| "json_head (JBool b) c \<longleftrightarrow> c = (if b then 116 else 102)"
| "json_head (JInt _) c \<longleftrightarrow> c = 45 \<or> is_digit c"
| "json_head (JStr _) c \<longleftrightarrow> c = 34"
| "json_head (JArr _) c \<longleftrightarrow> c = 91"
| "json_head (JObj _) c \<longleftrightarrow> c = 123"

lemma json_dumps_head: "\<exists>c r. json_dumps j = c # r \<and> json_head j c"
  using int_str_start by (cases j) (auto simp: json_string_def cp_def)

lemma item_start_dumps: "item_start (json_dumps j)"
  using json_dumps_head [of j] by (cases j) (auto simp: item_start_def is_digit_def)

lemma item_start_entry: "item_start (json_entry kj)"
  by (simp add: item_start_def json_entry_def json_string_def)

lemma json_dumps_prefix:
  assumes "json_dumps a @ x = json_dumps b @ y" "in_order a" "in_order b" "ends_value x" "ends_value y"
  shows "a = b \<and> x = y"
  using assms
proof (induction a arbitrary: b x y)
  fix b x y
  have head: "\<exists>c. json_head a c \<and> json_head b c" if "json_dumps a @ x = json_dumps b @ y" for a b x y
    using that json_dumps_head [of a] json_dumps_head [of b] by auto
  {
    case JNull
    with head [OF JNull(1)] show ?case by (cases b) (auto simp: is_digit_def split: if_splits)
  next
    case (JBool v)
    with head [OF JBool(1)] show ?case by (cases b) (auto simp: is_digit_def split: if_splits)
  next
    case (JInt n)
    from head [OF JInt(1)] obtain m where b: "b = JInt m" by (cases b) (auto simp: is_digit_def split: if_splits)
    from JInt(1) have "int_str n @ x = int_str m @ y" by (simp add: b)
    from int_str_prefix [OF this JInt(4,5)] show ?case by (simp add: b)
  next
    case (JStr s)
    from head [OF JStr(1)] obtain t where b: "b = JStr t" by (cases b) (auto simp: is_digit_def split: if_splits)
    from JStr(1) have "json_string s @ x = json_string t @ y" by (simp add: b)
    from json_string_prefix [OF this] show ?case by (simp add: b)
  next
    case (JArr js)
    from head [OF JArr(2)] obtain js' where b: "b = JArr js'" by (cases b) (auto simp: is_digit_def split: if_splits)
    from JArr(2) have eq: "joined json_dumps js 93 x = joined json_dumps js' 93 y" unfolding b json_dumps_array by simp
    have "js = js' \<and> x = y"
    proof (rule joined_prefix [OF _ item_start_dumps _ eq])
      fix p q u v
      assume "p \<in> set js" "q \<in> set js'" "json_dumps p @ u = json_dumps q @ v" "ends_value u" "ends_value v"
      moreover from this JArr(3,4) have "in_order p" "in_order q" by (simp_all add: b list_all_iff)
      ultimately show "p = q \<and> u = v" by (intro JArr(1))
    qed simp
    then show ?case by (simp add: b)
  next
    case (JObj kjs)
    from head [OF JObj(2)] obtain kjs' where b: "b = JObj kjs'" by (cases b) (auto simp: is_digit_def split: if_splits)
    from JObj(2-4) have eq: "joined json_entry kjs 125 x = joined json_entry kjs' 125 y" by (simp add: b json_dumps_object del: json_dumps.simps)
    have entry: "p = q \<and> u = v"
      if "p \<in> set kjs" "q \<in> set kjs'" "json_entry p @ u = json_entry q @ v" "ends_value u" "ends_value v" for p q u v
    proof -
      from that(3) have "json_string (fst p) @ 58 # json_dumps (snd p) @ u = json_string (fst q) @ 58 # json_dumps (snd q) @ v"
        by (simp add: json_entry_def)
      from json_string_prefix [OF this] have k: "fst p = fst q" and d: "json_dumps (snd p) @ u = json_dumps (snd q) @ v" by simp_all
      have "in_order (snd p)" "in_order (snd q)" using that(1,2) JObj(3,4) by (auto simp: b list_all_iff)
      moreover have "snd p \<in> Basic_BNFs.snds p" by (cases p) simp
      ultimately have "snd p = snd q \<and> u = v" using JObj(1) [OF that(1) _ d _ _ that(4,5)] by blast
      with k show ?thesis by (simp add: prod_eq_iff)
    qed
    have "kjs = kjs' \<and> x = y" by (rule joined_prefix [OF entry item_start_entry _ eq]) (assumption | simp)+
    then show ?case by (simp add: b)
  }
qed

lemma canonical_json_line:
  "canonical_json_bytes v True = Inr b \<longleftrightarrow>
     (\<exists>j. canonical_scalar v = Inr j \<and> encodable (json_dumps j) \<and> b = concat (map utf8_char (json_dumps j @ [10])))"
proof -
  have "utf8_char 10 = [10]" by (simp add: utf8_char_def)
  then show ?thesis by (cases "canonical_scalar v") (auto simp: canonical_json_bytes_def utf8_encode_def)
qed

lemma json_lines_inj:
  assumes "concat (map (\<lambda>j. json_dumps j @ [10]) js) = concat (map (\<lambda>j. json_dumps j @ [10]) ks)"
    and "list_all in_order js" and "list_all in_order ks"
  shows "js = ks"
  using assms
proof (induction js arbitrary: ks)
  case Nil
  then show ?case by (cases ks) auto
next
  case (Cons j js)
  from Cons.prems(1) obtain k ks' where ks: "ks = k # ks'" by (cases ks) auto
  have nl: "ends_value (10 # r)" for r by (simp add: ends_value_def is_digit_def)
  from Cons.prems(1) have "json_dumps j @ 10 # concat (map (\<lambda>j. json_dumps j @ [10]) js)
      = json_dumps k @ 10 # concat (map (\<lambda>j. json_dumps j @ [10]) ks')" by (simp add: ks)
  from json_dumps_prefix [OF this _ _ nl nl] Cons.prems(2,3) Cons.IH show ?case by (simp add: ks)
qed

text \<open>A sequence of canonical lines is read back line by line.\<close>

lemma canonical_lines_inj:
  assumes "list_all2 (\<lambda>v b. canonical_json_bytes v True = Inr b) vs bs"
    and "list_all2 (\<lambda>v b. canonical_json_bytes v True = Inr b) ws cs" and "concat bs = concat cs"
  shows "map canonical_scalar vs = map canonical_scalar ws"
proof -
  have lines: "\<exists>js. map canonical_scalar us = map Inr js \<and> list_all in_order js
      \<and> concat ds = concat (map utf8_char (concat (map (\<lambda>j. json_dumps j @ [10]) js)))"
    if "list_all2 (\<lambda>v b. canonical_json_bytes v True = Inr b) us ds" for us ds
    using that
  proof induction
    case (Cons u us d ds)
    from Cons.IH obtain js where js: "map canonical_scalar us = map Inr js" "list_all in_order js"
      "concat ds = concat (map utf8_char (concat (map (\<lambda>j. json_dumps j @ [10]) js)))" by blast
    from Cons.hyps(1) obtain j where "canonical_scalar u = Inr j" "d = concat (map utf8_char (json_dumps j @ [10]))"
      unfolding canonical_json_line by blast
    with js show ?case by (intro exI [of _ "j # js"]) (simp add: canonical_scalar_in_order)
  qed simp
  from lines [OF assms(1)] lines [OF assms(2)] assms(3) utf8_chars_inj json_lines_inj show ?thesis by metis
qed

section \<open>Schema and table digests\<close>

text \<open>\<open>ColumnSpecIdentity\<close> and \<open>TableSpecIdentity\<close>; the exact types they declare are those of the fields.\<close>

record column_spec =
  col_name :: pystr
  col_logical_type :: pystr
  col_arrow_type :: pystr
  col_duckdb_type :: pystr
  col_nullable :: bool

record table_spec =
  ts_table_name :: pystr
  ts_grain :: pystr
  ts_columns :: "column_spec list"
  ts_unique_key :: "pystr list"
  ts_sort_key :: "pystr list"
  ts_logical_projection :: "pystr list"

definition require_exact_text :: "pystr \<Rightarrow> unit result" where
  "require_exact_text s = raise_if (s = []) (TypeError ''must be a non-empty exact string'')"

definition require_name_tuple :: "pystr list \<Rightarrow> unit result" where
  "require_name_tuple names = rbind (traverse require_exact_text names) (\<lambda>_. Inr ())"

definition validate_column_spec :: "column_spec \<Rightarrow> unit result" where
  "validate_column_spec c =
     rbind (require_exact_text (col_name c)) (\<lambda>_.
     rbind (require_exact_text (col_logical_type c)) (\<lambda>_.
     rbind (require_exact_text (col_arrow_type c)) (\<lambda>_. require_exact_text (col_duckdb_type c))))"

definition validate_table_spec :: "table_spec \<Rightarrow> unit result" where
  "validate_table_spec s =
     rbind (require_exact_text (ts_table_name s)) (\<lambda>_.
     rbind (require_exact_text (ts_grain s)) (\<lambda>_.
     rbind (raise_if (ts_columns s = []) (TypeError ''columns must be a non-empty exact tuple'')) (\<lambda>_.
     rbind (traverse validate_column_spec (ts_columns s)) (\<lambda>_.
     let known_names = map col_name (ts_columns s); projection = ts_logical_projection s in
     rbind (raise_if (\<not> distinct known_names) (ValueError ''column names must be unique'')) (\<lambda>_.
     rbind (require_name_tuple (ts_unique_key s)) (\<lambda>_.
     rbind (require_name_tuple (ts_sort_key s)) (\<lambda>_.
     rbind (require_name_tuple projection) (\<lambda>_.
     rbind (raise_if (projection = [] \<or> \<not> distinct projection)
              (ValueError ''logical_projection must be non-empty and unique'')) (\<lambda>_.
     rbind (raise_if (\<not> set (ts_unique_key s) \<subseteq> set known_names) (ValueError ''unique_key contains an unknown column'')) (\<lambda>_.
     rbind (raise_if (\<not> set (ts_sort_key s) \<subseteq> set known_names) (ValueError ''sort_key contains an unknown column'')) (\<lambda>_.
       raise_if (\<not> set projection \<subseteq> set known_names)
         (ValueError ''logical_projection contains an unknown column''))))))))))))"

definition column_projection :: "column_spec \<Rightarrow> py_value" where
  "column_projection c =
     PMap [(cp ''name'', PStr (col_name c)), (cp ''logical_type'', PStr (col_logical_type c)),
       (cp ''arrow_type'', PStr (col_arrow_type c)), (cp ''duckdb_type'', PStr (col_duckdb_type c)),
       (cp ''nullable'', PBool (col_nullable c))]"

definition schema_projection :: "table_spec \<Rightarrow> py_value" where
  "schema_projection s =
     PMap [(cp ''table_name'', PStr (ts_table_name s)), (cp ''grain'', PStr (ts_grain s)),
       (cp ''columns'', PSeq (map column_projection (ts_columns s))),
       (cp ''unique_key'', PSeq (map PStr (ts_unique_key s))), (cp ''sort_key'', PSeq (map PStr (ts_sort_key s)))]"

definition schema_sha256 :: "table_spec \<Rightarrow> pystr result" where
  "schema_sha256 s =
     rbind (validate_table_spec s) (\<lambda>_.
     rbind (canonical_json_bytes (schema_projection s) True) (\<lambda>bs. Inr (sha256_hex bs)))"

text \<open>
  The bytes \<open>table_logical_hash\<close> feeds to the digest: a header line, then a line per row. A row is a
  mapping, given by its items in iteration order.
\<close>

definition table_header :: "pystr \<Rightarrow> table_spec \<Rightarrow> int \<Rightarrow> py_value" where
  "table_header schema s row_count =
     PMap [(cp ''schema_sha256'', PStr schema), (cp ''logical_projection'', PSeq (map PStr (ts_logical_projection s))),
       (cp ''row_count'', PInt row_count)]"

definition table_row_bytes :: "table_spec \<Rightarrow> (pystr \<times> py_value) list \<Rightarrow> nat list result" where
  "table_row_bytes s row =
     rbind (raise_if (\<not> distinct (map fst row)) (TypeError ''table row must be a mapping with unique keys'')) (\<lambda>_.
     rbind (raise_if (set (map fst row) \<noteq> set (ts_logical_projection s)) (ValueError ''row keys must equal the logical projection'')) (\<lambda>_.
       canonical_json_bytes (PMap row) True))"

definition table_digest_bytes :: "table_spec \<Rightarrow> int \<Rightarrow> (pystr \<times> py_value) list list \<Rightarrow> nat list result" where
  "table_digest_bytes s row_count rows =
     rbind (raise_if (row_count < 0) (TypeError ''row_count must be an exact nonnegative integer'')) (\<lambda>_.
     rbind (schema_sha256 s) (\<lambda>schema.
     rbind (canonical_json_bytes (table_header schema s row_count) True) (\<lambda>header.
     rbind (traverse (table_row_bytes s) rows) (\<lambda>lines.
     rbind (raise_if (int (length rows) \<noteq> row_count) (ValueError ''observed row count does not match row_count'')) (\<lambda>_.
       Inr (header @ concat lines))))))"

definition table_logical_hash :: "table_spec \<Rightarrow> int \<Rightarrow> (pystr \<times> py_value) list list \<Rightarrow> pystr result" where
  "table_logical_hash s row_count rows = rbind (table_digest_bytes s row_count rows) (\<lambda>bs. Inr (sha256_hex bs))"

lemma canonical_header:
  "canonical_scalar (table_header h s n) =
     Inr (JObj [(cp ''logical_projection'', JArr (map JStr (ts_logical_projection s))), (cp ''row_count'', JInt n),
       (cp ''schema_sha256'', JStr h)])"
proof -
  have "py_sorted fst [(cp ''schema_sha256'', PStr h), (cp ''logical_projection'', PSeq (map PStr (ts_logical_projection s))),
       (cp ''row_count'', PInt n)] = [(cp ''logical_projection'', PSeq (map PStr (ts_logical_projection s))), (cp ''row_count'', PInt n),
       (cp ''schema_sha256'', PStr h)]"
    by (simp add: py_sorted_def cp_def)
  moreover have "traverse canonical_scalar (map PStr ps) = Inr (map JStr ps)" for ps by (induction ps) simp_all
  ultimately show ?thesis by (simp add: table_header_def)
qed

lemma table_digest_lines:
  assumes "table_digest_bytes s n rows = Inr b"
  obtains h bs where "schema_sha256 s = Inr h" and "n = int (length rows)" and "b = concat bs"
    and "list_all2 (\<lambda>v b. canonical_json_bytes v True = Inr b) (table_header h s n # map PMap rows) bs"
    and "\<And>row. row \<in> set rows \<Longrightarrow> distinct (map fst row) \<and> set (map fst row) = set (ts_logical_projection s)"
proof -
  from assms obtain h d ls where h: "schema_sha256 s = Inr h" "canonical_json_bytes (table_header h s n) True = Inr d"
    and ls: "traverse (table_row_bytes s) rows = Inr ls" and n: "n = int (length rows)" and b: "b = d @ concat ls"
    by (auto simp: table_digest_bytes_def rbind_eq_Inr_iff raise_if_eq_Inr_iff)
  have rows: "list_all2 (\<lambda>v b. canonical_json_bytes v True = Inr b) (map PMap rows) ls"
    using ls unfolding traverse_eq_Inr_iff list_all2_map1
    by (rule list_all2_mono) (auto simp: table_row_bytes_def rbind_eq_Inr_iff raise_if_eq_Inr_iff)
  have keys: "distinct (map fst row) \<and> set (map fst row) = set (ts_logical_projection s)" if "row \<in> set rows" for row
    using traverse_image [OF ls that] by (auto simp: table_row_bytes_def rbind_eq_Inr_iff raise_if_eq_Inr_iff)
  show thesis by (rule that [of h "d # ls"]) (use h n b rows keys in simp_all)
qed

text \<open>
  C31. The bytes digested for a table identify its content: if two tables give the same bytes, they
  have the same schema digest, the same projection, the same number of rows, and their rows have, one
  by one and in order, the same canonical values. No row can imitate the text of another row, of a
  line break or of the header.
\<close>

theorem table_digest_identifies:
  assumes "table_digest_bytes s n rows = Inr bs" and "table_digest_bytes t m rows' = Inr bs"
  shows "schema_sha256 s = schema_sha256 t \<and> ts_logical_projection s = ts_logical_projection t \<and> n = m
    \<and> map (\<lambda>row. canonical_scalar (PMap row)) rows = map (\<lambda>row. canonical_scalar (PMap row)) rows'"
proof -
  from assms(1) obtain h us where s: "schema_sha256 s = Inr h" "bs = concat us"
    and us: "list_all2 (\<lambda>v b. canonical_json_bytes v True = Inr b) (table_header h s n # map PMap rows) us"
    by (rule table_digest_lines)
  from assms(2) obtain k vs where t: "schema_sha256 t = Inr k" "bs = concat vs"
    and vs: "list_all2 (\<lambda>v b. canonical_json_bytes v True = Inr b) (table_header k t m # map PMap rows') vs"
    by (rule table_digest_lines)
  have "map canonical_scalar (table_header h s n # map PMap rows) = map canonical_scalar (table_header k t m # map PMap rows')"
    by (rule canonical_lines_inj [OF us vs]) (use s t in simp)
  moreover have "inj_on JStr A" for A by (simp add: inj_on_def)
  ultimately show ?thesis using s(1) t(1) by (auto simp: canonical_header comp_def map_eq_conv inj_map_eq_map dest: map_injective)
qed

text \<open>Two spellings of one number give one table.\<close>

definition example_spec :: table_spec where
  "example_spec = \<lparr>ts_table_name = cp ''t'', ts_grain = cp ''g'',
     ts_columns = [\<lparr>col_name = cp ''a'', col_logical_type = cp ''d'', col_arrow_type = cp ''d'', col_duckdb_type = cp ''d'', col_nullable = False\<rparr>],
     ts_unique_key = [], ts_sort_key = [], ts_logical_projection = [cp ''a'']\<rparr>"

lemma example_lines:
  "table_row_bytes example_spec [(cp ''a'', PDec (Dec True 15 (-1)))] = Inr (map of_char ''{\"a\":\"-1.5\"}'' @ [10])"
  "table_row_bytes example_spec [(cp ''a'', PDec (Dec True 150 (-2)))] = Inr (map of_char ''{\"a\":\"-1.5\"}'' @ [10])"
  by code_simp+

lemma encodable_json_string: "encodable (json_string s) \<longleftrightarrow> encodable s"
proof -
  have "encodable (json_escape c) \<longleftrightarrow> encodable [c]" for c by (auto simp: json_escape_def encodable_def hex_digit_def)
  then have "encodable (concat (map json_escape s)) \<longleftrightarrow> encodable s" by (induction s) (auto simp: encodable_def)
  moreover have "encodable [34]" by (simp add: encodable_def)
  ultimately show ?thesis by (simp add: json_string_def)
qed

lemma encodable_sha256_hex: "encodable (sha256_hex bs)"
  using is_sha256_hex_digest [of bs] by (auto simp: is_sha256_hex_def encodable_def list_all_iff)

lemma example_schema: "\<not> isl (validate_table_spec example_spec)" "\<not> isl (canonical_json_bytes (schema_projection example_spec) True)"
  by code_simp+

lemma example_digest: "\<exists>bs. table_digest_bytes example_spec 1 [[(cp ''a'', PDec (Dec True 15 (-1)))]] = Inr bs"
proof -
  obtain h where h: "schema_sha256 example_spec = Inr h" "encodable h"
    using example_schema encodable_sha256_hex
    by (cases "validate_table_spec example_spec"; cases "canonical_json_bytes (schema_projection example_spec) True")
      (simp_all add: schema_sha256_def)
  have "py_sorted fst [(cp ''logical_projection'', a), (cp ''row_count'', b), (cp ''schema_sha256'', c)]
     = [(cp ''logical_projection'', a), (cp ''row_count'', b), (cp ''schema_sha256'', c)]" for a b c :: pystr
    by (simp add: py_sorted_def cp_def)
  moreover have "encodable (int_str 1)" "encodable (cp ''a'')" "encodable (cp ''logical_projection'')" "encodable (cp ''row_count'')"
     "encodable (cp ''schema_sha256'')" "encodable [44]" "encodable [58]" "encodable [91]" "encodable [93]" "encodable [123]" "encodable [125]"
    by code_simp+
  ultimately have "encodable (json_dumps (JObj [(cp ''logical_projection'', JArr (map JStr (ts_logical_projection example_spec))),
      (cp ''row_count'', JInt 1), (cp ''schema_sha256'', JStr h)]))"
    using h(2) by (simp add: example_spec_def encodable_json_string)
  then have "\<exists>d. canonical_json_bytes (table_header h example_spec 1) True = Inr d"
    unfolding canonical_json_line canonical_header by blast
  with h(1) show ?thesis by (auto simp: table_digest_bytes_def example_lines raise_if_def)
qed

theorem table_digest_identifies_witness:
  "canonical_scalar (PMap [(cp ''a'', PDec (Dec True 15 (-1)))]) = canonical_scalar (PMap [(cp ''a'', PDec (Dec True 150 (-2)))])"
proof -
  from example_digest obtain bs where bs: "table_digest_bytes example_spec 1 [[(cp ''a'', PDec (Dec True 15 (-1)))]] = Inr bs" ..
  then have "table_digest_bytes example_spec 1 [[(cp ''a'', PDec (Dec True 150 (-2)))]] = Inr bs"
    unfolding table_digest_bytes_def by (simp add: example_lines)
  from table_digest_identifies [OF bs this] show ?thesis by simp
qed

end
