(* ===== verification/Admission.thy ===== *)
theory Admission
  imports Source
begin

text \<open>
  Deadlines and admission: \<open>finproof/service/limits.py\<close>, and the worker set of
  \<open>EvaluationOrchestrator\<close>, whose detached workers keep their permits. Times are seconds on the
  monotonic clock, as exact rationals. The event loop interleaves the requests between two
  suspension points, so the admission of many requests is a transition system whose events are the
  code between such points; the semaphore admits its waiters in the order of their arrival.
\<close>

section \<open>Deadlines\<close>

record request_deadline =
  dl_started_at :: rat
  dl_work_cutoff_at :: rat
  dl_outer_at :: rat

definition REQUEST_DEADLINE_SECONDS :: rat where "REQUEST_DEADLINE_SECONDS = 295"
definition SERIALIZATION_RESERVE_SECONDS :: rat where "SERIALIZATION_RESERVE_SECONDS = 2"

definition deadline_start :: "rat \<Rightarrow> request_deadline" where
  "deadline_start now =
     \<lparr>dl_started_at = now, dl_work_cutoff_at = now + REQUEST_DEADLINE_SECONDS - SERIALIZATION_RESERVE_SECONDS,
      dl_outer_at = now + REQUEST_DEADLINE_SECONDS\<rparr>"

definition remaining_work_seconds :: "request_deadline \<Rightarrow> rat \<Rightarrow> rat" where
  "remaining_work_seconds d now = max 0 (dl_work_cutoff_at d - now)"

definition remaining_outer_seconds :: "request_deadline \<Rightarrow> rat \<Rightarrow> rat" where
  "remaining_outer_seconds d now = max 0 (dl_outer_at d - now)"

lemma remaining_work_positive [simp]: "remaining_work_seconds d now \<le> 0 \<longleftrightarrow> dl_work_cutoff_at d \<le> now"
  by (auto simp: remaining_work_seconds_def)

lemma remaining_outer_positive [simp]: "remaining_outer_seconds d now \<le> 0 \<longleftrightarrow> dl_outer_at d \<le> now"
  by (auto simp: remaining_outer_seconds_def)

section \<open>Requests and permits\<close>

text \<open>
  A request waits for a permit, is inside the \<open>async with\<close> block, or has left it while its database
  worker still runs and keeps the permit. A request that holds nothing any more is forgotten.
\<close>

datatype request_phase = Queued | Inside | Detached

datatype worker_state = No_worker | Busy | Finished

record request_context =
  rc_correlation_id :: pystr
  rc_deadline :: request_deadline
  rc_retained :: bool
  rc_phase :: request_phase
  rc_worker :: worker_state

record limiter =
  lm_max_in_flight :: nat
  lm_semaphore :: nat
  lm_requests :: "(nat \<times> request_context) list"

definition make_limiter :: "int \<Rightarrow> limiter result" where
  "make_limiter max_in_flight =
     (if max_in_flight < 1 then Inl (ValueError ''max_in_flight must be positive'')
      else Inr \<lparr>lm_max_in_flight = nat max_in_flight, lm_semaphore = nat max_in_flight, lm_requests = []\<rparr>)"

definition set_request :: "nat \<Rightarrow> request_context \<Rightarrow> limiter \<Rightarrow> limiter" where
  "set_request i c l = l\<lparr>lm_requests := map (\<lambda>(j, d). if j = i then (j, c) else (j, d)) (lm_requests l)\<rparr>"

definition forget_request :: "nat \<Rightarrow> limiter \<Rightarrow> limiter" where
  "forget_request i l = l\<lparr>lm_requests := filter (\<lambda>(j, d). j \<noteq> i) (lm_requests l)\<rparr>"

definition release :: "limiter \<Rightarrow> limiter" where
  "release l = l\<lparr>lm_semaphore := lm_semaphore l + 1\<rparr>"

text \<open>\<open>acquire\<close> up to its first suspension: the new context joins the waiters unless its time is over.\<close>

definition acquire_enter :: "nat \<Rightarrow> pystr \<Rightarrow> request_deadline \<Rightarrow> rat \<Rightarrow> limiter \<Rightarrow> limiter result" where
  "acquire_enter i cid d now l =
     (if remaining_work_seconds d now \<le> 0 then Inl TimeoutError
      else Inr (l\<lparr>lm_requests := lm_requests l @ [(i, \<lparr>rc_correlation_id = cid, rc_deadline = d, rc_retained = False, rc_phase = Queued, rc_worker = No_worker\<rparr>)]\<rparr>))"

text \<open>\<open>wait_for(semaphore.acquire())\<close> succeeds for the first waiter when a permit is free.\<close>

definition first_queued :: "limiter \<Rightarrow> (nat \<times> request_context) option" where
  "first_queued l = next_or_none (\<lambda>(i, c). rc_phase c = Queued) (lm_requests l)"

definition admit :: "limiter \<Rightarrow> limiter option" where
  "admit l =
     (case first_queued l of
        None \<Rightarrow> None
      | Some (i, c) \<Rightarrow>
          if lm_semaphore l = 0 then None
          else Some (set_request i (c\<lparr>rc_phase := Inside\<rparr>) (l\<lparr>lm_semaphore := lm_semaphore l - 1\<rparr>)))"

text \<open>The wait ends without a permit, by a timeout or a cancellation.\<close>

definition give_up :: "nat \<Rightarrow> limiter \<Rightarrow> limiter option" where
  "give_up i l =
     (case map_of (lm_requests l) i of
        Some c \<Rightarrow> if rc_phase c = Queued then Some (forget_request i l) else None
      | None \<Rightarrow> None)"

text \<open>The orchestrator starts the one database worker of a request.\<close>

definition start_worker :: "nat \<Rightarrow> limiter \<Rightarrow> limiter option" where
  "start_worker i l =
     (case map_of (lm_requests l) i of
        Some c \<Rightarrow> if rc_phase c = Inside \<and> rc_worker c = No_worker then Some (set_request i (c\<lparr>rc_worker := Busy\<rparr>) l) else None
      | None \<Rightarrow> None)"

text \<open>A worker ends; the done callback of a retained context gives its permit back.\<close>

definition finish_worker :: "nat \<Rightarrow> limiter \<Rightarrow> limiter option" where
  "finish_worker i l =
     (case map_of (lm_requests l) i of
        Some c \<Rightarrow>
          if rc_worker c \<noteq> Busy then None
          else if rc_retained c then Some (release (forget_request i l))
          else Some (set_request i (c\<lparr>rc_worker := Finished\<rparr>) l)
      | None \<Rightarrow> None)"

definition retain_permit_until_done :: "request_context \<Rightarrow> request_context" where
  "retain_permit_until_done c = (if rc_retained c then c else c\<lparr>rc_retained := True\<rparr>)"

text \<open>
  The \<open>finally\<close> of \<open>acquire\<close>. With a retained permit the done callback releases: at once when the
  worker has ended, and otherwise when it ends.
\<close>

definition exit_acquire :: "nat \<Rightarrow> request_context \<Rightarrow> limiter \<Rightarrow> limiter" where
  "exit_acquire i c l =
     (if \<not> rc_retained c then release (forget_request i l)
      else if rc_worker c = Busy then set_request i (c\<lparr>rc_phase := Detached\<rparr>) l
      else release (forget_request i l))"

text \<open>
  A request leaves the block: after its worker has ended or before it has one, or, when the database
  stage is cut off by the deadline or by a cancellation, with the permit retained for the worker.
\<close>

definition leave :: "nat \<Rightarrow> limiter \<Rightarrow> limiter option" where
  "leave i l =
     (case map_of (lm_requests l) i of
        Some c \<Rightarrow> if rc_phase c = Inside \<and> rc_worker c \<noteq> Busy then Some (exit_acquire i c l) else None
      | None \<Rightarrow> None)"

definition cut_off :: "nat \<Rightarrow> limiter \<Rightarrow> limiter option" where
  "cut_off i l =
     (case map_of (lm_requests l) i of
        Some c \<Rightarrow>
          if rc_phase c = Inside \<and> rc_worker c \<noteq> No_worker
          then (let c' = retain_permit_until_done c in Some (exit_acquire i c' (set_request i c' l))) else None
      | None \<Rightarrow> None)"

datatype request_event =
    Enter nat pystr request_deadline rat | Admit | Give_up nat | Start_worker nat | Finish_worker nat | Leave nat | Cut_off nat

fun is_arrival :: "request_event \<Rightarrow> bool" where
  "is_arrival (Enter _ _ _ _) = True"
| "is_arrival _ = False"

fun limiter_step :: "request_event \<Rightarrow> limiter \<Rightarrow> limiter option" where
  "limiter_step (Enter i cid d now) l =
     (if i \<in> set (map fst (lm_requests l)) then None
      else case acquire_enter i cid d now l of Inl _ \<Rightarrow> None | Inr l' \<Rightarrow> Some l')"
| "limiter_step Admit l = admit l"
| "limiter_step (Give_up i) l = give_up i l"
| "limiter_step (Start_worker i) l = start_worker i l"
| "limiter_step (Finish_worker i) l = finish_worker i l"
| "limiter_step (Leave i) l = leave i l"
| "limiter_step (Cut_off i) l = cut_off i l"

inductive reachable :: "int \<Rightarrow> limiter \<Rightarrow> bool" for n where
  start: "make_limiter n = Inr l \<Longrightarrow> reachable n l"
| step: "reachable n l \<Longrightarrow> limiter_step e l = Some l' \<Longrightarrow> reachable n l'"

section \<open>Systems that drain\<close>

fun run :: "('e \<Rightarrow> 's \<Rightarrow> 's option) \<Rightarrow> 'e list \<Rightarrow> 's \<Rightarrow> 's option" where
  "run step [] s = Some s"
| "run step (e # es) s = (case step e s of None \<Rightarrow> None | Some s' \<Rightarrow> run step es s')"

text \<open>
  A system with an invariant in which every event but an arrival consumes some of a finite amount of
  pending work, and which is never stuck before it is quiet.
\<close>

locale draining_system =
  fixes step :: "'e \<Rightarrow> 's \<Rightarrow> 's option" and arrival :: "'e \<Rightarrow> bool" and inv :: "'s \<Rightarrow> bool"
    and pending :: "'s \<Rightarrow> nat" and quiet :: "'s \<Rightarrow> bool"
  assumes preserves: "inv s \<Longrightarrow> step e s = Some s' \<Longrightarrow> inv s'"
    and consumes: "inv s \<Longrightarrow> \<not> arrival e \<Longrightarrow> step e s = Some s' \<Longrightarrow> pending s' < pending s"
    and progress: "inv s \<Longrightarrow> \<not> quiet s \<Longrightarrow> \<exists>e. \<not> arrival e \<and> step e s \<noteq> None"
begin

lemma run_bounded:
  assumes "inv s" and "run step es s = Some s'" and "list_all (\<lambda>e. \<not> arrival e) es"
  shows "inv s' \<and> length es + pending s' \<le> pending s"
  using assms
proof (induction es arbitrary: s)
  case (Cons e es)
  then obtain t where t: "step e s = Some t" "run step es t = Some s'" by (auto split: option.splits)
  with Cons.prems have "inv t" "pending t < pending s" using preserves consumes by auto
  with Cons.IH [OF _ t(2)] Cons.prems(3) show ?case by auto
qed simp

lemma run_drains:
  assumes "inv s"
  shows "\<exists>es s'. run step es s = Some s' \<and> list_all (\<lambda>e. \<not> arrival e) es \<and> quiet s'"
  using assms
proof (induction "pending s" arbitrary: s rule: less_induct)
  case less
  show ?case
  proof (cases "quiet s")
    case True
    then show ?thesis by (intro exI [of _ "[]"]) auto
  next
    case False
    with progress [OF less.prems] obtain e t where e: "\<not> arrival e" "step e s = Some t" by auto
    from less.hyps [OF consumes [OF less.prems e] preserves [OF less.prems e(2)]] obtain es s' where
      "run step es t = Some s'" "list_all (\<lambda>e. \<not> arrival e) es" "quiet s'" by blast
    with e show ?thesis by (intro exI [of _ "e # es"] exI [of _ s']) simp
  qed
qed

end

section \<open>The permits\<close>

definition holds_permit :: "nat \<times> request_context \<Rightarrow> bool" where
  "holds_permit r \<longleftrightarrow> rc_phase (snd r) \<noteq> Queued"

fun context_ok :: "request_context \<Rightarrow> bool" where
  "context_ok c \<longleftrightarrow>
     (case rc_phase c of
        Queued \<Rightarrow> \<not> rc_retained c \<and> rc_worker c = No_worker
      | Inside \<Rightarrow> \<not> rc_retained c
      | Detached \<Rightarrow> rc_retained c \<and> rc_worker c = Busy)"

declare context_ok.simps [simp del]

definition permits_ok :: "limiter \<Rightarrow> bool" where
  "permits_ok l \<longleftrightarrow>
     0 < lm_max_in_flight l \<and> distinct (map fst (lm_requests l)) \<and> list_all (\<lambda>r. context_ok (snd r)) (lm_requests l) \<and>
     lm_semaphore l + length (filter holds_permit (lm_requests l)) = lm_max_in_flight l"

definition context_pending :: "request_context \<Rightarrow> nat" where
  "context_pending c =
     (case rc_phase c of
        Queued \<Rightarrow> 4
      | Inside \<Rightarrow> (case rc_worker c of No_worker \<Rightarrow> 3 | Busy \<Rightarrow> 2 | Finished \<Rightarrow> 1)
      | Detached \<Rightarrow> 1)"

definition pending_work :: "limiter \<Rightarrow> nat" where
  "pending_work l = sum_list (map (\<lambda>r. context_pending (snd r)) (lm_requests l))"

definition all_permits_free :: "limiter \<Rightarrow> bool" where
  "all_permits_free l \<longleftrightarrow> lm_requests l = [] \<and> lm_semaphore l = lm_max_in_flight l"

text \<open>A request of the list, with what stands before and after it.\<close>

lemma request_split:
  assumes "map_of rs i = Some c" and "distinct (map fst rs)"
  obtains us vs where "rs = us @ (i, c) # vs" and "i \<notin> set (map fst us)" and "i \<notin> set (map fst vs)"
proof -
  from map_of_SomeD [OF assms(1)] obtain us vs where "rs = us @ (i, c) # vs" by (meson split_list)
  with assms(2) that show thesis by force
qed

lemma set_request_split:
  assumes "lm_requests l = us @ (i, c) # vs" and "i \<notin> set (map fst us)" and "i \<notin> set (map fst vs)"
  shows "lm_requests (set_request i d l) = us @ (i, d) # vs"
proof -
  have "map (\<lambda>(j, e). if j = i then (j, d) else (j, e)) ws = ws" if "i \<notin> set (map fst ws)" for ws
    using that by (induction ws) auto
  with assms show ?thesis by (simp add: set_request_def)
qed

lemma forget_request_split:
  assumes "lm_requests l = us @ (i, c) # vs" and "i \<notin> set (map fst us)" and "i \<notin> set (map fst vs)"
  shows "lm_requests (forget_request i l) = us @ vs"
proof -
  have "filter (\<lambda>(j, e). j \<noteq> i) ws = ws" if "i \<notin> set (map fst ws)" for ws :: "(nat \<times> request_context) list"
    using that by (induction ws) auto
  with assms show ?thesis by (simp add: forget_request_def)
qed

text \<open>
  Every event but an arrival moves one request on or forgets it, and the semaphore changes exactly as
  the request gains or gives up a permit.
\<close>

definition moves_on :: "limiter \<Rightarrow> limiter \<Rightarrow> bool" where
  "moves_on l l' \<longleftrightarrow> lm_max_in_flight l' = lm_max_in_flight l \<and>
     (\<exists>us i c vs. lm_requests l = us @ (i, c) # vs \<and> context_ok c \<and>
        ((\<exists>d. lm_requests l' = us @ (i, d) # vs \<and> context_ok d \<and> context_pending d < context_pending c \<and>
            lm_semaphore l' + of_bool (holds_permit (i, d)) = lm_semaphore l + of_bool (holds_permit (i, c))) \<or>
         (lm_requests l' = us @ vs \<and> lm_semaphore l' = lm_semaphore l + of_bool (holds_permit (i, c)))))"

lemma moves_on_keeps:
  assumes "permits_ok l" and "moves_on l l'"
  shows "permits_ok l' \<and> pending_work l' < pending_work l"
proof -
  have pos: "0 < context_pending c" for c
    by (simp add: context_pending_def split: request_phase.split worker_state.split)
  from assms show ?thesis using pos
    by (auto simp: moves_on_def permits_ok_def pending_work_def split: if_splits)
qed

lemma moves_on_set:
  assumes "permits_ok l" and "map_of (lm_requests l) i = Some c" and "context_ok d" and "context_pending d < context_pending c"
    and "rc_phase d \<noteq> Queued" and "rc_phase c \<noteq> Queued"
  shows "moves_on l (set_request i d l)"
proof -
  from assms(1) have "distinct (map fst (lm_requests l))" and ok: "list_all (\<lambda>r. context_ok (snd r)) (lm_requests l)" by (simp_all add: permits_ok_def)
  from assms(2) this(1) obtain us vs where s: "lm_requests l = us @ (i, c) # vs" "i \<notin> set (map fst us)" "i \<notin> set (map fst vs)"
    by (rule request_split)
  from ok s(1) have "context_ok c" by simp
  with s(1) set_request_split [OF s] assms(3-6) show ?thesis
    unfolding moves_on_def by (intro conjI exI [of _ us] exI [of _ i] exI [of _ c] exI [of _ vs] disjI1 exI [of _ d])
      (simp_all add: set_request_def holds_permit_def)
qed

lemma moves_on_forget:
  assumes "permits_ok l" and "map_of (lm_requests l) i = Some c"
  shows "rc_phase c = Queued \<Longrightarrow> moves_on l (forget_request i l)"
    and "rc_phase c \<noteq> Queued \<Longrightarrow> moves_on l (release (forget_request i l))"
proof -
  from assms(1) have "distinct (map fst (lm_requests l))" and ok: "list_all (\<lambda>r. context_ok (snd r)) (lm_requests l)" by (simp_all add: permits_ok_def)
  from assms(2) this(1) obtain us vs where s: "lm_requests l = us @ (i, c) # vs" "i \<notin> set (map fst us)" "i \<notin> set (map fst vs)"
    by (rule request_split)
  from ok s(1) have c: "context_ok c" by simp
  note f = forget_request_split [OF s]
  show "moves_on l (forget_request i l)" if "rc_phase c = Queued"
    unfolding moves_on_def using s(1) f c that
    by (intro conjI exI [of _ us] exI [of _ i] exI [of _ c] exI [of _ vs] disjI2) (simp_all add: forget_request_def holds_permit_def)
  show "moves_on l (release (forget_request i l))" if "rc_phase c \<noteq> Queued"
    unfolding moves_on_def using s(1) f c that
    by (intro conjI exI [of _ us] exI [of _ i] exI [of _ c] exI [of _ vs] disjI2) (simp_all add: forget_request_def release_def holds_permit_def)
qed

lemma request_ok: "permits_ok l \<Longrightarrow> map_of (lm_requests l) i = Some c \<Longrightarrow> context_ok c"
  by (auto simp: permits_ok_def list_all_iff dest: map_of_SomeD)

lemma next_or_none_split: "next_or_none P xs = Some x \<Longrightarrow> \<exists>us vs. xs = us @ x # vs \<and> P x"
proof (induction xs)
  case (Cons y ys)
  show ?case
  proof (cases "P y")
    case True
    with Cons.prems show ?thesis by (intro exI [of _ "[]"] exI [of _ ys]) simp
  next
    case False
    with Cons obtain us vs where "ys = us @ x # vs \<and> P x" by auto
    then show ?thesis by (intro exI [of _ "y # us"] exI [of _ vs]) simp
  qed
qed simp

lemma admit_moves_on:
  assumes "permits_ok l" and "admit l = Some l'"
  shows "moves_on l l'"
proof -
  from assms(2) obtain i c where f: "first_queued l = Some (i, c)" "lm_semaphore l \<noteq> 0"
    and l': "l' = set_request i (c\<lparr>rc_phase := Inside\<rparr>) (l\<lparr>lm_semaphore := lm_semaphore l - 1\<rparr>)"
    by (auto simp: admit_def split: option.splits if_splits)
  from next_or_none_split [OF f(1) [unfolded first_queued_def]] obtain us vs where
    s: "lm_requests l = us @ (i, c) # vs" and q: "rc_phase c = Queued" by auto
  with assms(1) have n: "i \<notin> set (map fst us)" "i \<notin> set (map fst vs)" and c: "context_ok c" by (auto simp: permits_ok_def)
  have "lm_requests l' = us @ (i, c\<lparr>rc_phase := Inside\<rparr>) # vs"
    unfolding l' using s n by (intro set_request_split) simp_all
  with s q c f(2) show ?thesis unfolding moves_on_def l'
    by (intro conjI exI [of _ us] exI [of _ i] exI [of _ c] exI [of _ vs] disjI1 exI [of _ "c\<lparr>rc_phase := Inside\<rparr>"])
      (simp_all add: set_request_def holds_permit_def context_ok.simps context_pending_def)
qed

lemma set_forget [simp]: "forget_request i (set_request i c l) = forget_request i l" "set_request i d (set_request i c l) = set_request i d l"
proof -
  have "filter (\<lambda>(j, e). j \<noteq> i) (map (\<lambda>(j, e). if j = i then (j, c) else (j, e)) rs) = filter (\<lambda>(j, e). j \<noteq> i) rs" for rs
    by (induction rs) auto
  then show "forget_request i (set_request i c l) = forget_request i l" by (simp add: forget_request_def set_request_def)
  show "set_request i d (set_request i c l) = set_request i d l"
  proof -
    have "map (\<lambda>(j, e). if j = i then (j, d) else (j, e)) (map (\<lambda>(j, e). if j = i then (j, c) else (j, e)) rs)
        = map (\<lambda>(j, e). if j = i then (j, d) else (j, e)) rs" for rs
      by (induction rs) auto
    then show ?thesis by (simp only: set_request_def limiter.simps limiter.surjective) simp
  qed
qed

lemma limiter_step_moves_on:
  assumes ok: "permits_ok l" and "\<not> is_arrival e" and "limiter_step e l = Some l'"
  shows "moves_on l l'"
proof (cases e)
  case Admit
  with assms show ?thesis by (simp add: admit_moves_on)
next
  case (Give_up i)
  with assms moves_on_forget(1) [OF ok] show ?thesis by (auto simp: give_up_def split: option.splits if_splits)
next
  case (Start_worker i)
  with assms obtain c where c: "map_of (lm_requests l) i = Some c" "rc_phase c = Inside" "rc_worker c = No_worker"
    "l' = set_request i (c\<lparr>rc_worker := Busy\<rparr>) l"
    by (auto simp: start_worker_def split: option.splits if_splits)
  with request_ok [OF ok c(1)] show ?thesis
    by (auto simp: context_ok.simps context_pending_def intro!: moves_on_set [OF ok c(1)])
next
  case (Finish_worker i)
  with assms obtain c where c: "map_of (lm_requests l) i = Some c" "rc_worker c = Busy"
    "l' = (if rc_retained c then release (forget_request i l) else set_request i (c\<lparr>rc_worker := Finished\<rparr>) l)"
    by (auto simp: finish_worker_def split: option.splits if_splits)
  with request_ok [OF ok c(1)] have "rc_phase c \<noteq> Queued" "\<not> rc_retained c \<Longrightarrow> rc_phase c = Inside"
    by (auto simp: context_ok.simps split: request_phase.splits)
  with c moves_on_forget(2) [OF ok c(1)] request_ok [OF ok c(1)] show ?thesis
    by (auto simp: context_ok.simps context_pending_def intro!: moves_on_set [OF ok c(1)])
next
  case (Leave i)
  with assms obtain c where c: "map_of (lm_requests l) i = Some c" "rc_phase c = Inside" "rc_worker c \<noteq> Busy" "l' = exit_acquire i c l"
    by (auto simp: leave_def split: option.splits if_splits)
  with moves_on_forget(2) [OF ok c(1)] show ?thesis by (simp add: exit_acquire_def)
next
  case (Cut_off i)
  with assms obtain c where c: "map_of (lm_requests l) i = Some c" "rc_phase c = Inside" "rc_worker c \<noteq> No_worker"
    "l' = exit_acquire i (retain_permit_until_done c) (set_request i (retain_permit_until_done c) l)"
    by (auto simp: cut_off_def Let_def split: option.splits if_splits)
  with moves_on_forget(2) [OF ok c(1)] show ?thesis
    by (auto simp: exit_acquire_def retain_permit_until_done_def context_ok.simps context_pending_def intro!: moves_on_set [OF ok c(1)])
next
  case (Enter i cid d now)
  with assms(2) show ?thesis by simp
qed

lemma enter_keeps: "permits_ok l \<Longrightarrow> limiter_step (Enter i cid d now) l = Some l' \<Longrightarrow> permits_ok l'"
  by (auto simp: permits_ok_def acquire_enter_def holds_permit_def context_ok.simps split: if_splits)

lemma limiter_progress:
  assumes ok: "permits_ok l" and "\<not> all_permits_free l"
  shows "\<exists>e. \<not> is_arrival e \<and> limiter_step e l \<noteq> None"
proof (cases "list_ex holds_permit (lm_requests l)")
  case True
  then obtain i c where r: "(i, c) \<in> set (lm_requests l)" "rc_phase c \<noteq> Queued" by (auto simp: list_ex_iff holds_permit_def)
  with ok have m: "map_of (lm_requests l) i = Some c" by (simp add: permits_ok_def)
  show ?thesis
  proof (cases "rc_worker c = Busy")
    case True
    with m show ?thesis by (intro exI [of _ "Finish_worker i"]) (simp add: finish_worker_def)
  next
    case False
    with r request_ok [OF ok m] have "rc_phase c = Inside" by (cases "rc_phase c") (simp_all add: context_ok.simps)
    with m False show ?thesis by (intro exI [of _ "Leave i"]) (simp add: leave_def)
  qed
next
  case False
  then have none: "filter holds_permit (lm_requests l) = []" by (auto simp: filter_empty_conv list_ex_iff)
  with ok have full: "lm_semaphore l = lm_max_in_flight l" "0 < lm_max_in_flight l" by (simp_all add: permits_ok_def)
  with assms(2) obtain r rs where "lm_requests l = r # rs" by (cases "lm_requests l") (auto simp: all_permits_free_def)
  with False have "first_queued l = Some r" by (cases r) (simp add: first_queued_def holds_permit_def)
  with full show ?thesis by (intro exI [of _ Admit]) (simp add: admit_def split: prod.split)
qed

interpretation limiter: draining_system limiter_step is_arrival permits_ok pending_work all_permits_free
proof
  fix l l' e
  assume ok: "permits_ok l" and s: "limiter_step e l = Some l'"
  show "permits_ok l'"
  proof (cases "is_arrival e")
    case True
    with ok s show ?thesis by (cases e) (simp_all only: is_arrival.simps, blast intro: enter_keeps)
  next
    case False
    from moves_on_keeps [OF ok limiter_step_moves_on [OF ok False s]] show ?thesis by simp
  qed
next
  fix l l' e
  assume ok: "permits_ok l" and "\<not> is_arrival e" "limiter_step e l = Some l'"
  from moves_on_keeps [OF ok limiter_step_moves_on [OF this]] show "pending_work l' < pending_work l" by simp
qed (rule limiter_progress)

lemma reachable_permits_ok: "reachable n l \<Longrightarrow> permits_ok l"
proof (induction rule: reachable.induct)
  case (start l)
  then show ?case by (auto simp: make_limiter_def permits_ok_def split: if_splits)
next
  case (step l e l')
  then show ?case using limiter.preserves by blast
qed

lemma limiter_step_limit:
  assumes "permits_ok l" and "limiter_step e l = Some l'"
  shows "lm_max_in_flight l' = lm_max_in_flight l"
proof (cases "is_arrival e")
  case True
  with assms(2) show ?thesis by (cases e) (auto simp: acquire_enter_def split: if_splits)
next
  case False
  from limiter_step_moves_on [OF assms(1) this assms(2)] show ?thesis by (auto simp: moves_on_def)
qed

lemma reachable_limit: "reachable n l \<Longrightarrow> int (lm_max_in_flight l) = n"
proof (induction rule: reachable.induct)
  case (step l e l')
  then show ?case using limiter_step_limit [OF reachable_permits_ok] by simp
qed (auto simp: make_limiter_def split: if_splits)

lemma length_filter_mono: "(\<And>x. x \<in> set xs \<Longrightarrow> P x \<Longrightarrow> Q x) \<Longrightarrow> length (filter P xs) \<le> length (filter Q xs)"
  by (induction xs) (auto intro: le_SucI)

section \<open>Properties\<close>

text \<open>
  C37. Permits are conserved. However requests arrive, time out, are cancelled, start workers, leave or are
  cut off with a worker still running, the free permits and the requests that hold one always add up
  to the configured limit; so never more requests than that are inside the block or have a running
  database worker, and a request that waits holds nothing.
\<close>

theorem permits_conserved:
  assumes "reachable n l"
  shows "int (lm_semaphore l + length (filter holds_permit (lm_requests l))) = n \<and>
    int (length (filter (\<lambda>r. rc_phase (snd r) = Inside \<or> rc_worker (snd r) = Busy) (lm_requests l))) \<le> n"
proof -
  note ok = reachable_permits_ok [OF assms]
  have sum: "lm_semaphore l + length (filter holds_permit (lm_requests l)) = lm_max_in_flight l" using ok by (simp add: permits_ok_def)
  have "holds_permit r" if "r \<in> set (lm_requests l)" "rc_phase (snd r) = Inside \<or> rc_worker (snd r) = Busy" for r
  proof -
    from ok that(1) have "context_ok (snd r)" by (simp add: permits_ok_def list_all_iff)
    with that(2) show ?thesis by (cases "rc_phase (snd r)") (auto simp: holds_permit_def context_ok.simps)
  qed
  then have "length (filter (\<lambda>r. rc_phase (snd r) = Inside \<or> rc_worker (snd r) = Busy) (lm_requests l))
      \<le> length (filter holds_permit (lm_requests l))"
    by (rule length_filter_mono)
  with sum reachable_limit [OF assms] show ?thesis by linarith
qed

text \<open>
  C38. No permit is ever lost. From every reachable state, every run without new arrivals is finite, of
  at most four events for each request present, and as long as some request is waiting or some permit
  is out another event is possible: such a run can stop only when nobody waits and every permit is
  back, and there is a run that gets there.
\<close>

theorem permits_drain:
  assumes "reachable n l"
  shows "(\<forall>es l'. run limiter_step es l = Some l' \<and> list_all (\<lambda>e. \<not> is_arrival e) es \<longrightarrow>
            length es \<le> 4 * length (lm_requests l) \<and>
            ((\<exists>e. \<not> is_arrival e \<and> limiter_step e l' \<noteq> None) \<or> (lm_requests l' = [] \<and> int (lm_semaphore l') = n))) \<and>
         (\<exists>es l'. run limiter_step es l = Some l' \<and> list_all (\<lambda>e. \<not> is_arrival e) es \<and> lm_requests l' = [] \<and> int (lm_semaphore l') = n)"
proof -
  note ok = reachable_permits_ok [OF assms]
  have "context_pending c \<le> 4" for c by (simp add: context_pending_def split: request_phase.split worker_state.split)
  then have "sum_list (map (\<lambda>r. context_pending (snd r)) rs) \<le> 4 * length rs" for rs :: "(nat \<times> request_context) list"
    by (induction rs) (auto simp: add_mono)
  then have size: "pending_work l \<le> 4 * length (lm_requests l)" by (simp add: pending_work_def)
  have reach: "reachable n l'" if "run limiter_step es l = Some l'" for es l'
    using that assms by (induction es arbitrary: l) (auto split: option.splits intro: reachable.step)
  have free: "lm_requests l' = [] \<and> int (lm_semaphore l') = n" if "reachable n l'" "all_permits_free l'" for l'
    using that reachable_limit by (simp add: all_permits_free_def)
  show ?thesis
  proof (intro conjI allI impI)
    fix es l'
    assume r: "run limiter_step es l = Some l' \<and> list_all (\<lambda>e. \<not> is_arrival e) es"
    from limiter.run_bounded [OF ok] r size show "length es \<le> 4 * length (lm_requests l)" by fastforce
    from limiter.progress [OF reachable_permits_ok] reach r free
    show "(\<exists>e. \<not> is_arrival e \<and> limiter_step e l' \<noteq> None) \<or> (lm_requests l' = [] \<and> int (lm_semaphore l') = n)" by blast
  next
    from limiter.run_drains [OF ok] reach free
    show "\<exists>es l'. run limiter_step es l = Some l' \<and> list_all (\<lambda>e. \<not> is_arrival e) es \<and> lm_requests l' = [] \<and> int (lm_semaphore l') = n"
      by blast
  qed
qed

text \<open>
  One permit, two requests: the first is cut off while its worker runs, so the second waits on until
  the worker ends.
\<close>

definition example_trace :: "request_event list" where
  "example_trace = [Enter 1 (cp ''a'') (deadline_start 0) 0, Enter 2 (cp ''b'') (deadline_start 1) 1, Admit, Start_worker 1, Cut_off 1]"

definition example_limiter :: limiter where
  "example_limiter = \<lparr>lm_max_in_flight = 1, lm_semaphore = 0, lm_requests =
     [(1, \<lparr>rc_correlation_id = cp ''a'', rc_deadline = deadline_start 0, rc_retained = True, rc_phase = Detached, rc_worker = Busy\<rparr>),
      (2, \<lparr>rc_correlation_id = cp ''b'', rc_deadline = deadline_start 1, rc_retained = False, rc_phase = Queued, rc_worker = No_worker\<rparr>)]\<rparr>"

lemma reachable_run: "run limiter_step es l = Some l' \<Longrightarrow> reachable n l \<Longrightarrow> reachable n l'"
  by (induction es arbitrary: l) (auto split: option.splits intro: reachable.step)

lemma example_reachable: "reachable 1 example_limiter" "limiter_step Admit example_limiter = None"
proof -
  have "make_limiter 1 = Inr \<lparr>lm_max_in_flight = 1, lm_semaphore = 1, lm_requests = []\<rparr>" by (simp add: make_limiter_def)
  moreover have "run limiter_step example_trace \<lparr>lm_max_in_flight = 1, lm_semaphore = 1, lm_requests = []\<rparr> = Some example_limiter" by code_simp
  ultimately show "reachable 1 example_limiter" by (blast intro: reachable_run reachable.start)
  show "limiter_step Admit example_limiter = None" by code_simp
qed

theorem permits_conserved_witness:
  "lm_semaphore example_limiter + length (filter holds_permit (lm_requests example_limiter)) = 1"
  using permits_conserved [OF example_reachable(1)] by linarith

theorem permits_drain_witness:
  "\<exists>es l'. run limiter_step es example_limiter = Some l' \<and> es \<noteq> [] \<and> lm_requests l' = [] \<and> lm_semaphore l' = 1"
proof -
  from permits_drain [OF example_reachable(1)] obtain es l' where
    "run limiter_step es example_limiter = Some l'" "lm_requests l' = []" "int (lm_semaphore l') = 1" by blast
  moreover from this have "es \<noteq> []" by (auto simp: example_limiter_def)
  ultimately show ?thesis by auto
qed

end
