(* ===== verification/Fact_Pack.thy ===== *)
theory Fact_Pack
  imports Evidence Canonical_Json Admission
begin

text \<open>
  Fact packs: the signature and fact-pack contracts of \<open>finproof/domain/answers.py\<close>, their construction
  in \<open>finproof/service/answer_service.py\<close> (\<open>AnswerService._result\<close> and the functions it calls) and the
  final wording check \<open>ClaimVerifier.verify_wording\<close>. The renderer and the evidence serializer are
  parameters of \<open>answer_service_result\<close>: whatever draft a renderer makes goes through the verifier.
\<close>

section \<open>domain/answers.py\<close>

record entity_signature =
  en_product_type :: product_type
  en_product_id :: pystr
  en_display_name :: pystr

record value_signature =
  vs_field_id :: pystr
  vs_canonical_normalized_json :: pystr
  vs_display_text :: pystr
  vs_unit :: "pystr option"

datatype comparison_relation = GREATER | LESS | SAME

record comparison_signature =
  cs_relation :: comparison_relation
  cs_left_product_id :: pystr
  cs_right_product_id :: pystr
  cs_left_value_json :: pystr
  cs_right_value_json :: pystr

record claim_signature =
  cg_claim_id :: pystr
  cg_kind :: claim_kind
  cg_surface_text :: pystr
  cg_entities :: "entity_signature list"
  cg_values :: "value_signature list"
  cg_rank :: "int option"
  cg_tie_count :: "int option"
  cg_partition :: "pystr option"
  cg_comparison :: "comparison_signature option"
  cg_evidence_ids :: "pystr list"
  cg_limitation_codes :: "pystr list"

record fact_pack =
  fp_surface_parts :: "surface_part list"
  fp_claim_signatures :: "claim_signature list"
  fp_required_claim_ids :: "pystr list"
  fp_required_limitation_codes :: "pystr list"
  fp_evidence_context_sha256 :: pystr

definition validate_entity_signature :: "entity_signature \<Rightarrow> entity_signature result" where
  "validate_entity_signature s =
     (if bounded_text 1 300 (en_product_id s) \<and> bounded_text 1 500 (en_display_name s) then Inr s
      else Inl (ValueError ''entity signature fields''))"

definition validate_value_signature :: "value_signature \<Rightarrow> value_signature result" where
  "validate_value_signature s =
     (if bounded_text 1 100 (vs_field_id s) \<and> bounded_text 1 2000 (vs_canonical_normalized_json s) \<and> bounded_text 1 2000 (vs_display_text s)
      then Inr s else Inl (ValueError ''value signature fields''))"

definition validate_comparison_signature :: "comparison_signature \<Rightarrow> comparison_signature result" where
  "validate_comparison_signature s =
     (if bounded_text 1 300 (cs_left_product_id s) \<and> bounded_text 1 300 (cs_right_product_id s) \<and>
         bounded_text 1 2000 (cs_left_value_json s) \<and> bounded_text 1 2000 (cs_right_value_json s)
      then Inr s else Inl (ValueError ''comparison signature fields''))"

definition validate_claim_signature :: "claim_signature \<Rightarrow> claim_signature result" where
  "validate_claim_signature s =
     (if bounded_text 1 200 (cg_claim_id s) \<and> bounded_text 1 2000 (cg_surface_text s) \<and> length (cg_entities s) \<le> 10 \<and>
         length (cg_values s) \<le> 10 \<and> (case cg_rank s of None \<Rightarrow> True | Some r \<Rightarrow> 1 \<le> r) \<and>
         (case cg_tie_count s of None \<Rightarrow> True | Some t \<Rightarrow> 1 \<le> t) \<and> optional_text 1 300 (cg_partition s) \<and>
         length (cg_evidence_ids s) \<le> 100 \<and> length (cg_limitation_codes s) \<le> 100
      then Inr s else Inl (ValueError ''claim signature fields''))"

definition validate_exact_surface :: "fact_pack \<Rightarrow> fact_pack result" where
  "validate_exact_surface p =
     (case fp_surface_parts p of
        [part] \<Rightarrow>
          if \<not> (length (fp_claim_signatures p) \<le> 300 \<and> length (fp_required_claim_ids p) \<le> 300 \<and>
                 length (fp_required_limitation_codes p) \<le> 100 \<and> is_sha256_hex (fp_evidence_context_sha256 p))
          then Inl (ValueError ''fact pack fields'')
          else if sp_part_id part \<noteq> cp ''surface:answer'' then Inl (ValueError ''fact pack surface differs'')
          else if sp_claim_ids part \<noteq> fp_required_claim_ids p \<or> sp_limitation_codes part \<noteq> fp_required_limitation_codes p
          then Inl (ValueError ''fact pack required tuples differ'')
          else if map cg_claim_id (fp_claim_signatures p) \<noteq> fp_required_claim_ids p
          then Inl (ValueError ''fact pack claim signatures differ'')
          else if \<not> distinct (fp_required_claim_ids p) \<or> \<not> distinct (fp_required_limitation_codes p)
          then Inl (ValueError ''fact pack required IDs must be unique'')
          else Inr p
      | _ \<Rightarrow> Inl (ValueError ''fact pack surface parts''))"

datatype provider_wording = Wording_query | Wording_confirmed

fun presentation :: "provider_wording \<Rightarrow> pystr" where
  "presentation Wording_query = [51312, 54924, 32, 44208, 44284, 51077, 45768, 45796, 46]"
| "presentation Wording_confirmed = [54869, 51064, 32, 44208, 44284, 51077, 45768, 45796, 46]"

section \<open>answer\_service.py\<close>

text \<open>The text of canonical JSON: the bytes decoded again.\<close>

definition canonical_json_text :: "py_value \<Rightarrow> pystr result" where
  "canonical_json_text v =
     rbind (canonical_scalar v) (\<lambda>j. rbind (utf8_encode (json_dumps j)) (\<lambda>_. Inr (json_dumps j)))"

fun scalar_py :: "scalar \<Rightarrow> py_value" where
  "scalar_py (SStr s) = PStr s"
| "scalar_py (SInt n) = PInt n"
| "scalar_py (SDec d) = PDec d"
| "scalar_py (SBool b) = PBool b"
| "scalar_py (SDate d) = PDate d"
| "scalar_py (SDateTime t) = PTime t 0 None"

definition limitation_codes :: "answer_claim \<Rightarrow> evidence_bundle \<Rightarrow> pystr list result" where
  "limitation_codes c e =
     (if ac_claim_id c = cp ''claim:snapshot'' then Inr [cp ''snapshot_assumption'']
      else if ac_claim_id c = cp ''claim:clarify'' then Inr [cp ''clarification_required'']
      else if ac_claim_id c = cp ''claim:unsupported'' then Inr [cp ''unsupported_request'']
      else if ac_kind c \<noteq> LIMITATION then Inr []
      else
        let coverage_codes = map hc_limitation_code (filter (\<lambda>h. hc_evidence_id h \<in> set (ac_evidence_ids c)) (eb_holding_coverage e)) in
        if coverage_codes \<noteq> [] then Inr (fromkeys coverage_codes)
        else if list_ex (\<lambda>s. es_partition_key s = Some (cp ''limitation:overseas-return-1y'') \<and> es_summary_id s \<in> set (ac_evidence_ids c))
                  (eb_summaries e)
        then Inr [cp ''overseas_return_1y_unavailable'']
        else rbind (canonical_json_bytes (PMap [(cp ''text'', PStr (ac_text c)), (cp ''evidence_ids'', PSeq (map PStr (ac_evidence_ids c)))]) False)
               (\<lambda>bs. Inr [cp ''policy:'' @ sha256_hex bs]))"

definition removesuffix :: "pystr \<Rightarrow> pystr \<Rightarrow> pystr" where
  "removesuffix s t = (if t \<noteq> [] \<and> py_endswith s t then take (length s - length t) s else s)"

text \<open>Operands of a comparison: a product and its value, equal as Python compares them.\<close>

fun evidence_object_eq :: "evidence_object option \<Rightarrow> evidence_object option \<Rightarrow> bool" where
  "evidence_object_eq None None = True"
| "evidence_object_eq (Some (EScalar a)) (Some (EScalar b)) = scalar_eq a b"
| "evidence_object_eq (Some (EListedType a)) (Some (EListedType b)) = (a = b)"
| "evidence_object_eq (Some (EListedType a)) (Some (EScalar (SStr b))) = ((case a of ETF \<Rightarrow> cp ''ETF'' | ETN \<Rightarrow> cp ''ETN'') = b)"
| "evidence_object_eq (Some (EScalar (SStr a))) (Some (EListedType b)) = (a = (case b of ETF \<Rightarrow> cp ''ETF'' | ETN \<Rightarrow> cp ''ETN''))"
| "evidence_object_eq (Some (EDecimals as)) (Some (EDecimals bs)) = (map dval as = map dval bs)"
| "evidence_object_eq _ _ = False"

type_synonym operand = "pystr \<times> evidence_object option"

fun unique_operands :: "operand list \<Rightarrow> operand list \<Rightarrow> operand list" where
  "unique_operands seen [] = rev seen"
| "unique_operands seen ((i, v) # os) =
     (if list_ex (\<lambda>(j, w). j = i \<and> evidence_object_eq w v) seen then unique_operands seen os else unique_operands ((i, v) # seen) os)"

definition comparison_metric :: "pystr \<Rightarrow> pystr" where
  "comparison_metric field_id =
     (if field_id = cp ''remaining_days_difference'' then cp ''remaining_days_at_as_of'' else removesuffix field_id (cp ''_difference''))"

definition comparison_operands :: "answer_claim \<Rightarrow> pystr \<Rightarrow> evidence_bundle \<Rightarrow> operand list" where
  "comparison_operands c metric_id e =
     List.map_filter (\<lambda>d. if Some (de_product_type d) = ac_product_type c \<and> de_field_id d = metric_id
         then map_option (\<lambda>i. (i, nv_normalized_value (de_value d))) (de_product_id d) else None) (eb_direct e)
     @ List.map_filter (\<lambda>d. if Some (ve_product_type d) = ac_product_type c \<and> ve_field_id d = metric_id
         then map_option (\<lambda>i. (i, dv_value (ve_value d))) (ve_product_id d) else None) (eb_derived e)"

text \<open>Two values of one orderable type among \<open>int\<close>, \<open>Decimal\<close> and \<open>date\<close>.\<close>

fun comparable :: "evidence_object option \<Rightarrow> evidence_object option \<Rightarrow> (scalar \<times> scalar) option" where
  "comparable (Some (EScalar (SInt a))) (Some (EScalar (SInt b))) = Some (SInt a, SInt b)"
| "comparable (Some (EScalar (SDec a))) (Some (EScalar (SDec b))) = Some (SDec a, SDec b)"
| "comparable (Some (EScalar (SDate a))) (Some (EScalar (SDate b))) = Some (SDate a, SDate b)"
| "comparable _ _ = None"

definition relation_of :: "scalar \<Rightarrow> scalar \<Rightarrow> comparison_relation" where
  "relation_of a b = (if scalar_key a = scalar_key b then SAME else if scalar_key b < scalar_key a then GREATER else LESS)"

definition claim_comparison :: "answer_claim \<Rightarrow> evidence_bundle \<Rightarrow> comparison_signature option result" where
  "claim_comparison c e =
     (case ac_field_id c of
        None \<Rightarrow> Inr None
      | Some field_id \<Rightarrow>
          if \<not> py_endswith field_id (cp ''_difference'') then Inr None
          else
            let unique = unique_operands [] (comparison_operands c (comparison_metric field_id) e) in
            rbind (raise_if (length unique \<noteq> 2 \<or> ac_product_id c \<notin> Some ` set (map fst unique))
                     (ValueError ''comparison operands are missing or ambiguous'')) (\<lambda>_.
            rbind (next_or_raise (filter (\<lambda>o'. Some (fst o') = ac_product_id c) unique)) (\<lambda>left.
            rbind (next_or_raise (filter (\<lambda>o'. Some (fst o') \<noteq> ac_product_id c) unique)) (\<lambda>right.
            (case comparable (snd left) (snd right) of
               None \<Rightarrow> Inl (ValueError ''comparison operands differ'')
             | Some (a, b) \<Rightarrow>
                 rbind (canonical_json_text (scalar_py a)) (\<lambda>ja.
                 rbind (canonical_json_text (scalar_py b)) (\<lambda>jb.
                 rbind (validate_comparison_signature
                          \<lparr>cs_relation = relation_of a b, cs_left_product_id = fst left, cs_right_product_id = fst right,
                           cs_left_value_json = ja, cs_right_value_json = jb\<rparr>) (\<lambda>s. Inr (Some s)))))))))"

definition display_name :: "evidence_bundle \<Rightarrow> product_type \<Rightarrow> pystr \<Rightarrow> pystr result" where
  "display_name e t i =
     (let names = fromkeys (List.map_filter (\<lambda>d.
            if de_product_type d = t \<and> de_product_id d = Some i \<and> de_field_id d = cp ''product_name''
            then (case nv_normalized_value (de_value d) of Some (EScalar (SStr n)) \<Rightarrow> if n = [] then None else Some n | _ \<Rightarrow> None)
            else None) (eb_direct e)) in
      case names of [n] \<Rightarrow> Inr n | _ \<Rightarrow> Inl (ValueError ''applicable entity name is missing or ambiguous''))"

text \<open>
  What \<open>_field_unit\<close> reads of the registries: the metrics of a field, and the unit and the product types
  of a metric.
\<close>

record unit_registry =
  ur_field_metrics :: "pystr \<Rightarrow> pystr list option"
  ur_metric :: "pystr \<Rightarrow> (pystr option \<times> product_type list) option"

definition field_unit :: "unit_registry \<Rightarrow> pystr \<Rightarrow> answer_claim \<Rightarrow> pystr option result" where
  "field_unit registries field_id c =
     (let stripped = removesuffix field_id (cp ''_difference'');
          canonical_field = (if stripped = cp ''remaining_days'' then cp ''remaining_days_at_as_of'' else stripped) in
      case ur_field_metrics registries canonical_field of
        None \<Rightarrow> Inr None
      | Some metric_ids \<Rightarrow>
          let product_types = (case ac_product_type c of Some t \<Rightarrow> [t] | None \<Rightarrow> ac_product_types c);
              units = fromkeys (List.map_filter (\<lambda>m. case ur_metric registries m of
                         None \<Rightarrow> None
                       | Some (u, ts) \<Rightarrow> if product_types = [] \<or> list_ex (\<lambda>t. t \<in> set ts) product_types then Some u else None) metric_ids) in
          (case units of [] \<Rightarrow> Inr None | [u] \<Rightarrow> Inr u | _ \<Rightarrow> Inl (ValueError ''claim unit binding is ambiguous'')))"

definition claim_entities :: "answer_claim \<Rightarrow> comparison_signature option \<Rightarrow> evidence_bundle \<Rightarrow> entity_signature list result" where
  "claim_entities c comparison e =
     (let entity_ids = fromkeys ((case ac_product_id c of None \<Rightarrow> [] | Some i \<Rightarrow> [i])
                @ (case comparison of None \<Rightarrow> [] | Some s \<Rightarrow> [cs_left_product_id s, cs_right_product_id s])) in
      if entity_ids = [] then Inr []
      else
        (case (case ac_product_type c of Some t \<Rightarrow> Some t
               | None \<Rightarrow> (case ac_product_types c of [t] \<Rightarrow> Some t | _ \<Rightarrow> None)) of
           None \<Rightarrow> Inl (ValueError ''claim entity product type is missing'')
         | Some t \<Rightarrow> traverse (\<lambda>i. rbind (display_name e t i) (\<lambda>n.
              validate_entity_signature \<lparr>en_product_type = t, en_product_id = i, en_display_name = n\<rparr>)) entity_ids))"

definition claim_values :: "unit_registry \<Rightarrow> answer_claim \<Rightarrow> value_signature list result" where
  "claim_values registries c =
     (case ac_value c of
        None \<Rightarrow> Inr []
      | Some v \<Rightarrow>
          if ac_field_id c = None \<and> ac_kind c \<noteq> NUMERIC then Inr []
          else
            let field_id = (case ac_field_id c of None \<Rightarrow> cp ''value'' | Some f \<Rightarrow> f) in
            rbind (canonical_json_text (scalar_py v)) (\<lambda>j.
            rbind (field_unit registries field_id c) (\<lambda>u.
            rbind (validate_value_signature
                     \<lparr>vs_field_id = field_id, vs_canonical_normalized_json = j, vs_display_text = scalar_str v, vs_unit = u\<rparr>) (\<lambda>s.
              Inr [s]))))"

definition at_most_one :: "'a list \<Rightarrow> 'a option" where
  "at_most_one xs = (case xs of [] \<Rightarrow> None | x # _ \<Rightarrow> Some x)"

definition claim_signature_of ::
  "unit_registry \<Rightarrow> evidence_bundle \<Rightarrow> answer_claim \<times> pystr list \<Rightarrow> claim_signature result" where
  "claim_signature_of registries e cc =
     (let c = fst cc; codes = snd cc;
          summaries = filter (\<lambda>s. es_summary_id s \<in> set (ac_evidence_ids c)) (eb_summaries e);
          ranks = fromkeys (List.map_filter es_rank summaries);
          ties = fromkeys (List.map_filter es_tie_count summaries);
          partitions = fromkeys (List.map_filter es_partition_key summaries @ (case ac_partition_key c of None \<Rightarrow> [] | Some k \<Rightarrow> [k])) in
      rbind (raise_if (length ranks > 1 \<or> length ties > 1 \<or> length partitions > 1) (ValueError ''claim rank binding is ambiguous'')) (\<lambda>_.
      rbind (claim_comparison c e) (\<lambda>comparison.
      rbind (claim_entities c comparison e) (\<lambda>entities.
      rbind (claim_values registries c) (\<lambda>values.
        validate_claim_signature
          \<lparr>cg_claim_id = ac_claim_id c, cg_kind = ac_kind c, cg_surface_text = ac_text c, cg_entities = entities, cg_values = values,
           cg_rank = at_most_one ranks, cg_tie_count = at_most_one ties, cg_partition = at_most_one partitions,
           cg_comparison = comparison, cg_evidence_ids = ac_evidence_ids c, cg_limitation_codes = codes\<rparr>)))))"

text \<open>The signatures are collected by a generator expression, where a \<open>StopIteration\<close> turns into another error.\<close>

definition signature_item :: "'a result \<Rightarrow> 'a result" where
  "signature_item r = (case r of Inl StopIteration \<Rightarrow> Inl (RuntimeError ''generator raised StopIteration'') | _ \<Rightarrow> r)"

definition build_fact_pack ::
  "answer_claim list \<Rightarrow> pystr \<Rightarrow> evidence_bundle \<Rightarrow> pystr \<Rightarrow> unit_registry \<Rightarrow> fact_pack result" where
  "build_fact_pack claims text' e evidence_context registries =
     (let claim_ids = map ac_claim_id claims in
      rbind (raise_if (\<not> distinct claim_ids) (ValueError ''claim IDs differ'')) (\<lambda>_.
      rbind (traverse (\<lambda>c. limitation_codes c e) claims) (\<lambda>limitation_by_claim.
      let required_codes = fromkeys (concat limitation_by_claim) in
      rbind (traverse (\<lambda>cc. signature_item (claim_signature_of registries e cc)) (zip claims limitation_by_claim)) (\<lambda>signatures.
      rbind (unique_references \<lparr>sp_part_id = cp ''surface:answer'', sp_text = text', sp_claim_ids = claim_ids, sp_limitation_codes = required_codes\<rparr>) (\<lambda>part.
      rbind (sha256_text evidence_context) (\<lambda>digest.
        validate_exact_surface
          \<lparr>fp_surface_parts = [part], fp_claim_signatures = signatures, fp_required_claim_ids = claim_ids,
           fp_required_limitation_codes = required_codes, fp_evidence_context_sha256 = digest\<rparr>))))))"

section \<open>Dumps of fact packs\<close>

fun claim_kind_value :: "claim_kind \<Rightarrow> pystr" where
  "claim_kind_value NUMERIC = cp ''numeric''"
| "claim_kind_value TEXT_CLAIM = cp ''text''"
| "claim_kind_value LIMITATION = cp ''limitation''"
| "claim_kind_value CANDIDATE = cp ''candidate''"
| "claim_kind_value RECOMMENDATION = cp ''recommendation''"

fun relation_value :: "comparison_relation \<Rightarrow> pystr" where
  "relation_value GREATER = cp ''gt''"
| "relation_value LESS = cp ''lt''"
| "relation_value SAME = cp ''eq''"

definition optional_py :: "('a \<Rightarrow> py_value) \<Rightarrow> 'a option \<Rightarrow> py_value" where
  "optional_py f v = (case v of None \<Rightarrow> PNone | Some x \<Rightarrow> f x)"

definition texts_py :: "pystr list \<Rightarrow> py_value" where
  "texts_py ts = PSeq (map PStr ts)"

definition dump_surface_part :: "surface_part \<Rightarrow> py_value" where
  "dump_surface_part p = PMap [(cp ''part_id'', PStr (sp_part_id p)), (cp ''text'', PStr (sp_text p)),
     (cp ''claim_ids'', texts_py (sp_claim_ids p)), (cp ''limitation_codes'', texts_py (sp_limitation_codes p))]"

definition dump_entity_signature :: "entity_signature \<Rightarrow> py_value" where
  "dump_entity_signature s = PMap [(cp ''product_type'', PStr (product_type_value (en_product_type s))),
     (cp ''product_id'', PStr (en_product_id s)), (cp ''display_name'', PStr (en_display_name s))]"

definition dump_value_signature :: "value_signature \<Rightarrow> py_value" where
  "dump_value_signature s = PMap [(cp ''field_id'', PStr (vs_field_id s)), (cp ''canonical_normalized_json'', PStr (vs_canonical_normalized_json s)),
     (cp ''display_text'', PStr (vs_display_text s)), (cp ''unit'', optional_py PStr (vs_unit s))]"

definition dump_comparison_signature :: "comparison_signature \<Rightarrow> py_value" where
  "dump_comparison_signature s = PMap [(cp ''relation'', PStr (relation_value (cs_relation s))),
     (cp ''left_product_id'', PStr (cs_left_product_id s)), (cp ''right_product_id'', PStr (cs_right_product_id s)),
     (cp ''left_value_json'', PStr (cs_left_value_json s)), (cp ''right_value_json'', PStr (cs_right_value_json s))]"

definition dump_claim_signature :: "claim_signature \<Rightarrow> py_value" where
  "dump_claim_signature s = PMap [(cp ''claim_id'', PStr (cg_claim_id s)), (cp ''kind'', PStr (claim_kind_value (cg_kind s))),
     (cp ''surface_text'', PStr (cg_surface_text s)), (cp ''entities'', PSeq (map dump_entity_signature (cg_entities s))),
     (cp ''values'', PSeq (map dump_value_signature (cg_values s))), (cp ''rank'', optional_py PInt (cg_rank s)),
     (cp ''tie_count'', optional_py PInt (cg_tie_count s)), (cp ''partition'', optional_py PStr (cg_partition s)),
     (cp ''comparison'', optional_py dump_comparison_signature (cg_comparison s)), (cp ''evidence_ids'', texts_py (cg_evidence_ids s)),
     (cp ''limitation_codes'', texts_py (cg_limitation_codes s))]"

definition dump_fact_pack :: "fact_pack \<Rightarrow> py_value" where
  "dump_fact_pack p = PMap [(cp ''format'', PStr (cp ''finproof.fact-pack.v1'')),
     (cp ''surface_parts'', PSeq (map dump_surface_part (fp_surface_parts p))),
     (cp ''claim_signatures'', PSeq (map dump_claim_signature (fp_claim_signatures p))),
     (cp ''required_claim_ids'', texts_py (fp_required_claim_ids p)),
     (cp ''required_limitation_codes'', texts_py (fp_required_limitation_codes p)),
     (cp ''evidence_context_sha256'', PStr (fp_evidence_context_sha256 p))]"

section \<open>Prepared answers\<close>

datatype trace_validation = PASSED | TV_CLARIFY | TV_UNSUPPORTED | SAFE_FAILURE

record trace_segment =
  tg_product_type :: product_type
  tg_native_result_grain :: result_grain
  tg_partition_key :: pystr
  tg_candidate_counts :: "(pystr \<times> int) list"
  tg_returned :: int

record execution_trace =
  tr_correlation_id :: pystr
  tr_intent :: intent
  tr_product_types :: "product_type list"
  tr_as_of_date :: date
  tr_result_grain :: result_grain
  tr_top_k_scope :: top_k_scope
  tr_segments :: "trace_segment list"
  tr_candidate_counts :: "(pystr \<times> int) list"
  tr_tools :: "pystr list"
  tr_policy_ids :: "pystr list"
  tr_validation :: trace_validation
  tr_versions :: "(pystr \<times> pystr) list"
  tr_latency_ms :: "(pystr \<times> int) list"

record prepared_answer =
  pa_fact_pack :: fact_pack
  pa_claims :: "answer_claim list"
  pa_trace :: execution_trace
  pa_retrieved_context :: pystr

definition elapsed_ms :: "rat \<Rightarrow> rat \<Rightarrow> int" where
  "elapsed_ms started now = max 0 \<lfloor>(now - started) * 1000\<rfloor>"

definition require_work :: "request_deadline \<Rightarrow> rat \<Rightarrow> unit result" where
  "require_work d now = raise_if (remaining_work_seconds d now \<le> 0) TimeoutError"

text \<open>
  \<open>AnswerService._result\<close>. \<open>render\<close> and \<open>serialize\<close> are the renderer and \<open>serialize_evidence_context\<close>;
  the three clock readings are those of the two deadline checks and of the end of rendering.
\<close>

definition answer_service_result ::
  "(evidence_bundle \<Rightarrow> answer_draft result) \<Rightarrow> (evidence_bundle \<Rightarrow> pystr result) \<Rightarrow> forbidden_patterns \<Rightarrow> unit_registry \<Rightarrow>
   evidence_bundle \<Rightarrow> execution_trace \<Rightarrow> (pystr \<times> int) list \<Rightarrow> request_deadline \<Rightarrow> rat \<times> rat \<times> rat \<Rightarrow> prepared_answer result" where
  "answer_service_result render serialize patterns registries e trace latency_ms deadline = (\<lambda>(render_started, verified_at, finished_at).
     rbind (require_work deadline render_started) (\<lambda>_.
     rbind (render e) (\<lambda>draft.
     rbind (verify_answer patterns draft e) (\<lambda>verified.
     rbind (require_work deadline verified_at) (\<lambda>_.
     rbind (serialize e) (\<lambda>evidence_context.
     rbind (build_fact_pack (at_claims verified) (at_text verified) e evidence_context registries) (\<lambda>pack.
     rbind (canonical_json_bytes (dump_fact_pack pack) False) (\<lambda>bytes.
     rbind (canonical_json_text (dump_fact_pack pack)) (\<lambda>retrieved_context.
     rbind (raise_if (length bytes > 24000) (ValueError ''fact pack exceeds context bound'')) (\<lambda>_.
     rbind (raise_if (\<not> bounded_text 1 24000 retrieved_context \<or> length (at_claims verified) > 300) (ValueError ''prepared answer fields'')) (\<lambda>_.
       Inr \<lparr>pa_fact_pack = pack, pa_claims = at_claims verified,
            pa_trace = trace\<lparr>tr_latency_ms := dict_set latency_ms (cp ''render'') (elapsed_ms render_started finished_at)\<rparr>,
            pa_retrieved_context = retrieved_context\<rparr>)))))))))))"

section \<open>evidence/verifier.py: verify\_wording\<close>

text \<open>Both errors of the wording check, the verification error and any other, are \<open>ValueError\<close> here.\<close>

definition surface_text :: "prepared_answer \<Rightarrow> pystr" where
  "surface_text p = (case fp_surface_parts (pa_fact_pack p) of part # _ \<Rightarrow> sp_text part | [] \<Rightarrow> [])"

definition verify_wording :: "provider_wording \<Rightarrow> prepared_answer \<Rightarrow> request_deadline \<Rightarrow> rat \<Rightarrow> verified_answer result" where
  "verify_wording wording prepared deadline now =
     rbind (raise_if (remaining_work_seconds deadline now \<le> 0) (ValueError ''wording verification deadline exceeded'')) (\<lambda>_.
       make_answer_text (presentation wording @ [10] @ surface_text prepared) (pa_claims prepared))"

section \<open>What a prepared answer guarantees\<close>

text \<open>A signature repeats its claim and never binds it to another value.\<close>

definition signs_claim :: "claim_signature \<Rightarrow> answer_claim \<Rightarrow> bool" where
  "signs_claim s c \<longleftrightarrow>
     cg_claim_id s = ac_claim_id c \<and> cg_kind s = ac_kind c \<and> cg_surface_text s = ac_text c \<and> cg_evidence_ids s = ac_evidence_ids c \<and>
     (ac_kind c = NUMERIC \<longrightarrow> ac_value c = None \<or> length (cg_values s) = 1) \<and>
     list_all (\<lambda>v. case ac_value c of None \<Rightarrow> False | Some x \<Rightarrow>
        canonical_json_text (scalar_py x) = Inr (vs_canonical_normalized_json v) \<and> vs_display_text v = scalar_str x) (cg_values s)"

lemma claim_values_sign:
  assumes "claim_values registries c = Inr vs"
  shows "list_all (\<lambda>v. case ac_value c of None \<Rightarrow> False | Some x \<Rightarrow>
        canonical_json_text (scalar_py x) = Inr (vs_canonical_normalized_json v) \<and> vs_display_text v = scalar_str x) vs"
    and "ac_kind c = NUMERIC \<Longrightarrow> ac_value c = None \<or> length vs = 1"
  using assms
  by (auto simp: claim_values_def rbind_eq_Inr_iff Let_def validate_value_signature_def split: option.splits if_splits)

lemma claim_signature_signs:
  assumes "signature_item (claim_signature_of registries e (c, codes)) = Inr s"
  shows "signs_claim s c \<and> cg_limitation_codes s = codes"
proof -
  from assms have "claim_signature_of registries e (c, codes) = Inr s"
    by (auto simp: signature_item_def split: sum.splits py_error.splits)
  then obtain vs where "claim_values registries c = Inr vs"
    and s: "cg_claim_id s = ac_claim_id c" "cg_kind s = ac_kind c" "cg_surface_text s = ac_text c" "cg_evidence_ids s = ac_evidence_ids c"
      "cg_values s = vs" "cg_limitation_codes s = codes"
    by (auto simp: claim_signature_of_def rbind_eq_Inr_iff Let_def validate_claim_signature_def split: if_splits)
  with claim_values_sign [OF this(1)] show ?thesis by (simp add: signs_claim_def)
qed

lemma limitation_codes_nonempty: "limitation_codes c e = Inr codes \<Longrightarrow> ac_kind c = LIMITATION \<Longrightarrow> codes \<noteq> []"
  by (auto simp: limitation_codes_def Let_def rbind_eq_Inr_iff split: if_splits dest!: arg_cong [of "[]" _ set] simp flip: set_empty)

lemma build_fact_pack_Inr:
  assumes "build_fact_pack claims t e ctx registries = Inr p"
  obtains codes where "traverse (\<lambda>c. limitation_codes c e) claims = Inr codes"
    and "list_all2 (\<lambda>cc s. signature_item (claim_signature_of registries e cc) = Inr s) (zip claims codes) (fp_claim_signatures p)"
    and "distinct (map ac_claim_id claims)" and "set (fp_required_limitation_codes p) = set (concat codes)"
    and "map sp_text (fp_surface_parts p) = [t]"
proof -
  from assms obtain codes ss part digest where codes: "traverse (\<lambda>c. limitation_codes c e) claims = Inr codes"
    and ss: "traverse (\<lambda>cc. signature_item (claim_signature_of registries e cc)) (zip claims codes) = Inr ss"
    and d: "distinct (map ac_claim_id claims)" and part: "unique_references \<lparr>sp_part_id = cp ''surface:answer'', sp_text = t,
        sp_claim_ids = map ac_claim_id claims, sp_limitation_codes = fromkeys (concat codes)\<rparr> = Inr part"
    and p: "validate_exact_surface \<lparr>fp_surface_parts = [part], fp_claim_signatures = ss, fp_required_claim_ids = map ac_claim_id claims,
        fp_required_limitation_codes = fromkeys (concat codes), fp_evidence_context_sha256 = digest\<rparr> = Inr p"
    unfolding build_fact_pack_def Let_def rbind_eq_Inr_iff raise_if_eq_Inr_iff by blast
  from part have "sp_text part = t" by (auto simp: unique_references_def split: if_splits)
  moreover from p have "p = \<lparr>fp_surface_parts = [part], fp_claim_signatures = ss, fp_required_claim_ids = map ac_claim_id claims,
        fp_required_limitation_codes = fromkeys (concat codes), fp_evidence_context_sha256 = digest\<rparr>"
    by (auto simp: validate_exact_surface_def split: if_splits)
  ultimately show thesis by (intro that [OF codes _ d]) (use ss in \<open>simp_all add: traverse_eq_Inr_iff\<close>)
qed

lemma signatures_of_claims:
  assumes "build_fact_pack claims t e ctx registries = Inr p"
  shows "list_all2 signs_claim (fp_claim_signatures p) claims"
    and "s \<in> set (fp_claim_signatures p) \<Longrightarrow> set (cg_limitation_codes s) \<subseteq> set (fp_required_limitation_codes p)"
    and "s \<in> set (fp_claim_signatures p) \<Longrightarrow> cg_kind s = LIMITATION \<Longrightarrow> cg_limitation_codes s \<noteq> []"
proof -
  from assms obtain codes where codes: "traverse (\<lambda>c. limitation_codes c e) claims = Inr codes"
    and sigs: "list_all2 (\<lambda>cc s. signature_item (claim_signature_of registries e cc) = Inr s) (zip claims codes) (fp_claim_signatures p)"
    and req: "set (fp_required_limitation_codes p) = set (concat codes)"
    by (rule build_fact_pack_Inr)
  note len = traverse_length [OF codes] list_all2_lengthD [OF sigs]
  have nth: "signs_claim (fp_claim_signatures p ! i) (claims ! i) \<and> cg_limitation_codes (fp_claim_signatures p ! i) = codes ! i"
    if "i < length claims" for i
    using list_all2_nthD [OF sigs, of i] that len claim_signature_signs by auto
  with len show "list_all2 signs_claim (fp_claim_signatures p) claims" by (auto simp: list_all2_conv_all_nth)
  have code: "limitation_codes (claims ! i) e = Inr (codes ! i)" if "i < length claims" for i
    using codes that by (auto simp: traverse_eq_Inr_iff list_all2_conv_all_nth)
  assume "s \<in> set (fp_claim_signatures p)"
  then obtain i where i: "i < length claims" "s = fp_claim_signatures p ! i" using len by (auto simp: in_set_conv_nth)
  show "set (cg_limitation_codes s) \<subseteq> set (fp_required_limitation_codes p)"
    using nth [OF i(1)] i len unfolding req by (auto intro!: bexI [of _ "codes ! i"])
  show "cg_limitation_codes s \<noteq> []" if "cg_kind s = LIMITATION"
    using nth [OF i(1)] i that limitation_codes_nonempty [OF code [OF i(1)]] by (simp add: signs_claim_def)
qed

lemma answer_service_result_Inr:
  assumes "answer_service_result render serialize patterns registries e trace latency_ms d (t1, t2, t3) = Inr p"
  obtains draft ctx where "render e = Inr draft" and "verify_answer patterns draft e = Inr draft"
    and "build_fact_pack (at_claims draft) (at_text draft) e ctx registries = Inr (pa_fact_pack p)"
    and "pa_claims p = at_claims draft" and "t1 < dl_work_cutoff_at d" and "t2 < dl_work_cutoff_at d"
    and "\<exists>bs. canonical_json_bytes (dump_fact_pack (pa_fact_pack p)) False = Inr bs \<and> length bs \<le> 24000"
    and "canonical_json_text (dump_fact_pack (pa_fact_pack p)) = Inr (pa_retrieved_context p)"
proof -
  note r = assms [unfolded answer_service_result_def prod.case rbind_eq_Inr_iff raise_if_eq_Inr_iff require_work_def]
  from r obtain draft verified ctx pack bytes retrieved where d: "render e = Inr draft" "verify_answer patterns draft e = Inr verified"
    and t: "\<not> remaining_work_seconds d t1 \<le> 0" "\<not> remaining_work_seconds d t2 \<le> 0"
    and pack: "build_fact_pack (at_claims verified) (at_text verified) e ctx registries = Inr pack"
    and b: "canonical_json_bytes (dump_fact_pack pack) False = Inr bytes" "canonical_json_text (dump_fact_pack pack) = Inr retrieved" "\<not> 24000 < length bytes"
    and p: "p = \<lparr>pa_fact_pack = pack, pa_claims = at_claims verified,
            pa_trace = trace\<lparr>tr_latency_ms := dict_set latency_ms (cp ''render'') (elapsed_ms t1 t3)\<rparr>, pa_retrieved_context = retrieved\<rparr>"
    by (elim exE conjE) (simp only: sum.inject, blast)
  from verify_answer_Inr(1) [OF d(2)] have v: "verified = draft" .
  show thesis by (rule that [of draft ctx]) (use d t pack b p v in \<open>simp_all\<close>)
qed

lemma answer_service_claims:
  assumes "answer_service_result render serialize patterns registries e trace latency_ms d (t1, t2, t3) = Inr p" and "c \<in> set (pa_claims p)"
  shows "py_contains (surface_text p) (ac_text c) \<and> set (ac_evidence_ids c) \<subseteq> set (evidence_ids e) \<and>
       (ac_kind c = NUMERIC \<or> ac_field_id c \<noteq> None \<longrightarrow> backed e c) \<and> ac_kind c \<noteq> RECOMMENDATION"
proof -
  from assms(1) obtain draft ctx where v: "verify_answer patterns draft e = Inr draft"
    and b: "build_fact_pack (at_claims draft) (at_text draft) e ctx registries = Inr (pa_fact_pack p)" and p: "pa_claims p = at_claims draft"
    by (rule answer_service_result_Inr)
  from b have "map sp_text (fp_surface_parts (pa_fact_pack p)) = [at_text draft]" by (rule build_fact_pack_Inr)
  then have surf: "surface_text p = at_text draft" by (auto simp: surface_text_def)
  show ?thesis
    using verify_claim_Inr [OF verify_answer_Inr(3) [OF v assms(2) [unfolded p]]] unfolding surf evidence_values_ids by blast
qed

text \<open>
  C34. A prepared answer is grounded. Whatever renderer and evidence are used, a prepared answer shows
  exactly the rendered text with exactly the rendered claims; every claim is a part of that text, cites
  only evidence of the bundle and, when it is about a number or a field, is backed by a cited item; the
  fact pack signs every claim once and in order, with its own text, evidence and canonical value; no
  limitation is signed without a code, and all codes are required; the published context is at most
  24000 bytes; and no check was passed after the work deadline.
\<close>

theorem prepared_answer_grounded:
  assumes "answer_service_result render serialize patterns registries e trace latency_ms d (t1, t2, t3) = Inr p"
  shows "(\<exists>draft. render e = Inr draft \<and> surface_text p = at_text draft \<and> pa_claims p = at_claims draft) \<and>
    (\<forall>c \<in> set (pa_claims p). py_contains (surface_text p) (ac_text c) \<and> set (ac_evidence_ids c) \<subseteq> set (evidence_ids e) \<and>
       (ac_kind c = NUMERIC \<or> ac_field_id c \<noteq> None \<longrightarrow> backed e c)) \<and>
    list_all2 signs_claim (fp_claim_signatures (pa_fact_pack p)) (pa_claims p) \<and>
    (\<forall>s \<in> set (fp_claim_signatures (pa_fact_pack p)). set (cg_limitation_codes s) \<subseteq> set (fp_required_limitation_codes (pa_fact_pack p)) \<and>
       (cg_kind s = LIMITATION \<longrightarrow> cg_limitation_codes s \<noteq> [])) \<and>
    (\<exists>bs. canonical_json_bytes (dump_fact_pack (pa_fact_pack p)) False = Inr bs \<and> length bs \<le> 24000) \<and>
    t1 < dl_work_cutoff_at d \<and> t2 < dl_work_cutoff_at d"
proof -
  from assms obtain draft ctx where r: "render e = Inr draft" and v: "verify_answer patterns draft e = Inr draft"
    and b: "build_fact_pack (at_claims draft) (at_text draft) e ctx registries = Inr (pa_fact_pack p)"
    and p: "pa_claims p = at_claims draft" and t: "t1 < dl_work_cutoff_at d" "t2 < dl_work_cutoff_at d"
    and bs: "\<exists>bs. canonical_json_bytes (dump_fact_pack (pa_fact_pack p)) False = Inr bs \<and> length bs \<le> 24000"
    by (rule answer_service_result_Inr)
  from b have "map sp_text (fp_surface_parts (pa_fact_pack p)) = [at_text draft]" by (rule build_fact_pack_Inr)
  then have surf: "surface_text p = at_text draft" by (auto simp: surface_text_def)
  with r p t bs signatures_of_claims [OF b] answer_service_claims [OF assms] show ?thesis by auto
qed

text \<open>
  One numeric claim and one limitation. The digest of the evidence context is left symbolic, so the
  size of the published context is bounded from the sizes of its parts.
\<close>

definition example_registry :: unit_registry where
  "example_registry = \<lparr>ur_field_metrics = (\<lambda>_. None), ur_metric = (\<lambda>_. None)\<rparr>"

definition example_signatures :: "claim_signature list" where
  "example_signatures =
     [\<lparr>cg_claim_id = cp ''claim:snapshot'', cg_kind = LIMITATION, cg_surface_text = cp ''snapshot'', cg_entities = [], cg_values = [],
       cg_rank = None, cg_tie_count = None, cg_partition = None, cg_comparison = None, cg_evidence_ids = [],
       cg_limitation_codes = [cp ''snapshot_assumption'']\<rparr>,
      \<lparr>cg_claim_id = cp ''claim:count'', cg_kind = NUMERIC, cg_surface_text = cp ''count 3'', cg_entities = [],
       cg_values = [\<lparr>vs_field_id = cp ''value'', vs_canonical_normalized_json = cp ''3'', vs_display_text = cp ''3'', vs_unit = None\<rparr>],
       cg_rank = None, cg_tie_count = None, cg_partition = None, cg_comparison = None, cg_evidence_ids = [cp ''summary:count''],
       cg_limitation_codes = []\<rparr>]"

definition example_part :: surface_part where
  "example_part = \<lparr>sp_part_id = cp ''surface:answer'', sp_text = at_text example_draft,
     sp_claim_ids = [cp ''claim:snapshot'', cp ''claim:count''], sp_limitation_codes = [cp ''snapshot_assumption'']\<rparr>"

definition example_pack :: "pystr \<Rightarrow> fact_pack" where
  "example_pack h = \<lparr>fp_surface_parts = [example_part], fp_claim_signatures = example_signatures,
     fp_required_claim_ids = [cp ''claim:snapshot'', cp ''claim:count''], fp_required_limitation_codes = [cp ''snapshot_assumption''],
     fp_evidence_context_sha256 = h\<rparr>"

lemma example_build:
  assumes "sha256_text ctx = Inr h" and "is_sha256_hex h"
  shows "build_fact_pack (at_claims example_draft) (at_text example_draft) example_evidence ctx example_registry = Inr (example_pack h)"
proof -
  have "traverse (\<lambda>c. limitation_codes c example_evidence) (at_claims example_draft) = Inr [[cp ''snapshot_assumption''], []]"
    "traverse (\<lambda>cc. signature_item (claim_signature_of example_registry example_evidence cc))
       (zip (at_claims example_draft) [[cp ''snapshot_assumption''], []]) = Inr example_signatures"
    "unique_references example_part = Inr example_part"
    "map ac_claim_id (at_claims example_draft) = [cp ''claim:snapshot'', cp ''claim:count'']"
    "map cg_claim_id example_signatures = [cp ''claim:snapshot'', cp ''claim:count'']" "length example_signatures = 2"
    by code_simp+
  with assms show ?thesis
    by (simp add: build_fact_pack_def Let_def raise_if_def example_part_def example_pack_def validate_exact_surface_def)
qed

definition example_json :: "pystr \<Rightarrow> json" where
  "example_json h =
     JObj [(cp ''claim_signatures'', projr (canonical_scalar (PSeq (map dump_claim_signature example_signatures)))),
       (cp ''evidence_context_sha256'', JStr h), (cp ''format'', JStr (cp ''finproof.fact-pack.v1'')),
       (cp ''required_claim_ids'', JArr [JStr (cp ''claim:snapshot''), JStr (cp ''claim:count'')]),
       (cp ''required_limitation_codes'', JArr [JStr (cp ''snapshot_assumption'')]),
       (cp ''surface_parts'', projr (canonical_scalar (PSeq [dump_surface_part example_part])))]"

lemma example_canonical: "canonical_scalar (dump_fact_pack (example_pack h)) = Inr (example_json h)"
proof -
  have parts: "\<not> isl (canonical_scalar (PSeq (map dump_claim_signature example_signatures)))"
    "\<not> isl (canonical_scalar (PSeq [dump_surface_part example_part]))"
    by code_simp+
  have "py_sorted fst [(cp ''format'', a), (cp ''surface_parts'', b), (cp ''claim_signatures'', c), (cp ''required_claim_ids'', d),
      (cp ''required_limitation_codes'', e), (cp ''evidence_context_sha256'', f)] =
    [(cp ''claim_signatures'', c), (cp ''evidence_context_sha256'', f), (cp ''format'', a), (cp ''required_claim_ids'', d),
      (cp ''required_limitation_codes'', e), (cp ''surface_parts'', b)]" for a b c d e f :: py_value
    by (simp add: py_sorted_def cp_def)
  then have "canonical_scalar (dump_fact_pack (example_pack h)) =
     rbind (traverse (\<lambda>kv. rbind (canonical_scalar (snd kv)) (\<lambda>j. Inr (fst kv, j)))
       [(cp ''claim_signatures'', PSeq (map dump_claim_signature example_signatures)), (cp ''evidence_context_sha256'', PStr h),
        (cp ''format'', PStr (cp ''finproof.fact-pack.v1'')), (cp ''required_claim_ids'', texts_py [cp ''claim:snapshot'', cp ''claim:count'']),
        (cp ''required_limitation_codes'', texts_py [cp ''snapshot_assumption'']), (cp ''surface_parts'', PSeq [dump_surface_part example_part])])
       (\<lambda>js. Inr (JObj js))"
    by (simp only: dump_fact_pack_def example_pack_def fact_pack.simps canonical_scalar.simps list.map)
  then show ?thesis
    using parts [THEN sum.collapse(2)]
    by (cases "canonical_scalar (PSeq (map dump_claim_signature example_signatures))";
        cases "canonical_scalar (PSeq [dump_surface_part example_part])")
      (simp_all add: example_json_def texts_py_def del: canonical_scalar.simps(10), simp)
qed

lemma length_utf8: "length (concat (map utf8_char s)) \<le> 4 * length s"
  by (induction s) (auto simp: utf8_char_def)

lemma json_string_hex: "is_sha256_hex h \<Longrightarrow> json_string h = 34 # h @ [34]"
proof -
  assume "is_sha256_hex h"
  then have "\<forall>c \<in> set h. json_escape c = [c]" by (auto simp: is_sha256_hex_def list_all_iff json_escape_def)
  then have "concat (map json_escape h) = h" by (induction h) auto
  then show ?thesis by (simp add: json_string_def)
qed

lemma example_context:
  assumes "is_sha256_hex h"
  shows "encodable (json_dumps (example_json h)) \<and> 1 \<le> length (json_dumps (example_json h)) \<and> length (json_dumps (example_json h)) \<le> 2000"
proof -
  let ?a = "json_dumps (projr (canonical_scalar (PSeq (map dump_claim_signature example_signatures))))"
  let ?b = "json_dumps (projr (canonical_scalar (PSeq [dump_surface_part example_part])))"
  let ?u = "[(cp ''claim_signatures'', ?a)]"
  let ?v = "[(cp ''format'', json_dumps (JStr (cp ''finproof.fact-pack.v1''))),
       (cp ''required_claim_ids'', json_dumps (JArr [JStr (cp ''claim:snapshot''), JStr (cp ''claim:count'')])),
       (cp ''required_limitation_codes'', json_dumps (JArr [JStr (cp ''snapshot_assumption'')])), (cp ''surface_parts'', ?b)]"
  let ?p = "\<lambda>(k, t). json_string k @ [58] @ t"
  let ?pre = "[123] @ py_join [44] (map ?p ?u) @ [44] @ json_string (cp ''evidence_context_sha256'') @ [58]"
  let ?post = "[44] @ py_join [44] (map ?p ?v) @ [125]"
  have "py_sorted fst (?u @ (cp ''evidence_context_sha256'', json_string h) # ?v) = ?u @ (cp ''evidence_context_sha256'', json_string h) # ?v"
    unfolding py_sorted_def by (intro sort_key_id_if_sorted) (simp add: cp_def)
  then have "json_dumps (example_json h) = ?pre @ json_string h @ ?post"
    by (simp add: example_json_def del: json_dumps.simps(5))
  moreover have "encodable ?pre" "encodable ?post" "length ?pre + length ?post \<le> 1900" by code_simp+
  moreover have "encodable h" "length h = 64" using assms by (auto simp: is_sha256_hex_def encodable_def list_all_iff)
  ultimately show ?thesis using json_string_hex [OF assms] by (simp del: append_assoc)
qed

definition example_trace_record :: execution_trace where
  "example_trace_record = \<lparr>tr_correlation_id = cp ''t'', tr_intent = LOOKUP, tr_product_types = [], tr_as_of_date = Date 2026 8 24,
     tr_result_grain = PRODUCT, tr_top_k_scope = GLOBAL, tr_segments = [], tr_candidate_counts = [], tr_tools = [], tr_policy_ids = [],
     tr_validation = PASSED, tr_versions = [], tr_latency_ms = []\<rparr>"

lemma example_prepared:
  "\<exists>p. answer_service_result (\<lambda>_. Inr example_draft) (\<lambda>_. Inr (cp ''{}'')) (Some [cp ''must buy'']) example_registry example_evidence
     example_trace_record [] (deadline_start 0) (1, 2, 3) = Inr p \<and> pa_claims p = at_claims example_draft \<and>
     surface_text p = at_text example_draft \<and> pa_trace p = example_trace_record\<lparr>tr_latency_ms := [(cp ''render'', 2000)]\<rparr> \<and>
     encodable (pa_retrieved_context p) \<and> pa_retrieved_context p \<noteq> [] \<and> length (pa_retrieved_context p) \<le> 2000"
proof -
  obtain h where h: "sha256_text (cp ''{}'') = Inr h" "is_sha256_hex h" using sha256_text_total [of "cp ''{}''"] by auto
  have v: "\<not> isl (verify_answer (Some [cp ''must buy'']) example_draft example_evidence)" by code_simp
  then have v: "verify_answer (Some [cp ''must buy'']) example_draft example_evidence = Inr example_draft"
    using verify_answer_Inr(1) by (cases "verify_answer (Some [cp ''must buy'']) example_draft example_evidence") auto
  note c = example_context [OF h(2)]
  have bytes: "canonical_json_bytes (dump_fact_pack (example_pack h)) False = Inr (concat (map utf8_char (json_dumps (example_json h))))"
    "canonical_json_text (dump_fact_pack (example_pack h)) = Inr (json_dumps (example_json h))"
    using c by (simp_all add: canonical_json_bytes_def canonical_json_text_def example_canonical utf8_encode_def)
  have w: "require_work (deadline_start 0) t = Inr ()" if "t \<le> 3" for t
    using that by (simp add: require_work_def raise_if_def deadline_start_def REQUEST_DEADLINE_SECONDS_def SERIALIZATION_RESERVE_SECONDS_def)
  have n: "length (at_claims example_draft) = 2" by code_simp
  have part: "fp_surface_parts (example_pack h) = [example_part]" "sp_text example_part = at_text example_draft"
    by (simp_all add: example_pack_def example_part_def)
  show ?thesis
    using length_utf8 [of "json_dumps (example_json h)"] c
    unfolding answer_service_result_def prod.case
    by (auto simp: w v example_build [OF h] bytes raise_if_def n surface_text_def part elapsed_ms_def)
qed

theorem prepared_answer_grounded_witness:
  "\<exists>p. answer_service_result (\<lambda>_. Inr example_draft) (\<lambda>_. Inr (cp ''{}'')) (Some [cp ''must buy'']) example_registry example_evidence
     example_trace_record [] (deadline_start 0) (1, 2, 3) = Inr p \<and> pa_claims p \<noteq> [] \<and>
     list_all2 signs_claim (fp_claim_signatures (pa_fact_pack p)) (pa_claims p)"
proof -
  from example_prepared obtain p where p: "answer_service_result (\<lambda>_. Inr example_draft) (\<lambda>_. Inr (cp ''{}'')) (Some [cp ''must buy''])
     example_registry example_evidence example_trace_record [] (deadline_start 0) (1, 2, 3) = Inr p" "pa_claims p = at_claims example_draft" by blast
  moreover have "at_claims example_draft \<noteq> []" by (simp add: example_draft_def)
  ultimately show ?thesis using prepared_answer_grounded [OF p(1)] by auto
qed

end
