(* ===== verification/Orchestrator.thy ===== *)
theory Orchestrator
  imports Fact_Pack
begin

text \<open>
  The evaluation request: \<open>finproof/service/orchestrator.py\<close>. Every awaited operation of the planner, the
  database worker and the wording provider is a parameter, an \<open>operation\<close> that says how long it takes
  and how it ends; the code around them, with its deadlines, its error translation, its one repair
  and its one retry, is the model. A run threads the clock, the stage latencies, the started calls
  and the flag that the permit was retained.
\<close>

section \<open>Operations and errors\<close>

text \<open>How an awaited operation may end without a value.\<close>

datatype op_error =
    Op_cancelled | Op_timeout | Op_planner_terminal pystr | Op_provider_wording pystr
  | Op_transport | Op_rate_limit "rat option" | Op_http int | Op_other

text \<open>\<open>op_unwind\<close> is the time a cancelled operation takes to give in after a timeout.\<close>

record 'a operation =
  op_duration :: rat
  op_outcome :: "op_error + 'a"
  op_unwind :: rat

datatype service_error =
    Cancelled | Deadline_exceeded pystr | Planner_failure pystr | Database_failure | Wording_failure pystr | Raised op_error

record run_state =
  rs_clock :: rat
  rs_latency :: "(pystr \<times> int) list"
  rs_calls :: "(pystr \<times> rat) list"
  rs_retained :: bool

type_synonym 'a service = "run_state \<Rightarrow> (service_error + 'a) \<times> run_state"

definition sreturn :: "'a \<Rightarrow> 'a service" where
  "sreturn x s = (Inr x, s)"

definition sthrow :: "service_error \<Rightarrow> 'a service" where
  "sthrow e s = (Inl e, s)"

definition sbind :: "'a service \<Rightarrow> ('a \<Rightarrow> 'b service) \<Rightarrow> 'b service" where
  "sbind m f s = (case m s of (Inl e, s') \<Rightarrow> (Inl e, s') | (Inr x, s') \<Rightarrow> f x s')"

definition scatch :: "'a service \<Rightarrow> (service_error \<Rightarrow> 'a service) \<Rightarrow> 'a service" where
  "scatch m h s = (case m s of (Inl e, s') \<Rightarrow> h e s' | (Inr x, s') \<Rightarrow> (Inr x, s'))"

definition add_latency :: "pystr \<Rightarrow> int \<Rightarrow> (pystr \<times> int) list \<Rightarrow> (pystr \<times> int) list" where
  "add_latency stage ms latency =
     dict_set latency stage ((case map_of latency stage of None \<Rightarrow> 0 | Some n \<Rightarrow> n) + ms)"

section \<open>\_within\_deadline\<close>

definition within_deadline :: "request_deadline \<Rightarrow> pystr \<Rightarrow> 'a operation \<Rightarrow> 'a service" where
  "within_deadline d stage op s =
     (let started = rs_clock s; remaining = remaining_work_seconds d started in
      if remaining \<le> 0 then (Inl (Deadline_exceeded stage), s\<lparr>rs_latency := add_latency stage 0 (rs_latency s)\<rparr>)
      else
        let timed_out = op_duration op > remaining;
            now = (if timed_out then started + remaining + op_unwind op else started + op_duration op);
            s' = s\<lparr>rs_clock := now, rs_calls := rs_calls s @ [(stage, started)],
                   rs_latency := add_latency stage (elapsed_ms started now) (rs_latency s)\<rparr> in
        if timed_out then (Inl (Deadline_exceeded stage), s')
        else (case op_outcome op of
                Inr x \<Rightarrow> (Inr x, s')
              | Inl Op_timeout \<Rightarrow> (Inl (Deadline_exceeded stage), s')
              | Inl Op_cancelled \<Rightarrow> (Inl Cancelled, s')
              | Inl e \<Rightarrow> (Inl (Raised e), s')))"

section \<open>The environment of a request\<close>

record 'p environment =
  env_admission :: "unit operation"
  env_plan :: "'p operation"
  env_prepare :: "'p \<Rightarrow> prepared_answer operation"
  env_verbalize :: "fact_pack \<Rightarrow> provider_wording operation"
  env_repair :: "fact_pack \<Rightarrow> pystr \<Rightarrow> provider_wording operation"
  env_sleep :: "rat \<Rightarrow> unit operation"
  env_retry :: "fact_pack \<Rightarrow> provider_wording operation"

record answer_result =
  ar_answer :: verified_answer
  ar_retrieved_context :: pystr
  ar_trace :: execution_trace

definition dict_merge :: "('k \<times> 'v) list \<Rightarrow> ('k \<times> 'v) list \<Rightarrow> ('k \<times> 'v) list" where
  "dict_merge a b = foldl (\<lambda>m (k, v). dict_set m k v) a b"

definition result_of :: "pystr \<Rightarrow> prepared_answer \<Rightarrow> verified_answer \<Rightarrow> run_state \<Rightarrow> answer_result" where
  "result_of cid prepared verified s =
     \<lparr>ar_answer = verified, ar_retrieved_context = pa_retrieved_context prepared,
      ar_trace = (pa_trace prepared)\<lparr>tr_correlation_id := cid,
        tr_latency_ms := dict_merge (tr_latency_ms (pa_trace prepared)) (rs_latency s)\<rparr>\<rparr>"

text \<open>Verification takes no measured time: it reads the clock once.\<close>

definition verified_or :: "pystr \<Rightarrow> pystr \<Rightarrow> request_deadline \<Rightarrow> prepared_answer \<Rightarrow> provider_wording \<Rightarrow> answer_result service" where
  "verified_or category cid d prepared wording s =
     (case verify_wording wording prepared d (rs_clock s) of
        Inl _ \<Rightarrow> (Inl (Wording_failure category), s)
      | Inr verified \<Rightarrow> (Inr (result_of cid prepared verified s), s))"

section \<open>Planning and preparation\<close>

definition plan_stage :: "'p environment \<Rightarrow> request_deadline \<Rightarrow> 'p service" where
  "plan_stage env d =
     scatch (within_deadline d (cp ''planner'') (env_plan env))
       (\<lambda>e. case e of
          Raised (Op_planner_terminal category) \<Rightarrow> sthrow (Planner_failure (cp ''planner_'' @ category))
        | Raised _ \<Rightarrow> sthrow (Planner_failure (cp ''planner_failure''))
        | _ \<Rightarrow> sthrow e)"

definition retain_and_throw :: "service_error \<Rightarrow> 'a service" where
  "retain_and_throw e s = (Inl e, s\<lparr>rs_retained := True\<rparr>)"

definition database_stage :: "'p environment \<Rightarrow> request_deadline \<Rightarrow> 'p \<Rightarrow> prepared_answer service" where
  "database_stage env d planned s =
     (if remaining_work_seconds d (rs_clock s) \<le> 0 then (Inl (Deadline_exceeded (cp ''database'')), s)
      else scatch (within_deadline d (cp ''database'') (env_prepare env planned))
        (\<lambda>e. case e of
           Cancelled \<Rightarrow> retain_and_throw e
         | Deadline_exceeded _ \<Rightarrow> retain_and_throw e
         | _ \<Rightarrow> sthrow Database_failure) s)"

section \<open>Wording, its repair and its retry\<close>

definition repair_wording ::
  "'p environment \<Rightarrow> request_deadline \<Rightarrow> pystr \<Rightarrow> prepared_answer \<Rightarrow> pystr \<Rightarrow> answer_result service" where
  "repair_wording env d cid prepared invalid_content =
     scatch
       (sbind (within_deadline d (cp ''wording'') (env_repair env (pa_fact_pack prepared) invalid_content))
          (verified_or (cp ''wording_repair_failure'') cid d prepared))
       (\<lambda>e. case e of
          Raised _ \<Rightarrow> sthrow (Wording_failure (cp ''wording_repair_failure''))
        | _ \<Rightarrow> sthrow e)"

definition retry_wording :: "'p environment \<Rightarrow> request_deadline \<Rightarrow> prepared_answer \<Rightarrow> op_error \<Rightarrow> provider_wording service" where
  "retry_wording env d prepared error s =
     (let again = scatch (within_deadline d (cp ''wording'') (env_retry env (pa_fact_pack prepared)))
            (\<lambda>e. case e of Raised _ \<Rightarrow> sthrow (Wording_failure (cp ''wording_retry_failure'')) | _ \<Rightarrow> sthrow e);
          refused = sthrow (Wording_failure (cp ''wording_provider_failure'')) in
      (case error of
         Op_http status \<Rightarrow> (if status < 500 then refused else again)
       | Op_rate_limit delay \<Rightarrow>
           (case delay of
              None \<Rightarrow> refused
            | Some t \<Rightarrow>
                if t \<ge> remaining_work_seconds d (rs_clock s) then refused
                else sbind (within_deadline d (cp ''wording'') (env_sleep env t)) (\<lambda>_. again))
       | _ \<Rightarrow> again) s)"

definition wording_stage :: "'p environment \<Rightarrow> request_deadline \<Rightarrow> pystr \<Rightarrow> prepared_answer \<Rightarrow> answer_result service" where
  "wording_stage env d cid prepared s =
     (case within_deadline d (cp ''wording'') (env_verbalize env (pa_fact_pack prepared)) s of
        (Inr wording, s') \<Rightarrow> verified_or (cp ''wording_verification_failure'') cid d prepared wording s'
      | (Inl (Raised (Op_provider_wording content)), s') \<Rightarrow> repair_wording env d cid prepared content s'
      | (Inl (Raised Op_transport), s') \<Rightarrow>
          sbind (retry_wording env d prepared Op_transport) (verified_or (cp ''wording_verification_failure'') cid d prepared) s'
      | (Inl (Raised (Op_rate_limit t)), s') \<Rightarrow>
          sbind (retry_wording env d prepared (Op_rate_limit t)) (verified_or (cp ''wording_verification_failure'') cid d prepared) s'
      | (Inl (Raised (Op_http n)), s') \<Rightarrow>
          sbind (retry_wording env d prepared (Op_http n)) (verified_or (cp ''wording_verification_failure'') cid d prepared) s'
      | (Inl (Raised _), s') \<Rightarrow> (Inl (Wording_failure (cp ''wording_provider_failure'')), s')
      | (Inl e, s') \<Rightarrow> (Inl e, s'))"

definition answer_within_deadline :: "'p environment \<Rightarrow> request_deadline \<Rightarrow> pystr \<Rightarrow> ('p \<times> answer_result) service" where
  "answer_within_deadline env d cid =
     sbind (plan_stage env d) (\<lambda>planned.
     sbind (database_stage env d planned) (\<lambda>prepared.
     sbind (wording_stage env d cid prepared) (\<lambda>result.
       sreturn (planned, result))))"

section \<open>answer\_with\_plan\<close>

text \<open>\<open>RequestLimiter.acquire\<close> as one request sees it; its timeout is a plain \<open>TimeoutError\<close>.\<close>

definition acquire_permit :: "request_deadline \<Rightarrow> unit operation \<Rightarrow> unit service" where
  "acquire_permit d op s =
     (let remaining = remaining_work_seconds d (rs_clock s) in
      if remaining \<le> 0 then (Inl (Raised Op_timeout), s)
      else if op_duration op > remaining then (Inl (Raised Op_timeout), s\<lparr>rs_clock := rs_clock s + remaining + op_unwind op\<rparr>)
      else (case op_outcome op of
              Inr _ \<Rightarrow> (Inr (), s\<lparr>rs_clock := rs_clock s + op_duration op\<rparr>)
            | Inl Op_cancelled \<Rightarrow> (Inl Cancelled, s\<lparr>rs_clock := rs_clock s + op_duration op\<rparr>)
            | Inl e \<Rightarrow> (Inl (Raised e), s\<lparr>rs_clock := rs_clock s + op_duration op\<rparr>)))"

text \<open>What is returned and what is logged; \<open>ao_fallback\<close> is the logged \<open>safe_failure\<close>.\<close>

record 'p answer_outcome =
  ao_planned :: "'p option"
  ao_result :: answer_result
  ao_error_category :: "pystr option"
  ao_fallback :: bool
  ao_stage_latency_ms :: "(pystr \<times> int) list"

definition initial_run :: "rat \<Rightarrow> run_state" where
  "initial_run now = \<lparr>rs_clock = now, rs_latency = map (\<lambda>k. (cp k, 0)) [''planner'', ''database'', ''evidence'', ''render'', ''wording''],
     rs_calls = [], rs_retained = False\<rparr>"

fun error_category :: "service_error \<Rightarrow> pystr" where
  "error_category (Deadline_exceeded stage) = stage @ cp ''_timeout''"
| "error_category (Planner_failure category) = category"
| "error_category Database_failure = cp ''database_failure''"
| "error_category (Wording_failure category) = category"
| "error_category _ = cp ''orchestration_failure''"

definition answer_with_plan ::
  "'p environment \<Rightarrow> request_deadline \<Rightarrow> pystr \<Rightarrow> answer_result \<Rightarrow> rat \<Rightarrow> (service_error + 'p answer_outcome) \<times> run_state" where
  "answer_with_plan env d cid safe_result now =
     (case sbind (acquire_permit d (env_admission env)) (\<lambda>_. answer_within_deadline env d cid) (initial_run now) of
        (Inr (planned, result), s) \<Rightarrow>
          (Inr \<lparr>ao_planned = Some planned, ao_result = result, ao_error_category = None, ao_fallback = False,
                ao_stage_latency_ms = tr_latency_ms (ar_trace result)\<rparr>, s)
      | (Inl Cancelled, s) \<Rightarrow> (Inl Cancelled, s)
      | (Inl e, s) \<Rightarrow>
          (Inr \<lparr>ao_planned = None, ao_result = safe_result, ao_error_category = Some (error_category e), ao_fallback = True,
                ao_stage_latency_ms = rs_latency s\<rparr>, s))"

section \<open>Time and calls\<close>

text \<open>
  At a clock of at most \<open>M\<close> the calls \<open>ns\<close> have been started, all before the work deadline.
\<close>

definition timely :: "request_deadline \<Rightarrow> rat \<Rightarrow> pystr list \<Rightarrow> bool \<Rightarrow> run_state \<Rightarrow> bool" where
  "timely d M ns b s \<longleftrightarrow>
     rs_clock s \<le> M \<and> map fst (rs_calls s) = ns \<and> (\<forall>c \<in> set (rs_calls s). snd c < dl_work_cutoff_at d) \<and> rs_retained s = b"

abbreviation wordings :: "nat \<Rightarrow> pystr list" where
  "wordings k \<equiv> [cp ''planner'', cp ''database''] @ replicate k (cp ''wording'')"

lemma timely_mono: "timely d M ns b s \<Longrightarrow> M \<le> N \<Longrightarrow> timely d N ns b s"
  by (auto simp: timely_def)

text \<open>How a bounded operation ends: with its value, with its error, or cut off or cancelled.\<close>

lemma within_deadline_cases:
  assumes "within_deadline d stage op s = (r, s')" and "timely d M ns b s" and "dl_work_cutoff_at d \<le> M" and "op_unwind op \<le> u" and "0 \<le> u"
  obtains (returned) x where "r = Inr x" and "op_outcome op = Inr x" and "timely d M (ns @ [stage]) b s'"
  | (failed) e where "r = Inl (Raised e)" and "op_outcome op = Inl e" and "timely d M (ns @ [stage]) b s'"
  | (stopped) ms e where "r = Inl e" and "e = Deadline_exceeded stage \<or> e = Cancelled \<and> op_outcome op = Inl Op_cancelled"
      and "ms = (if dl_work_cutoff_at d \<le> rs_clock s then ns else ns @ [stage])" and "timely d (M + u) ms b s'"
proof (cases "dl_work_cutoff_at d \<le> rs_clock s")
  case True
  with assms have "r = Inl (Deadline_exceeded stage)" "timely d M ns b s'"
    by (auto simp: within_deadline_def Let_def timely_def)
  with stopped timely_mono [of d M ns b s' "M + u"] assms(5) True show thesis by simp
next
  case False
  note within = assms(1) [unfolded within_deadline_def Let_def]
  let ?rem = "remaining_work_seconds d (rs_clock s)"
  have rem: "rs_clock s + ?rem = dl_work_cutoff_at d" using False by (simp add: remaining_work_seconds_def)
  show thesis
  proof (cases "op_duration op > ?rem")
    case True
    with within False have "r = Inl (Deadline_exceeded stage)" "rs_clock s' = dl_work_cutoff_at d + op_unwind op"
      "rs_calls s' = rs_calls s @ [(stage, rs_clock s)]" "rs_retained s' = rs_retained s"
      using rem by auto
    with assms False show thesis by (intro stopped [of _ "ns @ [stage]"]) (auto simp: timely_def)
  next
    case ok: False
    let ?s = "s\<lparr>rs_clock := rs_clock s + op_duration op, rs_calls := rs_calls s @ [(stage, rs_clock s)],
        rs_latency := add_latency stage (elapsed_ms (rs_clock s) (rs_clock s + op_duration op)) (rs_latency s)\<rparr>"
    have t: "timely d M (ns @ [stage]) b ?s" using ok rem assms(2,3) False by (auto simp: timely_def)
    then have t': "timely d (M + u) (ns @ [stage]) b ?s" by (rule timely_mono) (use assms(5) in simp)
    show thesis
    proof (cases "op_outcome op")
      case (Inr x)
      with within False ok t show thesis by (intro returned) auto
    next
      case (Inl e)
      note out = this
      show thesis
      proof (cases "e = Op_timeout \<or> e = Op_cancelled")
        case True
        with within False ok out have "s' = ?s" "r = Inl (if e = Op_timeout then Deadline_exceeded stage else Cancelled)" by auto
        with True out t' \<open>\<not> dl_work_cutoff_at d \<le> rs_clock s\<close> show thesis by (intro stopped [of "if e = Op_timeout then Deadline_exceeded stage else Cancelled" "ns @ [stage]"]) auto
      next
        case False
        with within \<open>\<not> dl_work_cutoff_at d \<le> rs_clock s\<close> ok out t show thesis by (intro failed [of e]) (cases e; auto)+
      qed
    qed
  qed
qed

section \<open>The stages\<close>

definition env_unwinds :: "rat \<Rightarrow> 'p environment \<Rightarrow> bool" where
  "env_unwinds u env \<longleftrightarrow>
     0 \<le> u \<and> op_unwind (env_admission env) \<le> u \<and> op_unwind (env_plan env) \<le> u \<and> (\<forall>p. op_unwind (env_prepare env p) \<le> u) \<and>
     (\<forall>f. op_unwind (env_verbalize env f) \<le> u) \<and> (\<forall>f c. op_unwind (env_repair env f c) \<le> u) \<and>
     (\<forall>t. op_unwind (env_sleep env t) \<le> u) \<and> (\<forall>f. op_unwind (env_retry env f) \<le> u)"

lemma plan_stage_cases:
  assumes "plan_stage env d s = (r, s')" and "timely d M [] b s" and "dl_work_cutoff_at d \<le> M" and "env_unwinds u env"
  obtains (returned) x where "r = Inr x" and "op_outcome (env_plan env) = Inr x" and "timely d M [cp ''planner''] b s'"
  | (stopped) e ms where "r = Inl e" and "e = Cancelled \<and> op_outcome (env_plan env) = Inl Op_cancelled \<or> e = Deadline_exceeded (cp ''planner'')
        \<or> e = Planner_failure (cp ''planner_failure'') \<or> (\<exists>c. e = Planner_failure (cp ''planner_'' @ c))"
      and "ms = [] \<or> ms = [cp ''planner'']" and "timely d (M + u) ms b s'"
proof -
  obtain q t where w: "within_deadline d (cp ''planner'') (env_plan env) s = (q, t)" by (cases "within_deadline d (cp ''planner'') (env_plan env) s")
  have u: "op_unwind (env_plan env) \<le> u" "0 \<le> u" using assms(4) by (simp_all add: env_unwinds_def)
  note ps = assms(1) [unfolded plan_stage_def scatch_def w prod.case]
  from w assms(2,3) u show thesis
  proof (cases rule: within_deadline_cases)
    case (returned x)
    with ps show thesis by (intro that(1) [of x]) auto
  next
    case (failed e)
    from timely_mono [OF failed(3)] u(2) have "timely d (M + u) [cp ''planner''] b t" by simp
    moreover have "\<exists>f. r = Inl f \<and> (f = Planner_failure (cp ''planner_failure'') \<or> (\<exists>c. f = Planner_failure (cp ''planner_'' @ c)))" and "s' = t"
      using ps failed by (auto simp: sthrow_def split: op_error.splits)
    ultimately show thesis using that(2) by blast
  next
    case (stopped ms e)
    with ps show thesis by (intro that(2) [of e ms]) (auto simp: sthrow_def split: if_splits)
  qed
qed

lemma database_stage_cases:
  assumes "database_stage env d planned s = (r, s')" and "timely d M [cp ''planner''] False s" and "dl_work_cutoff_at d \<le> M" and "env_unwinds u env"
  obtains (returned) x where "r = Inr x" and "op_outcome (env_prepare env planned) = Inr x"
      and "timely d M [cp ''planner'', cp ''database''] False s'"
  | (stopped) e ms where "r = Inl e"
      and "e = Cancelled \<and> op_outcome (env_prepare env planned) = Inl Op_cancelled \<or> e = Deadline_exceeded (cp ''database'') \<or> e = Database_failure"
      and "ms = [cp ''planner''] \<or> ms = [cp ''planner'', cp ''database'']"
      and "timely d (M + u) ms (ms = [cp ''planner'', cp ''database''] \<and> e \<noteq> Database_failure) s'"
proof (cases "dl_work_cutoff_at d \<le> rs_clock s")
  case True
  have u: "0 \<le> u" using assms(4) by (simp add: env_unwinds_def)
  from assms(1) True have "r = Inl (Deadline_exceeded (cp ''database''))" "s' = s" by (auto simp: database_stage_def)
  with assms(2) u show thesis by (intro that(2) [of _ "[cp ''planner'']"]) (auto intro: timely_mono)
next
  case False
  obtain q t where w: "within_deadline d (cp ''database'') (env_prepare env planned) s = (q, t)"
    by (cases "within_deadline d (cp ''database'') (env_prepare env planned) s")
  have u: "op_unwind (env_prepare env planned) \<le> u" "0 \<le> u" using assms(4) by (simp_all add: env_unwinds_def)
  from assms(1) False have ds: "(case q of Inl e \<Rightarrow> (case e of Cancelled \<Rightarrow> retain_and_throw e | Deadline_exceeded _ \<Rightarrow> retain_and_throw e | _ \<Rightarrow> sthrow Database_failure) t
      | Inr x \<Rightarrow> (Inr x, t)) = (r, s')"
    by (simp add: database_stage_def scatch_def w split: sum.splits)
  from w assms(2,3) u show thesis
  proof (cases rule: within_deadline_cases)
    case (returned x)
    with ds show thesis by (intro that(1) [of x]) auto
  next
    case (failed e)
    from timely_mono [OF failed(3)] u(2) have "timely d (M + u) [cp ''planner'', cp ''database''] False t" by simp
    with ds failed show thesis by (intro that(2) [of Database_failure "[cp ''planner'', cp ''database'']"]) (auto simp: sthrow_def)
  next
    case (stopped ms e)
    from stopped(4) have "timely d (M + u) ms True (t\<lparr>rs_retained := True\<rparr>)" by (simp add: timely_def)
    moreover from ds stopped(1,2) have "r = Inl e" "s' = t\<lparr>rs_retained := True\<rparr>" by (auto simp: retain_and_throw_def)
    ultimately show thesis using stopped(2,3) False by (intro that(2) [of e ms]) auto
  qed
qed

text \<open>The wording that was accepted, and the time at which it was.\<close>

definition accepted :: "'p environment \<Rightarrow> request_deadline \<Rightarrow> pystr \<Rightarrow> prepared_answer \<Rightarrow> answer_result \<Rightarrow> bool" where
  "accepted env d cid prepared r \<longleftrightarrow>
     (\<exists>wording s. (op_outcome (env_verbalize env (pa_fact_pack prepared)) = Inr wording
          \<or> (\<exists>content. op_outcome (env_verbalize env (pa_fact_pack prepared)) = Inl (Op_provider_wording content)
               \<and> op_outcome (env_repair env (pa_fact_pack prepared) content) = Inr wording)
          \<or> op_outcome (env_retry env (pa_fact_pack prepared)) = Inr wording) \<and>
        verify_wording wording prepared d (rs_clock s) = Inr (ar_answer r) \<and> r = result_of cid prepared (ar_answer r) s)"

definition wording_error :: "'p environment \<Rightarrow> fact_pack \<Rightarrow> service_error \<Rightarrow> bool" where
  "wording_error env f e \<longleftrightarrow>
     e = Deadline_exceeded (cp ''wording'') \<or>
     (\<exists>k \<in> {''wording_provider_failure'', ''wording_verification_failure'', ''wording_repair_failure'', ''wording_retry_failure''}.
        e = Wording_failure (cp k)) \<or>
     (\<exists>t x. e = Raised x \<and> op_outcome (env_sleep env t) = Inl x) \<or>
     (e = Cancelled \<and> (op_outcome (env_verbalize env f) = Inl Op_cancelled \<or> (\<exists>c. op_outcome (env_repair env f c) = Inl Op_cancelled)
        \<or> (\<exists>t. op_outcome (env_sleep env t) = Inl Op_cancelled) \<or> op_outcome (env_retry env f) = Inl Op_cancelled))"

lemma wording_failures:
  "wording_error env f (Wording_failure (cp ''wording_provider_failure''))" "wording_error env f (Wording_failure (cp ''wording_verification_failure''))"
  "wording_error env f (Wording_failure (cp ''wording_repair_failure''))" "wording_error env f (Wording_failure (cp ''wording_retry_failure''))"
  by (simp_all add: wording_error_def)

lemma verified_or_cases:
  assumes "verified_or category cid d prepared wording s = (r, s')"
  obtains (returned) x where "r = Inr x" and "verify_wording wording prepared d (rs_clock s) = Inr (ar_answer x)"
      and "x = result_of cid prepared (ar_answer x) s" and "s' = s"
  | (stopped) "r = Inl (Wording_failure category)" and "s' = s"
proof (cases "verify_wording wording prepared d (rs_clock s)")
  case (Inl e)
  with assms show thesis by (intro stopped) (auto simp: verified_or_def)
next
  case (Inr v)
  have "ar_answer (result_of cid prepared v s) = v" by (simp add: result_of_def)
  with assms Inr show thesis by (intro returned [of "result_of cid prepared v s"]) (auto simp: verified_or_def)
qed

lemma wordings_Suc: "wordings k @ [cp ''wording''] = wordings (Suc k)"
  by (simp add: replicate_append_same)

text \<open>A wording call from a state with \<open>k\<close> such calls.\<close>

lemma wording_call_cases:
  assumes "within_deadline d (cp ''wording'') op s = (r, s')" and "timely d M (wordings k) False s" and "dl_work_cutoff_at d \<le> M"
    and "op_unwind op \<le> u" and "0 \<le> u"
  obtains (returned) x where "r = Inr x" and "op_outcome op = Inr x" and "timely d M (wordings (Suc k)) False s'"
  | (failed) e where "r = Inl (Raised e)" and "op_outcome op = Inl e" and "timely d M (wordings (Suc k)) False s'"
  | (stopped) j e where "r = Inl e" and "e = Deadline_exceeded (cp ''wording'') \<or> e = Cancelled \<and> op_outcome op = Inl Op_cancelled"
      and "j = k \<or> j = Suc k" and "timely d (M + u) (wordings j) False s'"
  using assms
proof (cases rule: within_deadline_cases)
  case (stopped ms e)
  show thesis
  proof (rule that(3) [OF stopped(1,2)])
    show "(if dl_work_cutoff_at d \<le> rs_clock s then k else Suc k) = k \<or> (if dl_work_cutoff_at d \<le> rs_clock s then k else Suc k) = Suc k" by simp
    have "wordings (if dl_work_cutoff_at d \<le> rs_clock s then k else Suc k) = ms" using stopped(3) by (simp add: replicate_append_same)
    with stopped(4) show "timely d (M + u) (wordings (if dl_work_cutoff_at d \<le> rs_clock s then k else Suc k)) False s'" by simp
  qed
qed (use that(1,2) in \<open>simp_all only: wordings_Suc\<close>)

lemma retry_call_cases:
  assumes "scatch (within_deadline d (cp ''wording'') (env_retry env f))
      (\<lambda>e. case e of Raised _ \<Rightarrow> sthrow (Wording_failure (cp ''wording_retry_failure'')) | _ \<Rightarrow> sthrow e) s = (r, s')"
    and "timely d M (wordings k) False s" and "dl_work_cutoff_at d \<le> M" and "env_unwinds u env"
  obtains (returned) x where "r = Inr x" and "op_outcome (env_retry env f) = Inr x" and "timely d M (wordings (Suc k)) False s'"
  | (stopped) j e where "r = Inl e" and "wording_error env f e" and "j = k \<or> j = Suc k" and "timely d (M + u) (wordings j) False s'"
proof -
  obtain q t where w: "within_deadline d (cp ''wording'') (env_retry env f) s = (q, t)" by (cases "within_deadline d (cp ''wording'') (env_retry env f) s")
  have u: "op_unwind (env_retry env f) \<le> u" "0 \<le> u" using assms(4) by (simp_all add: env_unwinds_def)
  note c = assms(1) [unfolded scatch_def w prod.case]
  from w assms(2,3) u show thesis
  proof (cases rule: wording_call_cases)
    case (returned x)
    with c show thesis by (intro that(1) [of x]) auto
  next
    case (failed e)
    from timely_mono [OF failed(3)] u(2) have "timely d (M + u) (wordings (Suc k)) False t" by simp
    with c failed show thesis
      by (intro that(2) [of "Wording_failure (cp ''wording_retry_failure'')" "Suc k"]) (auto simp: sthrow_def wording_error_def)
  next
    case (stopped j e)
    then have "wording_error env f e" by (auto simp: wording_error_def)
    with c stopped show thesis by (intro that(2) [of e j]) (auto simp: sthrow_def)
  qed
qed

lemma retry_wording_cases:
  assumes "retry_wording env d p error s = (r, s')" and "timely d M (wordings 1) False s" and "dl_work_cutoff_at d \<le> M" and "env_unwinds u env"
  obtains (returned) x k where "r = Inr x" and "op_outcome (env_retry env (pa_fact_pack p)) = Inr x" and "k \<le> 3" and "timely d M (wordings k) False s'"
  | (stopped) k e where "r = Inl e" and "wording_error env (pa_fact_pack p) e" and "k \<le> 3" and "timely d (M + u) (wordings k) False s'"
proof -
  note ret = that(1) and stp = that(2)
  let ?f = "pa_fact_pack p"
  let ?again = "scatch (within_deadline d (cp ''wording'') (env_retry env ?f))
      (\<lambda>e. case e of Raised _ \<Rightarrow> sthrow (Wording_failure (cp ''wording_retry_failure'')) | _ \<Rightarrow> sthrow e)"
  have u: "0 \<le> u" using assms(4) by (simp add: env_unwinds_def)
  have again: thesis if "?again t = (r, s')" "timely d M (wordings k) False t" "k \<le> 2" for t k
    using that(1,2) assms(3,4)
  proof (cases rule: retry_call_cases)
    case (returned x)
    with that(3) ret [of x "Suc k"] show thesis by simp
  next
    case (stopped j e)
    with that(3) stp [of e j] show thesis by auto
  qed
  have refused: thesis if "(r, s') = (Inl (Wording_failure (cp ''wording_provider_failure'')), s)"
    using that timely_mono [OF assms(2), of "M + u"] u stp [of _ 1] by (auto simp: wording_error_def)
  show thesis
  proof (cases error)
    case (Op_http n)
    with assms(1) again [OF _ assms(2)] refused show thesis by (auto simp: retry_wording_def Let_def sthrow_def split: if_splits)
  next
    case (Op_rate_limit delay)
    show thesis
    proof (cases "delay = None \<or> the delay \<ge> remaining_work_seconds d (rs_clock s)")
      case True
      with Op_rate_limit assms(1) refused show thesis by (cases delay) (auto simp: retry_wording_def Let_def sthrow_def)
    next
      case False
      then obtain t where t: "delay = Some t" by auto
      obtain q s1 where w: "within_deadline d (cp ''wording'') (env_sleep env t) s = (q, s1)" by (cases "within_deadline d (cp ''wording'') (env_sleep env t) s")
      have us: "op_unwind (env_sleep env t) \<le> u" using assms(4) by (simp add: env_unwinds_def)
      have c: "(case q of Inl e \<Rightarrow> (Inl e, s1) | Inr _ \<Rightarrow> ?again s1) = (r, s')"
        using assms(1) Op_rate_limit False by (simp add: retry_wording_def Let_def t sbind_def w split: sum.splits)
      from w assms(2,3) us u show thesis
      proof (cases rule: wording_call_cases)
        case (returned x)
        with c again [of s1 2] show thesis by (simp add: numeral_2_eq_2)
      next
        case (failed e)
        from timely_mono [OF failed(3)] u have "timely d (M + u) (wordings 2) False s1" by (simp add: numeral_2_eq_2)
        with c failed show thesis by (intro that(2) [of "Raised e" 2]) (auto simp: wording_error_def)
      next
        case (stopped j e)
        with c show thesis by (intro that(2) [of e j]) (auto simp: wording_error_def)
      qed
    qed
  qed (use assms(1) again [OF _ assms(2)] in \<open>auto simp: retry_wording_def Let_def\<close>)
qed

lemma repair_wording_cases:
  assumes "repair_wording env d cid p content s = (r, s')" and "timely d M (wordings 1) False s" and "dl_work_cutoff_at d \<le> M" and "env_unwinds u env"
    and "op_outcome (env_verbalize env (pa_fact_pack p)) = Inl (Op_provider_wording content)"
  obtains (returned) x where "r = Inr x" and "accepted env d cid p x" and "timely d M (wordings 2) False s'"
  | (stopped) k e where "r = Inl e" and "wording_error env (pa_fact_pack p) e" and "k \<le> 3" and "timely d (M + u) (wordings k) False s'"
proof -
  let ?f = "pa_fact_pack p"
  obtain q t where w: "within_deadline d (cp ''wording'') (env_repair env ?f content) s = (q, t)"
    by (cases "within_deadline d (cp ''wording'') (env_repair env ?f content) s")
  have u: "op_unwind (env_repair env ?f content) \<le> u" "0 \<le> u" using assms(4) by (simp_all add: env_unwinds_def)
  note c = assms(1) [unfolded repair_wording_def scatch_def sbind_def w prod.case]
  have bad: "wording_error env ?f (Wording_failure (cp ''wording_repair_failure''))" by (simp add: wording_error_def)
  from w assms(2,3) u show thesis
  proof (cases rule: wording_call_cases)
    case (returned x)
    obtain v t' where v: "verified_or (cp ''wording_repair_failure'') cid d p x t = (v, t')" by (cases "verified_or (cp ''wording_repair_failure'') cid d p x t")
    from v show thesis
    proof (cases rule: verified_or_cases)
      case acc: (returned y)
      from acc(2,3) returned(2) assms(5) have "accepted env d cid p y" unfolding accepted_def by blast
      with c returned v acc that(1) [of y] show thesis by (simp add: numeral_2_eq_2)
    next
      case stopped
      from timely_mono [OF returned(3)] u(2) have "timely d (M + u) (wordings 2) False t" by (simp add: numeral_2_eq_2)
      with c returned v stopped that(2) [of _ 2, OF _ bad] show thesis by (simp add: sthrow_def)
    qed
  next
    case (failed e)
    from timely_mono [OF failed(3)] u(2) have "timely d (M + u) (wordings 2) False t" by (simp add: numeral_2_eq_2)
    with c failed that(2) [of _ 2, OF _ bad] show thesis by (simp add: sthrow_def)
  next
    case (stopped j e)
    then have "wording_error env ?f e" "j \<le> 3" by (auto simp: wording_error_def)
    moreover from c stopped(1,2) have "r = Inl e" "s' = t" by (auto simp: sthrow_def)
    ultimately show thesis using stopped(4) that(2) by blast
  qed
qed

lemma verified_retry_cases:
  assumes "sbind (retry_wording env d p error) (verified_or (cp ''wording_verification_failure'') cid d p) s = (r, s')"
    and "timely d M (wordings 1) False s" and "dl_work_cutoff_at d \<le> M" and "env_unwinds u env"
  obtains (returned) x k where "r = Inr x" and "accepted env d cid p x" and "k \<le> 3" and "timely d M (wordings k) False s'"
  | (stopped) k e where "r = Inl e" and "wording_error env (pa_fact_pack p) e" and "k \<le> 3" and "timely d (M + u) (wordings k) False s'"
proof -
  let ?f = "pa_fact_pack p"
  obtain q t where w: "retry_wording env d p error s = (q, t)" by (cases "retry_wording env d p error s")
  have u: "0 \<le> u" using assms(4) by (simp add: env_unwinds_def)
  note c = assms(1) [unfolded sbind_def w prod.case]
  from w assms(2-4) show thesis
  proof (cases rule: retry_wording_cases)
    case (returned x k)
    obtain v t' where v: "verified_or (cp ''wording_verification_failure'') cid d p x t = (v, t')"
      by (cases "verified_or (cp ''wording_verification_failure'') cid d p x t")
    from v show thesis
    proof (cases rule: verified_or_cases)
      case acc: (returned y)
      from acc(2,3) returned(2) have "accepted env d cid p y" unfolding accepted_def by blast
      with c returned v acc that(1) [of y k] show thesis by simp
    next
      case stopped
      from timely_mono [OF returned(4)] u have "timely d (M + u) (wordings k) False t" by simp
      moreover from c returned(1) v stopped have "r = Inl (Wording_failure (cp ''wording_verification_failure''))" "s' = t" by simp_all
      ultimately show thesis using that(2) [OF _ wording_failures(2) returned(3)] by simp
    qed
  next
    case (stopped k e)
    with c that(2) [of e k] show thesis by simp
  qed
qed

lemma wording_stage_cases:
  assumes "wording_stage env d cid p s = (r, s')" and "timely d M (wordings 0) False s" and "dl_work_cutoff_at d \<le> M" and "env_unwinds u env"
  obtains (returned) x k where "r = Inr x" and "accepted env d cid p x" and "k \<le> 3" and "timely d M (wordings k) False s'"
  | (stopped) k e where "r = Inl e" and "wording_error env (pa_fact_pack p) e" and "k \<le> 3" and "timely d (M + u) (wordings k) False s'"
proof -
  note ret = that(1) and stp = that(2)
  let ?f = "pa_fact_pack p"
  obtain q t where w: "within_deadline d (cp ''wording'') (env_verbalize env ?f) s = (q, t)" by (cases "within_deadline d (cp ''wording'') (env_verbalize env ?f) s")
  have u: "op_unwind (env_verbalize env ?f) \<le> u" "0 \<le> u" using assms(4) by (simp_all add: env_unwinds_def)
  note c = assms(1) [unfolded wording_stage_def w]
  from w assms(2,3) u show thesis
  proof (cases rule: wording_call_cases)
    case (returned x)
    obtain v t' where v: "verified_or (cp ''wording_verification_failure'') cid d p x t = (v, t')"
      by (cases "verified_or (cp ''wording_verification_failure'') cid d p x t")
    from v show thesis
    proof (cases rule: verified_or_cases)
      case acc: (returned y)
      from acc(2,3) returned(2) have "accepted env d cid p y" unfolding accepted_def by blast
      with c returned v acc ret [of y 1] show thesis by simp
    next
      case stopped
      from timely_mono [OF returned(3)] u(2) have "timely d (M + u) (wordings 1) False t" by simp
      moreover from c returned(1) v stopped have "r = Inl (Wording_failure (cp ''wording_verification_failure''))" "s' = t" by simp_all
      ultimately show thesis using stp [OF _ wording_failures(2), of 1] by simp
    qed
  next
    case (failed e)
    from failed(3) have t: "timely d M (wordings 1) False t" by simp
    have retried: thesis if "sbind (retry_wording env d p e) (verified_or (cp ''wording_verification_failure'') cid d p) t = (r, s')"
      using that t assms(3,4)
    proof (cases rule: verified_retry_cases)
      case (returned x k)
      then show thesis by (rule ret)
    next
      case (stopped k e)
      then show thesis by (rule stp)
    qed
    show thesis
    proof (cases e)
      case (Op_provider_wording content)
      with c failed(1) have "repair_wording env d cid p content t = (r, s')" by simp
      from this t assms(3,4) failed(2) [unfolded Op_provider_wording] show thesis
      proof (cases rule: repair_wording_cases)
        case (returned x)
        then show thesis by (intro ret [of x 2]) simp_all
      next
        case (stopped k e)
        then show thesis by (rule stp)
      qed
    qed (use c failed(1) retried stp [OF _ wording_failures(1), of 1] timely_mono [OF t, of "M + u"] u(2) in simp_all)
  next
    case (stopped j e)
    then have "wording_error env ?f e" by (auto simp: wording_error_def)
    moreover from c stopped(1,2) have "r = Inl e" "s' = t" by auto
    ultimately show thesis using stopped(3,4) stp [of e j] by auto
  qed
qed

section \<open>The whole request\<close>

text \<open>The calls a request may make: planning, preparation, and at most three for the wording.\<close>

definition request_calls :: "pystr list" where
  "request_calls = [cp ''planner'', cp ''database'', cp ''wording'', cp ''wording'', cp ''wording'']"

lemma request_calls_takes:
  "[] = take 0 request_calls" "[cp ''planner''] = take 1 request_calls" "k \<le> 3 \<Longrightarrow> wordings k = take (k + 2) request_calls"
proof -
  show "[] = take 0 request_calls" "[cp ''planner''] = take 1 request_calls" by (simp_all add: request_calls_def)
  assume "k \<le> 3"
  then have "k = 0 \<or> k = 1 \<or> k = 2 \<or> k = 3" by linarith
  then show "wordings k = take (k + 2) request_calls" by (auto simp: request_calls_def numeral_2_eq_2 numeral_3_eq_3)
qed

definition env_cancelled :: "'p environment \<Rightarrow> bool" where
  "env_cancelled env \<longleftrightarrow>
     op_outcome (env_admission env) = Inl Op_cancelled \<or> op_outcome (env_plan env) = Inl Op_cancelled \<or>
     (\<exists>p. op_outcome (env_prepare env p) = Inl Op_cancelled) \<or> (\<exists>f. op_outcome (env_verbalize env f) = Inl Op_cancelled) \<or>
     (\<exists>f c. op_outcome (env_repair env f c) = Inl Op_cancelled) \<or> (\<exists>t. op_outcome (env_sleep env t) = Inl Op_cancelled) \<or>
     (\<exists>f. op_outcome (env_retry env f) = Inl Op_cancelled)"

definition known_category :: "pystr \<Rightarrow> bool" where
  "known_category c \<longleftrightarrow> (\<exists>t. c = cp ''planner_'' @ t) \<or>
     c \<in> set (map cp [''database_timeout'', ''database_failure'', ''wording_timeout'', ''wording_provider_failure'',
       ''wording_verification_failure'', ''wording_repair_failure'', ''wording_retry_failure'', ''orchestration_failure''])"

text \<open>What a run has started when it ends at the latest at \<open>M\<close>, and whether the permit was retained.\<close>

definition run_bounds :: "request_deadline \<Rightarrow> rat \<Rightarrow> run_state \<Rightarrow> bool" where
  "run_bounds d M s \<longleftrightarrow>
     rs_clock s \<le> M \<and> (\<forall>c \<in> set (rs_calls s). snd c < dl_work_cutoff_at d) \<and> (\<exists>k. map fst (rs_calls s) = take k request_calls) \<and>
     (rs_retained s \<longrightarrow> map fst (rs_calls s) = [cp ''planner'', cp ''database''])"

lemma timely_bounds:
  "timely d M [] b s \<Longrightarrow> \<not> b \<Longrightarrow> run_bounds d M s" "timely d M [cp ''planner''] b s \<Longrightarrow> \<not> b \<Longrightarrow> run_bounds d M s"
  "timely d M (wordings k) b s \<Longrightarrow> k \<le> 3 \<Longrightarrow> b \<Longrightarrow> k = 0 \<Longrightarrow> run_bounds d M s" "timely d M (wordings k) b s \<Longrightarrow> k \<le> 3 \<Longrightarrow> \<not> b \<Longrightarrow> run_bounds d M s"
  unfolding run_bounds_def timely_def using request_calls_takes by fastforce+

lemma error_category_known:
  "known_category (error_category (Deadline_exceeded (cp ''planner'')))" "known_category (error_category (Deadline_exceeded (cp ''database'')))"
  "known_category (error_category (Deadline_exceeded (cp ''wording'')))" "known_category (error_category Database_failure)"
  "known_category (error_category (Planner_failure (cp ''planner_'' @ c)))" "known_category (error_category (Planner_failure (cp ''planner_failure'')))"
  "wording_error env f e \<Longrightarrow> known_category (error_category e)" "known_category (error_category (Raised x))"
proof -
  show "known_category (error_category (Deadline_exceeded (cp ''planner'')))"
    unfolding known_category_def by (rule disjI1, rule exI [of _ "cp ''timeout''"]) (simp add: cp_append [symmetric])
  show "known_category (error_category (Planner_failure (cp ''planner_failure'')))"
    unfolding known_category_def by (rule disjI1, rule exI [of _ "cp ''failure''"]) (simp add: cp_append [symmetric])
  show "known_category (error_category (Planner_failure (cp ''planner_'' @ c)))" by (simp add: known_category_def)
  show "known_category (error_category (Deadline_exceeded (cp ''database'')))" "known_category (error_category (Deadline_exceeded (cp ''wording'')))"
    "known_category (error_category Database_failure)" "known_category (error_category (Raised x))"
    by (simp_all add: known_category_def cp_append [symmetric])
  show "wording_error env f e \<Longrightarrow> known_category (error_category e)"
    by (auto simp: wording_error_def known_category_def cp_append [symmetric])
qed

lemma answer_within_deadline_cases:
  assumes "answer_within_deadline env d cid s = (r, s')" and "timely d M [] False s" and "dl_work_cutoff_at d \<le> M" and "env_unwinds u env"
  obtains (returned) planned prepared x where "r = Inr (planned, x)" and "op_outcome (env_plan env) = Inr planned"
      and "op_outcome (env_prepare env planned) = Inr prepared" and "accepted env d cid prepared x" and "run_bounds d M s'" and "\<not> rs_retained s'"
  | (stopped) e where "r = Inl e" and "e = Cancelled \<and> env_cancelled env \<or> e \<noteq> Cancelled \<and> known_category (error_category e)" and "run_bounds d (M + u) s'"
proof -
  note ret = that(1) and stp = that(2)
  obtain q t where p: "plan_stage env d s = (q, t)" by (cases "plan_stage env d s")
  from p assms(2-4) show thesis
  proof (cases rule: plan_stage_cases)
    case (stopped e ms)
    have "r = Inl e" "s' = t" using assms(1) stopped(1) by (simp_all add: answer_within_deadline_def sbind_def p)
    moreover have "e = Cancelled \<and> env_cancelled env \<or> e \<noteq> Cancelled \<and> known_category (error_category e)"
      using stopped(2) error_category_known(1,5,6) by (auto simp: env_cancelled_def)
    moreover have "run_bounds d (M + u) t" using stopped(3,4) timely_bounds(1,2) by blast
    ultimately show thesis using stp by blast
  next
    case planned: (returned x)
    obtain q2 t2 where b: "database_stage env d x t = (q2, t2)" by (cases "database_stage env d x t")
    from b planned(3) assms(3,4) show thesis
    proof (cases rule: database_stage_cases)
      case (stopped e ms)
      have "r = Inl e" "s' = t2" using assms(1) planned(1) stopped(1) by (simp_all add: answer_within_deadline_def sbind_def p b)
      moreover have "e = Cancelled \<and> env_cancelled env \<or> e \<noteq> Cancelled \<and> known_category (error_category e)"
        using stopped(2) error_category_known(2,4) by (auto simp: env_cancelled_def)
      moreover have "run_bounds d (M + u) t2"
      proof (cases "ms = [cp ''planner'']")
        case True
        with stopped(4) have "timely d (M + u) [cp ''planner''] False t2" by simp
        then show ?thesis by (rule timely_bounds(2)) simp
      next
        case False
        with stopped(3,4) have "timely d (M + u) (wordings 0) (e \<noteq> Database_failure) t2" by simp
        then show ?thesis using timely_bounds(3,4) by blast
      qed
      ultimately show thesis using stp by blast
    next
      case prepared: (returned y)
      from prepared(3) have "timely d M (wordings 0) False t2" by simp
      obtain q3 t3 where w: "wording_stage env d cid y t2 = (q3, t3)" by (cases "wording_stage env d cid y t2")
      from w \<open>timely d M (wordings 0) False t2\<close> assms(3,4) show thesis
      proof (cases rule: wording_stage_cases)
        case (returned z k)
        have "r = Inr (x, z)" "s' = t3"
          using assms(1) planned(1) prepared(1) returned(1) by (simp_all add: answer_within_deadline_def sbind_def p b w sreturn_def)
        moreover have "run_bounds d M t3" "\<not> rs_retained t3" using returned(3,4) timely_bounds(4) by (auto simp: timely_def)
        ultimately show thesis using ret planned(2) prepared(2) returned(2) by blast
      next
        case (stopped k e)
        have "r = Inl e" "s' = t3"
          using assms(1) planned(1) prepared(1) stopped(1) by (simp_all add: answer_within_deadline_def sbind_def p b w)
        moreover have "e = Cancelled \<and> env_cancelled env \<or> e \<noteq> Cancelled \<and> known_category (error_category e)"
        proof (cases "e = Cancelled")
          case True
          with stopped(2) show ?thesis by (auto simp: wording_error_def env_cancelled_def)
        next
          case False
          with error_category_known(7) [OF stopped(2)] show ?thesis by simp
        qed
        moreover have "run_bounds d (M + u) t3" using stopped(3,4) timely_bounds(4) by blast
        ultimately show thesis using stp by blast
      qed
    qed
  qed
qed

lemma acquire_permit_cases:
  assumes "acquire_permit d (env_admission env) s = (r, s')" and "timely d M [] False s" and "dl_work_cutoff_at d \<le> M" and "env_unwinds u env"
  obtains (returned) "r = Inr ()" and "timely d M [] False s'"
  | (stopped) e where "r = Inl e" and "e = Cancelled \<and> env_cancelled env \<or> (\<exists>x. e = Raised x)" and "timely d (M + u) [] False s'"
proof -
  have u: "op_unwind (env_admission env) \<le> u" "0 \<le> u" using assms(4) by (simp_all add: env_unwinds_def)
  note a = assms(1) [unfolded acquire_permit_def Let_def]
  show thesis
  proof (cases "dl_work_cutoff_at d \<le> rs_clock s")
    case True
    with a timely_mono [OF assms(2), of "M + u"] u(2) show thesis by (intro stopped [of "Raised Op_timeout"]) auto
  next
    case False
    then have rem: "remaining_work_seconds d (rs_clock s) = dl_work_cutoff_at d - rs_clock s" by (simp add: remaining_work_seconds_def)
    show thesis
    proof (cases "op_duration (env_admission env) > remaining_work_seconds d (rs_clock s)")
      case True
      with a False assms(2,3) u rem show thesis by (intro stopped [of "Raised Op_timeout"]) (auto simp: timely_def)
    next
      case ok: False
      let ?s = "s\<lparr>rs_clock := rs_clock s + op_duration (env_admission env)\<rparr>"
      have t: "timely d M [] False ?s" "timely d (M + u) [] False ?s" using ok rem assms(2,3) u(2) by (auto simp: timely_def)
      show thesis
      proof (cases "op_outcome (env_admission env)")
        case (Inr x)
        with a False ok t show thesis by (intro returned) auto
      next
        case (Inl e)
        with a False ok have "s' = ?s" "r = Inl (if e = Op_cancelled then Cancelled else Raised e)" by (cases e; simp)+
        with t(2) Inl show thesis
          by (intro stopped [of "if e = Op_cancelled then Cancelled else Raised e"]) (auto simp: env_cancelled_def)
      qed
    qed
  qed
qed

lemma answer_with_plan_cases:
  assumes "answer_with_plan env d cid safe_result now = (r, s)" and "env_unwinds u env"
  obtains (published) o' planned prepared where "r = Inr o'" and "ao_planned o' = Some planned" and "ao_error_category o' = None" and "\<not> ao_fallback o'"
      and "op_outcome (env_plan env) = Inr planned" and "op_outcome (env_prepare env planned) = Inr prepared"
      and "accepted env d cid prepared (ao_result o')" and "run_bounds d (max now (dl_work_cutoff_at d)) s" and "\<not> rs_retained s"
  | (safe) o' c where "r = Inr o'" and "ao_planned o' = None" and "ao_error_category o' = Some c" and "ao_fallback o'" and "ao_result o' = safe_result"
      and "known_category c" and "run_bounds d (max now (dl_work_cutoff_at d) + u) s"
  | (cancelled) "r = Inl Cancelled" and "env_cancelled env" and "run_bounds d (max now (dl_work_cutoff_at d) + u) s"
proof -
  let ?M = "max now (dl_work_cutoff_at d)"
  note pub = that(1) and saf = that(2) and can = that(3)
  have t0: "timely d ?M [] False (initial_run now)" by (simp add: timely_def initial_run_def)
  have M: "dl_work_cutoff_at d \<le> ?M" by simp
  let ?m = "sbind (acquire_permit d (env_admission env)) (\<lambda>_. answer_within_deadline env d cid) (initial_run now)"
  obtain q t where m: "?m = (q, t)" by (cases ?m)
  have ends: thesis if "q = Inl e" "e = Cancelled \<and> env_cancelled env \<or> e \<noteq> Cancelled \<and> known_category (error_category e)"
    "run_bounds d (?M + u) t" for e
  proof (cases "e = Cancelled")
    case True
    with assms(1) m that show thesis by (intro can) (auto simp: answer_with_plan_def)
  next
    case False
    with assms(1) m that(1) have "s = t" "r = Inr \<lparr>ao_planned = None, ao_result = safe_result, ao_error_category = Some (error_category e), ao_fallback = True,
        ao_stage_latency_ms = rs_latency t\<rparr>" by (cases e; simp add: answer_with_plan_def)+
    with False that(2,3) show thesis by (intro saf) auto
  qed
  obtain q1 t1 where a: "acquire_permit d (env_admission env) (initial_run now) = (q1, t1)"
    by (cases "acquire_permit d (env_admission env) (initial_run now)")
  from a t0 M assms(2) show thesis
  proof (cases rule: acquire_permit_cases)
    case (stopped e)
    have "q = Inl e" "t = t1" using m stopped(1) by (simp_all add: sbind_def a)
    moreover have "e = Cancelled \<and> env_cancelled env \<or> e \<noteq> Cancelled \<and> known_category (error_category e)"
      using stopped(2) error_category_known(8) by auto
    ultimately show thesis using ends timely_bounds(1) [OF stopped(3)] by blast
  next
    case returned
    then have "answer_within_deadline env d cid t1 = (q, t)" using m by (simp add: sbind_def a)
    from this returned(2) M assms(2) show thesis
    proof (cases rule: answer_within_deadline_cases)
      case (returned planned prepared x)
      have "s = t" "r = Inr \<lparr>ao_planned = Some planned, ao_result = x, ao_error_category = None, ao_fallback = False,
          ao_stage_latency_ms = tr_latency_ms (ar_trace x)\<rparr>"
        using assms(1) m returned(1) by (simp_all add: answer_with_plan_def)
      with returned show thesis by (intro pub) auto
    next
      case (stopped e)
      then show thesis by (rule ends)
    qed
  qed
qed

lemma accepted_answer:
  assumes "accepted env d cid prepared r"
  shows "(\<exists>w. at_text (ar_answer r) = presentation w @ [10] @ surface_text prepared) \<and>
    at_claims (ar_answer r) = pa_claims prepared \<and> ar_retrieved_context r = pa_retrieved_context prepared"
proof -
  from assms obtain w s where v: "verify_wording w prepared d (rs_clock s) = Inr (ar_answer r)" and r: "r = result_of cid prepared (ar_answer r) s"
    unfolding accepted_def by blast
  from v have "ar_answer r = \<lparr>at_text = presentation w @ [10] @ surface_text prepared, at_claims = pa_claims prepared\<rparr>"
    by (auto simp: verify_wording_def make_answer_text_def rbind_eq_Inr_iff split: if_splits)
  moreover have "ar_retrieved_context r = pa_retrieved_context prepared" by (subst r) (simp add: result_of_def)
  ultimately show ?thesis by auto
qed

text \<open>
  C35. A request ends safely. Whatever the planner, the database and the wording provider do and however
  long they take, as long as a call that is cut off gives in within a bounded time, a request that is not cancelled from outside returns one of two things: the
  prebuilt safe result, with no plan and a known error category; or an answer that a provider
  wording was accepted for, whose text is one of the two fixed phrases followed by the prepared text,
  and whose claims and context are exactly those the database stage prepared for the returned plan.
\<close>

theorem request_ends_safely:
  assumes "env_unwinds u env" and "\<not> env_cancelled env"
  shows "\<exists>o' s. answer_with_plan env d cid safe_result now = (Inr o', s) \<and>
    (if ao_fallback o' then ao_result o' = safe_result \<and> ao_planned o' = None \<and> (\<exists>c. ao_error_category o' = Some c \<and> known_category c)
     else ao_error_category o' = None \<and> (\<exists>planned prepared w.
       ao_planned o' = Some planned \<and> op_outcome (env_plan env) = Inr planned \<and> op_outcome (env_prepare env planned) = Inr prepared \<and>
       at_text (ar_answer (ao_result o')) = presentation w @ [10] @ surface_text prepared \<and>
       at_claims (ar_answer (ao_result o')) = pa_claims prepared \<and> ar_retrieved_context (ao_result o') = pa_retrieved_context prepared))"
proof -
  obtain r s where a: "answer_with_plan env d cid safe_result now = (r, s)" by (cases "answer_with_plan env d cid safe_result now")
  from a assms(1) show ?thesis
  proof (cases rule: answer_with_plan_cases)
    case (published o' planned prepared)
    from accepted_answer [OF published(7)] published(1-6) show ?thesis by (auto simp: a)
  next
    case (safe o' c)
    then show ?thesis by (simp add: a)
  next
    case cancelled
    with assms(2) show ?thesis by simp
  qed
qed

text \<open>
  C36. A request is bounded. It calls the planner, then the database worker, then at most three times
  for the wording (a call, the wait before a retry and one repair or retry), in this order and every
  call strictly before its work deadline; it is over when that deadline is, or when a call that was
  cut off then has given in; and it retains its permit only if it stopped in the database stage.
\<close>

theorem request_bounded:
  assumes "env_unwinds u env"
  shows "run_bounds d (max now (dl_work_cutoff_at d) + u) (snd (answer_with_plan env d cid safe_result now))"
proof -
  obtain r s where a: "answer_with_plan env d cid safe_result now = (r, s)" by (cases "answer_with_plan env d cid safe_result now")
  have "0 \<le> u" using assms by (simp add: env_unwinds_def)
  then have "run_bounds d M s \<Longrightarrow> run_bounds d (M + u) s" for M by (auto simp: run_bounds_def)
  from a assms this show ?thesis by (cases rule: answer_with_plan_cases) (simp_all add: a)
qed

text \<open>
  A request whose first wording is malformed and repaired, and one that is cut off in the database
  stage.
\<close>

definition example_operation :: "rat \<Rightarrow> op_error + 'a \<Rightarrow> 'a operation" where
  "example_operation t r = \<lparr>op_duration = t, op_outcome = r, op_unwind = 1\<rparr>"

definition example_answer :: prepared_answer where
  "example_answer = \<lparr>pa_fact_pack = example_pack (replicate 64 48), pa_claims = at_claims example_draft, pa_trace = example_trace_record,
     pa_retrieved_context = cp ''{}''\<rparr>"

definition example_environment :: "rat \<Rightarrow> unit environment" where
  "example_environment database_time =
     \<lparr>env_admission = example_operation 0 (Inr ()), env_plan = example_operation 20 (Inr ()),
      env_prepare = (\<lambda>_. example_operation database_time (Inr example_answer)),
      env_verbalize = (\<lambda>_. example_operation 10 (Inl (Op_provider_wording (cp ''x'')))),
      env_repair = (\<lambda>_ _. example_operation 10 (Inr Wording_confirmed)),
      env_sleep = (\<lambda>t. example_operation t (Inr ())), env_retry = (\<lambda>_. example_operation 10 (Inl Op_other))\<rparr>"

lemma example_environment_ok: "env_unwinds 1 (example_environment t)" "\<not> env_cancelled (example_environment t)"
  by (simp_all add: env_unwinds_def env_cancelled_def example_environment_def example_operation_def)

definition example_safe :: answer_result where
  "example_safe = \<lparr>ar_answer = \<lparr>at_text = cp ''safe'', at_claims = []\<rparr>, ar_retrieved_context = cp ''{}'', ar_trace = example_trace_record\<rparr>"

lemma example_requests:
  "case fst (answer_with_plan (example_environment 30) (deadline_start 0) (cp ''c'') example_safe 0) of
     Inr o' \<Rightarrow> \<not> ao_fallback o' \<and> map fst (rs_calls (snd (answer_with_plan (example_environment 30) (deadline_start 0) (cp ''c'') example_safe 0)))
        = take 4 request_calls
   | Inl _ \<Rightarrow> False"
  "case answer_with_plan (example_environment 400) (deadline_start 0) (cp ''c'') example_safe 0 of
     (Inr o', s) \<Rightarrow> ao_error_category o' = Some (cp ''database_timeout'') \<and> rs_retained s \<and> rs_clock s = 294
   | _ \<Rightarrow> False"
  by code_simp+

theorem request_ends_safely_witness:
  "\<exists>o' s w. answer_with_plan (example_environment 30) (deadline_start 0) (cp ''c'') example_safe 0 = (Inr o', s) \<and> \<not> ao_fallback o' \<and>
     at_text (ar_answer (ao_result o')) = presentation w @ [10] @ surface_text example_answer"
proof -
  from request_ends_safely [OF example_environment_ok, of 30 "deadline_start 0" "cp ''c''" example_safe 0] example_requests(1)
  show ?thesis by (auto simp: example_environment_def example_operation_def)
qed

theorem request_bounded_witness:
  "run_bounds (deadline_start 0) 294 (snd (answer_with_plan (example_environment 400) (deadline_start 0) (cp ''c'') example_safe 0))
     \<and> rs_retained (snd (answer_with_plan (example_environment 400) (deadline_start 0) (cp ''c'') example_safe 0))"
proof -
  let ?a = "answer_with_plan (example_environment 400) (deadline_start 0) (cp ''c'') example_safe 0"
  have m: "max 0 (dl_work_cutoff_at (deadline_start 0)) + 1 = 294"
    by (simp add: deadline_start_def REQUEST_DEADLINE_SECONDS_def SERIALIZATION_RESERVE_SECONDS_def)
  from example_requests(2) have "rs_retained (snd ?a)" by (cases ?a; cases "fst ?a") simp_all
  with request_bounded [OF example_environment_ok(1), of "deadline_start 0" 0 400 "cp ''c''" example_safe] show ?thesis
    unfolding m by simp
qed

end
