(* ===== verification/Json_Size.thy ===== *)
theory Json_Size
  imports Canonical_Json
begin

text \<open>
  The size of canonical JSON: which values always have a canonical form that can be encoded, and how
  many bytes it takes at most.
\<close>

section \<open>Sizes\<close>

definition utf8_size :: "pystr \<Rightarrow> nat" where
  "utf8_size s = length (concat (map utf8_char s))"

lemma utf8_size_append [simp]: "utf8_size (s @ t) = utf8_size s + utf8_size t"
  by (simp add: utf8_size_def)

lemma utf8_size_Nil [simp]: "utf8_size [] = 0"
  by (simp add: utf8_size_def)

lemma utf8_size_Cons: "utf8_size (c # s) = length (utf8_char c) + utf8_size s"
  by (simp add: utf8_size_def)

lemma utf8_size_ascii: "list_all (\<lambda>c. c < 128) s \<Longrightarrow> utf8_size s = length s"
  by (induction s) (simp_all add: utf8_size_Cons utf8_char_def)

lemma utf8_size_json_string: "utf8_size (json_string s) \<le> 6 * length s + 2"
proof -
  have one: "utf8_size (json_escape c) \<le> 6" for c
  proof (cases "c < 128")
    case True
    then have "list_all (\<lambda>d. d < 128) (json_escape c)" "length (json_escape c) \<le> 6" by (auto simp: json_escape_def hex_digit_def)
    then show ?thesis by (simp add: utf8_size_ascii)
  next
    case False
    then have "json_escape c = [c]" "length (utf8_char c) \<le> 4" by (simp_all add: json_escape_def utf8_char_def)
    then show ?thesis by (simp add: utf8_size_def)
  qed
  have "utf8_size (concat (map json_escape s)) \<le> 6 * length s"
  proof (induction s)
    case (Cons c s)
    with one [of c] show ?case by simp
  qed simp
  moreover have "utf8_size (34 # t) = 1 + utf8_size t" for t by (simp add: utf8_size_Cons utf8_char_def)
  ultimately show ?thesis by (simp add: json_string_def)
qed

lemma utf8_size_join: "utf8_size (py_join [44] ts) \<le> sum_list (map (\<lambda>t. utf8_size t + 1) ts)"
  by (induction "[44 :: nat]" ts rule: py_join.induct) (auto simp: utf8_size_Cons utf8_char_def)

text \<open>
  Values without decimals and times whose texts can be encoded, and a bound on the bytes of their
  canonical form.
\<close>

fun plain_value :: "py_value \<Rightarrow> bool" where
  "plain_value (PStr s) = encodable s"
| "plain_value (PDate d) = encodable (isoformat d)"
| "plain_value (PEnum s) = encodable s"
| "plain_value (PPath p) = encodable (as_posix p)"
| "plain_value (PSeq vs) = list_all plain_value vs"
| "plain_value (PMap kvs) = list_all (\<lambda>kv. encodable (fst kv) \<and> plain_value (snd kv)) kvs"
| "plain_value (PDec _) = False"
| "plain_value (PTime _ _ _) = False"
| "plain_value POther = False"
| "plain_value _ = True"

fun byte_bound :: "py_value \<Rightarrow> nat" where
  "byte_bound PNone = 4"
| "byte_bound (PBool _) = 5"
| "byte_bound (PInt n) = length (int_str n)"
| "byte_bound (PStr s) = 6 * length s + 2"
| "byte_bound (PDate d) = 6 * length (isoformat d) + 2"
| "byte_bound (PEnum s) = 6 * length s + 2"
| "byte_bound (PPath p) = 6 * length (as_posix p) + 2"
| "byte_bound (PSeq vs) = 2 + sum_list (map (\<lambda>v. byte_bound v + 1) vs)"
| "byte_bound (PMap kvs) = 2 + sum_list (map (\<lambda>kv. 6 * length (fst kv) + 2 + byte_bound (snd kv) + 2) kvs)"
| "byte_bound _ = 0"

lemma int_str_ascii: "list_all (\<lambda>c. c < 128) (int_str n)"
  using nat_digits_digits [of "nat n"] nat_digits_digits [of "nat (- n)"] by (fastforce simp: int_str_def list_all_iff is_digit_def)

lemma ascii_encodable: "list_all (\<lambda>c. c < 128) s \<Longrightarrow> encodable s"
  by (auto simp: encodable_def list_all_iff)

definition fits :: "py_value \<Rightarrow> json \<Rightarrow> bool" where
  "fits v j \<longleftrightarrow> canonical_scalar v = Inr j \<and> encodable (json_dumps j) \<and> utf8_size (json_dumps j) \<le> byte_bound v"

lemma fits_text:
  assumes "canonical_scalar v = Inr (JStr s)" and "encodable s" and "byte_bound v = 6 * length s + 2"
  shows "fits v (JStr s)"
  using assms utf8_size_json_string [of s] by (simp add: fits_def encodable_json_string)

lemma fits_seq:
  assumes "list_all2 fits vs js"
  shows "fits (PSeq vs) (JArr js)"
proof -
  from assms have t: "traverse canonical_scalar vs = Inr js" unfolding traverse_eq_Inr_iff by (rule list_all2_mono) (simp add: fits_def)
  from assms have e: "list_all encodable (map json_dumps js)" by induction (simp_all add: fits_def)
  from assms have "sum_list (map (\<lambda>t. utf8_size t + 1) (map json_dumps js)) \<le> sum_list (map (\<lambda>v. byte_bound v + 1) vs)"
    by induction (auto simp: fits_def)
  with t encodable_join [OF _ e, of "[44]"] utf8_size_join [of "map json_dumps js"] show ?thesis
    by (simp add: fits_def utf8_size_Cons utf8_char_def)
qed

lemma sum_list_py_sorted: "sum_list (map f (py_sorted g xs)) = (sum_list (map f xs) :: nat)"
  by (metis mset_map mset_py_sorted sum_mset_sum_list)

lemma fits_map:
  assumes "list_all2 (\<lambda>kv kj. fst kj = fst kv \<and> encodable (fst kv) \<and> fits (snd kv) (snd kj)) (py_sorted fst kvs) js"
  shows "fits (PMap kvs) (JObj js)"
proof -
  let ?f = "\<lambda>kv. rbind (canonical_scalar (snd kv)) (\<lambda>j. Inr (fst kv, j))"
  let ?p = "\<lambda>(k, t). json_string k @ [58] @ t"
  let ?ts = "map (\<lambda>(k, j). (k, json_dumps j)) js"
  have t: "traverse ?f (py_sorted fst kvs) = Inr js"
    unfolding traverse_eq_Inr_iff using assms by (rule list_all2_mono) (auto simp: fits_def prod_eq_iff)
  from assms have e: "\<forall>kj \<in> set js. encodable (fst kj) \<and> encodable (json_dumps (snd kj))" by induction (auto simp: fits_def)
  then have e: "list_all encodable (map ?p (py_sorted fst ?ts))" by (fastforce simp: list_all_iff encodable_json_string)
  have "sum_list (map (\<lambda>t. utf8_size t + 1) (map ?p (py_sorted fst ?ts))) = sum_list (map (\<lambda>kt. utf8_size (?p kt) + 1) ?ts)"
    by (simp only: map_map comp_def sum_list_py_sorted)
  also have "\<dots> \<le> sum_list (map (\<lambda>kv. 6 * length (fst kv) + 2 + byte_bound (snd kv) + 2) (py_sorted fst kvs))"
    using assms
  proof induction
    case (Cons kv kvs kj js)
    obtain k j where kj: "kj = (k, j)" by (cases kj)
    with Cons.hyps have k: "k = fst kv" "utf8_size (json_dumps j) \<le> byte_bound (snd kv)" by (simp_all add: fits_def)
    have "utf8_size (58 # s) = 1 + utf8_size s" for s by (simp add: utf8_size_Cons utf8_char_def)
    with k utf8_size_json_string [of k] have "utf8_size (?p (k, json_dumps j)) + 1 \<le> 6 * length (fst kv) + 2 + byte_bound (snd kv) + 2"
      by simp
    with Cons.IH show ?case by (simp add: kj)
  qed simp
  also have "\<dots> = sum_list (map (\<lambda>kv. 6 * length (fst kv) + 2 + byte_bound (snd kv) + 2) kvs)" by (rule sum_list_py_sorted)
  finally have "utf8_size (json_dumps (JObj js)) \<le> byte_bound (PMap kvs)"
    using utf8_size_join [of "map ?p (py_sorted fst ?ts)"] by (simp add: utf8_size_Cons utf8_char_def del: map_map)
  moreover have "encodable (json_dumps (JObj js))" using encodable_join [OF _ e, of "[44]"] by (simp del: map_map)
  ultimately show ?thesis using t by (simp add: fits_def del: json_dumps.simps)
qed

lemma plain_value_fits: "plain_value v \<Longrightarrow> \<exists>j. fits v j"
proof (induction v rule: canonical_scalar.induct)
  case (10 vs)
  then have "\<And>v. v \<in> set vs \<Longrightarrow> \<exists>j. fits v j" by (simp add: list_all_iff)
  then have "list_all2 fits vs (map (\<lambda>v. SOME j. fits v j) vs)"
    by (auto simp: list_all2_conv_all_nth intro: someI_ex)
  then show ?case by (blast intro: fits_seq)
next
  case (11 kvs)
  let ?j = "\<lambda>kv. (fst kv, SOME j. fits (snd kv) j)"
  have "\<exists>j. fits (snd kv) j" if "kv \<in> set (py_sorted fst kvs)" for kv using 11 that by (auto simp: list_all_iff)
  then have "fits (snd kv) (snd (?j kv))" if "kv \<in> set (py_sorted fst kvs)" for kv using that by (simp add: someI_ex)
  moreover have "encodable (fst kv)" if "kv \<in> set (py_sorted fst kvs)" for kv using "11.prems" that by (simp add: list_all_iff)
  ultimately have "list_all2 (\<lambda>kv kj. fst kj = fst kv \<and> encodable (fst kv) \<and> fits (snd kv) (snd kj)) (py_sorted fst kvs) (map ?j (py_sorted fst kvs))"
    unfolding list_all2_conv_all_nth by (metis (no_types, lifting) fst_conv length_map nth_map nth_mem)
  then show ?case by (blast intro: fits_map)
next
  case (3 n)
  have "fits (PInt n) (JInt n)" using int_str_ascii [of n] by (simp add: fits_def utf8_size_ascii ascii_encodable)
  then show ?case by blast
next
  case 1
  have "fits PNone JNull" by code_simp
  then show ?case by blast
next
  case (2 b)
  have "fits (PBool True) (JBool True)" "fits (PBool False) (JBool False)" by code_simp+
  then show ?case by (cases b) auto
next
  case (4 s)
  then have "fits (PStr s) (JStr s)" by (intro fits_text) simp_all
  then show ?case ..
next
  case (7 d)
  then have "fits (PDate d) (JStr (isoformat d))" by (intro fits_text) simp_all
  then show ?case ..
next
  case (8 s)
  then have "fits (PEnum s) (JStr s)" by (intro fits_text) simp_all
  then show ?case ..
next
  case (9 p)
  then have "fits (PPath p) (JStr (as_posix p))" by (intro fits_text) simp_all
  then show ?case ..
qed simp_all

end
