(* ===== verification/Artifact_Contract.thy ===== *)
theory Artifact_Contract
  imports Canonical_Json
begin

text \<open>
  The frozen identity of a built artifact set: \<open>finproof/data/artifacts/expected_contract.py\<close> and the
  manifest and report digests of \<open>hashing.py\<close>. A build is reproducible when the contract it produced
  passes \<open>compare_expected_artifact_contract\<close>; the comparison walks two dumped models and collects
  JSON pointers to their differences.
\<close>

section \<open>The identities\<close>

record logical_input =
  li_namespace :: pystr
  li_path :: pystr
  li_kind :: pystr
  li_size_bytes :: int
  li_sha256 :: pystr

record logical_table =
  lt_name :: pystr
  lt_grain :: pystr
  lt_schema_hash :: pystr
  lt_row_count :: int
  lt_sort_key :: "pystr list"
  lt_unique_key :: "pystr list"
  lt_logical_hash :: pystr

record semantic_report =
  sr_report_id :: pystr
  sr_semantic_hash :: pystr

record artifact_contract =
  ac_artifact_contract_version :: pystr
  ac_artifact_set_id :: pystr
  ac_dataset_version :: date
  ac_logical_inputs :: "logical_input list"
  ac_tables :: "logical_table list"
  ac_reports :: "semantic_report list"
  ac_overall_manifest_logical_hash :: pystr
  ac_exact_link_pair_sha256 :: pystr
  ac_exact_link_evidence_count :: int

text \<open>The field constraints of the strict models.\<close>

definition logical_input_ok :: "logical_input \<Rightarrow> bool" where
  "logical_input_ok i \<longleftrightarrow>
     (li_namespace i = cp ''source_root'' \<or> li_namespace i = cp ''repository'') \<and> 0 \<le> li_size_bytes i \<and> is_sha256_hex (li_sha256 i)"

definition logical_table_ok :: "logical_table \<Rightarrow> bool" where
  "logical_table_ok t \<longleftrightarrow> is_sha256_hex (lt_schema_hash t) \<and> 0 \<le> lt_row_count t \<and> is_sha256_hex (lt_logical_hash t)"

definition semantic_report_ok :: "semantic_report \<Rightarrow> bool" where
  "semantic_report_ok r \<longleftrightarrow>
     (sr_report_id r = cp ''source_audit'' \<or> sr_report_id r = cp ''quality_summary'') \<and> is_sha256_hex (sr_semantic_hash r)"

definition contract_fields_ok :: "artifact_contract \<Rightarrow> bool" where
  "contract_fields_ok c \<longleftrightarrow>
     ac_artifact_contract_version c = cp ''1.0.0'' \<and> ac_artifact_set_id c = cp ''finproof-data-artifacts/v1'' \<and>
     list_all logical_input_ok (ac_logical_inputs c) \<and> list_all logical_table_ok (ac_tables c) \<and>
     list_all semantic_report_ok (ac_reports c) \<and> is_sha256_hex (ac_overall_manifest_logical_hash c) \<and>
     is_sha256_hex (ac_exact_link_pair_sha256 c) \<and> 0 \<le> ac_exact_link_evidence_count c \<and> ac_exact_link_evidence_count c \<le> 434"

definition EXPECTED_LOGICAL_INPUTS :: "(pystr \<times> pystr \<times> pystr) list" where
  "EXPECTED_LOGICAL_INPUTS = map (\<lambda>(n, p, k). (cp n, cp p, cp k))
     [(''source_root'', ''input_manifest.json'', ''source_manifest''),
      (''source_root'', ''schema_catalog.json'', ''source_schema_catalog''),
      (''repository'', ''config/artifact_build.yaml'', ''artifact_build_config''),
      (''repository'', ''config/datasets.yaml'', ''dataset_registry''),
      (''repository'', ''config/quality_rules.yaml'', ''quality_rule_registry''),
      (''repository'', ''config/rating_scale.yaml'', ''rating_scale_registry''),
      (''repository'', ''config/state_rules.yaml'', ''state_rule_registry''),
      (''repository'', ''schemas/artifact_manifest.schema.json'', ''artifact_manifest_schema''),
      (''repository'', ''schemas/quality_issue.schema.json'', ''quality_issue_schema'')]"

definition EXPECTED_TABLE_NAMES :: "pystr list" where
  "EXPECTED_TABLE_NAMES = map cp
     [''bronze_source_column'', ''bronze_source_row'', ''bronze_source_cell'', ''silver_bond_sale_lot'',
      ''silver_bond_instrument'', ''silver_domestic_listed_product'', ''silver_overseas_listed_product'', ''silver_fund_item'',
      ''silver_quality_issue'', ''silver_product_holding'', ''silver_product_holding_coverage'',
      ''gold_exact_cross_source_link'', ''gold_exact_cross_source_link_evidence'']"

definition EXPECTED_TABLE_GRAINS :: "pystr list" where
  "EXPECTED_TABLE_GRAINS = map cp
     [''source_column'', ''source_row'', ''source_cell'', ''bond_sale_lot'', ''instrument'', ''listed_product'',
      ''listed_product'', ''fund_item'', ''quality_issue'', ''product_holding'', ''product_holding_coverage'',
      ''exact_cross_source_link'', ''exact_cross_source_link_evidence'']"

definition EXPECTED_TABLE_COUNTS :: "int option list" where
  "EXPECTED_TABLE_COUNTS =
     [Some 280, Some 53375, Some 3515109, Some 21882, Some 20497, Some 1779, Some 6037, Some 23676, None, Some 0,
      Some 31492, None, None]"

text \<open>
  The two validators differ in the counts only; the counts are looked at after the closed names, so
  there are as many tables as counts and the strict \<open>zip\<close> cannot raise.
\<close>

definition count_matches :: "logical_table \<times> int option \<Rightarrow> bool" where
  "count_matches p = (case snd p of None \<Rightarrow> True | Some n \<Rightarrow> lt_row_count (fst p) = n)"

definition require_inventory :: "bool \<Rightarrow> artifact_contract \<Rightarrow> unit result" where
  "require_inventory counted c =
     rbind (raise_if (ac_dataset_version c \<noteq> Date 2026 8 24) (ValueError ''dataset_version must be 2026-08-24'')) (\<lambda>_.
     rbind (raise_if (map (\<lambda>i. (li_namespace i, li_path i, li_kind i)) (ac_logical_inputs c) \<noteq> EXPECTED_LOGICAL_INPUTS)
              (ValueError ''logical_inputs must use the exact closed order'')) (\<lambda>_.
     rbind (raise_if (map lt_name (ac_tables c) \<noteq> EXPECTED_TABLE_NAMES) (ValueError ''tables must use the exact closed order'')) (\<lambda>_.
     rbind (raise_if (map lt_grain (ac_tables c) \<noteq> EXPECTED_TABLE_GRAINS) (ValueError ''tables must use the exact closed grains'')) (\<lambda>_.
     rbind (raise_if (counted \<and> \<not> list_all count_matches (zip (ac_tables c) EXPECTED_TABLE_COUNTS))
              (ValueError ''known table count differs from the official baseline'')) (\<lambda>_.
       raise_if (map sr_report_id (ac_reports c) \<noteq> [cp ''source_audit'', cp ''quality_summary''])
         (ValueError ''reports must use the exact closed order''))))))"

definition require_official_dataset_date :: "artifact_contract \<Rightarrow> unit result" where
  "require_official_dataset_date c = require_inventory True c"

definition require_closed_shape :: "artifact_contract \<Rightarrow> unit result" where
  "require_closed_shape c = require_inventory False c"

definition validate_expected_contract :: "artifact_contract \<Rightarrow> artifact_contract result" where
  "validate_expected_contract c =
     rbind (raise_if (\<not> contract_fields_ok c) (ValueError ''validation error'')) (\<lambda>_.
     rbind (require_official_dataset_date c) (\<lambda>_. Inr c))"

definition validate_contract_payload :: "artifact_contract \<Rightarrow> artifact_contract result" where
  "validate_contract_payload c =
     rbind (raise_if (\<not> contract_fields_ok c) (ValueError ''validation error'')) (\<lambda>_.
     rbind (require_closed_shape c) (\<lambda>_. Inr c))"

section \<open>Dumps\<close>

definition names_value :: "pystr list \<Rightarrow> py_value" where
  "names_value ns = PSeq (map PStr ns)"

definition dump_input :: "logical_input \<Rightarrow> py_value" where
  "dump_input i = PMap [(cp ''namespace'', PStr (li_namespace i)), (cp ''path'', PStr (li_path i)), (cp ''kind'', PStr (li_kind i)),
     (cp ''size_bytes'', PInt (li_size_bytes i)), (cp ''sha256'', PStr (li_sha256 i))]"

definition dump_table :: "logical_table \<Rightarrow> py_value" where
  "dump_table t = PMap [(cp ''name'', PStr (lt_name t)), (cp ''grain'', PStr (lt_grain t)), (cp ''schema_hash'', PStr (lt_schema_hash t)),
     (cp ''row_count'', PInt (lt_row_count t)), (cp ''sort_key'', names_value (lt_sort_key t)),
     (cp ''unique_key'', names_value (lt_unique_key t)), (cp ''logical_hash'', PStr (lt_logical_hash t))]"

definition dump_report :: "semantic_report \<Rightarrow> py_value" where
  "dump_report r = PMap [(cp ''report_id'', PStr (sr_report_id r)), (cp ''semantic_hash'', PStr (sr_semantic_hash r))]"

definition dump_contract :: "artifact_contract \<Rightarrow> py_value" where
  "dump_contract c = PMap [(cp ''artifact_contract_version'', PStr (ac_artifact_contract_version c)),
     (cp ''artifact_set_id'', PStr (ac_artifact_set_id c)), (cp ''dataset_version'', PDate (ac_dataset_version c)),
     (cp ''logical_inputs'', PSeq (map dump_input (ac_logical_inputs c))), (cp ''tables'', PSeq (map dump_table (ac_tables c))),
     (cp ''reports'', PSeq (map dump_report (ac_reports c))),
     (cp ''overall_manifest_logical_hash'', PStr (ac_overall_manifest_logical_hash c)),
     (cp ''exact_link_pair_sha256'', PStr (ac_exact_link_pair_sha256 c)),
     (cp ''exact_link_evidence_count'', PInt (ac_exact_link_evidence_count c))]"

section \<open>Differences\<close>

definition replace_char :: "nat \<Rightarrow> pystr \<Rightarrow> pystr \<Rightarrow> pystr" where
  "replace_char c r s = concat (map (\<lambda>d. if d = c then r else [d]) s)"

definition escape_pointer_token :: "pystr \<Rightarrow> pystr" where
  "escape_pointer_token s = replace_char 47 [126, 49] (replace_char 126 [126, 48] s)"

text \<open>
  The set of differences, sorted. Leaves are strings, integers and dates, whose Python equality is
  equality of values.
\<close>

definition sorted_set :: "pystr list \<Rightarrow> pystr list" where
  "sorted_set ps = py_sorted (\<lambda>p. p) (remdups ps)"

function (sequential) difference_paths :: "py_value \<Rightarrow> py_value \<Rightarrow> pystr \<Rightarrow> pystr list" where
  "difference_paths (PMap a) (PMap b) pointer =
     sorted_set (concat (map (\<lambda>key.
       let child = pointer @ [47] @ escape_pointer_token key in
       (case map_of a key of
          None \<Rightarrow> [child]
        | Some x \<Rightarrow> (case map_of b key of None \<Rightarrow> [child] | Some y \<Rightarrow> difference_paths x y child))) (map fst a @ map fst b)))"
| "difference_paths (PSeq xs) (PSeq ys) pointer =
     sorted_set (concat (map (\<lambda>i.
       let child = pointer @ [47] @ nat_digits i in
       if i < length xs \<and> i < length ys then difference_paths (xs ! i) (ys ! i) child else [child])
         [0..<max (length xs) (length ys)]))"
| "difference_paths a b pointer = (if a = b then [] else [pointer])"
  by pat_completeness auto

termination
proof (relation "measure (\<lambda>(a, _, _). size a)")
  fix a b :: "(pystr \<times> py_value) list" and key pointer child and x y :: py_value
  assume "map_of a key = Some x"
  then have "(key, x) \<in> set a" by (rule map_of_SomeD)
  then have "size x < size_list (size_prod (\<lambda>x. 0) size) a" by (rule size_list_estimation) simp
  then show "((x, y, child), PMap a, PMap b, pointer) \<in> measure (\<lambda>(a, _, _). size a)" by simp
next
  fix xs ys :: "py_value list" and i pointer child
  assume "i < length xs \<and> i < length ys"
  then have "xs ! i \<in> set xs" by simp
  then have "size (xs ! i) \<le> size_list size xs" by (rule size_list_estimation') simp
  then show "((xs ! i, ys ! i, child), PSeq xs, PSeq ys, pointer) \<in> measure (\<lambda>(a, _, _). size a)" by simp
qed simp

datatype reproducibility_error = Invalid_expected_contract | Invalid_actual_contract | Contract_mismatch "pystr list"

definition compare_expected_artifact_contract :: "artifact_contract \<Rightarrow> artifact_contract \<Rightarrow> reproducibility_error + unit" where
  "compare_expected_artifact_contract actual expected =
     (case validate_expected_contract expected of
        Inl _ \<Rightarrow> Inl Invalid_expected_contract
      | Inr e \<Rightarrow>
         (case validate_contract_payload actual of
            Inl _ \<Rightarrow> Inl Invalid_actual_contract
          | Inr reconstructed \<Rightarrow>
              let differences = difference_paths (dump_contract reconstructed) (dump_contract e) [] in
              if differences \<noteq> [] then Inl (Contract_mismatch differences) else Inr ()))"

lemma sorted_set_Nil: "sorted_set ps = [] \<longleftrightarrow> ps = []"
  by (metis length_0_conv length_py_sorted remdups_eq_nil_iff sorted_set_def)

lemma set_sorted_set [simp]: "set (sorted_set ps) = set ps"
  by (simp add: sorted_set_def)

lemma no_difference_map:
  "difference_paths (PMap a) (PMap b) p = [] \<longleftrightarrow>
     (\<forall>k \<in> set (map fst a @ map fst b). case map_of a k of
        None \<Rightarrow> False
      | Some x \<Rightarrow> (case map_of b k of None \<Rightarrow> False | Some y \<Rightarrow> difference_paths x y (p @ 47 # escape_pointer_token k) = []))"
  unfolding difference_paths.simps sorted_set_Nil concat_eq_Nil_conv set_map [of _ "map fst a @ map fst b"] ball_simps
  by (intro ball_cong refl) (simp add: Let_def split: option.split)

lemma no_difference_seq:
  "difference_paths (PSeq xs) (PSeq ys) p = [] \<longleftrightarrow>
     length xs = length ys \<and> (\<forall>i < length xs. difference_paths (xs ! i) (ys ! i) (p @ 47 # nat_digits i) = [])"
proof -
  have "difference_paths (PSeq xs) (PSeq ys) p = [] \<longleftrightarrow> (\<forall>i < max (length xs) (length ys). i < length xs \<and> i < length ys
      \<and> difference_paths (xs ! i) (ys ! i) (p @ 47 # nat_digits i) = [])"
    unfolding difference_paths.simps sorted_set_Nil concat_eq_Nil_conv set_map [of _ "[0..<max (length xs) (length ys)]"] ball_simps
    by (simp add: Let_def, simp only: Ball_def atLeastLessThan_iff le0 simp_thms) blast
  moreover have "(\<forall>i < max m n. i < m \<and> i < n \<and> P i) \<longleftrightarrow> m = n \<and> (\<forall>i < m. P i)" for m n :: nat and P
    by (metis less_irrefl max.cobounded1 max.cobounded2 max.idem not_less_iff_gr_or_eq less_max_iff_disj)
  ultimately show ?thesis by (simp only:)
qed

text \<open>Dumps without differences are dumps of equal values.\<close>

lemma no_difference_items:
  assumes "\<And>x y p. difference_paths (f x) (f y) p = [] \<longleftrightarrow> x = y"
  shows "difference_paths (PSeq (map f xs)) (PSeq (map f ys)) p = [] \<longleftrightarrow> xs = ys"
  by (auto simp: no_difference_seq assms intro: nth_equalityI simp del: difference_paths.simps)

lemma no_difference_names: "difference_paths (names_value xs) (names_value ys) p = [] \<longleftrightarrow> xs = ys"
  unfolding names_value_def by (rule no_difference_items) simp

lemma no_difference_input: "difference_paths (dump_input x) (dump_input y) p = [] \<longleftrightarrow> x = y"
  by (simp add: dump_input_def no_difference_map del: difference_paths.simps(1)) (auto intro: logical_input.equality)

lemma no_difference_table: "difference_paths (dump_table x) (dump_table y) p = [] \<longleftrightarrow> x = y"
  by (simp add: dump_table_def no_difference_map no_difference_names del: difference_paths.simps(1)) (auto intro: logical_table.equality)

lemma no_difference_report: "difference_paths (dump_report x) (dump_report y) p = [] \<longleftrightarrow> x = y"
  by (simp add: dump_report_def no_difference_map del: difference_paths.simps(1)) (auto intro: semantic_report.equality)

lemma no_difference_contract: "difference_paths (dump_contract x) (dump_contract y) p = [] \<longleftrightarrow> x = y"
  by (simp add: dump_contract_def no_difference_map no_difference_items no_difference_input no_difference_table no_difference_report
        del: difference_paths.simps(1,2)) (auto intro: artifact_contract.equality)

lemma expected_is_payload: "validate_expected_contract c = Inr d \<Longrightarrow> validate_contract_payload c = Inr c \<and> d = c"
  by (auto simp: validate_expected_contract_def validate_contract_payload_def require_official_dataset_date_def
      require_closed_shape_def require_inventory_def rbind_eq_Inr_iff raise_if_eq_Inr_iff)

lemma payload_identity: "validate_contract_payload c = Inr d \<Longrightarrow> d = c"
  by (auto simp: validate_contract_payload_def rbind_eq_Inr_iff)

text \<open>
  C32. The reproducibility comparison accepts a build exactly when the frozen contract is valid and the
  build's contract equals it in every field of every input, table and report. Two valid contracts
  that differ are refused with the list of their differences, and an invalid one is refused as such.
\<close>

theorem contract_accepted_iff:
  "(compare_expected_artifact_contract actual expected = Inr () \<longleftrightarrow>
      validate_expected_contract expected = Inr expected \<and> actual = expected) \<and>
   ((\<exists>ds. compare_expected_artifact_contract actual expected = Inl (Contract_mismatch ds)) \<longleftrightarrow>
      validate_expected_contract expected = Inr expected \<and> validate_contract_payload actual = Inr actual \<and> actual \<noteq> expected) \<and>
   (compare_expected_artifact_contract actual expected = Inl Invalid_actual_contract \<longleftrightarrow>
      validate_expected_contract expected = Inr expected \<and> validate_contract_payload actual \<noteq> Inr actual)"
proof (cases "validate_expected_contract expected")
  case (Inl a)
  then show ?thesis by (simp add: compare_expected_artifact_contract_def)
next
  case e: (Inr e)
  show ?thesis
  proof (cases "validate_contract_payload actual")
    case (Inl err)
    with e expected_is_payload [OF e] show ?thesis by (auto simp: compare_expected_artifact_contract_def)
  next
    case (Inr a)
    with e expected_is_payload [OF e] payload_identity [OF Inr] show ?thesis
      by (simp add: compare_expected_artifact_contract_def Let_def no_difference_contract del: difference_paths.simps)
  qed
qed

section \<open>The digests of reports and of the manifest\<close>

text \<open>
  A semantic report is its declared field names, its identifier and its projection, a mapping given by
  its items in iteration order.
\<close>

definition report_logical_hash :: "pystr list \<Rightarrow> pystr \<Rightarrow> (pystr \<times> py_value) list \<Rightarrow> pystr result" where
  "report_logical_hash model_fields report_id projection =
     rbind (require_exact_text report_id) (\<lambda>_.
     rbind (raise_if (map fst projection \<noteq> model_fields) (ValueError ''semantic projection must match declared fields exactly'')) (\<lambda>_.
     rbind (raise_if (map_of projection (cp ''report_id'') \<noteq> Some (PStr report_id)) (ValueError ''semantic projection report_id mismatch'')) (\<lambda>_.
     rbind (canonical_json_bytes (PMap projection) True) (\<lambda>bs. Inr (sha256_hex bs)))))"

record manifest_versions =
  mv_dataset_version :: date
  mv_metric_registry_version :: pystr
  mv_state_rule_version :: pystr
  mv_quality_rule_version :: pystr
  mv_rating_rule_version :: pystr
  mv_answer_policy_version :: pystr
  mv_planner_version :: pystr

record manifest_identity =
  mi_manifest_version :: pystr
  mi_artifact_contract_version :: pystr
  mi_artifact_set_id :: pystr
  mi_dataset_version :: date
  mi_logical_inputs :: "logical_input list"
  mi_versions :: manifest_versions
  mi_tables :: "logical_table list"
  mi_reports :: "semantic_report list"

definition dump_versions :: "manifest_versions \<Rightarrow> py_value" where
  "dump_versions v = PMap [(cp ''dataset_version'', PDate (mv_dataset_version v)),
     (cp ''metric_registry_version'', PStr (mv_metric_registry_version v)), (cp ''state_rule_version'', PStr (mv_state_rule_version v)),
     (cp ''quality_rule_version'', PStr (mv_quality_rule_version v)), (cp ''rating_rule_version'', PStr (mv_rating_rule_version v)),
     (cp ''answer_policy_version'', PStr (mv_answer_policy_version v)), (cp ''planner_version'', PStr (mv_planner_version v))]"

definition validated_model_entries :: "('a \<Rightarrow> bool) \<Rightarrow> ('a \<Rightarrow> py_value) \<Rightarrow> 'a list \<Rightarrow> py_value list result" where
  "validated_model_entries ok dump entries =
     traverse (\<lambda>e. rbind (raise_if (\<not> ok e) (ValueError ''validation error'')) (\<lambda>_. Inr (dump e))) entries"

definition manifest_projection :: "manifest_identity \<Rightarrow> py_value result" where
  "manifest_projection m =
     rbind (require_exact_text (mi_manifest_version m)) (\<lambda>_.
     rbind (require_exact_text (mi_artifact_contract_version m)) (\<lambda>_.
     rbind (require_exact_text (mi_artifact_set_id m)) (\<lambda>_.
     rbind (validated_model_entries logical_input_ok dump_input (mi_logical_inputs m)) (\<lambda>inputs.
     rbind (validated_model_entries logical_table_ok dump_table (mi_tables m)) (\<lambda>tables.
     rbind (validated_model_entries semantic_report_ok dump_report (mi_reports m)) (\<lambda>reports.
       Inr (PMap [(cp ''manifest_version'', PStr (mi_manifest_version m)),
         (cp ''artifact_contract_version'', PStr (mi_artifact_contract_version m)), (cp ''artifact_set_id'', PStr (mi_artifact_set_id m)),
         (cp ''dataset_version'', PDate (mi_dataset_version m)), (cp ''logical_inputs'', PSeq inputs),
         (cp ''versions'', dump_versions (mi_versions m)), (cp ''tables'', PSeq tables), (cp ''reports'', PSeq reports)])))))))"

definition manifest_digest_bytes :: "manifest_identity \<Rightarrow> nat list result" where
  "manifest_digest_bytes m = rbind (manifest_projection m) (\<lambda>p. canonical_json_bytes p True)"

definition manifest_logical_hash :: "manifest_identity \<Rightarrow> pystr result" where
  "manifest_logical_hash m = rbind (manifest_digest_bytes m) (\<lambda>bs. Inr (sha256_hex bs))"

text \<open>Mappings with one canonical form agree key by key.\<close>

lemma canonical_map_agree:
  assumes "canonical_scalar (PMap a) = Inr j" and "canonical_scalar (PMap b) = Inr j" and "distinct (map fst b)"
    and "(k, x) \<in> set a" and "(k, y) \<in> set b"
  shows "canonical_scalar x = canonical_scalar y"
proof -
  let ?f = "\<lambda>kv. rbind (canonical_scalar (snd kv)) (\<lambda>j. Inr (fst kv, j))"
  from assms(1,2) obtain js where a: "traverse ?f (py_sorted fst a) = Inr js" and b: "traverse ?f (py_sorted fst b) = Inr js"
    by (auto simp: rbind_eq_Inr_iff)
  from traverse_image [OF a, of "(k, x)"] assms(4) obtain jx where x: "(k, jx) \<in> set js" "canonical_scalar x = Inr jx"
    by (auto simp: rbind_eq_Inr_iff)
  from traverse_member [OF b x(1)] obtain z where z: "(k, z) \<in> set b" "canonical_scalar z = Inr jx"
    by (auto simp: rbind_eq_Inr_iff)
  from z(1) assms(3,5) have "z = y" by (meson eq_key_imp_eq_value)
  with x z show ?thesis by simp
qed

lemma isoformat_inj:
  assumes "isoformat a = isoformat b" and "valid_date a" and "valid_date b"
  shows "a = b"
proof -
  have r: "valid_date d \<Longrightarrow> 0 \<le> date_year d \<and> date_year d < 10000 \<and> 0 \<le> date_month d \<and> date_month d < 100 \<and> 0 \<le> date_day d \<and> date_day d < 100" for d
    using valid_date_ranges [of "date_year d" "date_month d" "date_day d"] by simp
  have "four_digits (date_year a) = four_digits (date_year b)" "two_digits (date_month a) = two_digits (date_month b)"
    "two_digits (date_day a) = two_digits (date_day b)"
    using assms(1) by (auto simp: isoformat_def two_digits_def four_digits_def)
  then have "nat (date_year a) = nat (date_year b)" "nat (date_month a) = nat (date_month b)" "nat (date_day a) = nat (date_day b)"
    using four_digits_value [of "date_year a"] four_digits_value [of "date_year b"] two_digits_value0 r [OF assms(2)] r [OF assms(3)]
    by metis+
  with r [OF assms(2)] r [OF assms(3)] show ?thesis by (auto intro: date.expand)
qed

lemma canonical_items_agree:
  assumes "canonical_scalar (PSeq (map f xs)) = canonical_scalar (PSeq (map f ys))" and "\<exists>j. canonical_scalar (PSeq (map f xs)) = Inr j"
    and "\<And>x y i. canonical_scalar (f x) = Inr i \<Longrightarrow> canonical_scalar (f y) = Inr i \<Longrightarrow> x = y"
  shows "xs = ys"
proof -
  from assms(1,2) obtain js where "traverse canonical_scalar (map f xs) = Inr js" "traverse canonical_scalar (map f ys) = Inr js"
    by (auto simp: rbind_eq_Inr_iff)
  then have xs: "list_all2 (\<lambda>x j. canonical_scalar (f x) = Inr j) xs js" and ys: "list_all2 (\<lambda>x j. canonical_scalar (f x) = Inr j) ys js"
    by (simp_all add: traverse_eq_Inr_iff list_all2_map1)
  from xs ys show ?thesis
    by (auto simp: list_all2_conv_all_nth intro!: nth_equalityI intro: assms(3))
qed

lemma canonical_names: "canonical_scalar (names_value xs) = Inr (JArr (map JStr xs))"
proof -
  have "traverse canonical_scalar (map PStr xs) = Inr (map JStr xs)" by (induction xs) simp_all
  then show ?thesis by (simp add: names_value_def)
qed

lemma canonical_names_inj: "canonical_scalar (names_value xs) = canonical_scalar (names_value ys) \<longleftrightarrow> xs = ys"
  by (simp add: canonical_names inj_map_eq_map inj_def)

lemma canonical_input_inj: "canonical_scalar (dump_input x) = Inr i \<Longrightarrow> canonical_scalar (dump_input y) = Inr i \<Longrightarrow> x = y"
proof -
  assume "canonical_scalar (dump_input x) = Inr i" "canonical_scalar (dump_input y) = Inr i"
  note agree = canonical_map_agree [OF this [unfolded dump_input_def]]
  show "x = y"
    using agree [of "cp ''namespace''"] agree [of "cp ''path''"] agree [of "cp ''kind''"] agree [of "cp ''size_bytes''"] agree [of "cp ''sha256''"]
    by (intro logical_input.equality) simp_all
qed

lemma canonical_report_inj: "canonical_scalar (dump_report x) = Inr i \<Longrightarrow> canonical_scalar (dump_report y) = Inr i \<Longrightarrow> x = y"
proof -
  assume "canonical_scalar (dump_report x) = Inr i" "canonical_scalar (dump_report y) = Inr i"
  note agree = canonical_map_agree [OF this [unfolded dump_report_def]]
  show "x = y"
    using agree [of "cp ''report_id''"] agree [of "cp ''semantic_hash''"] by (intro semantic_report.equality) simp_all
qed

lemma canonical_table_inj: "canonical_scalar (dump_table x) = Inr i \<Longrightarrow> canonical_scalar (dump_table y) = Inr i \<Longrightarrow> x = y"
proof -
  assume eq: "canonical_scalar (dump_table x) = Inr i" "canonical_scalar (dump_table y) = Inr i"
  note agree = canonical_map_agree [OF eq [unfolded dump_table_def]]
  have keys: "canonical_scalar (names_value (lt_sort_key x)) = canonical_scalar (names_value (lt_sort_key y))"
    "canonical_scalar (names_value (lt_unique_key x)) = canonical_scalar (names_value (lt_unique_key y))"
    by (rule agree [of "cp ''sort_key''"]; simp) (rule agree [of "cp ''unique_key''"]; simp)
  show "x = y"
    using agree [of "cp ''name''"] agree [of "cp ''grain''"] agree [of "cp ''schema_hash''"] agree [of "cp ''row_count''"]
      agree [of "cp ''logical_hash''"] keys [unfolded canonical_names_inj]
    by (intro logical_table.equality) simp_all
qed

lemma canonical_versions_inj:
  assumes "canonical_scalar (dump_versions x) = Inr i" and "canonical_scalar (dump_versions y) = Inr i"
    and "valid_date (mv_dataset_version x)" and "valid_date (mv_dataset_version y)"
  shows "x = y"
proof -
  note agree = canonical_map_agree [OF assms(1,2) [unfolded dump_versions_def]]
  show "x = y"
    using agree [of "cp ''dataset_version''"] agree [of "cp ''metric_registry_version''"] agree [of "cp ''state_rule_version''"]
      agree [of "cp ''quality_rule_version''"] agree [of "cp ''rating_rule_version''"] agree [of "cp ''answer_policy_version''"]
      agree [of "cp ''planner_version''"] isoformat_inj [OF _ assms(3,4)]
    by (intro manifest_versions.equality) simp_all
qed

definition manifest_value :: "manifest_identity \<Rightarrow> (pystr \<times> py_value) list" where
  "manifest_value m =
     [(cp ''manifest_version'', PStr (mi_manifest_version m)),
      (cp ''artifact_contract_version'', PStr (mi_artifact_contract_version m)), (cp ''artifact_set_id'', PStr (mi_artifact_set_id m)),
      (cp ''dataset_version'', PDate (mi_dataset_version m)), (cp ''logical_inputs'', PSeq (map dump_input (mi_logical_inputs m))),
      (cp ''versions'', dump_versions (mi_versions m)), (cp ''tables'', PSeq (map dump_table (mi_tables m))),
      (cp ''reports'', PSeq (map dump_report (mi_reports m)))]"

lemma validated_model_entries_dump: "validated_model_entries ok dump es = Inr ds \<Longrightarrow> ds = map dump es"
  unfolding validated_model_entries_def traverse_eq_Inr_iff
  by (intro sym [OF list_all2_eq [THEN iffD2]])
    (auto simp: list_all2_map1 rbind_eq_Inr_iff raise_if_eq_Inr_iff elim!: list_all2_mono)

lemma manifest_projection_value: "manifest_projection m = Inr p \<Longrightarrow> p = PMap (manifest_value m)"
  by (auto simp: manifest_projection_def rbind_eq_Inr_iff manifest_value_def dest: validated_model_entries_dump)

lemma canonical_parts:
  assumes "canonical_scalar (PMap a) = Inr j" and "(k, x) \<in> set a"
  shows "\<exists>i. canonical_scalar x = Inr i"
  using assms by (auto simp: rbind_eq_Inr_iff dest!: traverse_image [where x = "(k, x)"])

lemma canonical_manifest_inj:
  assumes "canonical_scalar (PMap (manifest_value x)) = Inr i" and "canonical_scalar (PMap (manifest_value y)) = Inr i"
    and "valid_date (mi_dataset_version x)" "valid_date (mi_dataset_version y)"
    and "valid_date (mv_dataset_version (mi_versions x))" "valid_date (mv_dataset_version (mi_versions y))"
  shows "x = y"
proof -
  have d: "distinct (map fst (manifest_value y))" by (simp add: manifest_value_def)
  note agree = canonical_map_agree [OF assms(1,2) d] and part = canonical_parts [OF assms(1)]
  have "mi_logical_inputs x = mi_logical_inputs y"
    using agree [of "cp ''logical_inputs''"] part [of "cp ''logical_inputs''"]
    by (intro canonical_items_agree [where f = dump_input] canonical_input_inj) (simp_all add: manifest_value_def)
  moreover have "mi_tables x = mi_tables y"
    using agree [of "cp ''tables''"] part [of "cp ''tables''"]
    by (intro canonical_items_agree [where f = dump_table] canonical_table_inj) (simp_all add: manifest_value_def)
  moreover have "mi_reports x = mi_reports y"
    using agree [of "cp ''reports''"] part [of "cp ''reports''"]
    by (intro canonical_items_agree [where f = dump_report] canonical_report_inj) (simp_all add: manifest_value_def)
  moreover have "mi_versions x = mi_versions y"
  proof -
    from part [of "cp ''versions''" "dump_versions (mi_versions x)"] obtain k where
      k: "canonical_scalar (dump_versions (mi_versions x)) = Inr k" by (auto simp: manifest_value_def)
    moreover from agree [of "cp ''versions''" "dump_versions (mi_versions x)" "dump_versions (mi_versions y)"] k
    have "canonical_scalar (dump_versions (mi_versions y)) = Inr k" by (simp add: manifest_value_def)
    ultimately show ?thesis by (rule canonical_versions_inj [OF _ _ assms(5,6)])
  qed
  moreover have "mi_dataset_version x = mi_dataset_version y"
    using agree [of "cp ''dataset_version''"] isoformat_inj [OF _ assms(3,4)] by (simp add: manifest_value_def)
  moreover have "mi_manifest_version x = mi_manifest_version y" "mi_artifact_contract_version x = mi_artifact_contract_version y"
    "mi_artifact_set_id x = mi_artifact_set_id y"
    using agree [of "cp ''manifest_version''"] agree [of "cp ''artifact_contract_version''"] agree [of "cp ''artifact_set_id''"]
    by (simp_all add: manifest_value_def)
  ultimately show ?thesis by (intro manifest_identity.equality) simp_all
qed

text \<open>
  The bytes digested for a manifest determine it: two manifests with proper dates that are
  digested from the same bytes agree in every version, input, table and report.
\<close>

theorem manifest_digest_identifies:
  assumes "manifest_digest_bytes x = Inr bs" and "manifest_digest_bytes y = Inr bs"
    and "valid_date (mi_dataset_version x)" "valid_date (mi_dataset_version y)"
    and "valid_date (mv_dataset_version (mi_versions x))" "valid_date (mv_dataset_version (mi_versions y))"
  shows "x = y"
proof -
  from assms(1,2) obtain p q where p: "manifest_projection x = Inr p" "manifest_projection y = Inr q"
    and b: "canonical_json_bytes p True = Inr bs" "canonical_json_bytes q True = Inr bs"
    by (auto simp: manifest_digest_bytes_def rbind_eq_Inr_iff)
  have "map canonical_scalar [p] = map canonical_scalar [q]"
    by (rule canonical_lines_inj [of _ "[bs]" _ "[bs]"]) (use b in simp_all)
  moreover from b(1) obtain j where "canonical_scalar p = Inr j" unfolding canonical_json_line by blast
  ultimately show ?thesis
    using canonical_manifest_inj [OF _ _ assms(3-6)] p [THEN manifest_projection_value] by simp
qed

definition example_manifest :: manifest_identity where
  "example_manifest = \<lparr>mi_manifest_version = cp ''1'', mi_artifact_contract_version = cp ''1'', mi_artifact_set_id = cp ''s'',
     mi_dataset_version = Date 2026 8 24, mi_logical_inputs = [],
     mi_versions = \<lparr>mv_dataset_version = Date 2026 8 24, mv_metric_registry_version = [], mv_state_rule_version = [],
       mv_quality_rule_version = [], mv_rating_rule_version = [], mv_answer_policy_version = [], mv_planner_version = []\<rparr>,
     mi_tables = [], mi_reports = [\<lparr>sr_report_id = cp ''source_audit'', sr_semantic_hash = replicate 64 48\<rparr>]\<rparr>"

lemma example_manifest_digest: "\<not> isl (manifest_digest_bytes example_manifest)"
  by code_simp

theorem manifest_digest_identifies_witness:
  "\<exists>bs. manifest_digest_bytes example_manifest = Inr bs \<and>
     (\<forall>n > 0. manifest_digest_bytes (example_manifest\<lparr>mi_manifest_version := replicate n 50\<rparr>) \<noteq> Inr bs)"
proof -
  obtain bs where bs: "manifest_digest_bytes example_manifest = Inr bs"
    using example_manifest_digest by (cases "manifest_digest_bytes example_manifest") auto
  have dates: "valid_date (mi_dataset_version example_manifest)" "valid_date (mv_dataset_version (mi_versions example_manifest))"
    by code_simp+
  have "manifest_digest_bytes (example_manifest\<lparr>mi_manifest_version := replicate n 50\<rparr>) \<noteq> Inr bs" if "n > 0" for n
  proof
    assume "manifest_digest_bytes (example_manifest\<lparr>mi_manifest_version := replicate n 50\<rparr>) = Inr bs"
    from manifest_digest_identifies [OF bs this] dates
    have "mi_manifest_version example_manifest = mi_manifest_version (example_manifest\<lparr>mi_manifest_version := replicate n 50\<rparr>)" by simp
    with that show False by (cases n) (simp_all add: example_manifest_def cp_def)
  qed
  with bs show ?thesis by blast
qed

end
