(* ===== verification/Publication.thy ===== *)
theory Publication
  imports Orchestrator Json_Size Artifact_Contract
begin

text \<open>
  The published response: \<open>finproof/service/publication.py\<close> and the response envelope of
  \<open>finproof/api/models.py\<close>. Two strings of the envelope are themselves canonical JSON, and the body is the
  canonical JSON of the envelope.
\<close>

fun intent_value :: "intent \<Rightarrow> pystr" where
  "intent_value LOOKUP = cp ''lookup''"
| "intent_value SCREEN = cp ''screen''"
| "intent_value SCREEN_RANK = cp ''screen_rank''"
| "intent_value COMPARE = cp ''compare''"
| "intent_value AGGREGATE_INTENT = cp ''aggregate''"
| "intent_value EXPLAIN = cp ''explain''"
| "intent_value CLARIFY = cp ''clarify''"
| "intent_value UNSUPPORTED = cp ''unsupported''"

fun top_k_scope_value :: "top_k_scope \<Rightarrow> pystr" where
  "top_k_scope_value GLOBAL = cp ''global''"
| "top_k_scope_value PER_PRODUCT_TYPE = cp ''per_product_type''"

fun trace_validation_value :: "trace_validation \<Rightarrow> pystr" where
  "trace_validation_value PASSED = cp ''passed''"
| "trace_validation_value TV_CLARIFY = cp ''clarify''"
| "trace_validation_value TV_UNSUPPORTED = cp ''unsupported''"
| "trace_validation_value SAFE_FAILURE = cp ''safe_failure''"

definition counts_py :: "(pystr \<times> int) list \<Rightarrow> py_value" where
  "counts_py m = PMap (map (\<lambda>(k, n). (k, PInt n)) m)"

definition dump_trace_segment :: "trace_segment \<Rightarrow> py_value" where
  "dump_trace_segment s = PMap [(cp ''product_type'', PStr (product_type_value (tg_product_type s))),
     (cp ''native_result_grain'', PStr (result_grain_value (tg_native_result_grain s))), (cp ''partition_key'', PStr (tg_partition_key s)),
     (cp ''candidate_counts'', counts_py (tg_candidate_counts s)), (cp ''returned'', PInt (tg_returned s))]"

definition dump_trace :: "execution_trace \<Rightarrow> py_value" where
  "dump_trace t = PMap [(cp ''correlation_id'', PStr (tr_correlation_id t)), (cp ''intent'', PStr (intent_value (tr_intent t))),
     (cp ''product_types'', texts_py (map product_type_value (tr_product_types t))), (cp ''as_of_date'', PStr (isoformat (tr_as_of_date t))),
     (cp ''result_grain'', PStr (result_grain_value (tr_result_grain t))), (cp ''top_k_scope'', PStr (top_k_scope_value (tr_top_k_scope t))),
     (cp ''segments'', PSeq (map dump_trace_segment (tr_segments t))), (cp ''candidate_counts'', counts_py (tr_candidate_counts t)),
     (cp ''tools'', texts_py (tr_tools t)), (cp ''policy_ids'', texts_py (tr_policy_ids t)),
     (cp ''validation'', PStr (trace_validation_value (tr_validation t))),
     (cp ''versions'', PMap (map (\<lambda>(k, v). (k, PStr v)) (tr_versions t))), (cp ''latency_ms'', counts_py (tr_latency_ms t))]"

section \<open>api/models.py\<close>

record evaluation_response =
  er_question_id :: pystr
  er_question :: pystr
  er_retrieved_context :: pystr
  er_think_trace :: pystr
  er_answer :: pystr

text \<open>The byte limits of the answer registry; \<open>None\<close> when an entry is absent.\<close>

record answer_limits =
  al_max_context_bytes :: "int option"
  al_max_trace_bytes :: "int option"

definition dump_response :: "evaluation_response \<Rightarrow> py_value" where
  "dump_response r = PMap [(cp ''question_id'', PStr (er_question_id r)), (cp ''question'', PStr (er_question r)),
     (cp ''retrieved_context'', PStr (er_retrieved_context r)), (cp ''think_trace'', PStr (er_think_trace r)), (cp ''answer'', PStr (er_answer r))]"

definition validate_utf8_limit :: "int option \<Rightarrow> pystr \<Rightarrow> unit result" where
  "validate_utf8_limit limit v =
     rbind (utf8_encode v) (\<lambda>bs.
       raise_if (int (length bs) > (case limit of None \<Rightarrow> 16000 | Some n \<Rightarrow> n)) (ValueError ''exceeds configured bound''))"

definition MAX_RESPONSE_BYTES :: nat where "MAX_RESPONSE_BYTES = 96000"

definition validate_response_bytes :: "evaluation_response \<Rightarrow> unit result" where
  "validate_response_bytes r =
     rbind (canonical_json_bytes (dump_response r) False) (\<lambda>bs.
       raise_if (length bs > MAX_RESPONSE_BYTES) (ValueError ''response exceeds configured bound''))"

definition make_evaluation_response :: "answer_limits \<Rightarrow> evaluation_response \<Rightarrow> evaluation_response result" where
  "make_evaluation_response limits r =
     rbind (raise_if (\<not> (bounded_text 1 200 (er_question_id r) \<and> bounded_text 1 4000 (er_question r) \<and> er_retrieved_context r \<noteq> [] \<and>
                er_think_trace r \<noteq> [] \<and> bounded_text 1 12000 (er_answer r))) (ValueError ''response fields'')) (\<lambda>_.
     rbind (validate_utf8_limit (al_max_context_bytes limits) (er_retrieved_context r)) (\<lambda>_.
     rbind (validate_utf8_limit (al_max_trace_bytes limits) (er_think_trace r)) (\<lambda>_.
     rbind (validate_response_bytes r) (\<lambda>_. Inr r))))"

section \<open>publication.py\<close>

record evaluation_publication =
  pb_result :: answer_result
  pb_response :: evaluation_response
  pb_body :: "nat list"

definition publish_result ::
  "answer_limits \<Rightarrow> answer_request \<Rightarrow> answer_result \<Rightarrow> pystr \<Rightarrow> request_deadline \<Rightarrow> rat \<Rightarrow> evaluation_publication result" where
  "publish_result limits request result cid deadline now =
     rbind (raise_if (remaining_outer_seconds deadline now \<le> 0) TimeoutError) (\<lambda>_.
     rbind (canonical_json_text (dump_trace ((ar_trace result)\<lparr>tr_correlation_id := cid\<rparr>))) (\<lambda>think_trace.
     rbind (make_evaluation_response limits
              \<lparr>er_question_id = rq_question_id request, er_question = rq_question request,
               er_retrieved_context = ar_retrieved_context result, er_think_trace = think_trace,
               er_answer = at_text (ar_answer result)\<rparr>) (\<lambda>response.
     rbind (canonical_json_bytes (dump_response response) False) (\<lambda>body.
       Inr \<lparr>pb_result = result, pb_response = response, pb_body = body\<rparr>))))"

definition safe_answer_result :: "pystr \<Rightarrow> date \<Rightarrow> answer_result" where
  "safe_answer_result cid snapshot_date =
     \<lparr>ar_answer = \<lparr>at_text = [50836, 52397, 51012, 32, 52376, 47532, 54624, 32, 49688, 32, 50630, 49845, 45768, 45796, 46], at_claims = []\<rparr>, ar_retrieved_context = cp ''{}'',
      ar_trace = \<lparr>tr_correlation_id = cid, tr_intent = CLARIFY, tr_product_types = [], tr_as_of_date = snapshot_date,
        tr_result_grain = PRODUCT, tr_top_k_scope = GLOBAL, tr_segments = [],
        tr_candidate_counts = [(cp ''raw'', 0), (cp ''eligible'', 0), (cp ''returned'', 0)], tr_tools = [cp ''safe_failure''],
        tr_policy_ids = [], tr_validation = SAFE_FAILURE, tr_versions = [], tr_latency_ms = []\<rparr>\<rparr>"

definition build_safe_publication ::
  "answer_limits \<Rightarrow> answer_request \<Rightarrow> pystr \<Rightarrow> date \<Rightarrow> request_deadline \<Rightarrow> rat \<Rightarrow> evaluation_publication result" where
  "build_safe_publication limits request cid snapshot_date deadline now =
     publish_result limits request (safe_answer_result cid snapshot_date) cid deadline now"

section \<open>The body determines the response\<close>



lemma publish_result_Inr:
  assumes "publish_result limits request result cid deadline now = Inr p"
  shows "pb_result p = result" and "er_question_id (pb_response p) = rq_question_id request" and "er_question (pb_response p) = rq_question request"
    and "er_answer (pb_response p) = at_text (ar_answer result)" and "er_retrieved_context (pb_response p) = ar_retrieved_context result"
    and "canonical_json_bytes (dump_response (pb_response p)) False = Inr (pb_body p)" and "length (pb_body p) \<le> MAX_RESPONSE_BYTES"
    and "now < dl_outer_at deadline"
  using assms
  by (auto simp: publish_result_def make_evaluation_response_def validate_response_bytes_def rbind_eq_Inr_iff raise_if_eq_Inr_iff)


section \<open>The safe publication cannot fail\<close>

lemma canonical_fits:
  assumes "plain_value v"
  shows "\<exists>t bs. canonical_json_text v = Inr t \<and> canonical_json_bytes v False = Inr bs \<and> utf8_encode t = Inr bs \<and> length bs \<le> byte_bound v \<and>
    encodable t \<and> length t \<le> length bs"
proof -
  from plain_value_fits [OF assms] obtain j where j: "canonical_scalar v = Inr j" "encodable (json_dumps j)" "utf8_size (json_dumps j) \<le> byte_bound v"
    by (auto simp: fits_def)
  have "length s \<le> length (concat (map utf8_char s))" for s
    by (induction s) (auto simp: utf8_char_def)
  with j show ?thesis by (simp add: canonical_json_text_def canonical_json_bytes_def utf8_encode_def utf8_size_def)
qed

definition request_ok :: "answer_request \<Rightarrow> bool" where
  "request_ok r \<longleftrightarrow> bounded_text 1 200 (rq_question_id r) \<and> bounded_text 1 4000 (rq_question r) \<and> encodable (rq_question_id r) \<and> encodable (rq_question r)"

lemma isoformat_plain: "valid_date d \<Longrightarrow> encodable (isoformat d) \<and> length (isoformat d) = 10"
proof -
  assume "valid_date d"
  then have "valid_date (Date (date_year d) (date_month d) (date_day d))" by simp
  from valid_date_ranges [OF this]
    list_all_two_digits [of "date_month d"] list_all_two_digits [of "date_day d"] list_all_four_digits [of "date_year d"]
  have "list_all (\<lambda>c. c < 128) (isoformat d)" by (auto simp: isoformat_def list_all_iff is_digit_def)
  then show ?thesis by (simp add: ascii_encodable isoformat_def)
qed

lemma length_nonempty_text: "canonical_json_text (PMap kvs) = Inr t \<Longrightarrow> t \<noteq> []"
  by (auto simp: canonical_json_text_def rbind_eq_Inr_iff)

lemma safe_trace_fits:
  assumes "bounded_text 1 200 cid" and "encodable cid" and "valid_date d"
  shows "\<exists>t bs. canonical_json_text (dump_trace ((ar_trace (safe_answer_result cid d))\<lparr>tr_correlation_id := cid\<rparr>)) = Inr t \<and> utf8_encode t = Inr bs \<and>
     length bs \<le> 6000 \<and> encodable t \<and> length t \<le> 6000 \<and> t \<noteq> []"
proof -
  let ?v = "dump_trace ((ar_trace (safe_answer_result cid d))\<lparr>tr_correlation_id := cid\<rparr>)"
  have "plain_value ?v" using assms isoformat_plain [OF assms(3)] by (simp add: dump_trace_def safe_answer_result_def counts_py_def texts_py_def)
  moreover have "byte_bound ?v \<le> 6000"
    using assms isoformat_plain [OF assms(3)]
    by (simp add: dump_trace_def safe_answer_result_def counts_py_def texts_py_def cp_def int_str_def nat_digits.simps)
  ultimately show ?thesis using canonical_fits [of ?v] length_nonempty_text unfolding dump_trace_def by fastforce
qed

lemma publish_result_total:
  assumes "request_ok request" and "now < dl_outer_at deadline"
    and trace: "canonical_json_text (dump_trace ((ar_trace result)\<lparr>tr_correlation_id := cid\<rparr>)) = Inr t"
      "utf8_encode t = Inr bs" "length bs \<le> 6000" "encodable t" "length t \<le> 6000" "t \<noteq> []"
    and context': "encodable (ar_retrieved_context result)" "ar_retrieved_context result \<noteq> []"
    and answer: "encodable (at_text (ar_answer result))" "bounded_text 1 12000 (at_text (ar_answer result))"
    and small: "length (ar_retrieved_context result) + length (at_text (ar_answer result)) \<le> 5000"
    and limits: "\<forall>n. al_max_context_bytes limits = Some n \<longrightarrow> int (utf8_size (ar_retrieved_context result)) \<le> n"
      "al_max_context_bytes limits = None \<longrightarrow> utf8_size (ar_retrieved_context result) \<le> 16000"
      "\<forall>n. al_max_trace_bytes limits = Some n \<longrightarrow> 6000 \<le> n"
  shows "\<exists>p. publish_result limits request result cid deadline now = Inr p"
proof -
  let ?e = "\<lparr>er_question_id = rq_question_id request, er_question = rq_question request,
     er_retrieved_context = ar_retrieved_context result, er_think_trace = t, er_answer = at_text (ar_answer result)\<rparr>"
  have plain: "plain_value (dump_response ?e)" using assms(1) trace(4) context'(1) answer(1) by (simp add: dump_response_def request_ok_def)
  have "byte_bound (dump_response ?e) \<le> 96000" using assms(1) trace(5) small by (simp add: dump_response_def request_ok_def cp_def)
  with canonical_fits [OF plain] obtain body where body: "canonical_json_bytes (dump_response ?e) False = Inr body" "length body \<le> 96000" by fastforce
  have limits: "validate_utf8_limit (al_max_context_bytes limits) (ar_retrieved_context result) = Inr ()"
    "validate_utf8_limit (al_max_trace_bytes limits) t = Inr ()"
    using limits trace(2,3) context'(1) by (auto simp: validate_utf8_limit_def raise_if_def utf8_encode_def utf8_size_def split: option.split)
  have "make_evaluation_response limits ?e = Inr ?e"
    using assms(1) trace(6) body limits context'(2) answer(2)
    by (simp add: make_evaluation_response_def validate_response_bytes_def raise_if_def request_ok_def MAX_RESPONSE_BYTES_def)
  with trace(1) body(1) assms(2) show ?thesis by (simp add: publish_result_def raise_if_def not_le)
qed

lemma safe_publish_exists:
  assumes "request_ok request" and "bounded_text 1 200 cid" and "encodable cid" and "valid_date snapshot_date" and "now < dl_outer_at deadline"
    and "\<forall>n. al_max_context_bytes limits = Some n \<longrightarrow> 2 \<le> n" and "\<forall>n. al_max_trace_bytes limits = Some n \<longrightarrow> 6000 \<le> n"
  shows "\<exists>p. build_safe_publication limits request cid snapshot_date deadline now = Inr p"
proof -
  let ?r = "safe_answer_result cid snapshot_date"
  from safe_trace_fits [OF assms(2-4)] obtain t bs where t: "canonical_json_text (dump_trace ((ar_trace ?r)\<lparr>tr_correlation_id := cid\<rparr>)) = Inr t"
    "utf8_encode t = Inr bs" "length bs \<le> 6000" "encodable t" "length t \<le> 6000" "t \<noteq> []" by blast
  have ctx: "utf8_size (ar_retrieved_context ?r) = 2" "ar_retrieved_context ?r = cp ''{}''"
    by (simp_all add: safe_answer_result_def utf8_size_def cp_def utf8_char_def)
  have answer: "encodable (at_text (ar_answer ?r))" "bounded_text 1 12000 (at_text (ar_answer ?r))"
    "length (ar_retrieved_context ?r) + length (at_text (ar_answer ?r)) \<le> 5000" by (simp_all add: safe_answer_result_def cp_def)
  from publish_result_total [OF assms(1,5) t _ _ answer, of limits] assms(6,7) ctx show ?thesis
    by (auto simp: build_safe_publication_def)
qed

text \<open>
  C40. The fallback always exists: for every admissible request, correlation identifier and snapshot
  date, before the outer deadline and under limits that leave room for the empty context and 6000
  bytes of trace, the safe publication is built, whatever the question contains.
\<close>

theorem safe_publication_total:
  assumes "request_ok request" and "bounded_text 1 200 cid" and "encodable cid" and "valid_date snapshot_date" and "now < dl_outer_at deadline"
    and "\<forall>n. al_max_context_bytes limits = Some n \<longrightarrow> 2 \<le> n" and "\<forall>n. al_max_trace_bytes limits = Some n \<longrightarrow> 6000 \<le> n"
  shows "\<exists>p. build_safe_publication limits request cid snapshot_date deadline now = Inr p \<and>
    er_answer (pb_response p) = at_text (ar_answer (safe_answer_result cid snapshot_date))"
proof -
  from safe_publish_exists [OF assms] obtain p where p: "build_safe_publication limits request cid snapshot_date deadline now = Inr p" ..
  from publish_result_Inr(4) [OF this [unfolded build_safe_publication_def]] p show ?thesis by blast
qed

definition example_request :: "string \<Rightarrow> answer_request" where
  "example_request q = \<lparr>rq_question_id = cp ''q1'', rq_question = cp q\<rparr>"

definition example_limits :: answer_limits where
  "example_limits = \<lparr>al_max_context_bytes = Some 24000, al_max_trace_bytes = None\<rparr>"

definition example_publication :: "string \<Rightarrow> evaluation_publication result" where
  "example_publication q = build_safe_publication example_limits (example_request q) (cp ''c'') (Date 2026 8 24) (deadline_start 0) 1"

theorem safe_publication_total_witness: "\<exists>p. example_publication ''what is the yield?'' = Inr p"
proof -
  have "request_ok (example_request ''what is the yield?'')" "valid_date (Date 2026 8 24)" "(1 :: rat) < dl_outer_at (deadline_start 0)" by code_simp+
  from safe_publication_total [OF this(1) _ _ this(2,3), of "cp ''c''" example_limits] show ?thesis
    by (auto simp: example_publication_def example_limits_def cp_def)
qed



end
