(* ===== verification/Fault_Monad.thy ===== *)
theory Fault_Monad
  imports Prelude "HOL-Library.AList"
begin

text \<open>
  Programs over a directory whose system calls may fail, and whose process may be killed. A
  program maps a state to an outcome (it returned, it raised, the process was killed) and the
  state it left. What the operating system does is a script of faults consumed one per system
  call, so that a statement about every script is a statement about every pattern of failures and
  every point at which the process dies; the empty script is the run in which nothing fails. The
  weakest precondition \<open>wp m Q E K\<close> has one postcondition for each outcome, and one rewrite rule per
  program constructor in \<open>wp_simps\<close>.
\<close>

named_theorems wp_simps

section \<open>Outcomes and programs\<close>

datatype ('e, 'a) outcome = Returned 'a | Raised 'e | Killed

type_synonym ('s, 'e, 'a) prog = "'s \<Rightarrow> ('e, 'a) outcome \<times> 's"

definition ret :: "'a \<Rightarrow> ('s, 'e, 'a) prog" where
  "ret x = (\<lambda>s. (Returned x, s))"

definition throw :: "'e \<Rightarrow> ('s, 'e, 'a) prog" where
  "throw e = (\<lambda>s. (Raised e, s))"

definition bind :: "('s, 'e, 'a) prog \<Rightarrow> ('a \<Rightarrow> ('s, 'e, 'b) prog) \<Rightarrow> ('s, 'e, 'b) prog" where
  "bind m f = (\<lambda>s. case m s of
      (Returned x, t) \<Rightarrow> f x t | (Raised e, t) \<Rightarrow> (Raised e, t) | (Killed, t) \<Rightarrow> (Killed, t))"

definition seq :: "('s, 'e, 'a) prog \<Rightarrow> ('s, 'e, 'b) prog \<Rightarrow> ('s, 'e, 'b) prog" where
  "seq m k = bind m (\<lambda>_. k)"

definition reads :: "('s \<Rightarrow> 'a) \<Rightarrow> ('s, 'e, 'a) prog" where
  "reads f = (\<lambda>s. (Returned (f s), s))"

definition modify :: "('s \<Rightarrow> 's) \<Rightarrow> ('s, 'e, unit) prog" where
  "modify f = (\<lambda>s. (Returned (), f s))"

definition throw_if :: "bool \<Rightarrow> 'e \<Rightarrow> ('s, 'e, unit) prog" where
  "throw_if b e = (if b then throw e else ret ())"

text \<open>\<open>try: m except (...) as e: h(e)\<close>, the tuple of classes as a predicate.\<close>

definition catching :: "('e \<Rightarrow> bool) \<Rightarrow> ('s, 'e, 'a) prog \<Rightarrow> ('e \<Rightarrow> ('s, 'e, 'a) prog) \<Rightarrow> ('s, 'e, 'a) prog" where
  "catching p m h = (\<lambda>s. case m s of
      (Raised e, t) \<Rightarrow> (if p e then h e t else (Raised e, t)) | (r, t) \<Rightarrow> (r, t))"

text \<open>\<open>try: m finally: f\<close>: an exception of \<open>f\<close> replaces the outcome of \<open>m\<close>; a killed process runs no \<open>finally\<close>.\<close>

definition finally_do :: "('s, 'e, 'a) prog \<Rightarrow> ('s, 'e, unit) prog \<Rightarrow> ('s, 'e, 'a) prog" where
  "finally_do m f = (\<lambda>s. case m s of
      (Killed, t) \<Rightarrow> (Killed, t)
    | (r, t) \<Rightarrow> (case f t of (Returned _, u) \<Rightarrow> (r, u) | (Raised e, u) \<Rightarrow> (Raised e, u) | (Killed, u) \<Rightarrow> (Killed, u)))"

fun for_each :: "('a \<Rightarrow> ('s, 'e, unit) prog) \<Rightarrow> 'a list \<Rightarrow> ('s, 'e, unit) prog" where
  "for_each f [] = ret ()"
| "for_each f (x # xs) = seq (f x) (for_each f xs)"

section \<open>Weakest preconditions\<close>

definition wp :: "('s, 'e, 'a) prog \<Rightarrow> ('a \<Rightarrow> 's \<Rightarrow> bool) \<Rightarrow> ('e \<Rightarrow> 's \<Rightarrow> bool) \<Rightarrow> ('s \<Rightarrow> bool) \<Rightarrow> 's \<Rightarrow> bool" where
  "wp m Q E K s = (case m s of (Returned x, t) \<Rightarrow> Q x t | (Raised e, t) \<Rightarrow> E e t | (Killed, t) \<Rightarrow> K t)"

lemma wp_ret [wp_simps]: "wp (ret x) Q E K s = Q x s"
  by (simp add: wp_def ret_def)

lemma wp_throw [wp_simps]: "wp (throw e) Q E K s = E e s"
  by (simp add: wp_def throw_def)

lemma wp_bind [wp_simps]: "wp (bind m f) Q E K s = wp m (\<lambda>x. wp (f x) Q E K) E K s"
  by (auto simp: wp_def bind_def split: prod.splits outcome.splits)

lemma wp_seq [wp_simps]: "wp (seq m k) Q E K s = wp m (\<lambda>_. wp k Q E K) E K s"
  by (simp add: seq_def wp_bind)

lemma wp_reads [wp_simps]: "wp (reads f) Q E K s = Q (f s) s"
  by (simp add: wp_def reads_def)

lemma wp_modify [wp_simps]: "wp (modify f) Q E K s = Q () (f s)"
  by (simp add: wp_def modify_def)

lemma wp_throw_if [wp_simps]: "wp (throw_if b e) Q E K s = (if b then E e s else Q () s)"
  by (simp add: throw_if_def wp_simps)

lemma wp_catching [wp_simps]:
  "wp (catching p m h) Q E K s = wp m Q (\<lambda>e t. if p e then wp (h e) Q E K t else E e t) K s"
  by (auto simp: wp_def catching_def split: prod.splits outcome.splits)

lemma wp_finally [wp_simps]:
  "wp (finally_do m f) Q E K s =
     wp m (\<lambda>x. wp f (\<lambda>_. Q x) E K) (\<lambda>e. wp f (\<lambda>_. E e) E K) K s"
  by (auto simp: wp_def finally_do_def split: prod.splits outcome.splits)

lemma wp_for_each_Nil [wp_simps]: "wp (for_each f []) Q E K s = Q () s"
  by (simp add: wp_simps)

lemma wp_for_each_Cons [wp_simps]:
  "wp (for_each f (x # xs)) Q E K s = wp (f x) (\<lambda>_. wp (for_each f xs) Q E K) E K s"
  by (simp add: wp_simps)

lemma wp_if [wp_simps]: "wp (if b then m else k) Q E K s = (if b then wp m Q E K s else wp k Q E K s)"
  by simp

lemma wp_conseq:
  assumes "wp m Q E K s"
    and "\<And>x t. Q x t \<Longrightarrow> Q' x t" and "\<And>e t. E e t \<Longrightarrow> E' e t" and "\<And>t. K t \<Longrightarrow> K' t"
  shows "wp m Q' E' K' s"
  using assms by (auto simp: wp_def split: prod.splits outcome.splits)

lemma wp_conj:
  assumes "wp m Q E K s" and "wp m Q' E' K' s"
  shows "wp m (\<lambda>x t. Q x t \<and> Q' x t) (\<lambda>e t. E e t \<and> E' e t) (\<lambda>t. K t \<and> K' t) s"
  using assms by (auto simp: wp_def split: prod.splits outcome.splits)

lemma wp_true: "wp m (\<lambda>_ _. True) (\<lambda>_ _. True) (\<lambda>_. True) s"
  by (auto simp: wp_def split: prod.splits outcome.splits)

text \<open>A loop keeps what every iteration keeps.\<close>

lemma wp_for_each_inv:
  assumes step: "\<And>x t. x \<in> set xs \<Longrightarrow> I t \<Longrightarrow> wp (f x) (\<lambda>_. I) E K t"
    and start: "I s"
  shows "wp (for_each f xs) (\<lambda>_. I) E K s"
  using assms
proof (induction xs arbitrary: s)
  case (Cons x xs)
  show ?case
    unfolding wp_for_each_Cons
  proof (rule wp_conseq)
    show "wp (f x) (\<lambda>_. I) E K s" using Cons.prems by simp
    show "wp (for_each f xs) (\<lambda>_. I) E K t" if "I t" for t
      using that Cons.prems(1) by (intro Cons.IH) simp_all
  qed simp_all
qed (simp add: wp_simps)

text \<open>The whole outcome of a run, read off its weakest precondition.\<close>

lemma wp_run: "wp m Q E K s \<longleftrightarrow> (case fst (m s) of Returned x \<Rightarrow> Q x (snd (m s)) | Raised e \<Rightarrow> E e (snd (m s)) | Killed \<Rightarrow> K (snd (m s)))"
  by (auto simp: wp_def split: prod.splits outcome.splits)

text \<open>A program that keeps a relation to its starting state, whatever its outcome.\<close>

definition keeps :: "('s \<Rightarrow> 's \<Rightarrow> bool) \<Rightarrow> ('s, 'e, 'a) prog \<Rightarrow> bool" where
  "keeps R m \<longleftrightarrow> (\<forall>s. R s (snd (m s)))"

lemma keeps_wp: "keeps R m \<Longrightarrow> wp m (\<lambda>_. R s) (\<lambda>_. R s) (R s) s"
  by (auto simp: keeps_def wp_def split: prod.splits outcome.splits) (metis snd_conv)+

lemma keepsI: "(\<And>s. wp m (\<lambda>_. R s) (\<lambda>_. R s) (R s) s) \<Longrightarrow> keeps R m"
  unfolding keeps_def
proof
  fix s
  assume "\<And>s. wp m (\<lambda>_. R s) (\<lambda>_. R s) (R s) s"
  from this [of s] show "R s (snd (m s))"
    by (auto simp: wp_def split: prod.splits outcome.splits)
qed

text \<open>The exceptions a program may raise.\<close>

definition raises :: "('e \<Rightarrow> bool) \<Rightarrow> ('s, 'e, 'a) prog \<Rightarrow> bool" where
  "raises P m \<longleftrightarrow> (\<forall>s. wp m (\<lambda>_ _. True) (\<lambda>e _. P e) (\<lambda>_. True) s)"

lemma raises_wp: "raises P m \<Longrightarrow> wp m (\<lambda>_ _. True) (\<lambda>e _. P e) (\<lambda>_. True) s"
  by (simp add: raises_def)

lemma raises_bind: "raises P m \<Longrightarrow> (\<And>x. raises P (f x)) \<Longrightarrow> raises P (bind m f)"
  by (auto simp: raises_def wp_bind intro: wp_conseq)

lemma raises_basic: "raises P (ret x)" "raises P (reads g)" "raises P (modify h)" "P e \<Longrightarrow> raises P (throw e)" "P e \<Longrightarrow> raises P (throw_if b e)"
  by (simp_all add: raises_def wp_simps)

lemma raises_seq: "raises P m \<Longrightarrow> raises P k \<Longrightarrow> raises P (seq m k)"
  by (simp add: seq_def raises_bind)

lemma raises_catching:
  assumes "raises P m \<or> (\<forall>e. p e)" and "\<And>e. raises P (h e)"
  shows "raises P (catching p m h)"
  unfolding raises_def wp_catching
proof
  fix s
  show "wp m (\<lambda>_ _. True) (\<lambda>e t. if p e then wp (h e) (\<lambda>_ _. True) (\<lambda>e _. P e) (\<lambda>_. True) t else P e) (\<lambda>_. True) s"
    using assms(1)
  proof
    assume "raises P m"
    then show ?thesis
      by (rule wp_conseq [OF raises_wp]) (simp_all add: raises_wp [OF assms(2)])
  next
    assume "\<forall>e. p e"
    then show ?thesis
      by (intro wp_conseq [OF wp_true]) (simp_all add: raises_wp [OF assms(2)])
  qed
qed

lemma raises_for_each: "(\<And>x. x \<in> set xs \<Longrightarrow> raises P (f x)) \<Longrightarrow> raises P (for_each f xs)"
  by (induction xs) (simp_all add: raises_basic raises_seq)

lemmas raises_intros = raises_basic raises_bind raises_seq raises_catching raises_for_each

lemma wp_keeps_raises:
  assumes "keeps R m" and "raises P m"
    and "\<And>x t. R s t \<Longrightarrow> Q x t" "\<And>e t. P e \<Longrightarrow> R s t \<Longrightarrow> E e t" "\<And>t. R s t \<Longrightarrow> K t"
  shows "wp m Q E K s"
  by (rule wp_conseq [OF wp_conj [OF keeps_wp [OF assms(1)] raises_wp [OF assms(2)]]]) (auto intro: assms(3-))

locale stable_relation =
  fixes R :: "'s \<Rightarrow> 's \<Rightarrow> bool"
  assumes refl_R: "R s s" and trans_R: "R s t \<Longrightarrow> R t u \<Longrightarrow> R s u"
begin

lemma keeps_ret: "keeps R (ret x)"
  by (simp add: keeps_def ret_def refl_R)

lemma keeps_throw: "keeps R (throw e)"
  by (simp add: keeps_def throw_def refl_R)

lemma keeps_reads: "keeps R (reads f)"
  by (simp add: keeps_def reads_def refl_R)

lemma keeps_throw_if: "keeps R (throw_if b e)"
  by (simp add: throw_if_def keeps_ret keeps_throw)

lemma keeps_bind:
  assumes "keeps R m" and "\<And>x. keeps R (f x)"
  shows "keeps R (bind m f)"
proof (rule keepsI)
  fix s
  show "wp (bind m f) (\<lambda>_. R s) (\<lambda>_. R s) (R s) s"
    unfolding wp_bind
    by (rule wp_conseq [OF keeps_wp [OF assms(1)]])
       (auto intro: wp_conseq [OF keeps_wp [OF assms(2)]] trans_R)
qed

lemma keeps_seq: "keeps R m \<Longrightarrow> keeps R k \<Longrightarrow> keeps R (seq m k)"
  by (simp add: seq_def keeps_bind)

lemma keeps_catching:
  assumes "keeps R m" and "\<And>e. keeps R (h e)"
  shows "keeps R (catching p m h)"
proof (rule keepsI)
  fix s
  show "wp (catching p m h) (\<lambda>_. R s) (\<lambda>_. R s) (R s) s"
    unfolding wp_catching
    by (rule wp_conseq [OF keeps_wp [OF assms(1)]])
       (auto intro: wp_conseq [OF keeps_wp [OF assms(2)]] trans_R)
qed

lemma keeps_finally:
  assumes "keeps R m" and "keeps R f"
  shows "keeps R (finally_do m f)"
proof (rule keepsI)
  fix s
  show "wp (finally_do m f) (\<lambda>_. R s) (\<lambda>_. R s) (R s) s"
    unfolding wp_finally
    by (rule wp_conseq [OF keeps_wp [OF assms(1)]])
       (auto intro: wp_conseq [OF keeps_wp [OF assms(2)]] trans_R)
qed

lemma keeps_if: "(b \<Longrightarrow> keeps R m) \<Longrightarrow> (\<not> b \<Longrightarrow> keeps R k) \<Longrightarrow> keeps R (if b then m else k)"
  by simp

lemma keeps_for_each: "(\<And>x. x \<in> set xs \<Longrightarrow> keeps R (f x)) \<Longrightarrow> keeps R (for_each f xs)"
  by (induction xs) (simp_all add: keeps_ret keeps_seq)

lemmas keeps_intros =
  keeps_ret keeps_throw keeps_reads keeps_throw_if keeps_bind keeps_seq keeps_catching keeps_finally keeps_if keeps_for_each

end

end
