(* ===== verification/Artifact_Files.thy ===== *)
theory Artifact_Files
  imports Fault_Monad Canonical_Json
begin

text \<open>
  The errors of artifact construction (\<open>data/artifacts/errors.py\<close>) and the directory that artifact
  publication works on: the parent of the artifact directory as a tree of entries, with the
  system calls \<open>publication.py\<close> and \<open>staging.py\<close> make on it. Entries are addressed by path; a held
  descriptor is read through the name it was opened by. Each call may fail with an \<open>OSError\<close> or be the
  last one the process makes, as the script of the state says, and each call is atomic: the state a
  killed process leaves is the state before or after a call.
\<close>

section \<open>ArtifactContractError\<close>

datatype artifact_error_code =
    INVALID_SETTINGS | UNSAFE_TARGET | EXISTING_TARGET | UNRECOGNIZED_TARGET | UNRECOGNIZED_ORPHAN_STAGE
  | MANIFEST_INVALID | SCHEMA_INVALID | CONFIG_INVALID | SERIALIZATION_FAILED | ROW_COUNT_MISMATCH
  | TABLE_SCHEMA_MISMATCH | SORT_KEY_MISMATCH | UNIQUE_KEY_MISMATCH | EXACT_LINK_CONFLICT | CHECKSUM_MISMATCH
  | DATABASE_VALIDATION_FAILED | REPRODUCIBILITY_MISMATCH | LOGICAL_HASH_MISMATCH | REPORT_MISMATCH
  | TIMESTAMP_MISMATCH | EXACT_TREE_MISMATCH | VERIFICATION_INCOMPLETE | LOCK_HELD | STAGING_CLEANUP_FAILED
  | PUBLICATION_ROLLBACK_FAILED | BACKUP_CLEANUP_FAILED_AFTER_PUBLISH | BASELINE_MISSING | BASELINE_ALREADY_EXISTS

record artifact_error =
  error_code :: artifact_error_code
  error_operation :: pystr
  error_target :: "pystr option"
  error_published :: bool
  error_context :: "(pystr \<times> pystr) list"

text \<open>
  What the modelled code raises and its handlers tell apart. \<open>File_not_found\<close> is an \<open>OSError\<close>;
  \<open>Lookup_failed\<close> stands for the \<open>KeyError\<close> and \<open>StopIteration\<close> of the stage cleanup.
\<close>

datatype file_error = File_not_found | Os_error | Type_error | Value_error | Lookup_failed | Contract artifact_error

fun is_os_error :: "file_error \<Rightarrow> bool" where
  "is_os_error File_not_found = True"
| "is_os_error Os_error = True"
| "is_os_error _ = False"

text \<open>\<open>except (OSError, TypeError, ValueError)\<close>\<close>

definition plain_error :: "file_error \<Rightarrow> bool" where
  "plain_error e \<longleftrightarrow> is_os_error e \<or> e = Type_error \<or> e = Value_error"

fun is_contract :: "file_error \<Rightarrow> bool" where
  "is_contract (Contract _) = True"
| "is_contract _ = False"

text \<open>\<open>except (ArtifactContractError, OSError, TypeError, ValueError)\<close>\<close>

definition guarded_error :: "file_error \<Rightarrow> bool" where
  "guarded_error e \<longleftrightarrow> is_contract e \<or> plain_error e"

definition is_alnum_ascii :: "nat \<Rightarrow> bool" where
  "is_alnum_ascii c \<longleftrightarrow> 48 \<le> c \<and> c \<le> 57 \<or> 65 \<le> c \<and> c \<le> 90 \<or> 97 \<le> c \<and> c \<le> 122"

text \<open>\<open>[A-Za-z0-9][A-Za-z0-9\_-]{0,127}\Z\<close>\<close>

definition operation_id_ok :: "pystr \<Rightarrow> bool" where
  "operation_id_ok s \<longleftrightarrow>
     s \<noteq> [] \<and> length s \<le> 128 \<and> is_alnum_ascii (hd s) \<and> list_all (\<lambda>c. is_alnum_ascii c \<or> c = 95 \<or> c = 45) (tl s)"

definition safe_basename :: "(nat \<Rightarrow> bool) \<Rightarrow> pystr \<Rightarrow> bool" where
  "safe_basename printable t \<longleftrightarrow>
     1 \<le> length t \<and> length t \<le> 128 \<and> list_all printable t \<and> t \<noteq> [46] \<and> t \<noteq> [46, 46] \<and> 47 \<notin> set t \<and> 92 \<notin> set t"

text \<open>The constructor: an unsafe operation id or target is a \<open>ValueError\<close> in place of the error meant.\<close>

definition artifact_contract_error ::
    "(nat \<Rightarrow> bool) \<Rightarrow> artifact_error_code \<Rightarrow> pystr \<Rightarrow> pystr option \<Rightarrow> bool \<Rightarrow> (pystr \<times> pystr) list \<Rightarrow> file_error" where
  "artifact_contract_error printable code operation_id target published context =
     (if \<not> operation_id_ok operation_id then Value_error
      else if (case target of None \<Rightarrow> False | Some t \<Rightarrow> \<not> safe_basename printable t) then Value_error
      else Contract \<lparr>error_code = code, error_operation = operation_id, error_target = target,
                     error_published = published, error_context = context\<rparr>)"

section \<open>Directory entries\<close>

text \<open>
  A regular file carries its inode, permission bits, link count and bytes; a directory its inode,
  permission bits and entries; every other kind of entry (link, device, pipe) only its inode.
\<close>

datatype node =
    Regular nat nat nat "nat list"
  | Directory nat nat "(pystr \<times> node) list"
  | Special nat

type_synonym dirents = "(pystr \<times> node) list"

fun node_at :: "dirents \<Rightarrow> pystr list \<Rightarrow> node option" where
  "node_at d [] = None"
| "node_at d [n] = map_of d n"
| "node_at d (n # p # ps) =
     (case map_of d n of Some (Directory i m c) \<Rightarrow> node_at c (p # ps) | _ \<Rightarrow> None)"

definition put_entry :: "pystr \<Rightarrow> node option \<Rightarrow> dirents \<Rightarrow> dirents" where
  "put_entry n v d = (case v of None \<Rightarrow> AList.delete n d | Some x \<Rightarrow> AList.update n x d)"

fun put_at :: "dirents \<Rightarrow> pystr list \<Rightarrow> node option \<Rightarrow> dirents" where
  "put_at d [] v = d"
| "put_at d [n] v = put_entry n v d"
| "put_at d (n # p # ps) v =
     (case map_of d n of
        Some (Directory i m c) \<Rightarrow> AList.update n (Directory i m (put_at c (p # ps) v)) d
      | _ \<Rightarrow> d)"

lemma map_of_put_entry [simp]: "map_of (put_entry n v d) = (map_of d)(n := v)"
  by (cases v) (simp_all add: put_entry_def delete_conv' update_conv')

lemma put_at_other: "k \<noteq> n \<Longrightarrow> map_of (put_at d (n # ps) v) k = map_of d k"
  by (cases ps) (auto simp: update_conv' split: option.splits node.splits)

section \<open>System calls\<close>

datatype fault = Fine | Fails | Kills | Short nat

record directory_state =
  entries :: dirents
  script :: "fault list"
  next_inode :: nat

abbreviation look :: "'z directory_state_scheme \<Rightarrow> pystr \<Rightarrow> node option" where
  "look s n \<equiv> map_of (entries s) n"

definition syscall :: "('z directory_state_scheme, file_error, 'a) prog \<Rightarrow> ('z directory_state_scheme, file_error, 'a) prog" where
  "syscall act = (\<lambda>s. case script s of
      [] \<Rightarrow> act s
    | Fails # fs \<Rightarrow> (Raised Os_error, s\<lparr>script := fs\<rparr>)
    | Kills # fs \<Rightarrow> (Killed, s\<lparr>script := fs\<rparr>)
    | _ # fs \<Rightarrow> act (s\<lparr>script := fs\<rparr>))"

definition os_stat :: "pystr list \<Rightarrow> ('z directory_state_scheme, file_error, node) prog" where
  "os_stat path = syscall (\<lambda>s. case node_at (entries s) path of
      None \<Rightarrow> (Raised File_not_found, s) | Some x \<Rightarrow> (Returned x, s))"

text \<open>\<open>os.open(name, os.O\_RDONLY | os.O\_NOFOLLOW)\<close>; with \<open>O\_DIRECTORY\<close> only directories open.\<close>

definition os_open :: "pystr list \<Rightarrow> ('z directory_state_scheme, file_error, node) prog" where
  "os_open path = syscall (\<lambda>s. case node_at (entries s) path of
      None \<Rightarrow> (Raised File_not_found, s) | Some (Special i) \<Rightarrow> (Raised Os_error, s) | Some x \<Rightarrow> (Returned x, s))"

definition os_open_directory :: "pystr list \<Rightarrow> ('z directory_state_scheme, file_error, unit) prog" where
  "os_open_directory path = syscall (\<lambda>s. case node_at (entries s) path of
      None \<Rightarrow> (Raised File_not_found, s) | Some (Directory i m c) \<Rightarrow> (Returned (), s) | _ \<Rightarrow> (Raised Os_error, s))"

text \<open>Opening the parent directory, which exists, and listing its names.\<close>

definition open_parent :: "('z directory_state_scheme, file_error, unit) prog" where
  "open_parent = syscall (\<lambda>s. (Returned (), s))"

definition scan_parent :: "('z directory_state_scheme, file_error, pystr list) prog" where
  "scan_parent = syscall (\<lambda>s. (Returned (map fst (entries s)), s))"

definition os_scandir :: "pystr list \<Rightarrow> ('z directory_state_scheme, file_error, pystr list) prog" where
  "os_scandir path = syscall (\<lambda>s. case node_at (entries s) path of
      Some (Directory i m c) \<Rightarrow> (Returned (map fst c), s) | _ \<Rightarrow> (Raised Os_error, s))"

definition os_unlink :: "pystr list \<Rightarrow> ('z directory_state_scheme, file_error, unit) prog" where
  "os_unlink path = syscall (\<lambda>s. case node_at (entries s) path of
      None \<Rightarrow> (Raised File_not_found, s)
    | Some (Directory i m c) \<Rightarrow> (Raised Os_error, s)
    | Some _ \<Rightarrow> (Returned (), s\<lparr>entries := put_at (entries s) path None\<rparr>))"

definition os_rmdir :: "pystr list \<Rightarrow> ('z directory_state_scheme, file_error, unit) prog" where
  "os_rmdir path = syscall (\<lambda>s. case node_at (entries s) path of
      None \<Rightarrow> (Raised File_not_found, s)
    | Some (Directory i m c) \<Rightarrow>
        (if c = [] then (Returned (), s\<lparr>entries := put_at (entries s) path None\<rparr>) else (Raised Os_error, s))
    | Some _ \<Rightarrow> (Raised Os_error, s))"

text \<open>
  \<open>rename(2)\<close> between names of the parent directory: an existing destination is replaced when both
  are files or the destination is an empty directory and the source a directory.
\<close>

fun replaceable :: "node \<Rightarrow> node option \<Rightarrow> bool" where
  "replaceable x None = True"
| "replaceable (Directory i m c) (Some (Directory j k d)) = (d = [])"
| "replaceable (Directory i m c) (Some y) = False"
| "replaceable x (Some (Directory j k d)) = False"
| "replaceable x (Some y) = True"

definition os_rename :: "pystr \<Rightarrow> pystr \<Rightarrow> ('z directory_state_scheme, file_error, unit) prog" where
  "os_rename a b = syscall (\<lambda>s. case look s a of
      None \<Rightarrow> (Raised File_not_found, s)
    | Some x \<Rightarrow>
        (if a = b then (Returned (), s)
         else if replaceable x (look s b)
         then (Returned (), s\<lparr>entries := put_entry b (Some x) (put_entry a None (entries s))\<rparr>)
         else (Raised Os_error, s)))"

text \<open>\<open>os.open(name, O\_WRONLY | O\_CREAT | O\_EXCL, 0o600)\<close>\<close>

definition os_create :: "pystr \<Rightarrow> ('z directory_state_scheme, file_error, unit) prog" where
  "os_create n = syscall (\<lambda>s. case look s n of
      Some x \<Rightarrow> (Raised Os_error, s)
    | None \<Rightarrow> (Returned (), s\<lparr>entries := put_entry n (Some (Regular (next_inode s) 384 1 [])) (entries s),
                              next_inode := Suc (next_inode s)\<rparr>))"

text \<open>\<open>os.write\<close> returns how many bytes it wrote: all of them, or fewer where the script says so.\<close>

definition append_bytes :: "pystr \<Rightarrow> nat list \<Rightarrow> 'z directory_state_scheme \<Rightarrow> 'z directory_state_scheme" where
  "append_bytes n bs s = (case look s n of
      Some (Regular i m l old) \<Rightarrow> s\<lparr>entries := put_entry n (Some (Regular i m l (old @ bs))) (entries s)\<rparr>
    | _ \<Rightarrow> s)"

definition os_write :: "pystr \<Rightarrow> nat list \<Rightarrow> ('z directory_state_scheme, file_error, nat) prog" where
  "os_write n bs = (\<lambda>s. case script s of
      Short k # fs \<Rightarrow> (Returned (min k (length bs)), append_bytes n (take k bs) (s\<lparr>script := fs\<rparr>))
    | _ \<Rightarrow> syscall (\<lambda>s. (Returned (length bs), append_bytes n bs s)) s)"

definition os_fsync :: "('z directory_state_scheme, file_error, unit) prog" where
  "os_fsync = syscall (\<lambda>s. (Returned (), s))"

text \<open>
  The loop \<open>while remaining: written = os.write(...); if written <= 0: raise; remaining = remaining[written:]\<close>.
\<close>

function write_all :: "pystr \<Rightarrow> nat list \<Rightarrow> ('z directory_state_scheme, file_error, unit) prog" where
  "write_all n bs s =
     (if bs = [] then (Returned (), s)
      else (case os_write n bs s of
          (Returned k, t) \<Rightarrow> (if k = 0 then (Raised Os_error, t) else write_all n (drop k bs) t)
        | (Raised e, t) \<Rightarrow> (Raised e, t)
        | (Killed, t) \<Rightarrow> (Killed, t)))"
  by auto

termination
  by (relation "measure (\<lambda>(n, bs, s). length bs)") auto

declare write_all.simps [simp del]

section \<open>What the calls do\<close>

text \<open>Two states that differ at most in what the operating system has still in store.\<close>

definition same :: "'z directory_state_scheme \<Rightarrow> 'z directory_state_scheme \<Rightarrow> bool" where
  "same s t \<longleftrightarrow> t\<lparr>script := []\<rparr> = s\<lparr>script := []\<rparr>"

lemma same_script [simp]: "same s (s\<lparr>script := fs\<rparr>)"
  by (simp add: same_def)

interpretation unchanged: stable_relation same
  by unfold_locales (simp_all add: same_def)

lemma sameE:
  assumes "same s t"
  obtains fs where "t = s\<lparr>script := fs\<rparr>"
proof -
  have "t = t\<lparr>script := script t\<rparr>" by simp
  also have "\<dots> = (t\<lparr>script := []\<rparr>)\<lparr>script := script t\<rparr>" by simp
  also have "\<dots> = (s\<lparr>script := []\<rparr>)\<lparr>script := script t\<rparr>" using assms unfolding same_def by (simp only:)
  also have "\<dots> = s\<lparr>script := script t\<rparr>" by simp
  finally show thesis by (rule that)
qed

lemma wp_syscall:
  assumes "\<And>fs. wp act Q E K (s\<lparr>script := fs\<rparr>)"
    and "\<And>fs. E Os_error (s\<lparr>script := fs\<rparr>)" and "\<And>fs. K (s\<lparr>script := fs\<rparr>)"
  shows "wp (syscall act) Q E K s"
proof (cases "script s")
  case Nil
  then have "s\<lparr>script := []\<rparr> = s" by simp
  with assms(1) [of "[]"] have "wp act Q E K s" by simp
  with Nil show ?thesis by (simp add: wp_def syscall_def)
next
  case (Cons f fs)
  with assms [of fs] show ?thesis by (cases f) (simp_all add: wp_def syscall_def)
qed

lemma wp_syscall_fine: "script s = [] \<Longrightarrow> wp (syscall act) Q E K s = wp act Q E K s"
  by (simp add: wp_def syscall_def)

lemma syscall_fine: "script s = [] \<Longrightarrow> syscall act s = act s"
  by (simp add: syscall_def)

lemma keeps_same_syscall: "keeps same act \<Longrightarrow> keeps same (syscall act)"
proof (rule keepsI)
  fix s
  assume "keeps same act"
  then show "wp (syscall act) (\<lambda>_. same s) (\<lambda>_. same s) (same s) s"
    by (intro wp_syscall) (auto intro: wp_conseq [OF keeps_wp] unchanged.trans_R [OF same_script])
qed

lemma quiet_calls:
  "keeps same (os_stat p)" "keeps same (os_open p)" "keeps same (os_open_directory p)" "keeps same open_parent"
  "keeps same scan_parent" "keeps same (os_scandir p)" "keeps same os_fsync"
  unfolding os_stat_def os_open_def os_open_directory_def open_parent_def scan_parent_def os_scandir_def os_fsync_def
  by (intro keeps_same_syscall; auto simp: keeps_def same_def split: option.splits node.splits)+

text \<open>A program that touches at most the entries \<open>N\<close> of the parent directory.\<close>

definition only_at :: "pystr set \<Rightarrow> 'z directory_state_scheme \<Rightarrow> 'z directory_state_scheme \<Rightarrow> bool" where
  "only_at N s t \<longleftrightarrow> (\<forall>n. n \<notin> N \<longrightarrow> look t n = look s n)"

interpretation frame: stable_relation "only_at N" for N
  by unfold_locales (simp_all add: only_at_def)

lemma same_only_at: "same s t \<Longrightarrow> only_at N s t"
  by (erule sameE) (simp add: only_at_def)

lemma keeps_weaken: "keeps R m \<Longrightarrow> (\<And>s t. R s t \<Longrightarrow> R' s t) \<Longrightarrow> keeps R' m"
  by (simp add: keeps_def)

lemma quiet_only_at: "keeps same m \<Longrightarrow> keeps (only_at N) m"
  by (erule keeps_weaken) (rule same_only_at)

lemma keeps_only_at_syscall:
  assumes "keeps (only_at N) act"
  shows "keeps (only_at N) (syscall act)"
proof (rule keepsI)
  fix s
  show "wp (syscall act) (\<lambda>_. only_at N s) (\<lambda>_. only_at N s) (only_at N s) s"
  proof (rule wp_syscall)
    fix fs
    show "wp act (\<lambda>_. only_at N s) (\<lambda>_. only_at N s) (only_at N s) (s\<lparr>script := fs\<rparr>)"
      by (rule wp_conseq [OF keeps_wp [OF assms]]) (simp_all add: only_at_def)
  qed (simp_all add: only_at_def)
qed

text \<open>System calls raise only what an \<open>except OSError\<close> catches.\<close>

lemma raises_syscall: "raises is_os_error act \<Longrightarrow> raises is_os_error (syscall act)"
  unfolding raises_def by (auto intro!: wp_syscall)

lemma raises_calls:
  "raises is_os_error (os_stat p)" "raises is_os_error (os_open p)" "raises is_os_error (os_open_directory p)"
  "raises is_os_error open_parent" "raises is_os_error scan_parent" "raises is_os_error (os_scandir p)"
  "raises is_os_error os_fsync" "raises is_os_error (os_unlink p)" "raises is_os_error (os_rmdir p)"
  "raises is_os_error (os_rename a b)" "raises is_os_error (os_create n)"
  unfolding os_stat_def os_open_def os_open_directory_def open_parent_def scan_parent_def os_scandir_def os_fsync_def
    os_unlink_def os_rmdir_def os_rename_def os_create_def
  by (intro raises_syscall; auto simp: raises_def wp_def split: option.splits node.splits)+

lemma raises_mono: "raises P m \<Longrightarrow> (\<And>e. P e \<Longrightarrow> P' e) \<Longrightarrow> raises P' m"
  by (auto simp: raises_def intro: wp_conseq)

lemma guarded_os: "is_os_error e \<Longrightarrow> guarded_error e"
  by (simp add: guarded_error_def plain_error_def)

lemmas raises_guarded_calls = raises_calls [THEN raises_mono [OF _ guarded_os]]

end
