(* ===== verification/Artifact_Publication.thy ===== *)
theory Artifact_Publication
  imports Artifact_Files
begin

text \<open>
  Publication of a verified artifact generation (\<open>data/artifacts/publication.py\<close>) and the custody
  of the staged generation it publishes (\<open>TransferredCandidateCustody\<close> of \<open>data/artifacts/staging.py\<close>).
  The state is the parent directory together with the fields of the three objects that act on it:
  the filesystem port, the custody behind the authorised stage, and the state machine. What
  \<open>ArtifactManifest.load\<close> and \<open>verify\<close> make of a directory is the parameter \<open>verify_tree\<close>.
\<close>

section \<open>Names and markers\<close>

definition str_endswith :: "pystr \<Rightarrow> pystr \<Rightarrow> bool" where
  "str_endswith s p = py_startswith (rev s) (rev p)"

definition str_removeprefix :: "pystr \<Rightarrow> pystr \<Rightarrow> pystr" where
  "str_removeprefix s p = (if py_startswith s p then drop (length p) s else s)"

definition str_removesuffix :: "pystr \<Rightarrow> pystr \<Rightarrow> pystr" where
  "str_removesuffix s p = (if p \<noteq> [] \<and> str_endswith s p then take (length s - length p) s else s)"

definition MARKER :: pystr where "MARKER = cp ''.marker''"

definition stage_prefix :: "pystr \<Rightarrow> pystr" where "stage_prefix t = [46] @ t @ cp ''.finproof-stage-''"
definition backup_prefix :: "pystr \<Rightarrow> pystr" where "backup_prefix t = [46] @ t @ cp ''.finproof-backup-''"
definition cleanup_prefix :: "pystr \<Rightarrow> pystr" where "cleanup_prefix t = [46] @ t @ cp ''.finproof-cleanup-''"

text \<open>\<open>len(operation) == 32 and all(character in "0123456789abcdef" ...)\<close>\<close>

definition operation_shape :: "pystr \<Rightarrow> bool" where
  "operation_shape s \<longleftrightarrow> length s = 32 \<and> list_all (\<lambda>c. 48 \<le> c \<and> c \<le> 57 \<or> 97 \<le> c \<and> c \<le> 102) s"

text \<open>\<open>json.dumps\<close> with its default \<open>ensure\_ascii=True\<close>.\<close>

definition hex4 :: "nat \<Rightarrow> pystr" where
  "hex4 c = map hex_digit [c div 4096 mod 16, c div 256 mod 16, c div 16 mod 16, c mod 16]"

definition ascii_escape :: "nat \<Rightarrow> pystr" where
  "ascii_escape c =
     (if c < 127 then json_escape c
      else if c < 65536 then [92, 117] @ hex4 c
      else [92, 117] @ hex4 (55296 + (c - 65536) div 1024) @ [92, 117] @ hex4 (56320 + (c - 65536) mod 1024))"

definition ascii_string :: "pystr \<Rightarrow> pystr" where
  "ascii_string s = [34] @ concat (map ascii_escape s) @ [34]"

definition marker_bytes :: "pystr \<Rightarrow> pystr \<Rightarrow> nat list" where
  "marker_bytes operation_id target =
     [123] @ py_join [44] (map (\<lambda>(k, v). ascii_string k @ [58] @ ascii_string v)
       [(cp ''artifact_contract_version'', cp ''1.0.0''),
        (cp ''artifact_set_id'', cp ''finproof-data-artifacts/v1''),
        (cp ''operation_id'', operation_id),
        (cp ''target_basename'', target)]) @ [125]"

section \<open>State\<close>

datatype publication_state =
    STAGE_VERIFIED | BACKUP_VERIFIED | TARGET_RENAMED_UNCOMMITTED | PUBLISHED | BACKUP_WITH_MARKER
  | BACKUP_WITH_PREPARED_TOMBSTONE_MARKER | TOMBSTONE_WITH_BOTH_MARKERS | BOTH_MARKERS_ONLY
  | BACKUP_MARKER_ONLY | NO_REMNANT

primrec publication_state_value :: "publication_state \<Rightarrow> pystr" where
  "publication_state_value STAGE_VERIFIED = cp ''stage_verified''"
| "publication_state_value BACKUP_VERIFIED = cp ''backup_verified''"
| "publication_state_value TARGET_RENAMED_UNCOMMITTED = cp ''target_renamed_uncommitted''"
| "publication_state_value PUBLISHED = cp ''published''"
| "publication_state_value BACKUP_WITH_MARKER = cp ''backup_with_marker''"
| "publication_state_value BACKUP_WITH_PREPARED_TOMBSTONE_MARKER = cp ''backup_with_prepared_tombstone_marker''"
| "publication_state_value TOMBSTONE_WITH_BOTH_MARKERS = cp ''tombstone_with_both_markers''"
| "publication_state_value BOTH_MARKERS_ONLY = cp ''both_markers_only''"
| "publication_state_value BACKUP_MARKER_ONLY = cp ''backup_marker_only''"
| "publication_state_value NO_REMNANT = cp ''no_remnant''"

text \<open>
  \<open>settings.artifact\_dir.name\<close>; the result of loading and verifying a directory, which is an
  \<open>ArtifactContractError\<close> or the paths of \<open>manifest.files\<close> with the \<open>VerifiedArtifactSet\<close>; and
  \<open>str.isprintable\<close> on one character.
\<close>

record 'v site =
  target_name :: pystr
  verify_tree :: "node \<Rightarrow> artifact_error + pystr list \<times> 'v"
  printable :: "nat \<Rightarrow> bool"

datatype custody_state = LIVE | TARGET_RENAMED | Custody_published | CLOSING | CLOSED

type_synonym leaf_id = "nat \<times> nat \<times> nat"

record parquet_leaf =
  leaf_name :: pystr
  leaf_created :: bool
  leaf_identity :: "leaf_id option"

record custody =
  custody_closed :: bool
  custody_state :: custody_state
  descriptors_open :: bool
  stage_name :: pystr
  marker_name :: pystr
  custody_target :: pystr
  stage_identity :: "nat \<times> nat"
  marker_identity :: leaf_id
  marker_payload :: "nat list"
  registered_stage_names :: "pystr list"
  registered_parquet_names :: "pystr list"
  leaf_objects :: "parquet_leaf list"
  database_leaf :: "(bool \<times> leaf_id option) option"
  final_leaf_identities :: "(pystr \<times> leaf_id) list"
  reports_identity :: "(nat \<times> nat) option"

record 'v publisher = directory_state +
  fs_expected :: "'v option"
  fs_operation_id :: "pystr option"
  fs_marker_payload :: "nat list option"
  fs_closed :: bool
  stage_custody :: custody
  receiver_closed :: bool
  receiver_transferred :: bool
  machine_state :: publication_state

type_synonym ('v, 'a) publishing = "('v publisher, file_error, 'a) prog"

definition contract_failure ::
    "'v site \<Rightarrow> artifact_error_code \<Rightarrow> pystr \<Rightarrow> bool \<Rightarrow> (pystr \<times> pystr) list \<Rightarrow> file_error" where
  "contract_failure S code operation published context =
     artifact_contract_error (printable S) code operation (Some (target_name S)) published context"

definition reason :: "string \<Rightarrow> (pystr \<times> pystr) list" where
  "reason r = [(cp ''reason'', cp r)]"

definition publish_failure :: "'v site \<Rightarrow> artifact_error_code \<Rightarrow> string \<Rightarrow> file_error" where
  "publish_failure S code r = contract_failure S code (cp ''publish-artifacts'') False (reason r)"

definition remnant_error :: "'v site \<Rightarrow> string \<Rightarrow> file_error" where
  "remnant_error S r = contract_failure S EXACT_TREE_MISMATCH (cp ''recover-published-artifacts'') False (reason r)"

section \<open>\_PublishedArtifactFilesystem\<close>

definition active_operation_id :: "'v site \<Rightarrow> ('v, pystr) publishing" where
  "active_operation_id S =
     seq open_parent (bind scan_parent (\<lambda>names.
       let prefix = stage_prefix (target_name S);
           operations = remdups (map (\<lambda>name. str_removesuffix (str_removeprefix name prefix) MARKER)
             (filter (\<lambda>name. py_startswith name prefix \<and> str_endswith name MARKER) names));
           valid = filter (\<lambda>operation. operation_shape operation \<and> prefix @ operation \<in> set names) operations
       in (case valid of
             [operation] \<Rightarrow>
               (if set valid = set operations then ret operation
                else throw (publish_failure S EXACT_TREE_MISMATCH ''active_stage_operation_is_ambiguous''))
           | _ \<Rightarrow> throw (publish_failure S EXACT_TREE_MISMATCH ''active_stage_operation_is_ambiguous''))))"

text \<open>The prefix a remnant name matched, with the operation read off it.\<close>

definition remnant_operation :: "'v site \<Rightarrow> pystr \<Rightarrow> pystr \<times> pystr" where
  "remnant_operation S name =
     (let prefix = (if py_startswith name (backup_prefix (target_name S)) then backup_prefix (target_name S)
                    else cleanup_prefix (target_name S))
      in (prefix, str_removesuffix (str_removeprefix name prefix) MARKER))"

definition remnant_name_ok :: "'v site \<Rightarrow> pystr \<Rightarrow> bool" where
  "remnant_name_ok S name =
     (case remnant_operation S name of (prefix, operation) \<Rightarrow>
        operation_shape operation \<and> name \<in> set [prefix @ operation, prefix @ operation @ MARKER])"

definition is_remnant :: "'v site \<Rightarrow> pystr \<Rightarrow> bool" where
  "is_remnant S name \<longleftrightarrow>
     py_startswith name (backup_prefix (target_name S)) \<or> py_startswith name (cleanup_prefix (target_name S))"

definition remnant_operation_id :: "'v site \<Rightarrow> ('v, pystr option) publishing" where
  "remnant_operation_id S =
     seq open_parent (bind scan_parent (\<lambda>names.
       let matching = filter (is_remnant S) names;
           operations = remdups (map (snd \<circ> remnant_operation S) matching)
       in if \<not> list_all (remnant_name_ok S) matching then throw (remnant_error S ''foreign_publication_remnant'')
          else (case operations of
              [] \<Rightarrow> ret None
            | [operation] \<Rightarrow>
                (if set matching \<subseteq> set [backup_prefix (target_name S) @ operation, backup_prefix (target_name S) @ operation @ MARKER,
                      cleanup_prefix (target_name S) @ operation, cleanup_prefix (target_name S) @ operation @ MARKER]
                 then ret (Some operation) else throw (remnant_error S ''foreign_publication_remnant''))
            | _ \<Rightarrow> throw (remnant_error S ''ambiguous_publication_remnant''))))"

definition publication_marker_payload :: "'v site \<Rightarrow> ('v, nat list) publishing" where
  "publication_marker_payload S =
     bind (reads fs_operation_id) (\<lambda>operation_id.
       case operation_id of None \<Rightarrow> throw Type_error | Some operation \<Rightarrow> ret (marker_bytes operation (target_name S)))"

definition require_marker_payload :: "('v, nat list) publishing" where
  "require_marker_payload =
     bind (reads fs_marker_payload) (\<lambda>payload. case payload of None \<Rightarrow> throw Type_error | Some bs \<Rightarrow> ret bs)"

fun marker_exact :: "nat list \<Rightarrow> node \<Rightarrow> bool" where
  "marker_exact payload (Regular i mode links bs) = (links = 1 \<and> mode = 384 \<and> take 4097 bs = payload)"
| "marker_exact payload _ = False"

definition verify_marker :: "'v site \<Rightarrow> pystr \<Rightarrow> ('v, unit) publishing" where
  "verify_marker S name =
     bind require_marker_payload (\<lambda>payload.
       catching plain_error
         (seq open_parent (bind (os_open [name]) (\<lambda>held. throw_if (\<not> marker_exact payload held) Value_error)))
         (\<lambda>_. throw (publish_failure S EXACT_TREE_MISMATCH ''publication_marker_changed'')))"

definition create_marker :: "'v site \<Rightarrow> pystr \<Rightarrow> ('v, unit) publishing" where
  "create_marker S name =
     bind require_marker_payload (\<lambda>payload.
       seq (catching plain_error (seq open_parent (os_create name))
             (\<lambda>_. throw (publish_failure S EXACT_TREE_MISMATCH ''publication_marker_create_failed'')))
           (catching plain_error (seq (write_all name payload) os_fsync)
             (\<lambda>_. seq (catching is_os_error (seq open_parent (os_unlink [name])) (\<lambda>_. ret ()))
                       (throw (publish_failure S EXACT_TREE_MISMATCH ''publication_marker_create_failed'')))))"

definition require_operation_id :: "'v site \<Rightarrow> ('v, pystr) publishing" where
  "require_operation_id S =
     bind (reads fs_operation_id) (\<lambda>known.
       case known of
         Some operation \<Rightarrow> ret operation
       | None \<Rightarrow>
           bind (active_operation_id S) (\<lambda>operation.
           seq (modify (\<lambda>s. s\<lparr>fs_operation_id := Some operation\<rparr>))
           (bind (publication_marker_payload S) (\<lambda>payload.
           seq (modify (\<lambda>s. s\<lparr>fs_marker_payload := Some payload\<rparr>))
           (seq (verify_marker S (stage_prefix (target_name S) @ operation @ MARKER))
           (ret operation))))))"

definition backup_name :: "'v site \<Rightarrow> ('v, pystr) publishing" where
  "backup_name S = bind (require_operation_id S) (\<lambda>operation. ret (backup_prefix (target_name S) @ operation))"

definition backup_marker_name :: "'v site \<Rightarrow> ('v, pystr) publishing" where
  "backup_marker_name S = bind (backup_name S) (\<lambda>name. ret (name @ MARKER))"

definition tombstone_name :: "'v site \<Rightarrow> ('v, pystr) publishing" where
  "tombstone_name S = bind (require_operation_id S) (\<lambda>operation. ret (cleanup_prefix (target_name S) @ operation))"

definition tombstone_marker_name :: "'v site \<Rightarrow> ('v, pystr) publishing" where
  "tombstone_marker_name S = bind (tombstone_name S) (\<lambda>name. ret (name @ MARKER))"

text \<open>
  \<open>ArtifactManifest.load\<close> and \<open>verify\<close> of a named directory, then the comparison with the expected
  generation, which the first verified one becomes when none is expected. Any failing read is an
  \<open>ArtifactContractError\<close>; only the state machine constructs errors marked as published.
\<close>

definition manifest_failure :: "'v site \<Rightarrow> file_error" where
  "manifest_failure S =
     artifact_contract_error (printable S) MANIFEST_INVALID (cp ''load-artifact-manifest'') None False (reason ''invalid_manifest'')"

definition load_and_verify :: "'v site \<Rightarrow> pystr \<Rightarrow> ('v, pystr list \<times> 'v) publishing" where
  "load_and_verify S name =
     bind (catching is_os_error (os_stat [name]) (\<lambda>_. throw (manifest_failure S))) (\<lambda>tree.
       case verify_tree S tree of Inl e \<Rightarrow> throw (Contract (e\<lparr>error_published := False\<rparr>)) | Inr found \<Rightarrow> ret found)"

definition verify_named_artifact :: "'v site \<Rightarrow> pystr \<Rightarrow> ('v, pystr list) publishing" where
  "verify_named_artifact S name =
     bind (load_and_verify S name) (\<lambda>(files, verified).
     bind (reads fs_expected) (\<lambda>expected.
       case expected of
         None \<Rightarrow> seq (modify (\<lambda>s. s\<lparr>fs_expected := Some verified\<rparr>)) (ret files)
       | Some v \<Rightarrow>
           (if verified \<noteq> v
            then throw (contract_failure S REPRODUCIBILITY_MISMATCH (cp ''verify-published-artifacts'') False [])
            else ret files)))"

definition named_exists :: "pystr \<Rightarrow> ('v, bool) publishing" where
  "named_exists name =
     catching (\<lambda>e. e = File_not_found) (seq open_parent (seq (os_stat [name]) (ret True))) (\<lambda>_. ret False)"

definition target_exists :: "'v site \<Rightarrow> ('v, bool) publishing" where
  "target_exists S = named_exists (target_name S)"

definition verify_target :: "'v site \<Rightarrow> ('v, unit) publishing" where
  "verify_target S = seq (verify_named_artifact S (target_name S)) (ret ())"

definition recognize_target :: "'v site \<Rightarrow> ('v, unit) publishing" where
  "recognize_target S =
     catching is_contract (verify_target S)
       (\<lambda>_. throw (publish_failure S UNRECOGNIZED_TARGET ''existing_target_is_not_expected''))"

definition rename_target_to_backup :: "'v site \<Rightarrow> ('v, unit) publishing" where
  "rename_target_to_backup S =
     seq (recognize_target S)
     (bind (backup_marker_name S) (\<lambda>marker.
      seq (create_marker S marker)
      (catching is_os_error
        (seq open_parent (bind (backup_name S) (os_rename (target_name S))))
        (\<lambda>_. bind (backup_marker_name S) (\<lambda>marker.
             seq (verify_marker S marker)
             (seq (seq open_parent (os_unlink [marker]))
             (throw (publish_failure S EXACT_TREE_MISMATCH ''target_to_backup_rename_failed''))))))))"

definition verify_backup :: "'v site \<Rightarrow> ('v, unit) publishing" where
  "verify_backup S =
     seq (bind (backup_marker_name S) (verify_marker S))
     (seq (bind (backup_name S) (verify_named_artifact S)) (ret ()))"

definition restore_backup_to_target :: "'v site \<Rightarrow> ('v, unit) publishing" where
  "restore_backup_to_target S =
     seq (verify_backup S)
     (seq (seq open_parent
          (seq (bind (catching (\<lambda>e. e = File_not_found) (seq (os_stat [target_name S]) (ret True)) (\<lambda>_. ret False))
                 (\<lambda>present. throw_if present (publish_failure S PUBLICATION_ROLLBACK_FAILED ''target_exists_before_backup_restore'')))
          (bind (backup_name S) (\<lambda>name. os_rename name (target_name S)))))
     (seq (verify_target S)
     (bind (backup_marker_name S) (\<lambda>marker.
      seq (verify_marker S marker)
      (seq open_parent (os_unlink [marker]))))))"

definition prepare_tombstone_marker :: "'v site \<Rightarrow> ('v, unit) publishing" where
  "prepare_tombstone_marker S = bind (tombstone_marker_name S) (create_marker S)"

definition rename_backup_to_tombstone :: "'v site \<Rightarrow> ('v, unit) publishing" where
  "rename_backup_to_tombstone S =
     seq (verify_backup S)
     (seq (bind (tombstone_marker_name S) (verify_marker S))
     (seq open_parent
     (bind (backup_name S) (\<lambda>backup. bind (tombstone_name S) (os_rename backup)))))"

definition unlink_marker :: "'v site \<Rightarrow> pystr \<Rightarrow> ('v, unit) publishing" where
  "unlink_marker S marker = seq (verify_marker S marker) (seq open_parent (os_unlink [marker]))"

definition unlink_tombstone_marker :: "'v site \<Rightarrow> ('v, unit) publishing" where
  "unlink_tombstone_marker S = bind (tombstone_marker_name S) (unlink_marker S)"

definition unlink_backup_marker :: "'v site \<Rightarrow> ('v, unit) publishing" where
  "unlink_backup_marker S = bind (backup_marker_name S) (unlink_marker S)"

subsection \<open>delete\_tombstone\<close>

fun inode :: "node \<Rightarrow> nat" where
  "inode (Regular i m l bs) = i"
| "inode (Directory i m c) = i"
| "inode (Special i) = i"

fun single_regular :: "node \<Rightarrow> bool" where
  "single_regular (Regular i m links bs) = (links = 1)"
| "single_regular _ = False"

text \<open>\<open>PurePosixPath(path).parts\<close>\<close>

definition path_parts :: "pystr \<Rightarrow> pystr list" where
  "path_parts p =
     (if py_startswith p [47] then [[47]] else []) @ filter (\<lambda>part. part \<noteq> [] \<and> part \<noteq> [46]) (py_split 47 p)"

text \<open>The leaves of the root and of each directory that the manifest declares.\<close>

fun declared_leaves :: "pystr list \<Rightarrow> pystr list \<times> (pystr \<times> pystr list) list \<Rightarrow> (pystr list \<times> (pystr \<times> pystr list) list) option" where
  "declared_leaves [] (leaves, nested) = Some (leaves, nested)"
| "declared_leaves (p # ps) (leaves, nested) =
     (case path_parts p of
        [leaf] \<Rightarrow> declared_leaves ps (List.insert leaf leaves, nested)
      | [directory, leaf] \<Rightarrow> declared_leaves ps (leaves, setdefault_append nested directory leaf)
      | _ \<Rightarrow> None)"

definition require_held_tombstone :: "pystr \<Rightarrow> nat \<Rightarrow> ('v, unit) publishing" where
  "require_held_tombstone tombstone held =
     bind (os_stat [tombstone]) (\<lambda>named. throw_if (inode named \<noteq> held) Value_error)"

definition unlink_leaf :: "pystr \<Rightarrow> nat \<Rightarrow> pystr list \<Rightarrow> ('v, unit) publishing" where
  "unlink_leaf tombstone held path =
     bind (os_stat path) (\<lambda>metadata.
     seq (throw_if (\<not> single_regular metadata) Value_error)
     (seq (require_held_tombstone tombstone held) (os_unlink path)))"

definition delete_directory :: "pystr \<Rightarrow> nat \<Rightarrow> pystr \<times> pystr list \<Rightarrow> ('v, unit) publishing" where
  "delete_directory tombstone held = (\<lambda>(directory, leaves).
     seq (require_held_tombstone tombstone held)
     (seq (os_open_directory [tombstone, directory])
     (seq (bind (os_scandir [tombstone, directory]) (\<lambda>names. throw_if (set names \<noteq> set leaves) Value_error))
     (seq (for_each (\<lambda>leaf. unlink_leaf tombstone held [tombstone, directory, leaf]) (sort (remdups leaves)))
     (seq (require_held_tombstone tombstone held) (os_rmdir [tombstone, directory]))))))"

definition delete_declared :: "pystr \<Rightarrow> nat \<Rightarrow> pystr list \<times> (pystr \<times> pystr list) list \<Rightarrow> ('v, unit) publishing" where
  "delete_declared tombstone held = (\<lambda>(root_leaves, nested).
     seq (bind (os_scandir [tombstone]) (\<lambda>observed.
          throw_if (set observed \<noteq> set root_leaves \<union> set (map fst nested)) Value_error))
     (seq (for_each (delete_directory tombstone held) (sort_key fst nested))
     (seq (for_each (\<lambda>leaf. unlink_leaf tombstone held [tombstone, leaf]) (sort root_leaves))
     (seq (require_held_tombstone tombstone held) (os_rmdir [tombstone])))))"

definition delete_verified :: "'v site \<Rightarrow> pystr \<Rightarrow> nat \<Rightarrow> ('v, unit) publishing" where
  "delete_verified S tombstone held =
     bind (verify_named_artifact S tombstone) (\<lambda>files.
     seq (bind (backup_marker_name S) (verify_marker S))
     (seq (bind (tombstone_marker_name S) (verify_marker S))
     (seq (require_held_tombstone tombstone held)
     (case declared_leaves files ([cp ''manifest.json''], []) of
        None \<Rightarrow> throw Value_error
      | Some declared \<Rightarrow> delete_declared tombstone held declared))))"

definition delete_tombstone :: "'v site \<Rightarrow> ('v, unit) publishing" where
  "delete_tombstone S =
     seq open_parent
     (bind (tombstone_name S) (\<lambda>tombstone.
      bind (os_open [tombstone]) (\<lambda>opened.
      case opened of
        Directory held m c \<Rightarrow>
          catching plain_error (delete_verified S tombstone held)
           (\<lambda>_. throw (publish_failure S EXACT_TREE_MISMATCH ''tombstone_delete_failed''))
      | _ \<Rightarrow> throw Os_error)))"

subsection \<open>remnant\_state\<close>

definition fs_assert_live :: "'v site \<Rightarrow> ('v, unit) publishing" where
  "fs_assert_live S =
     bind (reads fs_closed) (\<lambda>closed. throw_if closed
       (contract_failure S VERIFICATION_INCOMPLETE (cp ''recover-published-artifacts'') False (reason ''publication_recovery_is_closed'')))"

definition fs_close :: "('v, unit) publishing" where
  "fs_close = modify (\<lambda>s. s\<lparr>fs_closed := True\<rparr>)"

fun observed_state :: "bool \<times> bool \<times> bool \<times> bool \<Rightarrow> publication_state option" where
  "observed_state (True, False, True, False) = Some BACKUP_WITH_MARKER"
| "observed_state (True, False, True, True) = Some BACKUP_WITH_PREPARED_TOMBSTONE_MARKER"
| "observed_state (False, True, True, True) = Some TOMBSTONE_WITH_BOTH_MARKERS"
| "observed_state (False, False, True, True) = Some BOTH_MARKERS_ONLY"
| "observed_state (False, False, True, False) = Some BACKUP_MARKER_ONLY"
| "observed_state _ = None"

definition when_do :: "bool \<Rightarrow> ('v, unit) publishing \<Rightarrow> ('v, unit) publishing" where
  "when_do b m = (if b then m else ret ())"

definition classify_remnant :: "'v site \<Rightarrow> ('v, publication_state) publishing" where
  "classify_remnant S =
     bind (backup_name S) (\<lambda>backup_at. bind (named_exists backup_at) (\<lambda>backup.
     bind (tombstone_name S) (\<lambda>tombstone_at. bind (named_exists tombstone_at) (\<lambda>tombstone.
     bind (backup_marker_name S) (\<lambda>backup_marker_at. bind (named_exists backup_marker_at) (\<lambda>backup_marker.
     bind (tombstone_marker_name S) (\<lambda>tombstone_marker_at. bind (named_exists tombstone_marker_at) (\<lambda>tombstone_marker.
       case observed_state (backup, tombstone, backup_marker, tombstone_marker) of
         None \<Rightarrow> throw (remnant_error S ''ambiguous_publication_remnant'')
       | Some state \<Rightarrow>
           seq (when_do backup_marker (verify_marker S backup_marker_at))
           (seq (when_do tombstone_marker (verify_marker S tombstone_marker_at))
           (seq (when_do backup (seq (verify_named_artifact S backup_at) (ret ())))
           (seq (when_do tombstone (seq (verify_named_artifact S tombstone_at) (ret ())))
           (ret state))))))))))))"

definition remnant_state :: "'v site \<Rightarrow> ('v, publication_state) publishing" where
  "remnant_state S =
     bind (reads fs_operation_id) (\<lambda>known.
       if known = None then
         bind (remnant_operation_id S) (\<lambda>found.
         seq (modify (\<lambda>s. s\<lparr>fs_operation_id := found\<rparr>))
         (if found = None then ret NO_REMNANT
          else bind (publication_marker_payload S) (\<lambda>payload.
               seq (modify (\<lambda>s. s\<lparr>fs_marker_payload := Some payload\<rparr>)) (classify_remnant S))))
       else classify_remnant S)"

text \<open>\<open>\_for\_recovery\<close>: a fresh filesystem port over the same directory.\<close>

definition for_recovery :: "'v site \<Rightarrow> ('v, unit) publishing" where
  "for_recovery S =
     seq (modify (\<lambda>s. s\<lparr>fs_expected := None, fs_closed := False\<rparr>))
     (bind (remnant_operation_id S) (\<lambda>found.
      seq (modify (\<lambda>s. s\<lparr>fs_operation_id := found\<rparr>))
      (if found = None then modify (\<lambda>s. s\<lparr>fs_marker_payload := None\<rparr>)
       else bind (publication_marker_payload S) (\<lambda>payload. modify (\<lambda>s. s\<lparr>fs_marker_payload := Some payload\<rparr>)))))"

section \<open>The staged generation\<close>

definition staging_error :: "'v site \<Rightarrow> string \<Rightarrow> file_error" where
  "staging_error S r = artifact_contract_error (printable S) STAGING_CLEANUP_FAILED (cp ''build-session'') None False (reason r)"

definition directory_identity :: "node \<Rightarrow> ('v, nat \<times> nat) publishing" where
  "directory_identity x = (case x of Directory i m c \<Rightarrow> ret (i, m) | _ \<Rightarrow> throw Value_error)"

definition leaf_identity_of :: "node \<Rightarrow> ('v, leaf_id) publishing" where
  "leaf_identity_of x =
     (case x of Regular i m links bs \<Rightarrow> (if links = 1 then ret (i, m, links) else throw Value_error) | _ \<Rightarrow> throw Value_error)"

fun file_bytes :: "node \<Rightarrow> nat list" where
  "file_bytes (Regular i m l bs) = bs"
| "file_bytes _ = []"

definition read_bounded :: "node \<Rightarrow> ('v, nat list) publishing" where
  "read_bounded x = seq (throw_if (16384 < length (file_bytes x)) Value_error) (ret (file_bytes x))"

text \<open>\<open>os.fstat\<close> on the held stage descriptor, which is closed once the transfer has finished.\<close>

definition require_descriptors :: "('v, unit) publishing" where
  "require_descriptors = bind (reads stage_custody) (\<lambda>held. throw_if (\<not> descriptors_open held) Os_error)"

definition require_session_generation :: "('v, unit) publishing" where
  "require_session_generation =
     bind (reads stage_custody) (\<lambda>held.
     bind (os_stat [stage_name held]) (\<lambda>stage_named.
     bind (os_stat [marker_name held]) (\<lambda>marker_named.
     seq require_descriptors
     (bind (directory_identity stage_named) (\<lambda>stage_id.
     bind (leaf_identity_of marker_named) (\<lambda>marker_id.
     seq (throw_if (stage_id \<noteq> stage_identity held \<or> marker_id \<noteq> marker_identity held) Value_error)
     (bind (os_open [marker_name held]) (\<lambda>opened.
     bind (leaf_identity_of opened) (\<lambda>opened_id.
     seq (throw_if (opened_id \<noteq> marker_identity held) Value_error)
     (bind (read_bounded opened) (\<lambda>payload.
     bind (os_stat [marker_name held]) (\<lambda>marker_after.
     bind (leaf_identity_of marker_after) (\<lambda>after_id.
     seq (throw_if (after_id \<noteq> marker_identity held \<or> payload \<noteq> marker_payload held) Value_error)
     (bind (os_scandir [stage_name held]) (\<lambda>stage_names.
     bind (os_scandir [stage_name held, cp ''parquet'']) (\<lambda>parquet_names.
     throw_if (set stage_names \<noteq> set (registered_stage_names held) \<or>
               set parquet_names \<noteq> set (registered_parquet_names held)) Value_error))))))))))))))))"

definition custody_assert_live :: "'v site \<Rightarrow> ('v, unit) publishing" where
  "custody_assert_live S =
     catching plain_error
       (bind (reads stage_custody) (\<lambda>held.
        seq (throw_if (custody_closed held \<or> custody_state held \<noteq> LIVE) Value_error) require_session_generation))
       (\<lambda>_. throw (staging_error S ''transferred_candidate_custody_not_live''))"

definition set_custody_state :: "custody_state \<Rightarrow> ('v, unit) publishing" where
  "set_custody_state c = modify (\<lambda>s. s\<lparr>stage_custody := (stage_custody s)\<lparr>custody_state := c\<rparr>\<rparr>)"

definition custody_rename_stage_to_target :: "'v site \<Rightarrow> ('v, unit) publishing" where
  "custody_rename_stage_to_target S =
     seq (custody_assert_live S)
     (bind (reads stage_custody) (\<lambda>held.
      catching is_os_error
        (seq (os_rename (stage_name held) (custody_target held)) (set_custody_state TARGET_RENAMED))
        (\<lambda>_. throw (staging_error S ''stage_to_target_rename_failed''))))"

definition require_target_renamed :: "('v, custody) publishing" where
  "require_target_renamed =
     bind (reads stage_custody) (\<lambda>held.
     seq (throw_if (custody_closed held \<or> custody_state held \<noteq> TARGET_RENAMED) Value_error)
     (bind (os_stat [custody_target held]) (\<lambda>named.
     bind (directory_identity named) (\<lambda>named_id.
     seq (throw_if (named_id \<noteq> stage_identity held) Value_error) (ret held)))))"

definition custody_rollback_target_to_stage :: "'v site \<Rightarrow> ('v, unit) publishing" where
  "custody_rollback_target_to_stage S =
     catching guarded_error
       (bind require_target_renamed (\<lambda>held.
        seq (os_rename (custody_target held) (stage_name held))
        (seq (set_custody_state LIVE) (custody_assert_live S))))
       (\<lambda>_. throw (staging_error S ''target_to_stage_rollback_failed''))"

text \<open>
  \<open>\_finish\_publication\_transfer\<close>: the stage descriptors are closed, then the lock is released, which
  may fail, and only then is the custody closed.
\<close>

definition finish_publication_transfer :: "('v, unit) publishing" where
  "finish_publication_transfer =
     seq (modify (\<lambda>s. s\<lparr>stage_custody := (stage_custody s)\<lparr>descriptors_open := False\<rparr>\<rparr>))
     (seq (syscall (ret ()))
     (modify (\<lambda>s. s\<lparr>stage_custody := (stage_custody s)\<lparr>custody_state := Custody_published, custody_closed := True\<rparr>\<rparr>)))"

definition custody_commit :: "'v site \<Rightarrow> ('v, unit) publishing" where
  "custody_commit S =
     seq (catching plain_error
       (bind require_target_renamed (\<lambda>held.
        bind (os_open [marker_name held]) (\<lambda>opened.
        bind (leaf_identity_of opened) (\<lambda>opened_id.
        seq (throw_if (opened_id \<noteq> marker_identity held) Value_error)
        (bind (read_bounded opened) (\<lambda>payload.
        seq (throw_if (payload \<noteq> marker_payload held) Value_error)
        (os_unlink [marker_name held])))))))
       (\<lambda>_. throw (staging_error S ''stage_marker_commit_failed'')))
     finish_publication_transfer"

subsection \<open>Discarding it\<close>

definition lookup_or_fail :: "(pystr \<times> 'a) list \<Rightarrow> pystr \<Rightarrow> ('v, 'a) publishing" where
  "lookup_or_fail kvs k = (case map_of kvs k of None \<Rightarrow> throw Lookup_failed | Some v \<Rightarrow> ret v)"

definition require_leaf :: "pystr list \<Rightarrow> leaf_id \<Rightarrow> file_error \<Rightarrow> ('v, unit) publishing" where
  "require_leaf path identity e =
     bind (os_stat path) (\<lambda>named. bind (leaf_identity_of named) (\<lambda>found. throw_if (found \<noteq> identity) e))"

definition path_leaf_name :: "pystr \<Rightarrow> pystr" where
  "path_leaf_name p = (case rev (path_parts p) of [] \<Rightarrow> [] | n # _ \<Rightarrow> n)"

definition report_paths :: "custody \<Rightarrow> pystr list" where
  "report_paths held = filter (\<lambda>p. py_startswith p (cp ''reports/'')) (map fst (final_leaf_identities held))"

definition validate_owned_final_artifacts :: "('v, unit) publishing" where
  "validate_owned_final_artifacts =
     bind (reads stage_custody) (\<lambda>held.
     let stage = stage_name held in
     seq (if report_paths held \<noteq> [] then
            (case reports_identity held of
               None \<Rightarrow> throw Value_error
             | Some identity \<Rightarrow>
                 bind (os_stat [stage, cp ''reports'']) (\<lambda>named.
                 bind (directory_identity named) (\<lambda>found.
                 seq (throw_if (found \<noteq> identity) Value_error)
                 (seq (os_open_directory [stage, cp ''reports''])
                 (bind (os_scandir [stage, cp ''reports'']) (\<lambda>observed.
                 seq (throw_if (set observed \<noteq> set (map path_leaf_name (report_paths held))) Value_error)
                 (for_each (\<lambda>p. bind (lookup_or_fail (final_leaf_identities held) p)
                     (\<lambda>identity. require_leaf [stage, cp ''reports'', path_leaf_name p] identity Value_error))
                   (report_paths held))))))))
          else throw_if (reports_identity held \<noteq> None) Value_error)
     (case map_of (final_leaf_identities held) (cp ''manifest.json'') of
        None \<Rightarrow> ret ()
      | Some identity \<Rightarrow> require_leaf [stage, cp ''manifest.json''] identity Value_error))"

fun created_leaves :: "'v site \<Rightarrow> pystr \<Rightarrow> parquet_leaf list \<Rightarrow> pystr list \<Rightarrow> ('v, pystr list) publishing" where
  "created_leaves S stage [] seen = ret seen"
| "created_leaves S stage (leaf # leaves) seen =
     (if \<not> leaf_created leaf then created_leaves S stage leaves seen
      else (case leaf_identity leaf of
          None \<Rightarrow> throw (staging_error S ''candidate_leaf_registry_invalid'')
        | Some identity \<Rightarrow>
            seq (throw_if (leaf_name leaf \<in> set seen) (staging_error S ''candidate_leaf_registry_invalid''))
            (seq (require_leaf [stage, cp ''parquet'', leaf_name leaf] identity (staging_error S ''candidate_parquet_leaf_changed''))
            (created_leaves S stage leaves (seen @ [leaf_name leaf])))))"

definition require_exact_candidate_children :: "'v site \<Rightarrow> ('v, unit) publishing" where
  "require_exact_candidate_children S =
     seq validate_owned_final_artifacts
     (bind (reads stage_custody) (\<lambda>held.
      let stage = stage_name held;
          database_created = (case database_leaf held of Some (True, _) \<Rightarrow> True | _ \<Rightarrow> False);
          expected_stage_names = [cp ''parquet''] @ (if reports_identity held \<noteq> None then [cp ''reports''] else [])
            @ (if cp ''manifest.json'' \<in> set (map fst (final_leaf_identities held)) then [cp ''manifest.json''] else [])
            @ (if database_created then [cp ''finproof.duckdb''] else [])
      in bind (created_leaves S stage (leaf_objects held) []) (\<lambda>expected_parquet.
         seq (throw_if (set expected_parquet \<noteq> set (registered_parquet_names held)) (staging_error S ''candidate_parquet_registry_mismatch''))
         (seq (case database_leaf held of
                 Some (True, None) \<Rightarrow> throw (staging_error S ''candidate_database_registry_invalid'')
               | Some (True, Some identity) \<Rightarrow>
                   require_leaf [stage, cp ''finproof.duckdb''] identity (staging_error S ''candidate_database_leaf_changed'')
               | _ \<Rightarrow> ret ())
         (throw_if (set expected_stage_names \<noteq> set (registered_stage_names held)) (staging_error S ''candidate_stage_registry_mismatch''))))))"

definition unregister_final :: "pystr \<Rightarrow> ('v, unit) publishing" where
  "unregister_final p = modify (\<lambda>s. s\<lparr>stage_custody := (stage_custody s)\<lparr>
     final_leaf_identities := AList.delete p (final_leaf_identities (stage_custody s))\<rparr>\<rparr>)"

definition unregister_stage_name :: "pystr \<Rightarrow> ('v, unit) publishing" where
  "unregister_stage_name n =
     bind (reads stage_custody) (\<lambda>held.
     seq (throw_if (n \<notin> set (registered_stage_names held)) Lookup_failed)
     (modify (\<lambda>s. s\<lparr>stage_custody := (stage_custody s)\<lparr>
        registered_stage_names := removeAll n (registered_stage_names (stage_custody s))\<rparr>\<rparr>)))"

definition remove_owned_final_artifacts :: "('v, unit) publishing" where
  "remove_owned_final_artifacts =
     seq validate_owned_final_artifacts
     (bind (reads stage_custody) (\<lambda>held.
      let stage = stage_name held in
      seq (when_do (report_paths held \<noteq> [])
            (seq (os_open_directory [stage, cp ''reports''])
            (seq (for_each (\<lambda>p. seq (os_unlink [stage, cp ''reports'', path_leaf_name p]) (unregister_final p))
                   (sort (report_paths held)))
            (seq (os_rmdir [stage, cp ''reports''])
            (seq (unregister_stage_name (cp ''reports''))
            (modify (\<lambda>s. s\<lparr>stage_custody := (stage_custody s)\<lparr>reports_identity := None\<rparr>\<rparr>)))))))
      (when_do (cp ''manifest.json'' \<in> set (map fst (final_leaf_identities held)))
        (seq (os_unlink [stage, cp ''manifest.json''])
        (seq (unregister_final (cp ''manifest.json'')) (unregister_stage_name (cp ''manifest.json'')))))))"

text \<open>The registered leaf of a name, as \<open>next(value for value in owner.\_leaf\_objects.values() if ...)\<close>.\<close>

definition unlink_candidate_leaf :: "custody \<Rightarrow> pystr \<Rightarrow> ('v, unit) publishing" where
  "unlink_candidate_leaf held name =
     (case next_or_none (\<lambda>leaf. leaf_name leaf = name) (leaf_objects held) of
        None \<Rightarrow> throw Lookup_failed
      | Some leaf \<Rightarrow>
          bind (os_stat [stage_name held, cp ''parquet'', name]) (\<lambda>named.
          bind (leaf_identity_of named) (\<lambda>found.
          seq (throw_if (Some found \<noteq> leaf_identity leaf) Value_error)
          (os_unlink [stage_name held, cp ''parquet'', name]))))"

definition remove_candidate :: "('v, unit) publishing" where
  "remove_candidate =
     seq remove_owned_final_artifacts
     (bind (reads stage_custody) (\<lambda>held.
      seq (for_each (unlink_candidate_leaf held) (sort (remdups (registered_parquet_names held))))
      (seq (case database_leaf held of
              Some (True, identity) \<Rightarrow>
                bind (os_stat [stage_name held, cp ''finproof.duckdb'']) (\<lambda>named.
                bind (leaf_identity_of named) (\<lambda>found.
                seq (throw_if (Some found \<noteq> identity) Value_error)
                (seq (os_unlink [stage_name held, cp ''finproof.duckdb'']) (unregister_stage_name (cp ''finproof.duckdb'')))))
            | _ \<Rightarrow> ret ())
      (seq (os_rmdir [stage_name held, cp ''parquet''])
      (seq (unregister_stage_name (cp ''parquet''))
      (seq (os_rmdir [stage_name held]) (os_unlink [marker_name held])))))))"

definition discard_exact_candidate :: "'v site \<Rightarrow> string \<Rightarrow> ('v, unit) publishing" where
  "discard_exact_candidate S r =
     seq (custody_assert_live S)
     (seq (catching (\<lambda>e. \<not> is_contract e) (require_exact_candidate_children S)
            (\<lambda>_. throw (staging_error S ''candidate_discard_preflight_failed'')))
     (seq (set_custody_state CLOSING)
     (bind (finally_do (catching (\<lambda>_. True) (seq remove_candidate (ret False)) (\<lambda>_. ret True))
              (modify (\<lambda>s. s\<lparr>stage_custody := (stage_custody s)\<lparr>descriptors_open := False, custody_closed := True, custody_state := CLOSED\<rparr>\<rparr>)))
       (\<lambda>failed. throw_if failed (staging_error S r)))))"

definition custody_close :: "'v site \<Rightarrow> ('v, unit) publishing" where
  "custody_close S =
     bind (reads stage_custody) (\<lambda>held.
       if custody_closed held then ret ()
       else if custody_state held = LIVE
       then discard_exact_candidate S ''transferred_candidate_custody_cleanup_failed''
       else modify (\<lambda>s. s\<lparr>stage_custody := (stage_custody s)\<lparr>descriptors_open := False, custody_closed := True\<rparr>\<rparr>))"

subsection \<open>ExpectedAcceptedPublicationStage\<close>

definition with_custody :: "('v, 'a) publishing \<Rightarrow> ('v, 'a) publishing" where
  "with_custody m =
     bind (reads (\<lambda>s. receiver_closed s \<or> \<not> receiver_transferred s)) (\<lambda>gone. seq (throw_if gone Value_error) m)"

definition stage_close :: "'v site \<Rightarrow> ('v, unit) publishing" where
  "stage_close S =
     bind (reads receiver_closed) (\<lambda>closed.
       if closed then ret ()
       else seq (modify (\<lambda>s. s\<lparr>receiver_closed := True\<rparr>))
            (bind (reads receiver_transferred) (\<lambda>transferred. when_do transferred (custody_close S))))"

section \<open>\_PublicationStateMachine\<close>

definition enter_state :: "publication_state \<Rightarrow> ('v, unit) publishing" where
  "enter_state p = modify (\<lambda>s. s\<lparr>machine_state := p\<rparr>)"

fun error_context_of :: "file_error \<Rightarrow> (pystr \<times> pystr) list" where
  "error_context_of (Contract e) = error_context e"
| "error_context_of _ = []"

definition raise_rollback :: "'v site \<Rightarrow> pystr \<Rightarrow> file_error \<Rightarrow> ('v, 'a) publishing" where
  "raise_rollback S operation rollback =
     bind (reads machine_state) (\<lambda>state.
       throw (contract_failure S PUBLICATION_ROLLBACK_FAILED operation False
         (dict_set (error_context_of rollback) (cp ''state'') (publication_state_value state))))"

definition restore_backup_or_raise :: "'v site \<Rightarrow> pystr \<Rightarrow> file_error \<Rightarrow> ('v, 'a) publishing" where
  "restore_backup_or_raise S operation cause =
     seq (catching guarded_error (restore_backup_to_target S) (raise_rollback S operation))
     (seq (enter_state STAGE_VERIFIED) (throw cause))"

text \<open>Moving an existing target aside, the staged generation into its place, and the commit.\<close>

definition move_target_aside :: "'v site \<Rightarrow> pystr \<Rightarrow> bool \<Rightarrow> ('v, unit) publishing" where
  "move_target_aside S operation clean =
     seq (throw_if (\<not> clean) (contract_failure S EXISTING_TARGET operation False []))
     (seq (recognize_target S)
     (catching guarded_error
       (seq (rename_target_to_backup S) (seq (enter_state BACKUP_VERIFIED) (verify_backup S)))
       (\<lambda>cause. bind (reads machine_state) (\<lambda>state.
          if state = BACKUP_VERIFIED then restore_backup_or_raise S operation cause else throw cause))))"

definition move_stage_in :: "'v site \<Rightarrow> pystr \<Rightarrow> bool \<Rightarrow> ('v, unit) publishing" where
  "move_stage_in S operation had_target =
     catching guarded_error (with_custody (custody_rename_stage_to_target S))
       (\<lambda>cause. if had_target then restore_backup_or_raise S operation cause else throw cause)"

definition commit_or_roll_back :: "'v site \<Rightarrow> pystr \<Rightarrow> bool \<Rightarrow> ('v, unit) publishing" where
  "commit_or_roll_back S operation had_target =
     catching guarded_error (seq (verify_target S) (with_custody (custody_commit S)))
       (\<lambda>cause.
          seq (catching guarded_error (with_custody (custody_rollback_target_to_stage S)) (raise_rollback S operation))
          (if had_target then restore_backup_or_raise S operation cause
           else seq (enter_state STAGE_VERIFIED) (throw cause)))"

definition remove_backup :: "'v site \<Rightarrow> pystr \<Rightarrow> ('v, unit) publishing" where
  "remove_backup S operation =
     catching guarded_error
       (seq (enter_state BACKUP_WITH_MARKER)
       (seq (prepare_tombstone_marker S)
       (seq (enter_state BACKUP_WITH_PREPARED_TOMBSTONE_MARKER)
       (seq (rename_backup_to_tombstone S)
       (seq (enter_state TOMBSTONE_WITH_BOTH_MARKERS)
       (seq (delete_tombstone S)
       (seq (enter_state BOTH_MARKERS_ONLY)
       (seq (unlink_tombstone_marker S)
       (seq (enter_state BACKUP_MARKER_ONLY)
       (seq (unlink_backup_marker S)
       (enter_state NO_REMNANT)))))))))))
       (\<lambda>_. bind (reads machine_state) (\<lambda>state.
          throw (contract_failure S BACKUP_CLEANUP_FAILED_AFTER_PUBLISH operation True
            [(cp ''state'', publication_state_value state)])))"

definition publish :: "'v site \<Rightarrow> pystr \<Rightarrow> bool \<Rightarrow> ('v, unit) publishing" where
  "publish S operation clean =
     finally_do
       (seq (with_custody (custody_assert_live S))
       (bind (target_exists S) (\<lambda>had_target.
        seq (when_do had_target (move_target_aside S operation clean))
        (seq (move_stage_in S operation had_target)
        (seq (enter_state TARGET_RENAMED_UNCOMMITTED)
        (seq (commit_or_roll_back S operation had_target)
        (if \<not> had_target then enter_state NO_REMNANT
         else seq (enter_state PUBLISHED) (remove_backup S operation))))))))
       (stage_close S)"

definition restore_absent_target :: "'v site \<Rightarrow> pystr \<Rightarrow> ('v, unit) publishing" where
  "restore_absent_target S operation =
     bind (reads machine_state) (\<lambda>state.
       if state \<in> {BACKUP_WITH_MARKER, BACKUP_WITH_PREPARED_TOMBSTONE_MARKER} then
         seq (verify_backup S)
         (seq (when_do (state = BACKUP_WITH_PREPARED_TOMBSTONE_MARKER) (unlink_tombstone_marker S))
         (seq (restore_backup_to_target S)
         (enter_state NO_REMNANT)))
       else throw (contract_failure S UNRECOGNIZED_TARGET operation False (reason ''absent_target_has_no_complete_backup'')))"

definition in_state :: "publication_state \<Rightarrow> ('v, unit) publishing \<Rightarrow> publication_state \<Rightarrow> ('v, unit) publishing" where
  "in_state from m to = bind (reads machine_state) (\<lambda>state. when_do (state = from) (seq m (enter_state to)))"

definition resume_cleanup :: "'v site \<Rightarrow> ('v, unit) publishing" where
  "resume_cleanup S =
     seq (verify_target S)
     (seq (in_state BACKUP_WITH_MARKER (prepare_tombstone_marker S) BACKUP_WITH_PREPARED_TOMBSTONE_MARKER)
     (seq (in_state BACKUP_WITH_PREPARED_TOMBSTONE_MARKER (rename_backup_to_tombstone S) TOMBSTONE_WITH_BOTH_MARKERS)
     (seq (in_state TOMBSTONE_WITH_BOTH_MARKERS (delete_tombstone S) BOTH_MARKERS_ONLY)
     (seq (in_state BOTH_MARKERS_ONLY (unlink_tombstone_marker S) BACKUP_MARKER_ONLY)
     (in_state BACKUP_MARKER_ONLY (unlink_backup_marker S) NO_REMNANT)))))"

definition recover :: "'v site \<Rightarrow> pystr \<Rightarrow> ('v, unit) publishing" where
  "recover S operation =
     finally_do
       (seq (fs_assert_live S)
       (bind (remnant_state S) (\<lambda>state.
        seq (enter_state state)
        (bind (target_exists S) (\<lambda>present.
         if \<not> present then restore_absent_target S operation else resume_cleanup S)))))
       fs_close"

text \<open>A machine starts in \<open>STAGE\_VERIFIED\<close>; the publisher and the recovery give it its operation id.\<close>

definition publish_verified_stage :: "'v site \<Rightarrow> bool \<Rightarrow> ('v, unit) publishing" where
  "publish_verified_stage S clean = seq (enter_state STAGE_VERIFIED) (publish S (cp ''publish-artifacts'') clean)"

definition recover_owned_remnants :: "'v site \<Rightarrow> ('v, unit) publishing" where
  "recover_owned_remnants S =
     seq (for_recovery S)
     (bind (remnant_state S) (\<lambda>state.
       if state = NO_REMNANT then fs_close
       else seq (enter_state STAGE_VERIFIED) (recover S (cp ''recover-published-artifacts''))))"

text \<open>\<open>\_reject\_ambiguous\_orphan\_stage\<close>, which every build session runs before it recovers remnants.\<close>

definition reject_ambiguous_orphan_stage :: "'v site \<Rightarrow> pystr \<Rightarrow> ('v, unit) publishing" where
  "reject_ambiguous_orphan_stage S operation_id =
     bind scan_parent (\<lambda>names.
       throw_if (list_ex (\<lambda>name. py_startswith name (stage_prefix (target_name S))) names)
         (contract_failure S UNRECOGNIZED_ORPHAN_STAGE operation_id False (reason ''ambiguous_orphan_stage'')))"

end
