(* ===== verification/Publication_Rules.thy ===== *)
theory Publication_Rules
  imports Artifact_Publication
begin

text \<open>
  Weakest-precondition rules for the filesystem port of a publication: what one operation may change of
  the directory and of the port's fields, and, for every script of faults, what each operation leaves
  behind on success, on failure and when the process is killed inside it.
\<close>

section \<open>What one operation may change\<close>

text \<open>
  The filesystem port changes the named entries \<open>X\<close> and, of the fields, only what it had not yet
  learnt: the operation id, the marker payload and the expected generation.
\<close>

definition port_step :: "pystr set \<Rightarrow> 'v publisher \<Rightarrow> 'v publisher \<Rightarrow> bool" where
  "port_step X s t \<longleftrightarrow> only_at X s t
     \<and> (fs_operation_id s \<noteq> None \<longrightarrow> fs_operation_id t = fs_operation_id s)
     \<and> (fs_marker_payload s \<noteq> None \<longrightarrow> fs_marker_payload t = fs_marker_payload s)
     \<and> (fs_expected s \<noteq> None \<longrightarrow> fs_expected t = fs_expected s)
     \<and> fs_closed t = fs_closed s \<and> stage_custody t = stage_custody s \<and> receiver_closed t = receiver_closed s
     \<and> receiver_transferred t = receiver_transferred s \<and> machine_state t = machine_state s"

lemma stable_port_step: "stable_relation (port_step X)"
  by unfold_locales (auto simp: port_step_def only_at_def)

interpretation port: stable_relation "port_step X" for X
  by (rule stable_port_step)

lemma port_step_mono: "X \<subseteq> Y \<Longrightarrow> port_step X s t \<Longrightarrow> port_step Y s t"
  by (auto simp: port_step_def only_at_def)

lemma port_step_script [simp]: "port_step X s (s\<lparr>script := fs\<rparr>)"
  by (simp add: port_step_def only_at_def)

lemma same_port_step: "same s t \<Longrightarrow> port_step X s t"
  by (erule sameE) simp

lemma keeps_port_quiet: "keeps same m \<Longrightarrow> keeps (port_step X) m"
  by (erule keeps_weaken) (rule same_port_step)

lemma keeps_port_syscall:
  assumes "keeps (port_step X) act"
  shows "keeps (port_step X) (syscall act)"
proof (rule keepsI)
  fix s
  show "wp (syscall act) (\<lambda>_. port_step X s) (\<lambda>_. port_step X s) (port_step X s) s"
  proof (rule wp_syscall)
    fix fs
    show "wp act (\<lambda>_. port_step X s) (\<lambda>_. port_step X s) (port_step X s) (s\<lparr>script := fs\<rparr>)"
      by (rule wp_conseq [OF keeps_wp [OF assms]]) (blast intro: port.trans_R [OF port_step_script])+
  qed simp_all
qed

lemma keeps_port_calls:
  "keeps (port_step X) (os_stat p)" "keeps (port_step X) (os_open p)" "keeps (port_step X) (os_open_directory p)"
  "keeps (port_step X) open_parent" "keeps (port_step X) scan_parent" "keeps (port_step X) (os_scandir p)"
  "keeps (port_step X) os_fsync"
  by (rule keeps_port_quiet, rule quiet_calls)+

lemma put_at_outside: "n \<in> X \<Longrightarrow> k \<notin> X \<Longrightarrow> map_of (put_at d (n # ps) v) k = map_of d k"
  by (rule put_at_other) blast

lemma keeps_port_unlink: "n \<in> X \<Longrightarrow> keeps (port_step X) (os_unlink (n # ps))"
  unfolding os_unlink_def
  by (rule keeps_port_syscall)
     (auto simp: keeps_def port_step_def only_at_def put_at_outside split: option.splits node.splits)

lemma keeps_port_rmdir: "n \<in> X \<Longrightarrow> keeps (port_step X) (os_rmdir (n # ps))"
  unfolding os_rmdir_def
  by (rule keeps_port_syscall)
     (auto simp: keeps_def port_step_def only_at_def put_at_outside split: option.splits node.splits)

lemma keeps_port_rename: "a \<in> X \<Longrightarrow> b \<in> X \<Longrightarrow> keeps (port_step X) (os_rename a b)"
  unfolding os_rename_def
  by (rule keeps_port_syscall) (auto simp: keeps_def port_step_def only_at_def split: option.splits)

lemma keeps_port_create: "n \<in> X \<Longrightarrow> keeps (port_step X) (os_create n)"
  unfolding os_create_def
  by (rule keeps_port_syscall) (auto simp: keeps_def port_step_def only_at_def split: option.splits)

lemma append_bytes_step: "n \<in> X \<Longrightarrow> port_step X s (append_bytes n bs s)"
  by (auto simp: append_bytes_def port_step_def only_at_def split: option.splits node.splits)

lemma keeps_port_write: "n \<in> X \<Longrightarrow> keeps (port_step X) (os_write n bs)"
proof -
  assume n: "n \<in> X"
  have "keeps (port_step X) (syscall (\<lambda>s. (Returned (length bs), append_bytes n bs s)))"
    by (rule keeps_port_syscall) (simp add: keeps_def append_bytes_step n)
  then show ?thesis
    by (auto simp: keeps_def os_write_def n split: list.splits fault.splits
        intro: port.trans_R [OF port_step_script append_bytes_step])
qed

lemma write_all_step: "n \<in> X \<Longrightarrow> port_step X s (snd (write_all n bs s))"
proof (induction n bs s rule: write_all.induct)
  case (1 n bs s)
  have w: "port_step X s (snd (os_write n bs s))"
    by (rule keeps_port_write [OF 1(2), unfolded keeps_def, rule_format])
  show ?case
  proof (cases "bs = []")
    case True
    then show ?thesis by (simp add: write_all.simps port.refl_R)
  next
    case False
    show ?thesis
    proof (cases "os_write n bs s")
      case (Pair r t)
      with w 1 False show ?thesis
        by (cases r) (auto simp: write_all.simps [of n bs s] intro: port.trans_R)
    qed
  qed
qed

lemma keeps_port_write_all: "n \<in> X \<Longrightarrow> keeps (port_step X) (write_all n bs)"
  by (simp add: keeps_def write_all_step)

lemma keeps_port_case_option:
  "(x = None \<Longrightarrow> keeps (port_step X) m) \<Longrightarrow> (\<And>y. x = Some y \<Longrightarrow> keeps (port_step X) (f y)) \<Longrightarrow>
   keeps (port_step X) (case x of None \<Rightarrow> m | Some y \<Rightarrow> f y)"
  by (cases x) simp_all

lemmas keeps_port = port.keeps_intros keeps_port_calls keeps_port_unlink keeps_port_rmdir keeps_port_rename
  keeps_port_create keeps_port_write_all keeps_port_case_option

lemma keeps_port_payload: "keeps (port_step X) require_marker_payload"
  unfolding require_marker_payload_def by (intro keeps_port)

lemma keeps_port_verify_marker: "keeps (port_step X) (verify_marker S n)"
  unfolding verify_marker_def by (intro keeps_port keeps_port_payload)

lemma keeps_port_create_marker: "n \<in> X \<Longrightarrow> keeps (port_step X) (create_marker S n)"
  unfolding create_marker_def by (intro keeps_port keeps_port_payload)

lemma keeps_port_load: "keeps (port_step X) (load_and_verify S n)"
  unfolding load_and_verify_def
  by (intro keeps_port) (auto split: sum.splits intro: keeps_port)

lemma keeps_port_set_expected:
  "keeps (port_step X) (bind (reads fs_expected) (\<lambda>x. case x of None \<Rightarrow> seq (modify (\<lambda>s. s\<lparr>fs_expected := Some v\<rparr>)) (ret a)
      | Some w \<Rightarrow> (if v \<noteq> w then throw e else ret a)))"
  by (rule keepsI) (auto simp: wp_simps port_step_def only_at_def split: option.splits)

lemma keeps_port_verify_named: "keeps (port_step X) (verify_named_artifact S n)"
  unfolding verify_named_artifact_def
  by (rule port.keeps_bind [OF keeps_port_load]) (auto intro: keeps_port_set_expected split: prod.splits)


section \<open>Names of the remnants\<close>

abbreviation stage_at :: "'v site \<Rightarrow> pystr \<Rightarrow> pystr" where "stage_at S op \<equiv> stage_prefix (target_name S) @ op"
abbreviation backup_at :: "'v site \<Rightarrow> pystr \<Rightarrow> pystr" where "backup_at S op \<equiv> backup_prefix (target_name S) @ op"
abbreviation cleanup_at :: "'v site \<Rightarrow> pystr \<Rightarrow> pystr" where "cleanup_at S op \<equiv> cleanup_prefix (target_name S) @ op"

abbreviation stage_marker_at :: "'v site \<Rightarrow> pystr \<Rightarrow> pystr" where "stage_marker_at S op \<equiv> stage_prefix (target_name S) @ op @ MARKER"
abbreviation backup_marker_at :: "'v site \<Rightarrow> pystr \<Rightarrow> pystr" where "backup_marker_at S op \<equiv> backup_prefix (target_name S) @ op @ MARKER"
abbreviation cleanup_marker_at :: "'v site \<Rightarrow> pystr \<Rightarrow> pystr" where "cleanup_marker_at S op \<equiv> cleanup_prefix (target_name S) @ op @ MARKER"

lemma names_distinct:
  "stage_prefix t @ a \<noteq> backup_prefix t @ b" "stage_prefix t @ a \<noteq> cleanup_prefix t @ b" "backup_prefix t @ a \<noteq> cleanup_prefix t @ b"
  "backup_prefix t @ b \<noteq> stage_prefix t @ a" "cleanup_prefix t @ b \<noteq> stage_prefix t @ a" "cleanup_prefix t @ b \<noteq> backup_prefix t @ a"
  by (simp_all add: stage_prefix_def backup_prefix_def cleanup_prefix_def cp_def)

lemma prefixes_distinct:
  "stage_prefix t \<noteq> backup_prefix t" "stage_prefix t \<noteq> cleanup_prefix t" "backup_prefix t \<noteq> cleanup_prefix t"
  "backup_prefix t \<noteq> stage_prefix t" "cleanup_prefix t \<noteq> stage_prefix t" "cleanup_prefix t \<noteq> backup_prefix t"
  by (simp_all add: stage_prefix_def backup_prefix_def cleanup_prefix_def cp_def)

lemma target_distinct:
  "stage_prefix t @ a \<noteq> t" "backup_prefix t @ a \<noteq> t" "cleanup_prefix t @ a \<noteq> t"
  "t \<noteq> stage_prefix t @ a" "t \<noteq> backup_prefix t @ a" "t \<noteq> cleanup_prefix t @ a"
  by (auto simp: stage_prefix_def backup_prefix_def cleanup_prefix_def dest: arg_cong [of _ _ length])

lemma marker_distinct: "p @ a \<noteq> p @ a @ MARKER" "p @ a @ MARKER \<noteq> p @ a"
  by (simp_all add: MARKER_def cp_def)

lemmas distinct_names [simp] = prefixes_distinct names_distinct target_distinct marker_distinct

lemma known_operation_id: "fs_operation_id s = Some op \<Longrightarrow> wp (require_operation_id S) Q E K s = Q op s"
  by (simp add: require_operation_id_def wp_simps)

lemma wp_names:
  assumes "fs_operation_id s = Some op"
  shows "wp (backup_name S) Q E K s = Q (backup_at S op) s"
    and "wp (backup_marker_name S) Q E K s = Q (backup_marker_at S op) s"
    and "wp (tombstone_name S) Q E K s = Q (cleanup_at S op) s"
    and "wp (tombstone_marker_name S) Q E K s = Q (cleanup_marker_at S op) s"
  by (simp_all add: backup_name_def backup_marker_name_def tombstone_name_def tombstone_marker_name_def wp_simps
      known_operation_id assms)

lemma port_step_known: "port_step X s t \<Longrightarrow> fs_operation_id s = Some op \<Longrightarrow> fs_operation_id t = Some op"
  by (simp add: port_step_def)

lemma port_step_look: "port_step X s t \<Longrightarrow> n \<notin> X \<Longrightarrow> look t n = look s n"
  by (simp add: port_step_def only_at_def)

lemma port_step_trans: "port_step X s t \<Longrightarrow> port_step Y t u \<Longrightarrow> port_step (X \<union> Y) s u"
  by (rule port.trans_R [of _ s t]) (auto elim: port_step_mono [rotated])

section \<open>Rules for the steps\<close>

text \<open>
  One rule per operation: a step that only looks leaves the state as it was, up to the script; an
  \<open>OSError\<close> may come from every system call, and so may the end of the process.
\<close>

lemma entries_before_script [simp]:
  "s\<lparr>script := fs, entries := d\<rparr> = s\<lparr>entries := d, script := fs\<rparr>"
  by (cases s) simp

lemma wp_open_parent:
  assumes "\<And>fs. Q () (s\<lparr>script := fs\<rparr>)" "\<And>fs. E Os_error (s\<lparr>script := fs\<rparr>)" "\<And>fs. K (s\<lparr>script := fs\<rparr>)"
  shows "wp open_parent Q E K s"
  unfolding open_parent_def by (rule wp_syscall) (use assms in \<open>auto simp: wp_def\<close>)

lemma wp_rename:
  assumes "\<And>x fs. look s a = Some x \<Longrightarrow> replaceable x (look s b) \<Longrightarrow>
             Q () (s\<lparr>entries := put_entry b (Some x) (put_entry a None (entries s)), script := fs\<rparr>)"
    and "\<And>e fs. is_os_error e \<Longrightarrow> E e (s\<lparr>script := fs\<rparr>)" "\<And>fs. K (s\<lparr>script := fs\<rparr>)" and "a \<noteq> b"
  shows "wp (os_rename a b) Q E K s"
  unfolding os_rename_def by (rule wp_syscall) (use assms in \<open>auto simp: wp_def split: option.splits\<close>)

lemma wp_unlink:
  assumes "\<And>fs. Q () (s\<lparr>entries := put_entry n None (entries s), script := fs\<rparr>)"
    and "\<And>e fs. is_os_error e \<Longrightarrow> E e (s\<lparr>script := fs\<rparr>)" "\<And>fs. K (s\<lparr>script := fs\<rparr>)"
  shows "wp (os_unlink [n]) Q E K s"
  unfolding os_unlink_def by (rule wp_syscall) (use assms in \<open>auto simp: wp_def split: option.splits node.splits\<close>)

lemma wp_rmdir:
  assumes "\<And>fs. Q () (s\<lparr>entries := put_entry n None (entries s), script := fs\<rparr>)"
    and "\<And>e fs. is_os_error e \<Longrightarrow> E e (s\<lparr>script := fs\<rparr>)" "\<And>fs. K (s\<lparr>script := fs\<rparr>)"
  shows "wp (os_rmdir [n]) Q E K s"
  unfolding os_rmdir_def by (rule wp_syscall) (use assms in \<open>auto simp: wp_def split: option.splits node.splits\<close>)

lemma wp_stat:
  assumes "\<And>x fs. look s n = Some x \<Longrightarrow> Q x (s\<lparr>script := fs\<rparr>)"
    and "\<And>fs. look s n = None \<Longrightarrow> E File_not_found (s\<lparr>script := fs\<rparr>)"
    and "\<And>fs. E Os_error (s\<lparr>script := fs\<rparr>)" "\<And>fs. K (s\<lparr>script := fs\<rparr>)"
  shows "wp (os_stat [n]) Q E K s"
  unfolding os_stat_def by (rule wp_syscall) (use assms in \<open>auto simp: wp_def split: option.splits\<close>)

lemma wp_open:
  assumes "\<And>x fs. look s n = Some x \<Longrightarrow> Q x (s\<lparr>script := fs\<rparr>)"
    and "\<And>e fs. is_os_error e \<Longrightarrow> E e (s\<lparr>script := fs\<rparr>)" "\<And>fs. K (s\<lparr>script := fs\<rparr>)"
  shows "wp (os_open [n]) Q E K s"
  unfolding os_open_def by (rule wp_syscall) (use assms in \<open>auto simp: wp_def split: option.splits node.splits\<close>)

lemma wp_named_exists:
  assumes "\<And>fs. Q (look s n \<noteq> None) (s\<lparr>script := fs\<rparr>)"
    and "\<And>fs. E Os_error (s\<lparr>script := fs\<rparr>)" "\<And>fs. K (s\<lparr>script := fs\<rparr>)"
  shows "wp (named_exists n) Q E K s"
proof -
  have "Q True (s\<lparr>script := fs\<rparr>)" if "look s n = Some x" for x fs using assms(1) [of fs] that by simp
  moreover have "Q False (s\<lparr>script := fs\<rparr>)" if "look s n = None" for fs using assms(1) [of fs] that by simp
  ultimately show ?thesis
    unfolding named_exists_def wp_simps
    by (intro wp_open_parent wp_stat) (auto simp: wp_simps assms)
qed

text \<open>What the port raises: one of the guarded classes, and never an error marked as published.\<close>

definition failure :: "file_error \<Rightarrow> bool" where
  "failure e \<longleftrightarrow> guarded_error e \<and> (\<forall>x. e = Contract x \<longrightarrow> \<not> error_published x)"

lemma failure_guarded: "failure e \<Longrightarrow> guarded_error e"
  by (simp add: failure_def)

lemma failure_contract:
  "failure (publish_failure S c r)" "failure (contract_failure S c op False ctx)" "failure (staging_error S r)"
  "failure (manifest_failure S)" "failure (Contract (x\<lparr>error_published := False\<rparr>))" "failure Os_error" "failure Value_error"
  "failure Type_error" "failure File_not_found"
  by (simp_all add: publish_failure_def contract_failure_def staging_error_def manifest_failure_def
      artifact_contract_error_def failure_def guarded_error_def plain_error_def split: option.splits)

lemma failure_os: "is_os_error e \<Longrightarrow> failure e"
  by (cases e) (simp_all add: failure_def guarded_error_def plain_error_def)

lemma failure_kinds: "is_os_error e \<Longrightarrow> failure e" "is_os_error e \<Longrightarrow> plain_error e"
    "plain_error Value_error" "plain_error Os_error" "plain_error Type_error" "plain_error File_not_found"
  by (simp_all add: failure_os plain_error_def)

lemmas raises_failure_calls = raises_calls [THEN raises_mono [OF _ failure_os]]

lemma wp_verify_marker:
  assumes "\<And>x payload fs. look s n = Some x \<Longrightarrow> fs_marker_payload s = Some payload \<Longrightarrow> marker_exact payload x \<Longrightarrow> Q () (s\<lparr>script := fs\<rparr>)"
    and "\<And>e fs. failure e \<Longrightarrow> E e (s\<lparr>script := fs\<rparr>)" "\<And>fs. K (s\<lparr>script := fs\<rparr>)"
  shows "wp (verify_marker S n) Q E K s"
proof -
  have E0: "E e s" if "failure e" for e
    using assms(2) [OF that, of "script s"] by simp
  show ?thesis
  proof (cases "fs_marker_payload s")
    case None
    then show ?thesis
      by (simp add: verify_marker_def require_marker_payload_def wp_simps E0 failure_contract)
  next
    case (Some payload)
    show ?thesis
      unfolding verify_marker_def require_marker_payload_def wp_simps Some option.case
      by (intro wp_open_parent wp_open) (simp_all add: assms Some failure_contract failure_kinds)
  qed
qed

text \<open>A directory that verified is the expected generation.\<close>

lemma wp_verify_named:
  assumes "\<And>x files fs. look s n = Some x \<Longrightarrow> verify_tree S x = Inr (files, v) \<Longrightarrow> Q files (s\<lparr>script := fs\<rparr>)"
    and "\<And>e fs. failure e \<Longrightarrow> E e (s\<lparr>script := fs\<rparr>)" "\<And>fs. K (s\<lparr>script := fs\<rparr>)"
    and v: "fs_expected s = Some v"
  shows "wp (verify_named_artifact S n) Q E K s"
  unfolding verify_named_artifact_def load_and_verify_def wp_simps
proof (rule wp_stat, goal_cases)
  case (1 x fs)
  then show ?case
    by (cases "verify_tree S x")
       (auto simp: wp_simps v assms failure_contract split: prod.splits)
qed (auto simp: wp_simps assms failure_contract)

lemma wp_quiet_relation:
  assumes "keeps (port_step X) m"
    and "\<And>x t. port_step X s t \<Longrightarrow> Q x t" "\<And>e t. port_step X s t \<Longrightarrow> E e t" "\<And>t. port_step X s t \<Longrightarrow> K t"
  shows "wp m Q E K s"
  by (rule wp_conseq [OF keeps_wp [OF assms(1)]]) (fact assms)+


section \<open>Rules for the operations of the port\<close>

lemma wp_append_bytes:
  assumes "look s n = Some (Regular i m l old)"
  shows "look (append_bytes n bs s) n = Some (Regular i m l (old @ bs))"
  using assms by (simp add: append_bytes_def)

lemma write_all_writes:
  assumes "look s n = Some (Regular i m l old)" and "fst (write_all n bs s) = Returned ()"
  shows "look (snd (write_all n bs s)) n = Some (Regular i m l (old @ bs))"
  using assms
proof (induction n bs s arbitrary: old rule: write_all.induct)
  case (1 n bs s)
  show ?case
  proof (cases "bs = []")
    case True
    with 1(2) show ?thesis by (simp add: write_all.simps)
  next
    case False
    obtain r t where rt: "os_write n bs s = (r, t)" by (cases "os_write n bs s")
    with 1(3) False obtain k where k: "r = Returned k" "k \<noteq> 0"
      by (cases r) (auto simp: write_all.simps [of n bs s] split: if_splits)
    have "look t n = Some (Regular i m l (old @ take k bs))"
      using rt k 1(2)
      by (auto simp: os_write_def syscall_def append_bytes_def min_def take_all split: list.splits fault.splits)
    moreover have "write_all n bs s = write_all n (drop k bs) t"
      using rt k False by (simp add: write_all.simps [of n bs s])
    ultimately show ?thesis
      using 1(1) [OF False rt [symmetric] k(1) _ _ ] 1(3) k by simp
  qed
qed

lemma wp_write_all:
  assumes "\<And>t. port_step {n} s t \<Longrightarrow> look t n = Some (Regular i m l (old @ bs)) \<Longrightarrow> Q () t"
    and "\<And>e t. is_os_error e \<Longrightarrow> port_step {n} s t \<Longrightarrow> E e t" "\<And>t. port_step {n} s t \<Longrightarrow> K t"
    and "look s n = Some (Regular i m l old)"
  shows "wp (write_all n bs) Q E K s"
proof -
  have "is_os_error e" if "fst (write_all n bs s) = Raised e" for e
    using that
  proof (induction n bs s rule: write_all.induct)
    case (1 n bs s)
    then show ?case
      by (auto simp: write_all.simps [of n bs s] os_write_def syscall_def split: if_splits prod.splits outcome.splits list.splits fault.splits)
  qed
  moreover have "port_step {n} s (snd (write_all n bs s))"
    by (rule write_all_step) simp
  ultimately show ?thesis
    using assms(1-3) write_all_writes [OF assms(4), of bs]
    by (auto simp: wp_run split: outcome.splits)
qed

lemma wp_fsync:
  assumes "\<And>fs. Q () (s\<lparr>script := fs\<rparr>)" "\<And>fs. E Os_error (s\<lparr>script := fs\<rparr>)" "\<And>fs. K (s\<lparr>script := fs\<rparr>)"
  shows "wp os_fsync Q E K s"
  unfolding os_fsync_def by (rule wp_syscall) (use assms in \<open>auto simp: wp_def\<close>)

lemma wp_create:
  assumes "\<And>fs. look s n = None \<Longrightarrow>
      Q () (s\<lparr>entries := put_entry n (Some (Regular (next_inode s) 384 1 [])) (entries s), script := fs, next_inode := Suc (next_inode s)\<rparr>)"
    and "\<And>fs. E Os_error (s\<lparr>script := fs\<rparr>)" and "\<And>fs. K (s\<lparr>script := fs\<rparr>)"
  shows "wp (os_create n) Q E K s"
  unfolding os_create_def by (rule wp_syscall) (use assms in \<open>auto simp: wp_def split: option.splits\<close>)

lemma port_step_entries: "entries t = entries s \<Longrightarrow> port_step X u s \<Longrightarrow> port_step X s t \<Longrightarrow> port_step X u t"
  by (rule port.trans_R)

text \<open>The creation of a marker: complete, or an error that leaves at most a marker of its name behind.\<close>

lemma wp_create_marker:
  assumes made: "\<And>t i. look s n = None \<Longrightarrow> port_step {n} s t \<Longrightarrow> look t n = Some (Regular i 384 1 payload) \<Longrightarrow> Q () t"
    and fail: "\<And>e t. failure e \<Longrightarrow> port_step {n} s t \<Longrightarrow> look s n = None \<or> look t n = look s n \<Longrightarrow> E e t"
    and kill: "\<And>t. port_step {n} s t \<Longrightarrow> look s n = None \<or> look t n = look s n \<Longrightarrow> K t"
    and payload: "fs_marker_payload s = Some payload"
  shows "wp (create_marker S n) Q E K s"
proof -
  let ?e = "publish_failure S EXACT_TREE_MISMATCH ''publication_marker_create_failed''"
  have undo: "wp (seq (catching is_os_error (seq open_parent (os_unlink [n])) (\<lambda>_. ret ())) (throw ?e)) Q E K u"
    if fresh: "look s n = None" and u: "port_step {n} s u" for u
  proof -
    have v: "port_step {n} s (u\<lparr>script := fs\<rparr>)" for fs by (rule port.trans_R [OF u port_step_script])
    have w: "port_step {n} s (u\<lparr>entries := put_entry n None (entries u), script := fs\<rparr>)" for fs
      by (rule port.trans_R [OF u]) (simp add: port_step_def only_at_def)
    show ?thesis
      unfolding wp_simps
      by (intro wp_open_parent wp_unlink) (auto intro!: fail kill v w simp: fresh failure_contract)
  qed
  have written: "wp (catching plain_error (seq (write_all n payload) os_fsync)
        (\<lambda>_. seq (catching is_os_error (seq open_parent (os_unlink [n])) (\<lambda>_. ret ())) (throw ?e))) Q E K t"
    if fresh: "look s n = None" and t: "port_step {n} s t" "look t n = Some (Regular i 384 1 [])" for t i
    unfolding wp_catching wp_seq [of "write_all n payload"]
  proof (rule wp_write_all [OF _ _ _ t(2)], goal_cases)
    case (1 u)
    have u: "port_step {n} s (u\<lparr>script := fs\<rparr>)" for fs
      by (rule port.trans_R [OF port.trans_R [OF t(1) 1(1)] port_step_script])
    show ?case
      using 1(2) by (intro wp_fsync) (auto intro!: made kill undo u simp: fresh failure_kinds)
  next
    case (2 e u)
    then show ?case
      using undo [OF fresh port.trans_R [OF t(1) 2(2)]] by (simp add: failure_kinds)
  next
    case (3 u)
    show ?case by (rule kill [OF port.trans_R [OF t(1) 3]]) (simp add: fresh)
  qed
  have E1: "E ?e (s\<lparr>script := fs\<rparr>)" and K1: "K (s\<lparr>script := fs\<rparr>)" for fs
    by (auto intro!: fail kill simp: failure_contract)
  have fresh_file: "port_step {n} s (s\<lparr>entries := put_entry n (Some x) (entries s), script := fs, next_inode := k\<rparr>)" for fs x k
    by (simp add: port_step_def only_at_def)
  show ?thesis
    unfolding create_marker_def require_marker_payload_def wp_bind wp_reads payload option.case wp_ret
  proof (subst wp_seq, unfold wp_catching [of _ "seq open_parent (os_create n)"] wp_seq [of open_parent], intro wp_open_parent wp_create, goal_cases)
    case (1 fs gs)
    then show ?case by (intro written) (simp_all add: fresh_file)
  qed (simp_all add: wp_throw failure_kinds E1 K1)
qed


text \<open>
  From here on the operation is known and a generation is expected. The rules below describe the
  directory after each operation outright, except where a deletion may stop half way.
\<close>

lemma wp_verify_target:
  assumes "\<And>x files fs. look s (target_name S) = Some x \<Longrightarrow> verify_tree S x = Inr (files, v) \<Longrightarrow> Q () (s\<lparr>script := fs\<rparr>)"
    and "\<And>e fs. failure e \<Longrightarrow> E e (s\<lparr>script := fs\<rparr>)" "\<And>fs. K (s\<lparr>script := fs\<rparr>)"
    and "fs_expected s = Some v"
  shows "wp (verify_target S) Q E K s"
  unfolding verify_target_def wp_simps
  by (rule wp_verify_named [OF _ _ _ assms(4)]) (auto simp: assms)

lemma wp_verify_backup:
  assumes "\<And>x files m payload fs. look s (backup_at S op) = Some x \<Longrightarrow> verify_tree S x = Inr (files, v) \<Longrightarrow>
       look s (backup_marker_at S op) = Some m \<Longrightarrow> fs_marker_payload s = Some payload \<Longrightarrow> marker_exact payload m \<Longrightarrow>
       Q () (s\<lparr>script := fs\<rparr>)"
    and "\<And>e fs. failure e \<Longrightarrow> E e (s\<lparr>script := fs\<rparr>)" "\<And>fs. K (s\<lparr>script := fs\<rparr>)"
    and known: "fs_operation_id s = Some op" "fs_expected s = Some v"
  shows "wp (verify_backup S) Q E K s"
  unfolding verify_backup_def wp_simps wp_names [OF known(1)]
proof (rule wp_verify_marker, goal_cases)
  case (1 m payload fs)
  have k: "fs_operation_id (s\<lparr>script := fs\<rparr>) = Some op" "fs_expected (s\<lparr>script := fs\<rparr>) = Some v"
    by (simp_all add: known)
  show ?case
    unfolding wp_names [OF k(1)]
    by (rule wp_verify_named [OF _ _ _ k(2)]) (use 1 in \<open>auto simp: assms\<close>)
qed (auto simp: assms)

text \<open>The restored state, before and after its marker is gone.\<close>

definition restored :: "'v site \<Rightarrow> pystr \<Rightarrow> node \<Rightarrow> dirents \<Rightarrow> dirents" where
  "restored S op x d = put_entry (target_name S) (Some x) (put_entry (backup_at S op) None d)"

lemma look_restored:
  "map_of (restored S op x d) n =
     (if n = target_name S then Some x else if n = backup_at S op then None else map_of d n)"
  by (simp add: restored_def)

lemma wp_restore_backup:
  assumes "\<And>x files fs. look s (backup_at S op) = Some x \<Longrightarrow> look s (target_name S) = None \<Longrightarrow> verify_tree S x = Inr (files, v) \<Longrightarrow>
       Q () (s\<lparr>entries := put_entry (backup_marker_at S op) None (restored S op x (entries s)), script := fs\<rparr>)"
    and "\<And>e fs. failure e \<Longrightarrow> E e (s\<lparr>script := fs\<rparr>)"
    and "\<And>e x fs. failure e \<Longrightarrow> look s (backup_at S op) = Some x \<Longrightarrow> look s (target_name S) = None \<Longrightarrow>
       E e (s\<lparr>entries := restored S op x (entries s), script := fs\<rparr>)"
    and "\<And>fs. K (s\<lparr>script := fs\<rparr>)"
    and "\<And>x fs. look s (backup_at S op) = Some x \<Longrightarrow> look s (target_name S) = None \<Longrightarrow> K (s\<lparr>entries := restored S op x (entries s), script := fs\<rparr>)"
    and known: "fs_operation_id s = Some op" "fs_expected s = Some v"
  shows "wp (restore_backup_to_target S) Q E K s"
proof -
  have after: "wp (seq (verify_target S) (bind (backup_marker_name S) (\<lambda>marker.
        seq (verify_marker S marker) (seq open_parent (os_unlink [marker]))))) Q E K
      (s\<lparr>entries := restored S op x (entries s), script := fs\<rparr>)"
    if x: "look s (backup_at S op) = Some x" "look s (target_name S) = None" "verify_tree S x = Inr (files, v)" for x files fs
  proof -
    let ?u = "\<lambda>fs. s\<lparr>entries := restored S op x (entries s), script := fs\<rparr>"
    have k: "fs_operation_id (?u fs) = Some op" "fs_expected (?u fs) = Some v" for fs
      by (simp_all add: known)
    show ?thesis
      unfolding wp_seq wp_bind
    proof (rule wp_verify_target [OF _ _ _ k(2)], goal_cases)
      case (1 y gs hs)
      have "fs_operation_id (?u hs) = Some op" by (simp add: known)
      then show ?case
        by (simp add: wp_names)
           (intro wp_verify_marker wp_open_parent wp_unlink; use x in \<open>simp add: assms failure_kinds failure_contract\<close>)
    qed (use x in \<open>simp_all add: assms\<close>)
  qed
  show ?thesis
    unfolding restore_backup_to_target_def wp_seq
  proof (rule wp_verify_backup [OF _ _ _ known], goal_cases)
    case (1 x files m payload fs)
    show ?case
      unfolding wp_bind wp_catching wp_seq wp_ret wp_throw_if
    proof (intro wp_open_parent wp_stat, goal_cases)
      case (1 gs y hs)
      then show ?case by (simp add: assms failure_contract)
    next
      case (2 gs hs)
      have "fs_operation_id (s\<lparr>script := hs\<rparr>) = Some op" by (simp add: known)
      then show ?case
      proof (simp add: wp_names, intro wp_rename, goal_cases)
        case (1 y gs)
        with 2 \<open>look s (backup_at S op) = Some x\<close> \<open>verify_tree S x = Inr (files, v)\<close>
        show ?case
          by (simp add: restored_def [symmetric]) (rule after [unfolded wp_bind wp_seq]; simp)
      qed (simp_all add: assms failure_kinds)
    qed (simp_all add: assms failure_contract)
  qed (simp_all add: assms)
qed


lemma wp_rename_to_tombstone:
  assumes "\<And>x fs. look s (backup_at S op) = Some x \<Longrightarrow> replaceable x (look s (cleanup_at S op)) \<Longrightarrow>
       Q () (s\<lparr>entries := put_entry (cleanup_at S op) (Some x) (put_entry (backup_at S op) None (entries s)), script := fs\<rparr>)"
    and "\<And>e fs. failure e \<Longrightarrow> E e (s\<lparr>script := fs\<rparr>)" and "\<And>fs. K (s\<lparr>script := fs\<rparr>)"
    and known: "fs_operation_id s = Some op" "fs_expected s = Some v"
  shows "wp (rename_backup_to_tombstone S) Q E K s"
  unfolding rename_backup_to_tombstone_def wp_seq
proof (rule wp_verify_backup [OF _ _ _ known], goal_cases)
  case (1 x files m payload fs)
  have k: "fs_operation_id (s\<lparr>script := gs\<rparr>) = Some op" for gs by (simp add: known)
  show ?case
    unfolding wp_bind wp_names(3,4) [OF k] wp_names(1) [OF k]
  proof (rule wp_verify_marker, goal_cases)
    case (1 y payload gs)
    show ?case
      by (rule wp_open_parent; simp add: wp_names known assms failure_contract)
         (rule wp_rename; simp add: assms failure_kinds)
  qed (simp_all add: assms)
qed (simp_all add: assms)

lemma wp_unlink_marker:
  assumes "\<And>x payload fs. look s n = Some x \<Longrightarrow> fs_marker_payload s = Some payload \<Longrightarrow> marker_exact payload x \<Longrightarrow>
       Q () (s\<lparr>entries := put_entry n None (entries s), script := fs\<rparr>)"
    and "\<And>e fs. failure e \<Longrightarrow> E e (s\<lparr>script := fs\<rparr>)" and "\<And>fs. K (s\<lparr>script := fs\<rparr>)"
  shows "wp (unlink_marker S n) Q E K s"
  unfolding unlink_marker_def wp_seq
  by (intro wp_verify_marker wp_open_parent wp_unlink) (auto intro: assms failure_os failure_contract)

text \<open>The deletion of the tombstone touches no other entry, and finishes only with the tombstone gone.\<close>

lemma keeps_port_held: "keeps (port_step X) (require_held_tombstone n held)"
  unfolding require_held_tombstone_def by (intro keeps_port)

lemma keeps_port_unlink_leaf: "n \<in> X \<Longrightarrow> keeps (port_step X) (unlink_leaf m held (n # ps))"
  unfolding unlink_leaf_def by (intro keeps_port keeps_port_held)

lemma keeps_port_delete_directory: "n \<in> X \<Longrightarrow> keeps (port_step X) (delete_directory n held d)"
  unfolding delete_directory_def
  by (auto split: prod.splits intro!: keeps_port keeps_port_held keeps_port_unlink_leaf)

lemma raises_held: "raises failure (require_held_tombstone n held)"
  unfolding require_held_tombstone_def
  by (intro raises_intros raises_failure_calls) (simp_all add: failure_contract)

lemma raises_unlink_leaf: "raises failure (unlink_leaf m held p)"
  unfolding unlink_leaf_def
  by (intro raises_intros raises_failure_calls raises_held) (simp_all add: failure_contract)

lemma raises_delete_directory: "raises failure (delete_directory n held d)"
  unfolding delete_directory_def
  by (auto split: prod.splits simp: failure_contract intro!: raises_intros raises_failure_calls raises_held raises_unlink_leaf)

lemma wp_delete_declared:
  assumes "\<And>t. port_step {n} s t \<Longrightarrow> look t n = None \<Longrightarrow> Q () t"
    and "\<And>e t. failure e \<Longrightarrow> port_step {n} s t \<Longrightarrow> E e t"
    and "\<And>t. port_step {n} s t \<Longrightarrow> K t"
  shows "wp (delete_declared n held d) Q E K s"
proof -
  let ?R = "port_step {n}"
  obtain root nested where d: "d = (root, nested)" by (cases d)
  have k1: "keeps ?R (bind (os_scandir [n]) (\<lambda>observed. throw_if (set observed \<noteq> set root \<union> set (map fst nested)) Value_error))"
    and k2: "keeps ?R (for_each (delete_directory n held) (sort_key fst nested))"
    and k3: "keeps ?R (for_each (\<lambda>leaf. unlink_leaf n held [n, leaf]) (sort root))"
    and k4: "keeps ?R (require_held_tombstone n held)"
    by (intro keeps_port keeps_port_delete_directory keeps_port_unlink_leaf keeps_port_held; simp)+
  have r1: "raises failure (bind (os_scandir [n]) (\<lambda>observed. throw_if (set observed \<noteq> set root \<union> set (map fst nested)) Value_error))"
    and r2: "raises failure (for_each (delete_directory n held) (sort_key fst nested))"
    and r3: "raises failure (for_each (\<lambda>leaf. unlink_leaf n held [n, leaf]) (sort root))"
    and r4: "raises failure (require_held_tombstone n held)"
    by (intro raises_intros raises_failure_calls raises_delete_directory raises_unlink_leaf raises_held; simp add: failure_contract)+
  have last: "wp (os_rmdir [n]) Q E K t" if t: "?R s t" for t
  proof (rule wp_rmdir)
    fix fs
    have "?R t (t\<lparr>entries := put_entry n None (entries t), script := fs\<rparr>)"
      by (simp add: port_step_def only_at_def)
    then show "Q () (t\<lparr>entries := put_entry n None (entries t), script := fs\<rparr>)"
      by (intro assms port.trans_R [OF t]) simp_all
  qed (auto intro!: assms failure_kinds port.trans_R [OF t])
  show ?thesis
    unfolding delete_declared_def d prod.case wp_seq
    by (intro wp_keeps_raises [OF k1 r1] wp_keeps_raises [OF k2 r2] wp_keeps_raises [OF k3 r3] wp_keeps_raises [OF k4 r4] last assms)
       (assumption | blast intro: port.trans_R)+
qed

lemma wp_delete_verified:
  assumes "\<And>t. port_step {cleanup_at S op} s t \<Longrightarrow> look t (cleanup_at S op) = None \<Longrightarrow> Q () t"
    and "\<And>e t. failure e \<Longrightarrow> port_step {cleanup_at S op} s t \<Longrightarrow> E e t"
    and "\<And>t. port_step {cleanup_at S op} s t \<Longrightarrow> K t"
    and known: "fs_operation_id s = Some op" "fs_expected s = Some v"
  shows "wp (delete_verified S (cleanup_at S op) held) Q E K s"
proof -
  let ?n = "cleanup_at S op"
  have t: "port_step {?n} s (s\<lparr>script := fs\<rparr>)" for fs by simp
  show ?thesis
    unfolding delete_verified_def wp_bind [of "verify_named_artifact S ?n"] wp_seq
  proof (rule wp_verify_named [OF _ _ _ known(2)])
    fix x files fs
    let ?rest = "case declared_leaves files ([cp ''manifest.json''], []) of
               None \<Rightarrow> throw Value_error | Some declared \<Rightarrow> delete_declared ?n held declared"
    have rest: "wp ?rest Q E K u" if u: "port_step {?n} s u" for u
    proof (cases "declared_leaves files ([cp ''manifest.json''], [])")
      case None
      show ?thesis unfolding None option.case wp_throw [of Value_error] by (intro assms u failure_contract)
    next
      case (Some declared)
      show ?thesis
        unfolding Some option.case
        by (rule wp_delete_declared) (blast intro: assms port.trans_R [OF u])+
    qed
    have held: "wp (require_held_tombstone ?n held) (\<lambda>_. wp ?rest Q E K) E K (s\<lparr>script := hs\<rparr>)" for hs
      by (rule wp_keeps_raises [OF keeps_port_held [of "{?n}"] raises_held])
         (blast intro: assms rest port.trans_R [OF t])+
    have second: "wp (bind (tombstone_marker_name S) (verify_marker S)) (\<lambda>_. wp (require_held_tombstone ?n held) (\<lambda>_. wp ?rest Q E K) E K) E K
        (s\<lparr>script := hs\<rparr>)" for hs
    proof -
      have k: "fs_operation_id (s\<lparr>script := hs\<rparr>) = Some op" by (simp add: known)
      show ?thesis
        unfolding wp_bind wp_names(4) [OF k] by (rule wp_verify_marker) (simp_all add: assms held)
    qed
    have k: "fs_operation_id (s\<lparr>script := fs\<rparr>) = Some op" by (simp add: known)
    show "wp (bind (backup_marker_name S) (verify_marker S)) (\<lambda>_. wp (bind (tombstone_marker_name S) (verify_marker S))
           (\<lambda>_. wp (require_held_tombstone ?n held) (\<lambda>_. wp ?rest Q E K) E K) E K) E K (s\<lparr>script := fs\<rparr>)"
      unfolding wp_bind [of "backup_marker_name S"] wp_names(2) [OF k]
      by (rule wp_verify_marker) (simp_all add: assms second)
  qed (auto intro: assms)
qed

lemma wp_delete_tombstone:
  assumes "\<And>t. port_step {cleanup_at S op} s t \<Longrightarrow> look t (cleanup_at S op) = None \<Longrightarrow> Q () t"
    and "\<And>e t. failure e \<Longrightarrow> port_step {cleanup_at S op} s t \<Longrightarrow> E e t"
    and "\<And>t. port_step {cleanup_at S op} s t \<Longrightarrow> K t"
    and known: "fs_operation_id s = Some op" "fs_expected s = Some v"
  shows "wp (delete_tombstone S) Q E K s"
proof -
  have t: "port_step {cleanup_at S op} s (s\<lparr>script := fs\<rparr>)" for fs by simp
  have "wp (delete_verified S (cleanup_at S op) held) Q
      (\<lambda>e t. if plain_error e then wp (throw (publish_failure S EXACT_TREE_MISMATCH ''tombstone_delete_failed'')) Q E K t else E e t) K
      (s\<lparr>script := fs\<rparr>)" for held fs
    by (rule wp_delete_verified [where v = v])
       (auto simp: known wp_throw intro!: assms failure_contract port.trans_R [OF t])
  then show ?thesis
    unfolding delete_tombstone_def wp_seq wp_bind
    by (intro wp_open_parent)
       (simp_all add: wp_names known, intro wp_open, auto simp: wp_catching wp_throw split: node.split intro!: assms failure_contract failure_os)
qed

end
