(* ===== verification/Stage_Custody_Rules.thy ===== *)
theory Stage_Custody_Rules
  imports Publication_Rules
begin

text \<open>
  Rules for the custody of the staged generation: the checks leave the directory alone, the renames and
  the commit change the named entries only, and closing a custody touches nothing but the stage and
  its marker.
\<close>

section \<open>Rules for the staged generation\<close>

lemma wp_same:
  assumes "keeps same m" and "raises P m"
    and "\<And>x fs. Q x (s\<lparr>script := fs\<rparr>)" "\<And>e fs. P e \<Longrightarrow> E e (s\<lparr>script := fs\<rparr>)" "\<And>fs. K (s\<lparr>script := fs\<rparr>)"
  shows "wp m Q E K s"
  by (rule wp_keeps_raises [OF assms(1,2)]) (auto elim!: sameE intro: assms(3-))

lemmas quiet_intros = unchanged.keeps_intros quiet_calls

lemma identities_quiet: "keeps same (directory_identity x)" "keeps same (leaf_identity_of x)" "keeps same (read_bounded x)"
    "raises failure (directory_identity x)" "raises failure (leaf_identity_of x)" "raises failure (read_bounded x)"
  unfolding directory_identity_def leaf_identity_of_def read_bounded_def
  by (auto split: node.splits simp: failure_contract intro!: quiet_intros raises_intros)

lemma session_generation_quiet: "keeps same require_session_generation"
  unfolding require_session_generation_def require_descriptors_def
  by (intro quiet_intros identities_quiet)

lemma session_generation_raises: "raises failure require_session_generation"
  unfolding require_session_generation_def require_descriptors_def
  by (intro raises_intros raises_failure_calls identities_quiet) (simp_all add: failure_contract)

lemma custody_live_quiet: "keeps same (custody_assert_live S)" "raises failure (custody_assert_live S)"
  unfolding custody_assert_live_def
  by (intro quiet_intros session_generation_quiet raises_intros session_generation_raises disjI1; simp add: failure_contract)+

lemma target_renamed_quiet: "keeps same require_target_renamed" "raises failure require_target_renamed"
  unfolding require_target_renamed_def
  by (intro quiet_intros identities_quiet raises_intros raises_failure_calls; simp add: failure_contract)+

abbreviation custody_in :: "custody_state \<Rightarrow> 'v publisher \<Rightarrow> custody" where
  "custody_in c s \<equiv> (stage_custody s)\<lparr>custody_state := c\<rparr>"

lemma script_before_custody [simp]:
  "(s :: 'v publisher)\<lparr>stage_custody := c, script := fs\<rparr> = s\<lparr>script := fs, stage_custody := c\<rparr>"
  by (cases s) simp

lemma with_custody_open:
  assumes "\<not> receiver_closed s" "receiver_transferred s"
  shows "wp (with_custody m) Q E K s = wp m Q E K s"
  using assms by (simp add: with_custody_def wp_simps)

lemma wp_rename_stage:
  assumes "\<And>x fs. look s (stage_name (stage_custody s)) = Some x \<Longrightarrow> replaceable x (look s (custody_target (stage_custody s))) \<Longrightarrow>
      Q () (s\<lparr>entries := put_entry (custody_target (stage_custody s)) (Some x) (put_entry (stage_name (stage_custody s)) None (entries s)),
              script := fs, stage_custody := custody_in TARGET_RENAMED s\<rparr>)"
    and "\<And>e fs. failure e \<Longrightarrow> E e (s\<lparr>script := fs\<rparr>)" "\<And>fs. K (s\<lparr>script := fs\<rparr>)"
    and ne: "stage_name (stage_custody s) \<noteq> custody_target (stage_custody s)"
  shows "wp (custody_rename_stage_to_target S) Q E K s"
  unfolding custody_rename_stage_to_target_def wp_seq
proof (rule wp_same [OF custody_live_quiet])
  fix x :: unit and fs
  show "wp (bind (reads stage_custody) (\<lambda>held.
      catching is_os_error (seq (os_rename (stage_name held) (custody_target held)) (set_custody_state TARGET_RENAMED))
        (\<lambda>_. throw (staging_error S ''stage_to_target_rename_failed'')))) Q E K (s\<lparr>script := fs\<rparr>)"
    unfolding wp_simps set_custody_state_def
    by (rule wp_rename) (use ne in \<open>auto simp: assms failure_contract\<close>)
qed (auto intro: assms)

lemma wp_target_renamed:
  "wp require_target_renamed (\<lambda>held t. held = stage_custody s \<and> (\<exists>fs. t = s\<lparr>script := fs\<rparr>))
     (\<lambda>e t. failure e \<and> (\<exists>fs. t = s\<lparr>script := fs\<rparr>)) (\<lambda>t. \<exists>fs. t = s\<lparr>script := fs\<rparr>) s"
proof (rule wp_conseq [OF wp_conj [OF wp_conj [OF keeps_wp [OF target_renamed_quiet(1)] raises_wp [OF target_renamed_quiet(2)]],
      where Q' = "\<lambda>held _. held = stage_custody s" and E' = "\<lambda>_ _. True" and K' = "\<lambda>_. True"]])
  show "wp require_target_renamed (\<lambda>held _. held = stage_custody s) (\<lambda>_ _. True) (\<lambda>_. True) s"
    unfolding require_target_renamed_def wp_simps
    by (auto intro!: wp_conseq [OF wp_true] simp: wp_simps)
qed (auto elim: sameE)

lemma wp_rollback:
  assumes "\<And>x fs. look s (custody_target (stage_custody s)) = Some x \<Longrightarrow> replaceable x (look s (stage_name (stage_custody s))) \<Longrightarrow>
      Q () (s\<lparr>entries := put_entry (stage_name (stage_custody s)) (Some x) (put_entry (custody_target (stage_custody s)) None (entries s)),
              script := fs, stage_custody := custody_in LIVE s\<rparr>)"
    and "\<And>e fs. failure e \<Longrightarrow> E e (s\<lparr>script := fs\<rparr>)"
    and "\<And>e x fs. failure e \<Longrightarrow> look s (custody_target (stage_custody s)) = Some x \<Longrightarrow>
      E e (s\<lparr>entries := put_entry (stage_name (stage_custody s)) (Some x) (put_entry (custody_target (stage_custody s)) None (entries s)),
              script := fs, stage_custody := custody_in LIVE s\<rparr>)"
    and "\<And>fs. K (s\<lparr>script := fs\<rparr>)"
    and "\<And>x fs. look s (custody_target (stage_custody s)) = Some x \<Longrightarrow>
      K (s\<lparr>entries := put_entry (stage_name (stage_custody s)) (Some x) (put_entry (custody_target (stage_custody s)) None (entries s)),
              script := fs, stage_custody := custody_in LIVE s\<rparr>)"
    and ne: "custody_target (stage_custody s) \<noteq> stage_name (stage_custody s)"
  shows "wp (custody_rollback_target_to_stage S) Q E K s"
proof -
  let ?c = "stage_custody s"
  let ?e = "staging_error S ''target_to_stage_rollback_failed''"
  let ?E' = "\<lambda>e t. if guarded_error e then E ?e t else E e t"
  show ?thesis
    unfolding custody_rollback_target_to_stage_def wp_catching wp_bind wp_throw
  proof (rule wp_conseq [OF wp_target_renamed])
    fix held t assume "held = ?c \<and> (\<exists>fs. t = s\<lparr>script := fs\<rparr>)"
    then obtain fs where h: "held = ?c" and t: "t = s\<lparr>script := fs\<rparr>" by blast
    show "wp (seq (os_rename (custody_target held) (stage_name held)) (seq (set_custody_state LIVE) (custody_assert_live S))) Q
        (\<lambda>e t. if guarded_error e then E ?e t else E e t) K t"
      unfolding h t wp_seq
    proof (rule wp_rename, goal_cases)
      case (1 x gs)
      then show ?case
        unfolding set_custody_state_def wp_modify
        by (intro wp_same [OF custody_live_quiet]) (auto simp: assms failure_contract)
    qed (use ne in \<open>auto simp: assms failure_contract failure_os\<close>)
  qed (auto simp: assms failure_contract)
qed

text \<open>
  The commit: the stage marker goes, the lock is released, the custody is closed. A lock that cannot be
  released leaves the marker gone and the custody open.
\<close>

lemma wp_commit:
  assumes "\<And>fs. Q () (s\<lparr>entries := put_entry (marker_name (stage_custody s)) None (entries s), script := fs,
        stage_custody := (stage_custody s)\<lparr>descriptors_open := False, custody_state := Custody_published, custody_closed := True\<rparr>\<rparr>)"
    and "\<And>e fs. failure e \<Longrightarrow> E e (s\<lparr>script := fs\<rparr>)"
    and "\<And>fs. E Os_error (s\<lparr>entries := put_entry (marker_name (stage_custody s)) None (entries s), script := fs,
        stage_custody := (stage_custody s)\<lparr>descriptors_open := False\<rparr>\<rparr>)"
    and "\<And>fs. K (s\<lparr>script := fs\<rparr>)"
    and "\<And>fs. K (s\<lparr>entries := put_entry (marker_name (stage_custody s)) None (entries s), script := fs,
        stage_custody := (stage_custody s)\<lparr>descriptors_open := False\<rparr>\<rparr>)"
  shows "wp (custody_commit S) Q E K s"
proof -
  let ?c = "stage_custody s"
  let ?m = "marker_name (stage_custody s)"
  have finish: "wp finish_publication_transfer Q E K (s\<lparr>entries := put_entry ?m None (entries s), script := fs\<rparr>)" for fs
    unfolding finish_publication_transfer_def wp_seq wp_modify
    by (rule wp_syscall) (auto simp: wp_ret wp_modify assms)
  have check: "wp (bind (os_open [marker_name ?c]) (\<lambda>opened. bind (leaf_identity_of opened) (\<lambda>opened_id.
        seq (throw_if (opened_id \<noteq> marker_identity ?c) Value_error)
        (bind (read_bounded opened) (\<lambda>payload. seq (throw_if (payload \<noteq> marker_payload ?c) Value_error)
        (os_unlink [marker_name ?c])))))) (\<lambda>_ t. \<exists>fs. t = s\<lparr>entries := put_entry ?m None (entries s), script := fs\<rparr>)
      (\<lambda>e t. failure e \<and> (\<exists>fs. t = s\<lparr>script := fs\<rparr>)) (\<lambda>t. \<exists>fs. t = s\<lparr>script := fs\<rparr>) (s\<lparr>script := gs\<rparr>)" for gs
    unfolding wp_bind wp_seq wp_throw_if
  proof (rule wp_open)
    fix x hs
    show "wp (leaf_identity_of x) (\<lambda>xa. \<lambda>t. if xa \<noteq> marker_identity ?c then failure Value_error \<and> (\<exists>fs. t = s\<lparr>script := fs\<rparr>)
          else wp (read_bounded x) (\<lambda>xa t. if xa \<noteq> marker_payload ?c then failure Value_error \<and> (\<exists>fs. t = s\<lparr>script := fs\<rparr>)
              else wp (os_unlink [?m]) (\<lambda>_ t. \<exists>fs. t = s\<lparr>entries := put_entry ?m None (entries s), script := fs\<rparr>)
                 (\<lambda>e t. failure e \<and> (\<exists>fs. t = s\<lparr>script := fs\<rparr>)) (\<lambda>t. \<exists>fs. t = s\<lparr>script := fs\<rparr>) t)
             (\<lambda>e t. failure e \<and> (\<exists>fs. t = s\<lparr>script := fs\<rparr>)) (\<lambda>t. \<exists>fs. t = s\<lparr>script := fs\<rparr>) t)
        (\<lambda>e t. failure e \<and> (\<exists>fs. t = s\<lparr>script := fs\<rparr>)) (\<lambda>t. \<exists>fs. t = s\<lparr>script := fs\<rparr>) ((s\<lparr>script := gs\<rparr>)\<lparr>script := hs\<rparr>)"
      by (intro wp_same [OF identities_quiet(2) identities_quiet(5)])
         (auto simp: failure_contract failure_os intro!: wp_same [OF identities_quiet(3) identities_quiet(6)] wp_unlink)
  qed (auto simp: failure_os)
  show ?thesis
    unfolding custody_commit_def wp_seq wp_catching wp_bind [of require_target_renamed] wp_throw
  proof (rule wp_conseq [OF wp_target_renamed])
    fix held t assume "held = ?c \<and> (\<exists>fs. t = s\<lparr>script := fs\<rparr>)"
    then obtain gs where h: "held = ?c" and t: "t = s\<lparr>script := gs\<rparr>" by blast
    show "wp (bind (os_open [marker_name held]) (\<lambda>opened. bind (leaf_identity_of opened) (\<lambda>opened_id.
        seq (throw_if (opened_id \<noteq> marker_identity held) Value_error)
        (bind (read_bounded opened) (\<lambda>payload. seq (throw_if (payload \<noteq> marker_payload held) Value_error)
        (os_unlink [marker_name held])))))) (\<lambda>_. wp finish_publication_transfer Q E K)
        (\<lambda>e t. if plain_error e then E (staging_error S ''stage_marker_commit_failed'') t else E e t) K t"
      unfolding h t
      by (rule wp_conseq [OF check]) (auto simp: finish assms failure_contract)
  qed (auto simp: assms failure_contract)
qed

text \<open>Closing the stage touches nothing but the stage and its marker.\<close>

definition stage_step :: "pystr set \<Rightarrow> 'v publisher \<Rightarrow> 'v publisher \<Rightarrow> bool" where
  "stage_step N s t \<longleftrightarrow>
     (stage_name (stage_custody s) \<in> N \<and> marker_name (stage_custody s) \<in> N \<longrightarrow>
        only_at N s t \<and> stage_name (stage_custody t) = stage_name (stage_custody s)
        \<and> marker_name (stage_custody t) = marker_name (stage_custody s))"

interpretation closing: stable_relation "stage_step N" for N
  by unfold_locales (auto simp: stage_step_def only_at_def)

lemma keeps_stage_port: "X \<subseteq> N \<Longrightarrow> keeps (port_step X) m \<Longrightarrow> keeps (stage_step N) m"
  by (erule keeps_weaken) (auto simp: stage_step_def port_step_def only_at_def)

lemma keeps_stage_quiet: "keeps same m \<Longrightarrow> keeps (stage_step N) m"
  by (rule keeps_stage_port [of "{}"]) (auto intro: keeps_port_quiet)

lemma keeps_stage_custody:
  assumes "\<And>held. stage_name held \<in> N \<Longrightarrow> marker_name held \<in> N \<Longrightarrow> keeps (stage_step N) (f held)"
  shows "keeps (stage_step N) (bind (reads stage_custody) f)"
proof (rule keepsI)
  fix s
  show "wp (bind (reads stage_custody) f) (\<lambda>_. stage_step N s) (\<lambda>_. stage_step N s) (stage_step N s) s"
  proof (cases "stage_name (stage_custody s) \<in> N \<and> marker_name (stage_custody s) \<in> N")
    case True
    then show ?thesis by (simp add: wp_simps keeps_wp [OF assms])
  next
    case False
    then show ?thesis by (auto simp: stage_step_def intro: wp_conseq [OF wp_true])
  qed
qed

lemma keeps_stage_modify:
  "(\<And>s. entries (h s) = entries s \<and> stage_name (stage_custody (h s)) = stage_name (stage_custody s)
      \<and> marker_name (stage_custody (h s)) = marker_name (stage_custody s)) \<Longrightarrow> keeps (stage_step N) (modify h)"
  by (simp add: keeps_def modify_def stage_step_def only_at_def)

lemmas keeps_stage = closing.keeps_intros keeps_stage_custody keeps_stage_modify

lemma keeps_stage_calls:
  "keeps (stage_step N) (os_stat p)" "keeps (stage_step N) (os_open_directory p)" "keeps (stage_step N) (os_scandir p)"
  "keeps (stage_step N) (directory_identity x)" "keeps (stage_step N) (leaf_identity_of x)"
  "keeps (stage_step N) (custody_assert_live S)" "keeps (stage_step N) (lookup_or_fail kvs k)"
  by (auto intro!: keeps_stage_quiet quiet_calls identities_quiet custody_live_quiet quiet_intros
       simp: lookup_or_fail_def split: option.split)

lemma keeps_stage_removals:
  assumes "n \<in> N"
  shows "keeps (stage_step N) (os_unlink (n # ps))" and "keeps (stage_step N) (os_rmdir (n # ps))"
  by (rule keeps_stage_port [of "{n}"]; simp add: assms keeps_port_unlink keeps_port_rmdir)+

lemma keeps_stage_when: "(b \<Longrightarrow> keeps (stage_step N) m) \<Longrightarrow> keeps (stage_step N) (when_do b m)"
  by (simp add: when_do_def closing.keeps_ret)

lemma keeps_stage_require_leaf: "keeps (stage_step N) (require_leaf p i e)"
  unfolding require_leaf_def by (intro keeps_stage keeps_stage_calls keeps_stage_removals)

lemma keeps_stage_validate: "keeps (stage_step N) validate_owned_final_artifacts"
  unfolding validate_owned_final_artifacts_def Let_def
  by (intro keeps_stage; (intro keeps_stage keeps_stage_calls keeps_stage_removals keeps_stage_require_leaf)?)
     (auto split: option.split intro!: keeps_stage keeps_stage_calls keeps_stage_removals keeps_stage_require_leaf)

lemma keeps_stage_created: "keeps (stage_step N) (created_leaves S stage leaves seen)"
  by (induction S stage leaves seen rule: created_leaves.induct)
     (auto split: option.split intro!: keeps_stage keeps_stage_require_leaf)

lemma keeps_stage_children: "keeps (stage_step N) (require_exact_candidate_children S)"
  unfolding require_exact_candidate_children_def Let_def
  by (intro keeps_stage keeps_stage_validate keeps_stage_created)
     (auto split: option.split bool.split intro!: keeps_stage keeps_stage_require_leaf)

lemma keeps_stage_unregister: "keeps (stage_step N) (unregister_final p)" "keeps (stage_step N) (unregister_stage_name p)"
  unfolding unregister_final_def unregister_stage_name_def by (intro keeps_stage; simp)+

lemma keeps_stage_final: "keeps (stage_step N) remove_owned_final_artifacts"
  unfolding remove_owned_final_artifacts_def Let_def
  by (intro keeps_stage keeps_stage_validate keeps_stage_when keeps_stage_calls keeps_stage_removals keeps_stage_unregister; simp)

lemma keeps_stage_remove: "keeps (stage_step N) remove_candidate"
  unfolding remove_candidate_def unlink_candidate_leaf_def
  by (intro keeps_stage keeps_stage_final keeps_stage_calls keeps_stage_removals keeps_stage_unregister)
     (auto split: option.split prod.split bool.split intro!: keeps_stage keeps_stage_calls keeps_stage_removals keeps_stage_unregister)

lemma keeps_stage_close: "keeps (stage_step N) (stage_close S)"
  unfolding stage_close_def custody_close_def discard_exact_candidate_def set_custody_state_def
  by (intro keeps_stage keeps_stage_when keeps_stage_calls keeps_stage_removals keeps_stage_children keeps_stage_remove; simp)

end
