(* ===== verification/Publication_Remnants.thy ===== *)
theory Publication_Remnants
  imports Stage_Custody_Rules
begin

text \<open>
  How a publication learns its operation id, the names it works on, and what it may leave behind: the
  conserved generations, the closed remnants a recovery resumes from, and the damaged ones it refuses.
\<close>

section \<open>The operation that is being published\<close>

lemma startswith_append [simp]: "py_startswith (p @ x) p"
  by (induction p) simp_all

lemma endswith_append [simp]: "str_endswith (x @ p) p"
  by (simp add: str_endswith_def)

lemma read_back [simp]: "str_removesuffix (str_removeprefix (p @ op @ MARKER) p) MARKER = op"
  by (simp add: str_removeprefix_def str_removesuffix_def endswith_append [of op MARKER] MARKER_def cp_def)

lemma wp_scan_parent:
  assumes "\<And>fs. Q (map fst (entries s)) (s\<lparr>script := fs\<rparr>)" "\<And>fs. E Os_error (s\<lparr>script := fs\<rparr>)" "\<And>fs. K (s\<lparr>script := fs\<rparr>)"
  shows "wp scan_parent Q E K s"
  unfolding scan_parent_def by (rule wp_syscall) (use assms in \<open>auto simp: wp_def\<close>)

lemma script_twice: "s\<lparr>script := a, script := b\<rparr> = s\<lparr>script := b\<rparr>" "entries (s\<lparr>script := a\<rparr>) = entries s"
  by simp_all

lemma wp_sole_choice:
  assumes "x \<in> set ops" and "Q x s" and "E e s"
  shows "wp (case valid of [y] \<Rightarrow> (if set valid = set ops then ret y else throw e) | _ \<Rightarrow> throw e) Q E K s"
proof (cases "\<exists>y. valid = [y] \<and> set valid = set ops")
  case True
  then obtain y where y: "valid = [y]" "set valid = set ops" by blast
  have "x \<in> set valid" unfolding y(2) by (rule assms(1))
  then have "x = y" unfolding y(1) by simp
  with y assms(2) show ?thesis by (simp add: wp_ret)
next
  case False
  then show ?thesis using assms(3) by (auto simp: wp_throw split: list.split)
qed

lemma wp_active_operation_id:
  assumes "look s (stage_marker_at S op) \<noteq> None"
    and Q: "\<And>fs. Q op (s\<lparr>script := fs\<rparr>)"
    and E: "\<And>e fs. failure e \<Longrightarrow> E e (s\<lparr>script := fs\<rparr>)" and K: "\<And>fs. K (s\<lparr>script := fs\<rparr>)"
  shows "wp (active_operation_id S) Q E K s"
proof -
  let ?p = "stage_prefix (target_name S)"
  let ?names = "map fst (entries s)"
  let ?ops = "remdups (map (\<lambda>name. str_removesuffix (str_removeprefix name ?p) MARKER)
             (filter (\<lambda>name. py_startswith name ?p \<and> str_endswith name MARKER) ?names))"
  let ?valid = "filter (\<lambda>operation. operation_shape operation \<and> ?p @ operation \<in> set ?names) ?ops"
  have "stage_marker_at S op \<in> set ?names"
    using assms(1) by (auto simp: map_of_eq_None_iff)
  moreover have "py_startswith (stage_marker_at S op) ?p" "str_endswith (stage_marker_at S op) MARKER"
    using endswith_append [of "?p @ op" MARKER] by simp_all
  ultimately have op: "op \<in> set ?ops"
    unfolding set_remdups set_map set_filter by (intro image_eqI [where x = "stage_marker_at S op"]) auto
  let ?fail = "publish_failure S EXACT_TREE_MISMATCH ''active_stage_operation_is_ambiguous''"
  have chosen: "wp (case ?valid of [operation] \<Rightarrow> (if set ?valid = set ?ops then ret operation else throw ?fail) | _ \<Rightarrow> throw ?fail) Q E K (s\<lparr>script := fs\<rparr>)" for fs
    by (rule wp_sole_choice [OF op]) (auto intro: Q E failure_contract)
  show ?thesis
    unfolding active_operation_id_def wp_seq wp_bind Let_def
    by (intro wp_open_parent wp_scan_parent) (simp_all only: script_twice chosen Q E K failure_contract)
qed

lemma wp_learn_operation:
  assumes marker: "look s (stage_marker_at S op) \<noteq> None" and unknown: "fs_operation_id s = None"
    and Q: "\<And>t. port_step {} s t \<Longrightarrow> fs_operation_id t = Some op \<Longrightarrow>
        fs_marker_payload t = Some (marker_bytes op (target_name S)) \<Longrightarrow> Q op t"
    and E: "\<And>e t. failure e \<Longrightarrow> port_step {} s t \<Longrightarrow> E e t" and K: "\<And>t. port_step {} s t \<Longrightarrow> K t"
    and fresh: "fs_marker_payload s = None"
  shows "wp (require_operation_id S) Q E K s"
proof -
  let ?t = "\<lambda>fs. s\<lparr>script := fs, fs_operation_id := Some op, fs_marker_payload := Some (marker_bytes op (target_name S))\<rparr>"
  have step: "port_step {} s (?t fs)" for fs
    using unknown fresh by (simp add: port_step_def only_at_def)
  have learnt: "wp (verify_marker S (stage_marker_at S op)) (\<lambda>_. wp (ret op) Q E K) E K (?t fs)" for fs
  proof (rule wp_verify_marker)
    fix gs
    have t: "port_step {} s ((?t fs)\<lparr>script := gs\<rparr>)" by (rule port.trans_R [OF step port_step_script])
    show "wp (ret op) Q E K ((?t fs)\<lparr>script := gs\<rparr>)" unfolding wp_ret by (intro Q t) simp_all
    show "E e ((?t fs)\<lparr>script := gs\<rparr>)" if "failure e" for e by (intro E t that)
    show "K ((?t fs)\<lparr>script := gs\<rparr>)" by (intro K t)
  qed
  show ?thesis
    unfolding require_operation_id_def wp_bind wp_reads unknown option.case
    by (rule wp_active_operation_id [where op = op])
       (auto simp: marker wp_seq wp_bind wp_reads wp_modify wp_ret publication_marker_payload_def learnt intro: E K)
qed

section \<open>What a publication may leave behind\<close>

definition publication_names :: "'v site \<Rightarrow> pystr \<Rightarrow> pystr set" where
  "publication_names S op =
     {target_name S, stage_at S op, stage_marker_at S op, backup_at S op, backup_marker_at S op, cleanup_at S op, cleanup_marker_at S op}"

definition untouched :: "'v site \<Rightarrow> pystr \<Rightarrow> dirents \<Rightarrow> dirents \<Rightarrow> bool" where
  "untouched S op d0 d \<longleftrightarrow> (\<forall>n. n \<notin> publication_names S op \<longrightarrow> map_of d n = map_of d0 n)"

definition marker_intact :: "'v site \<Rightarrow> pystr \<Rightarrow> node option \<Rightarrow> bool" where
  "marker_intact S op m \<longleftrightarrow> (\<exists>i. m = Some (Regular i 384 1 (marker_bytes op (target_name S))))"

text \<open>The old generation or the new one is complete, at the target or at the backup.\<close>

definition no_loss :: "'v site \<Rightarrow> pystr \<Rightarrow> node option \<Rightarrow> node \<Rightarrow> dirents \<Rightarrow> bool" where
  "no_loss S op old new d \<longleftrightarrow>
     map_of d (target_name S) = Some new \<or> map_of d (target_name S) = old
     \<or> (map_of d (target_name S) = None \<and> map_of d (backup_at S op) = old)"

text \<open>
  The closed remnants: none; the complete backup with its marker, with or without the prepared
  tombstone marker; the complete tombstone with both markers; both markers; the backup marker. Only
  the backup with its marker alone may stand for an absent target.
\<close>

definition closed_remnant :: "'v site \<Rightarrow> pystr \<Rightarrow> node option \<Rightarrow> dirents \<Rightarrow> bool" where
  "closed_remnant S op old d \<longleftrightarrow>
     (let t = map_of d (target_name S); b = map_of d (backup_at S op); bm = map_of d (backup_marker_at S op);
          c = map_of d (cleanup_at S op); cm = map_of d (cleanup_marker_at S op)
      in b = None \<and> bm = None \<and> c = None \<and> cm = None
       \<or> b \<noteq> None \<and> b = old \<and> marker_intact S op bm \<and> c = None \<and> (cm = None \<or> marker_intact S op cm \<and> t \<noteq> None)
       \<or> b = None \<and> t \<noteq> None \<and> marker_intact S op bm \<and> (c = None \<or> c = old) \<and> marker_intact S op cm
       \<or> b = None \<and> t \<noteq> None \<and> marker_intact S op bm \<and> c = None \<and> cm = None)"

text \<open>What a recovery refuses: a marker that was not written out, a tombstone deleted in part.\<close>

definition damaged_remnant :: "'v site \<Rightarrow> pystr \<Rightarrow> node option \<Rightarrow> dirents \<Rightarrow> bool" where
  "damaged_remnant S op old d \<longleftrightarrow>
     map_of d (target_name S) \<noteq> None \<and>
     (map_of d (backup_marker_at S op) \<noteq> None \<and> \<not> marker_intact S op (map_of d (backup_marker_at S op))
      \<or> map_of d (cleanup_marker_at S op) \<noteq> None \<and> \<not> marker_intact S op (map_of d (cleanup_marker_at S op))
      \<or> map_of d (cleanup_at S op) \<noteq> None \<and> map_of d (cleanup_at S op) \<noteq> old)"

definition conserved :: "'v site \<Rightarrow> pystr \<Rightarrow> node option \<Rightarrow> node \<Rightarrow> dirents \<Rightarrow> dirents \<Rightarrow> bool" where
  "conserved S op old new d0 d \<longleftrightarrow>
     untouched S op d0 d \<and> no_loss S op old new d \<and> (closed_remnant S op old d \<or> damaged_remnant S op old d)"

lemmas conserved_defs = conserved_def no_loss_def closed_remnant_def damaged_remnant_def Let_def

lemma conserved_clean:
  assumes "untouched S op d0 d" "map_of d (backup_at S op) = None" "map_of d (backup_marker_at S op) = None"
    "map_of d (cleanup_at S op) = None" "map_of d (cleanup_marker_at S op) = None"
    "map_of d (target_name S) = old \<or> map_of d (target_name S) = Some new"
  shows "conserved S op old new d0 d"
  using assms by (auto simp: conserved_defs)

lemma conserved_marker:
  assumes "untouched S op d0 d" "map_of d (backup_at S op) = None"
    "map_of d (cleanup_at S op) = None" "map_of d (cleanup_marker_at S op) = None"
    "map_of d (target_name S) = old \<or> map_of d (target_name S) = Some new" "map_of d (target_name S) \<noteq> None"
  shows "conserved S op old new d0 d"
  using assms by (cases "map_of d (backup_marker_at S op) = None \<or> marker_intact S op (map_of d (backup_marker_at S op))")
    (auto simp: conserved_defs)

lemma conserved_absent:
  assumes "untouched S op d0 d" "map_of d (backup_at S op) = old" "old \<noteq> None" "marker_intact S op (map_of d (backup_marker_at S op))"
    "map_of d (cleanup_at S op) = None" "map_of d (cleanup_marker_at S op) = None" "map_of d (target_name S) = None"
  shows "conserved S op old new d0 d"
  using assms by (auto simp: conserved_defs)

lemma conserved_backup:
  assumes "untouched S op d0 d" "map_of d (backup_at S op) = old" "old \<noteq> None" "marker_intact S op (map_of d (backup_marker_at S op))"
    "map_of d (cleanup_at S op) = None" "map_of d (target_name S) = Some new"
  shows "conserved S op old new d0 d"
  using assms by (cases "map_of d (cleanup_marker_at S op) = None \<or> marker_intact S op (map_of d (cleanup_marker_at S op))")
    (auto simp: conserved_defs)

lemma conserved_tombstone:
  assumes "untouched S op d0 d" "map_of d (backup_at S op) = None" "marker_intact S op (map_of d (backup_marker_at S op))"
    "marker_intact S op (map_of d (cleanup_marker_at S op))" "map_of d (target_name S) = Some new"
  shows "conserved S op old new d0 d"
  using assms by (cases "map_of d (cleanup_at S op) = None \<or> map_of d (cleanup_at S op) = old")
    (auto simp: conserved_defs)

lemma conserved_markers:
  assumes "untouched S op d0 d" "map_of d (backup_at S op) = None" "marker_intact S op (map_of d (backup_marker_at S op))"
    "map_of d (cleanup_at S op) = None" "map_of d (cleanup_marker_at S op) = None" "map_of d (target_name S) = Some new"
  shows "conserved S op old new d0 d"
  using assms by (auto simp: conserved_defs)

lemma publication_names_in [simp]:
  "target_name S \<in> publication_names S op" "stage_at S op \<in> publication_names S op" "stage_marker_at S op \<in> publication_names S op"
  "backup_at S op \<in> publication_names S op" "backup_marker_at S op \<in> publication_names S op"
  "cleanup_at S op \<in> publication_names S op" "cleanup_marker_at S op \<in> publication_names S op"
  by (simp_all add: publication_names_def)

lemma untouched_put [simp]:
  "n \<in> publication_names S op \<Longrightarrow> untouched S op d0 (put_entry n x d) = untouched S op d0 d"
  unfolding untouched_def by (intro all_cong1) auto

lemma untouched_step:
  assumes "port_step X s t" "X \<subseteq> publication_names S op" "untouched S op d0 (entries s)"
  shows "untouched S op d0 (entries t)"
  using assms unfolding untouched_def port_step_def only_at_def by (metis subsetD)

section \<open>The phases of a publication\<close>

definition engaged :: "'v site \<Rightarrow> pystr \<Rightarrow> 'v \<Rightarrow> 'v publisher \<Rightarrow> bool" where
  "engaged S op v s \<longleftrightarrow> fs_expected s = Some v \<and> \<not> receiver_closed s \<and> receiver_transferred s
     \<and> stage_name (stage_custody s) = stage_at S op \<and> marker_name (stage_custody s) = stage_marker_at S op
     \<and> custody_target (stage_custody s) = target_name S"

definition knows :: "'v site \<Rightarrow> pystr \<Rightarrow> 'v publisher \<Rightarrow> bool" where
  "knows S op s \<longleftrightarrow> fs_operation_id s = Some op \<and> fs_marker_payload s = Some (marker_bytes op (target_name S))"

definition slots :: "'v site \<Rightarrow> pystr \<Rightarrow> 'v publisher \<Rightarrow> node option \<Rightarrow> node option \<Rightarrow> (node option \<Rightarrow> bool) \<Rightarrow> (node option \<Rightarrow> bool) \<Rightarrow> (node option \<Rightarrow> bool) \<Rightarrow> bool" where
  "slots S op s t b bm c cm \<longleftrightarrow> look s (target_name S) = t \<and> look s (backup_at S op) = b \<and> bm (look s (backup_marker_at S op))
     \<and> c (look s (cleanup_at S op)) \<and> cm (look s (cleanup_marker_at S op))"

definition published_error :: "file_error \<Rightarrow> bool" where
  "published_error e \<longleftrightarrow> (\<exists>x. e = Contract x \<and> error_published x)"

definition rollback_error :: "file_error \<Rightarrow> bool" where
  "rollback_error e \<longleftrightarrow> (\<exists>x. e = Contract x \<and> error_code x = PUBLICATION_ROLLBACK_FAILED)"

definition holds_stage :: "'v site \<Rightarrow> pystr \<Rightarrow> 'v publisher \<Rightarrow> bool" where
  "holds_stage S op s \<longleftrightarrow> stage_name (stage_custody s) = stage_at S op \<and> marker_name (stage_custody s) = stage_marker_at S op"

text \<open>How a publication fails: the generations are conserved, and the error tells where the target stands.\<close>

definition failing :: "'v site \<Rightarrow> pystr \<Rightarrow> node option \<Rightarrow> node \<Rightarrow> dirents \<Rightarrow> file_error \<Rightarrow> 'v publisher \<Rightarrow> bool" where
  "failing S op old new d0 e t \<longleftrightarrow> conserved S op old new d0 (entries t) \<and> holds_stage S op t
     \<and> (published_error e \<longrightarrow> look t (target_name S) = Some new)
     \<and> (look t (target_name S) = old \<or> published_error e \<or> rollback_error e)"

lemma failure_unpublished: "failure e \<Longrightarrow> \<not> published_error e"
  by (auto simp: failure_def published_error_def)

lemma operation_ids_ok: "operation_id_ok (cp ''publish-artifacts'')" "operation_id_ok (cp ''recover-published-artifacts'')"
  by code_simp+

lemma rollback_contract:
  assumes "safe_basename (printable S) (target_name S)" "operation_id_ok operation"
  shows "rollback_error (contract_failure S PUBLICATION_ROLLBACK_FAILED operation p ctx)"
    and "\<not> published_error (contract_failure S PUBLICATION_ROLLBACK_FAILED operation False ctx)"
  using assms by (simp_all add: contract_failure_def artifact_contract_error_def rollback_error_def published_error_def)

end
