(* ===== verification/Publication_Phases.thy ===== *)
theory Publication_Phases
  imports Publication_Remnants
begin

text \<open>
  The phases of a publication under arbitrary faults: the target moves aside, the stage moves in, the
  commit or its rollback, the removal of the backup; then the whole publication from a fresh start.
\<close>

lemma MARKER_nonempty [simp]: "MARKER \<noteq> []"
  by (simp add: MARKER_def cp_def)

lemma port_step_fields:
  assumes "port_step X s t"
  shows "engaged S op v s \<Longrightarrow> engaged S op v t" and "knows S op s \<Longrightarrow> knows S op t" and "holds_stage S op s \<Longrightarrow> holds_stage S op t"
    and "machine_state t = machine_state s" and "stage_custody t = stage_custody s"
  using assms by (auto simp: port_step_def engaged_def knows_def holds_stage_def)

lemma engaged_holds: "engaged S op v s \<Longrightarrow> holds_stage S op s"
  by (simp add: engaged_def holds_stage_def)

text \<open>Restoring the backup, from an absent target.\<close>

lemma wp_restore_or_raise:
  assumes eng: "fs_expected s = Some v" and hold: "holds_stage S op s" and kn: "knows S op s"
    and un: "untouched S op d0 (entries s)"
    and sl: "slots S op s None (Some o1) (marker_intact S op) (\<lambda>x. x = None) (\<lambda>x. x = None)"
    and name: "safe_basename (printable S) (target_name S)" "operation_id_ok operation" and cause: "failure cause"
    and E: "\<And>e t. failing S op (Some o1) new d0 e t \<Longrightarrow> E e t" and K: "\<And>t. conserved S op (Some o1) new d0 (entries t) \<Longrightarrow> K t"
  shows "wp (restore_backup_or_raise S operation cause) Q E K s"
proof -
  have known: "fs_operation_id s = Some op" using kn by (simp add: knows_def)
  let ?fail = "\<lambda>e t. failing S op (Some o1) new d0 e t"
  have rb: "wp (raise_rollback S operation e :: (_, unit) publishing) Q' E K t"
    if "conserved S op (Some o1) new d0 (entries t)" "holds_stage S op t" "look t (target_name S) = None \<or> look t (target_name S) = Some o1" for Q' e t
    using that rollback_contract [OF name]
    by (auto simp: raise_rollback_def wp_simps failing_def intro!: E)
  have here: "conserved S op (Some o1) new d0 (entries (s\<lparr>script := fs\<rparr>))" for fs
    using un sl by (intro conserved_absent) (simp_all add: slots_def)
  have restored1: "conserved S op (Some o1) new d0 (restored S op o1 (entries s))"
    using un sl by (intro conserved_marker) (simp_all add: slots_def look_restored, simp add: restored_def)
  have cleaned: "conserved S op (Some o1) new d0 (put_entry (backup_marker_at S op) None (restored S op o1 (entries s)))"
    using un sl by (intro conserved_clean) (simp_all add: slots_def look_restored, simp add: restored_def)
  have hs: "holds_stage S op (s\<lparr>entries := d, script := fs\<rparr>)" "holds_stage S op (s\<lparr>script := fs\<rparr>)"
      "holds_stage S op (s\<lparr>entries := d, script := fs, machine_state := m\<rparr>)" for d fs m
    using hold by (simp_all add: holds_stage_def)
  show ?thesis
    unfolding restore_backup_or_raise_def wp_seq wp_catching enter_state_def wp_modify wp_throw
  proof (rule wp_restore_backup [OF _ _ _ _ _ known eng], goal_cases)
    case (1 x files fs)
    then have "x = o1" using sl by (simp add: slots_def)
    then show ?case
      using cleaned hs cause by (auto intro!: E simp: failing_def failure_unpublished look_restored)
  next
    case (2 e fs)
    then show ?case using here hs rb sl by (simp add: failure_guarded slots_def)
  next
    case (3 e x fs)
    then have "x = o1" using sl by (simp add: slots_def)
    with 3 show ?case using restored1 hs rb by (simp add: failure_guarded look_restored)
  next
    case (4 fs)
    then show ?case using here K by simp
  next
    case (5 x fs)
    then have "x = o1" using sl by (simp add: slots_def)
    then show ?case using restored1 K by simp
  qed
qed

text \<open>Moving the old target aside.\<close>

lemma wp_recognize_target:
  assumes "\<And>x files fs. look s (target_name S) = Some x \<Longrightarrow> verify_tree S x = Inr (files, v) \<Longrightarrow> Q () (s\<lparr>script := fs\<rparr>)"
    and "\<And>e fs. failure e \<Longrightarrow> E e (s\<lparr>script := fs\<rparr>)" "\<And>fs. K (s\<lparr>script := fs\<rparr>)"
    and "fs_expected s = Some v"
  shows "wp (recognize_target S) Q E K s"
  unfolding recognize_target_def wp_catching wp_throw
  by (rule wp_verify_target [OF _ _ _ assms(4)]) (simp_all add: assms failure_contract)

lemma wp_rename_target:
  assumes eng: "engaged S op v s" and unk: "fs_operation_id s = None" "fs_marker_payload s = None"
    and marker: "look s (stage_marker_at S op) \<noteq> None"
    and free: "look s (backup_at S op) = None"
    and Q: "\<And>t. port_step {target_name S, backup_at S op, backup_marker_at S op} s t \<Longrightarrow> knows S op t \<Longrightarrow>
        look t (target_name S) = None \<Longrightarrow> look t (backup_at S op) = look s (target_name S) \<Longrightarrow>
        marker_intact S op (look t (backup_marker_at S op)) \<Longrightarrow> Q () t"
    and E: "\<And>e t. failure e \<Longrightarrow> port_step {backup_marker_at S op} s t \<Longrightarrow> E e t"
    and K: "\<And>t. port_step {backup_marker_at S op} s t \<Longrightarrow> K t"
  shows "wp (rename_target_to_backup S) Q E K s"
proof -
  let ?bm = "backup_marker_at S op"
  have step0: "port_step {?bm} s (s\<lparr>script := fs\<rparr>)" for fs by simp
  have moved: "wp (catching is_os_error (seq open_parent (bind (backup_name S) (os_rename (target_name S))))
        (\<lambda>_. bind (backup_marker_name S) (\<lambda>marker. seq (verify_marker S marker)
             (seq (seq open_parent (os_unlink [marker]))
             (throw (publish_failure S EXACT_TREE_MISMATCH ''target_to_backup_rename_failed'')))))) Q E K t"
    if t: "port_step {?bm} s t" and kn: "knows S op t" and m: "marker_intact S op (look t ?bm)" for t
  proof -
    have known: "fs_operation_id (t\<lparr>script := fs\<rparr>) = Some op" for fs using kn by (simp add: knows_def)
    have tt: "port_step {?bm} s (t\<lparr>script := fs\<rparr>)" for fs by (rule port.trans_R [OF t port_step_script])
    have lt: "look t (target_name S) = look s (target_name S)" "look t (backup_at S op) = None"
      using port_step_look [OF t, of "target_name S"] port_step_look [OF t, of "backup_at S op"] free by simp_all
    have undo: "wp (bind (backup_marker_name S) (\<lambda>marker. seq (verify_marker S marker)
             (seq (seq open_parent (os_unlink [marker]))
             (throw (publish_failure S EXACT_TREE_MISMATCH ''target_to_backup_rename_failed''))))) Q E K (t\<lparr>script := fs\<rparr>)" for fs
    proof -
      have un: "port_step {?bm} s (t\<lparr>entries := put_entry ?bm None (entries t), script := gs\<rparr>)" for gs
        by (rule port.trans_R [OF t]) (simp add: port_step_def only_at_def)
      show ?thesis
        unfolding wp_bind wp_names(2) [OF known] wp_seq wp_throw
        by (intro wp_verify_marker wp_open_parent wp_unlink) (simp_all add: E K tt un failure_contract failure_os)
    qed
    show ?thesis
      unfolding wp_catching wp_seq wp_bind [of "backup_name S"]
    proof (rule wp_open_parent)
      fix fs
      show "wp (backup_name S) (\<lambda>x. wp (os_rename (target_name S) x) Q (\<lambda>e t. if is_os_error e then wp (bind (backup_marker_name S) (\<lambda>marker. seq (verify_marker S marker)
             (seq (seq open_parent (os_unlink [marker]))
             (throw (publish_failure S EXACT_TREE_MISMATCH ''target_to_backup_rename_failed''))))) Q E K t else E e t) K)
         (\<lambda>e t. if is_os_error e then wp (bind (backup_marker_name S) (\<lambda>marker. seq (verify_marker S marker)
             (seq (seq open_parent (os_unlink [marker]))
             (throw (publish_failure S EXACT_TREE_MISMATCH ''target_to_backup_rename_failed''))))) Q E K t else E e t) K (t\<lparr>script := fs\<rparr>)"
        unfolding wp_names(1) [OF known]
      proof (rule wp_rename)
        fix x gs
        assume x: "look (t\<lparr>script := fs\<rparr>) (target_name S) = Some x"
        let ?u = "t\<lparr>entries := put_entry (backup_at S op) (Some x) (put_entry (target_name S) None (entries t)), script := gs\<rparr>"
        have "port_step {target_name S, backup_at S op, ?bm} s ?u"
          by (rule port.trans_R [OF port_step_mono [OF _ t]]) (auto simp: port_step_def only_at_def)
        moreover have "knows S op ?u" using kn by (simp add: knows_def)
        ultimately have "Q () ?u"
          using x m lt by (intro Q) simp_all
        then show "Q () ((t\<lparr>script := fs\<rparr>)\<lparr>entries := put_entry (backup_at S op) (Some x) (put_entry (target_name S) None (entries (t\<lparr>script := fs\<rparr>))), script := gs\<rparr>)"
          by simp
      qed (simp_all add: undo K tt failure_os)
    qed (simp_all add: undo K tt)
  qed
  have made: "wp (create_marker S ?bm) (\<lambda>_. wp (catching is_os_error (seq open_parent (bind (backup_name S) (os_rename (target_name S))))
        (\<lambda>_. bind (backup_marker_name S) (\<lambda>marker. seq (verify_marker S marker)
             (seq (seq open_parent (os_unlink [marker]))
             (throw (publish_failure S EXACT_TREE_MISMATCH ''target_to_backup_rename_failed'')))))) Q E K) E K t"
    if t: "port_step {} s t" and kn: "knows S op t" for t
  proof -
    have t': "port_step {?bm} s t" by (rule port_step_mono [OF _ t]) simp
    have p: "fs_marker_payload t = Some (marker_bytes op (target_name S))" using kn by (simp add: knows_def)
    show ?thesis
    proof (rule wp_create_marker [OF _ _ _ p])
      fix u i assume u: "port_step {?bm} t u" "look u ?bm = Some (Regular i 384 1 (marker_bytes op (target_name S)))"
      show "wp (catching is_os_error (seq open_parent (bind (backup_name S) (os_rename (target_name S))))
        (\<lambda>_. bind (backup_marker_name S) (\<lambda>marker. seq (verify_marker S marker)
             (seq (seq open_parent (os_unlink [marker]))
             (throw (publish_failure S EXACT_TREE_MISMATCH ''target_to_backup_rename_failed'')))))) Q E K u"
        using u(2) by (intro moved port.trans_R [OF t' u(1)] port_step_fields(2) [OF u(1) kn]) (auto simp: marker_intact_def)
    qed (auto intro: E K port.trans_R [OF t'])
  qed
  have learnt: "wp (backup_marker_name S) (\<lambda>marker. wp (seq (create_marker S marker) (catching is_os_error (seq open_parent (bind (backup_name S) (os_rename (target_name S))))
        (\<lambda>_. bind (backup_marker_name S) (\<lambda>marker. seq (verify_marker S marker)
             (seq (seq open_parent (os_unlink [marker]))
             (throw (publish_failure S EXACT_TREE_MISMATCH ''target_to_backup_rename_failed''))))))) Q E K) E K (s\<lparr>script := fs\<rparr>)" for fs
    unfolding backup_marker_name_def backup_name_def wp_bind
  proof (rule wp_learn_operation [where op = op])
    fix t assume t: "port_step {} (s\<lparr>script := fs\<rparr>) t" "fs_operation_id t = Some op" "fs_marker_payload t = Some (marker_bytes op (target_name S))"
    have "wp (seq (create_marker S ?bm) (catching is_os_error (seq open_parent (bind (backup_name S) (os_rename (target_name S))))
        (\<lambda>_. bind (backup_marker_name S) (\<lambda>marker. seq (verify_marker S marker)
             (seq (seq open_parent (os_unlink [marker]))
             (throw (publish_failure S EXACT_TREE_MISMATCH ''target_to_backup_rename_failed''))))))) Q E K t"
      unfolding wp_seq [of "create_marker S ?bm"]
      by (rule made [OF port.trans_R [OF port_step_script t(1)]]) (use t in \<open>simp add: knows_def\<close>)
    then show "wp (ret (backup_at S op)) (\<lambda>x. wp (ret (x @ MARKER)) (\<lambda>marker. wp (seq (create_marker S marker) (catching is_os_error (seq open_parent (bind (bind (require_operation_id S) (\<lambda>operation. ret (backup_at S operation))) (os_rename (target_name S))))
        (\<lambda>_. bind (bind (bind (require_operation_id S) (\<lambda>operation. ret (backup_at S operation))) (\<lambda>name. ret (name @ MARKER))) (\<lambda>marker. seq (verify_marker S marker)
             (seq (seq open_parent (os_unlink [marker]))
             (throw (publish_failure S EXACT_TREE_MISMATCH ''target_to_backup_rename_failed''))))))) Q E K) E K) E K t"
      unfolding wp_ret backup_marker_name_def backup_name_def by simp
  qed (use marker unk in \<open>auto intro: E K port_step_mono [of "{}"] port.trans_R [OF port_step_script]\<close>)
  show ?thesis
    unfolding rename_target_to_backup_def wp_seq [of "recognize_target S"] wp_bind [of "backup_marker_name S"]
    by (rule wp_recognize_target [where v = v]) (use eng in \<open>simp_all add: learnt E K step0 engaged_def\<close>)
qed


lemma failing_unmoved:
  assumes "failure e" "conserved S op old new d0 (entries t)" "holds_stage S op t" "look t (target_name S) = old"
  shows "failing S op old new d0 e t"
  using assms by (simp add: failing_def failure_unpublished)

lemma wp_move_target_aside:
  assumes eng: "engaged S op v s" and unk: "fs_operation_id s = None" "fs_marker_payload s = None"
    and marker: "look s (stage_marker_at S op) \<noteq> None" and machine: "machine_state s = STAGE_VERIFIED"
    and sl: "slots S op s (Some o1) None (\<lambda>x. x = None) (\<lambda>x. x = None) (\<lambda>x. x = None)" and un: "untouched S op d0 (entries s)"
    and name: "safe_basename (printable S) (target_name S)" "operation_id_ok operation"
    and Q: "\<And>t. engaged S op v t \<Longrightarrow> knows S op t \<Longrightarrow> slots S op t None (Some o1) (marker_intact S op) (\<lambda>x. x = None) (\<lambda>x. x = None) \<Longrightarrow>
        untouched S op d0 (entries t) \<Longrightarrow> look t (stage_at S op) = look s (stage_at S op) \<Longrightarrow>
        stage_custody t = stage_custody s \<Longrightarrow> Q () t"
    and E: "\<And>e t. failing S op (Some o1) new d0 e t \<Longrightarrow> E e t" and K: "\<And>t. conserved S op (Some o1) new d0 (entries t) \<Longrightarrow> K t"
  shows "wp (move_target_aside S operation clean) Q E K s"
proof -
  let ?bm = "backup_marker_at S op"
  have unmoved: "conserved S op (Some o1) new d0 (entries t)" "holds_stage S op t" "look t (target_name S) = Some o1" "machine_state t = STAGE_VERIFIED"
    if t: "port_step {?bm} s t" for t
  proof -
    have l: "look t n = look s n" if "n \<noteq> ?bm" for n
      using port_step_look [OF t] that by simp
    show "conserved S op (Some o1) new d0 (entries t)"
      using sl by (intro conserved_marker untouched_step [OF t _ un]) (simp_all add: l slots_def)
    show "holds_stage S op t" by (rule port_step_fields(3) [OF t engaged_holds [OF eng]])
    show "look t (target_name S) = Some o1" using sl by (simp add: l slots_def)
    show "machine_state t = STAGE_VERIFIED" using port_step_fields(4) [OF t] machine by simp
  qed
  have step: "port_step {?bm} s (s\<lparr>script := fs\<rparr>)" for fs by simp
  have E0: "E e t" if "failure e" "port_step {?bm} s t" for e t
    by (intro E failing_unmoved that unmoved [OF that(2)])
  have K0: "K t" if "port_step {?bm} s t" for t
    by (intro K unmoved [OF that])
  let ?handler = "\<lambda>cause. bind (reads machine_state) (\<lambda>state.
          if state = BACKUP_VERIFIED then restore_backup_or_raise S operation cause else throw cause)"
  let ?E' = "\<lambda>e t. if guarded_error e then wp (?handler e) Q E K t else E e t"
  have moved: "wp (seq (enter_state BACKUP_VERIFIED) (verify_backup S)) Q ?E' K t"
    if t: "port_step {target_name S, backup_at S op, ?bm} s t" and kn: "knows S op t"
      and lt: "look t (target_name S) = None" "look t (backup_at S op) = look s (target_name S)" "marker_intact S op (look t ?bm)" for t
  proof -
    let ?u = "\<lambda>fs. t\<lparr>machine_state := BACKUP_VERIFIED, script := fs\<rparr>"
    have e: "engaged S op v (?u fs)" and k: "knows S op (?u fs)" for fs
      using port_step_fields(1) [OF t eng] kn by (simp_all add: engaged_def knows_def)
    have sl': "slots S op (?u fs) None (Some o1) (marker_intact S op) (\<lambda>x. x = None) (\<lambda>x. x = None)" for fs
      using lt sl port_step_look [OF t, of "cleanup_at S op"] port_step_look [OF t, of "cleanup_marker_at S op"] by (simp add: slots_def)
    have un': "untouched S op d0 (entries (?u fs))" for fs
      using untouched_step [OF t _ un] by simp
    have stage: "look (?u fs) (stage_at S op) = look s (stage_at S op)" for fs
      using port_step_look [OF t, of "stage_at S op"] by simp
    have known: "fs_operation_id (t\<lparr>machine_state := BACKUP_VERIFIED\<rparr>) = Some op" "fs_expected (t\<lparr>machine_state := BACKUP_VERIFIED\<rparr>) = Some v"
      using k e by (simp_all add: knows_def engaged_def)
    have same_custody: "stage_custody (?u fs) = stage_custody s" for fs
      using port_step_fields(5) [OF t] by simp
    have restore: "wp (restore_backup_or_raise S operation cause) Q E K (?u fs)" if "failure cause" for cause fs
      by (rule wp_restore_or_raise [where v = v and ?o1.0 = o1 and new = new and op = op and ?d0.0 = d0])
         (use e k sl' un' name that engaged_holds [OF e] in \<open>auto simp: engaged_def intro: E K\<close>)
    show ?thesis
      unfolding wp_seq enter_state_def wp_modify
    proof (rule wp_verify_backup [OF _ _ _ known])
      fix fs
      show "Q () (t\<lparr>machine_state := BACKUP_VERIFIED, script := fs\<rparr>)"
        by (intro Q e k sl' un' stage same_custody)
      show "K (t\<lparr>machine_state := BACKUP_VERIFIED, script := fs\<rparr>)"
        using sl' [of fs] un' [of fs] by (intro K conserved_absent) (simp_all add: slots_def)
      show "?E' e (t\<lparr>machine_state := BACKUP_VERIFIED, script := fs\<rparr>)" if "failure e" for e
        using restore [OF that] that by (simp add: wp_bind wp_reads failure_guarded)
    qed
  qed
  have renamed: "wp (rename_target_to_backup S) (\<lambda>_. wp (seq (enter_state BACKUP_VERIFIED) (verify_backup S)) Q ?E' K) ?E' K (s\<lparr>script := fs\<rparr>)" for fs
  proof (rule wp_rename_target [where v = v and op = op])
    fix t assume "port_step {target_name S, backup_at S op, ?bm} (s\<lparr>script := fs\<rparr>) t"
    then have t: "port_step {target_name S, backup_at S op, ?bm} s t" by (rule port.trans_R [OF port_step_script])
    assume "knows S op t" "look t (target_name S) = None" "look t (backup_at S op) = look (s\<lparr>script := fs\<rparr>) (target_name S)" "marker_intact S op (look t ?bm)"
    then show "wp (seq (enter_state BACKUP_VERIFIED) (verify_backup S)) Q ?E' K t"
      by (intro moved t) simp_all
  next
    fix e t assume e: "failure e" and "port_step {?bm} (s\<lparr>script := fs\<rparr>) t"
    then have t: "port_step {?bm} s t" by (blast intro: port.trans_R [OF step])
    show "?E' e t"
      using E0 [OF e t] e unmoved(4) [OF t] by (simp add: wp_bind wp_reads wp_throw failure_guarded)
  next
    fix t assume "port_step {?bm} (s\<lparr>script := fs\<rparr>) t"
    then show "K t" by (intro K0 port.trans_R [OF step])
  qed (use eng unk marker sl in \<open>simp_all add: engaged_def slots_def\<close>)
  show ?thesis
    unfolding move_target_aside_def wp_seq [of "throw_if _ _"] wp_seq [of "recognize_target S"] wp_catching wp_throw_if
  proof (cases "\<not> clean")
    case True
    have "failure (contract_failure S EXISTING_TARGET operation False [])" by (rule failure_contract)
    then show "if \<not> clean then E (contract_failure S EXISTING_TARGET operation False []) s
        else wp (recognize_target S) (\<lambda>_. wp (seq (rename_target_to_backup S) (seq (enter_state BACKUP_VERIFIED) (verify_backup S))) Q ?E' K) E K s"
      using True E0 [OF _ port.refl_R] by simp
  next
    case False
    have "wp (recognize_target S) (\<lambda>_. wp (seq (rename_target_to_backup S) (seq (enter_state BACKUP_VERIFIED) (verify_backup S))) Q ?E' K) E K s"
      unfolding wp_seq [of "rename_target_to_backup S"]
      by (rule wp_recognize_target [where v = v]) (use eng in \<open>simp_all add: renamed E0 K0 engaged_def\<close>)
    then show "if \<not> clean then E (contract_failure S EXISTING_TARGET operation False []) s
        else wp (recognize_target S) (\<lambda>_. wp (seq (rename_target_to_backup S) (seq (enter_state BACKUP_VERIFIED) (verify_backup S))) Q ?E' K) E K s"
      using False by simp
  qed
qed


text \<open>The three stations: the target is out of the way, the stage is at the target, the publication is committed.\<close>

definition station :: "'v site \<Rightarrow> pystr \<Rightarrow> 'v \<Rightarrow> node option \<Rightarrow> dirents \<Rightarrow> node option \<Rightarrow> 'v publisher \<Rightarrow> bool" where
  "station S op v old d0 t s \<longleftrightarrow> engaged S op v s \<and> untouched S op d0 (entries s) \<and>
     (case old of
        None \<Rightarrow> slots S op s t None (\<lambda>x. x = None) (\<lambda>x. x = None) (\<lambda>x. x = None)
      | Some o1 \<Rightarrow> knows S op s \<and> slots S op s t old (marker_intact S op) (\<lambda>x. x = None) (\<lambda>x. x = None))"

lemma station_conserved:
  assumes "station S op v old d0 t s" "t = None \<or> t = Some new"
  shows "conserved S op old new d0 (entries s)"
proof (cases old)
  case None
  then show ?thesis using assms by (intro conserved_clean) (auto simp: station_def slots_def)
next
  case (Some o1)
  show ?thesis
  proof (cases t)
    case None
    then show ?thesis using assms Some by (intro conserved_absent) (auto simp: station_def slots_def)
  next
    case (Some t')
    then show ?thesis using assms \<open>old = Some o1\<close> by (intro conserved_backup) (auto simp: station_def slots_def)
  qed
qed

lemma station_update:
  assumes "station S op v old d0 t s" and "stage_name c = stage_at S op" "marker_name c = stage_marker_at S op" "custody_target c = target_name S"
  shows "station S op v old d0 t (s\<lparr>script := fs\<rparr>)" and "station S op v old d0 t (s\<lparr>machine_state := m\<rparr>)"
    and "station S op v old d0 t' (s\<lparr>entries := put_entry (target_name S) t' (put_entry (stage_at S op) x (entries s)), script := fs, stage_custody := c\<rparr>)"
    and "station S op v old d0 t' (s\<lparr>entries := put_entry (stage_at S op) x (put_entry (target_name S) t' (entries s)), script := fs, stage_custody := c\<rparr>)"
    and "station S op v old d0 t (s\<lparr>entries := put_entry (stage_marker_at S op) None (entries s), script := fs, stage_custody := c\<rparr>)"
  using assms by (auto simp: station_def engaged_def knows_def slots_def split: option.splits)

lemma station_custody:
  "station S op v old d0 t s \<Longrightarrow> stage_name (stage_custody s) = stage_at S op"
  "station S op v old d0 t s \<Longrightarrow> marker_name (stage_custody s) = stage_marker_at S op"
  "station S op v old d0 t s \<Longrightarrow> custody_target (stage_custody s) = target_name S"
  "station S op v old d0 t s \<Longrightarrow> holds_stage S op s"
  "station S op v old d0 t s \<Longrightarrow> fs_expected s = Some v"
  "station S op v old d0 t s \<Longrightarrow> look s (target_name S) = t"
  "station S op v old d0 t s \<Longrightarrow> \<not> receiver_closed s" "station S op v old d0 t s \<Longrightarrow> receiver_transferred s"
  by (auto simp: station_def engaged_def holds_stage_def slots_def split: option.splits)

lemma wp_station_restore:
  assumes st: "station S op v old d0 None s"
    and name: "safe_basename (printable S) (target_name S)" "operation_id_ok operation" and cause: "failure cause"
    and E: "\<And>e t. failing S op old new d0 e t \<Longrightarrow> E e t" and K: "\<And>t. conserved S op old new d0 (entries t) \<Longrightarrow> K t"
  shows "wp (if old \<noteq> None then restore_backup_or_raise S operation cause else throw cause) Q E K s"
    and "wp (if old \<noteq> None then restore_backup_or_raise S operation cause else seq (enter_state m) (throw cause)) Q E K s"
proof -
  have gone: "failing S op old new d0 cause (s\<lparr>machine_state := x\<rparr>)" "failing S op old new d0 cause s" if "old = None" for x
    using st that cause station_conserved [OF st]
    by (auto intro!: failing_unmoved simp: station_custody(6) [OF st] holds_stage_def station_custody(1,2) [OF st])
  have restore: "wp (restore_backup_or_raise S operation cause) Q E K s" if "old = Some o1" for o1
    by (rule wp_restore_or_raise [where v = v and ?o1.0 = o1 and new = new and op = op and ?d0.0 = d0])
       (use st that name cause E K in \<open>auto simp: station_def station_custody(4) [OF st] station_custody(5) [OF st]\<close>)
  show "wp (if old \<noteq> None then restore_backup_or_raise S operation cause else throw cause) Q E K s"
    using restore gone E by (cases old) (auto simp: wp_throw)
  show "wp (if old \<noteq> None then restore_backup_or_raise S operation cause else seq (enter_state m) (throw cause)) Q E K s"
    using restore gone E by (cases old) (auto simp: wp_throw wp_seq enter_state_def wp_modify)
qed

lemma wp_move_stage_in:
  assumes st: "station S op v old d0 None s" and stage: "look s (stage_at S op) = Some new"
    and name: "safe_basename (printable S) (target_name S)" "operation_id_ok operation"
    and Q: "\<And>t. station S op v old d0 (Some new) t \<Longrightarrow> look t (stage_at S op) = None \<Longrightarrow> Q () t"
    and E: "\<And>e t. failing S op old new d0 e t \<Longrightarrow> E e t" and K: "\<And>t. conserved S op old new d0 (entries t) \<Longrightarrow> K t"
  shows "wp (move_stage_in S operation (old \<noteq> None)) Q E K s"
proof -
  note c = station_custody [OF st]
  have stay: "station S op v old d0 None (s\<lparr>script := fs\<rparr>)" for fs
    using station_update(1) [OF st c(1-3)] .
  show ?thesis
    unfolding move_stage_in_def wp_catching with_custody_open [OF c(7,8)]
  proof (rule wp_rename_stage)
    fix x fs assume "look s (stage_name (stage_custody s)) = Some x"
    then have x: "x = new" using stage c(1) by simp
    show "Q () (s\<lparr>entries := put_entry (custody_target (stage_custody s)) (Some x) (put_entry (stage_name (stage_custody s)) None (entries s)),
              script := fs, stage_custody := custody_in TARGET_RENAMED s\<rparr>)"
      unfolding c x by (intro Q station_update(3) [OF st]) (simp_all add: c)
  next
    fix e fs assume e: "failure e"
    then show "if guarded_error e then wp (if old \<noteq> None then restore_backup_or_raise S operation e else throw e) Q E K (s\<lparr>script := fs\<rparr>)
        else E e (s\<lparr>script := fs\<rparr>)"
      by (simp only: failure_guarded if_True) (rule wp_station_restore(1) [OF stay name e E K])
  next
    show "K (s\<lparr>script := fs\<rparr>)" for fs by (intro K station_conserved [OF stay]) simp
  qed (simp add: c)
qed

lemma wp_commit_or_roll_back:
  assumes st: "station S op v old d0 (Some new) s" and stage: "look s (stage_at S op) = None"
    and name: "safe_basename (printable S) (target_name S)" "operation_id_ok operation"
    and Q: "\<And>t files. station S op v old d0 (Some new) t \<Longrightarrow> look t (stage_at S op) = None \<Longrightarrow> look t (stage_marker_at S op) = None \<Longrightarrow>
        custody_closed (stage_custody t) \<Longrightarrow> verify_tree S new = Inr (files, v) \<Longrightarrow> Q () t"
    and E: "\<And>e t. failing S op old new d0 e t \<Longrightarrow> E e t" and K: "\<And>t. conserved S op old new d0 (entries t) \<Longrightarrow> K t"
  shows "wp (commit_or_roll_back S operation (old \<noteq> None)) Q E K s"
proof -
  note c = station_custody [OF st]
  have stay: "station S op v old d0 (Some new) (s\<lparr>script := fs\<rparr>)" for fs
    using station_update(1) [OF st c(1-3)] .
  have unmarked: "station S op v old d0 (Some new) (s\<lparr>entries := put_entry (stage_marker_at S op) None (entries s), script := fs, stage_custody := h\<rparr>)"
    if "stage_name h = stage_at S op" "marker_name h = stage_marker_at S op" "custody_target h = target_name S" for fs h
    using station_update(5) [OF st that] .
  let ?handler = "\<lambda>cause. seq (catching guarded_error (with_custody (custody_rollback_target_to_stage S)) (raise_rollback S operation))
          (if old \<noteq> None then restore_backup_or_raise S operation cause else seq (enter_state STAGE_VERIFIED) (throw cause))"
  have rb: "wp (raise_rollback S operation e :: (_, unit) publishing) Q' E K t"
    if "conserved S op old new d0 (entries t)" "holds_stage S op t" for Q' e t
    using that rollback_contract [OF name] by (auto simp: raise_rollback_def wp_simps failing_def intro!: E)
  have roll: "wp (?handler cause) Q E K u" if u: "station S op v old d0 (Some new) u" and cause: "failure cause" for u cause
  proof -
    note d = station_custody [OF u]
    have su: "station S op v old d0 (Some new) (u\<lparr>script := fs\<rparr>)" for fs
      using station_update(1) [OF u d(1-3)] .
    let ?w = "\<lambda>x fs. u\<lparr>entries := put_entry (stage_at S op) x (put_entry (target_name S) None (entries u)), script := fs, stage_custody := custody_in LIVE u\<rparr>"
    have sw: "station S op v old d0 None (?w x fs)" for x fs
      by (rule station_update(4) [OF u]) (simp_all add: d)
    show ?thesis
      unfolding wp_seq wp_catching with_custody_open [OF d(7,8)]
    proof (rule wp_rollback, unfold d)
      fix x fs
      show "wp (if old \<noteq> None then restore_backup_or_raise S operation cause else seq (enter_state STAGE_VERIFIED) (throw cause)) Q E K (?w (Some x) fs)"
        by (rule wp_station_restore(2) [OF sw name cause E K])
      show "if guarded_error e then wp (raise_rollback S operation e :: (_, unit) publishing) (\<lambda>_. wp (if old \<noteq> None then restore_backup_or_raise S operation cause else seq (enter_state STAGE_VERIFIED) (throw cause)) Q E K) E K (?w (Some x) fs) else E e (?w (Some x) fs)"
        if "failure e" for e
        using that by (simp only: failure_guarded if_True) (rule rb, rule station_conserved [OF sw], simp, rule station_custody(4) [OF sw])
      show "K (?w (Some x) fs)" by (intro K station_conserved [OF sw]) simp
      show "K (u\<lparr>script := fs\<rparr>)" by (intro K station_conserved [OF su]) simp
    next
      fix e fs assume "failure e"
      then show "if guarded_error e then wp (raise_rollback S operation e :: (_, unit) publishing) (\<lambda>_. wp (if old \<noteq> None then restore_backup_or_raise S operation cause else seq (enter_state STAGE_VERIFIED) (throw cause)) Q E K) E K (u\<lparr>script := fs\<rparr>) else E e (u\<lparr>script := fs\<rparr>)"
        by (simp only: failure_guarded if_True) (rule rb, rule station_conserved [OF su], simp, rule station_custody(4) [OF su])
    qed simp
  qed
  show ?thesis
    unfolding commit_or_roll_back_def wp_catching wp_seq [of "verify_target S"]
  proof (rule wp_verify_target [OF _ _ _ c(5)])
    fix x files fs assume x: "look s (target_name S) = Some x" "verify_tree S x = Inr (files, v)"
    then have v: "verify_tree S new = Inr (files, v)" using c(6) by simp
    let ?E = "\<lambda>e t. if guarded_error e then wp (?handler e) Q E K t else E e t"
    have open': "\<not> receiver_closed (s\<lparr>script := fs\<rparr>)" "receiver_transferred (s\<lparr>script := fs\<rparr>)" by (simp_all add: c)
    show "wp (with_custody (custody_commit S)) Q ?E K (s\<lparr>script := fs\<rparr>)"
      unfolding with_custody_open [OF open']
    proof (rule wp_commit)
      fix gs
      show "Q () ((s\<lparr>script := fs\<rparr>)\<lparr>entries := put_entry (marker_name (stage_custody (s\<lparr>script := fs\<rparr>))) None (entries (s\<lparr>script := fs\<rparr>)), script := gs,
          stage_custody := (stage_custody (s\<lparr>script := fs\<rparr>))\<lparr>descriptors_open := False, custody_state := Custody_published, custody_closed := True\<rparr>\<rparr>)"
        by (simp add: c) (rule Q [OF unmarked _ _ _ v]; simp add: c stage)
      show "?E Os_error ((s\<lparr>script := fs\<rparr>)\<lparr>entries := put_entry (marker_name (stage_custody (s\<lparr>script := fs\<rparr>))) None (entries (s\<lparr>script := fs\<rparr>)), script := gs,
          stage_custody := (stage_custody (s\<lparr>script := fs\<rparr>))\<lparr>descriptors_open := False\<rparr>\<rparr>)"
        using roll [OF unmarked failure_contract(6)] by (simp add: c failure_guarded [OF failure_contract(6)])
      show "K ((s\<lparr>script := fs\<rparr>)\<lparr>entries := put_entry (marker_name (stage_custody (s\<lparr>script := fs\<rparr>))) None (entries (s\<lparr>script := fs\<rparr>)), script := gs,
          stage_custody := (stage_custody (s\<lparr>script := fs\<rparr>))\<lparr>descriptors_open := False\<rparr>\<rparr>)"
        by (simp add: c) (rule K, rule station_conserved [OF unmarked], simp_all add: c)
      show "K ((s\<lparr>script := fs\<rparr>)\<lparr>script := gs\<rparr>)"
        using station_conserved [OF stay [of gs]] by (intro K) simp
      show "?E e ((s\<lparr>script := fs\<rparr>)\<lparr>script := gs\<rparr>)" if "failure e" for e
        using roll [OF stay that] that by (simp add: failure_guarded)
    qed
  next
    fix e fs assume "failure e"
    then show "if guarded_error e then wp (?handler e) Q E K (s\<lparr>script := fs\<rparr>) else E e (s\<lparr>script := fs\<rparr>)"
      using roll [OF stay] by (simp add: failure_guarded)
  next
    show "K (s\<lparr>script := fs\<rparr>)" for fs
      by (intro K station_conserved [OF stay]) simp
  qed
qed


text \<open>Removing the backup of a committed publication.\<close>

definition cleaning :: "'v site \<Rightarrow> pystr \<Rightarrow> 'v \<Rightarrow> dirents \<Rightarrow> node \<Rightarrow> custody \<Rightarrow> 'v publisher \<Rightarrow> bool" where
  "cleaning S op v d0 new held s \<longleftrightarrow> engaged S op v s \<and> knows S op s \<and> untouched S op d0 (entries s)
     \<and> look s (target_name S) = Some new \<and> look s (stage_at S op) = None \<and> look s (stage_marker_at S op) = None \<and> stage_custody s = held"

lemma cleaning_update:
  assumes "cleaning S op v d0 new held s" and "n \<in> {backup_at S op, backup_marker_at S op, cleanup_at S op, cleanup_marker_at S op}"
  shows "cleaning S op v d0 new held (s\<lparr>machine_state := m\<rparr>)" and "cleaning S op v d0 new held (s\<lparr>script := fs\<rparr>)"
    and "cleaning S op v d0 new held (s\<lparr>entries := put_entry n x (entries s), script := fs\<rparr>)"
  using assms by (auto simp: cleaning_def engaged_def knows_def)

lemma cleaning_step:
  assumes "cleaning S op v d0 new held s" and "port_step {n} s t" and n: "n \<in> {backup_at S op, backup_marker_at S op, cleanup_at S op, cleanup_marker_at S op}"
  shows "cleaning S op v d0 new held t"
proof -
  have "look t m = look s m" if "m \<noteq> n" for m
    using port_step_look [OF assms(2)] that by simp
  moreover have "target_name S \<noteq> n" "stage_at S op \<noteq> n" "stage_marker_at S op \<noteq> n"
    using n by auto
  moreover have "untouched S op d0 (entries t)"
    using assms(1) n by (intro untouched_step [OF assms(2)]) (auto simp: cleaning_def)
  ultimately show ?thesis
    using assms(1) port_step_fields [OF assms(2)] by (simp add: cleaning_def)
qed

lemma wp_remove_backup:
  assumes start: "cleaning S op v d0 new held s"
    and sl: "slots S op s (Some new) (Some o1) (marker_intact S op) (\<lambda>x. x = None) (\<lambda>x. x = None)"
    and name: "safe_basename (printable S) (target_name S)" "operation_id_ok operation"
    and Q: "\<And>t. cleaning S op v d0 new held t \<Longrightarrow> slots S op t (Some new) None (\<lambda>x. x = None) (\<lambda>x. x = None) (\<lambda>x. x = None) \<Longrightarrow> Q () t"
    and E: "\<And>e t. failing S op (Some o1) new d0 e t \<Longrightarrow> stage_custody t = held \<Longrightarrow> E e t"
    and K: "\<And>t. conserved S op (Some o1) new d0 (entries t) \<Longrightarrow> K t"
  shows "wp (remove_backup S operation) Q E K s"
proof -
  let ?b = "backup_at S op" and ?bm = "backup_marker_at S op" and ?c = "cleanup_at S op" and ?cm = "cleanup_marker_at S op"
  let ?err = "\<lambda>t. wp (bind (reads machine_state) (\<lambda>state.
          throw (contract_failure S BACKUP_CLEANUP_FAILED_AFTER_PUBLISH operation True
            [(cp ''state'', publication_state_value state)])) :: (_, unit) publishing) Q E K t"
  let ?E = "\<lambda>e t. if guarded_error e then ?err t else E e t"
  let ?good = "\<lambda>t. cleaning S op v d0 new held t \<and> conserved S op (Some o1) new d0 (entries t)"
  have err: "?E e t" if "failure e" "?good t" for e t
  proof -
    have "published_error (contract_failure S BACKUP_CLEANUP_FAILED_AFTER_PUBLISH operation True ctx)" for ctx
      using name by (simp add: contract_failure_def artifact_contract_error_def published_error_def)
    with that show ?thesis
      by (auto simp: wp_simps failure_guarded cleaning_def failing_def holds_stage_def engaged_def intro!: E)
  qed
  have kill: "K t" if "?good t" for t using that by (intro K) simp
  have known: "fs_operation_id t = Some op" "fs_expected t = Some v" "fs_marker_payload t = Some (marker_bytes op (target_name S))"
    if "cleaning S op v d0 new held t" for t
    using that by (simp_all add: cleaning_def engaged_def knows_def)
  have un: "untouched S op d0 (entries t)" "look t (target_name S) = Some new" if "cleaning S op v d0 new held t" for t
    using that by (simp_all add: cleaning_def)
  have upd: "cleaning S op v d0 new held (t\<lparr>machine_state := m\<rparr>)" "cleaning S op v d0 new held (t\<lparr>script := fs\<rparr>)"
    if "cleaning S op v d0 new held t" for t m fs
    using cleaning_update [OF that, of ?b] by simp_all
  let ?s5 = "seq (enter_state BACKUP_MARKER_ONLY) (seq (unlink_backup_marker S) (enter_state NO_REMNANT))"
  have s5: "wp ?s5 Q ?E K t"
    if t: "cleaning S op v d0 new held t" "slots S op t (Some new) None (marker_intact S op) (\<lambda>x. x = None) (\<lambda>x. x = None)" for t
  proof -
    have good: "?good (t\<lparr>machine_state := m, script := fs\<rparr>)" for m fs
      using t upd [OF upd(1) [OF t(1)]] un [OF t(1)] by (auto simp: slots_def intro!: conserved_markers)
    have u: "fs_operation_id (t\<lparr>machine_state := BACKUP_MARKER_ONLY\<rparr>) = Some op" using known [OF t(1)] by simp
    show ?thesis
      unfolding wp_seq enter_state_def wp_modify unlink_backup_marker_def wp_bind [of "backup_marker_name S"] wp_names(2) [OF u]
    proof (rule wp_unlink_marker)
      fix x payload fs
      have "cleaning S op v d0 new held ((t\<lparr>machine_state := BACKUP_MARKER_ONLY\<rparr>)\<lparr>entries := put_entry ?bm None (entries t), script := fs\<rparr>)"
        using cleaning_update(3) [OF upd(1) [OF t(1)], where n = "?bm" and x = None and fs = fs] by simp
      from upd(1) [OF this, of NO_REMNANT]
      show "Q () ((t\<lparr>machine_state := BACKUP_MARKER_ONLY\<rparr>)\<lparr>entries := put_entry ?bm None (entries (t\<lparr>machine_state := BACKUP_MARKER_ONLY\<rparr>)), script := fs\<rparr>\<lparr>machine_state := NO_REMNANT\<rparr>)"
        using t(2) by (intro Q) (simp_all add: slots_def)
    qed (use good err kill in \<open>simp_all add: failure_guarded\<close>)
  qed
  let ?s4 = "seq (enter_state BOTH_MARKERS_ONLY) (seq (unlink_tombstone_marker S) ?s5)"
  have s4: "wp ?s4 Q ?E K t"
    if t: "cleaning S op v d0 new held t" "slots S op t (Some new) None (marker_intact S op) (\<lambda>x. x = None) (marker_intact S op)" for t
  proof -
    have good: "?good (t\<lparr>machine_state := m, script := fs\<rparr>)" for m fs
      using t upd [OF upd(1) [OF t(1)]] un [OF t(1)] by (auto simp: slots_def intro!: conserved_tombstone)
    have u: "fs_operation_id (t\<lparr>machine_state := BOTH_MARKERS_ONLY\<rparr>) = Some op" using known [OF t(1)] by simp
    show ?thesis
      unfolding wp_seq [of "enter_state BOTH_MARKERS_ONLY"] wp_seq [of "unlink_tombstone_marker S"]
      unfolding enter_state_def [of BOTH_MARKERS_ONLY] wp_modify
        unlink_tombstone_marker_def wp_bind [of "tombstone_marker_name S"] wp_names(4) [OF u]
    proof (rule wp_unlink_marker)
      fix x payload fs
      have "cleaning S op v d0 new held ((t\<lparr>machine_state := BOTH_MARKERS_ONLY\<rparr>)\<lparr>entries := put_entry ?cm None (entries t), script := fs\<rparr>)"
        using cleaning_update(3) [OF upd(1) [OF t(1)], where n = "?cm" and x = None and fs = fs] by simp
      then show "wp ?s5 Q ?E K ((t\<lparr>machine_state := BOTH_MARKERS_ONLY\<rparr>)\<lparr>entries := put_entry ?cm None (entries (t\<lparr>machine_state := BOTH_MARKERS_ONLY\<rparr>)), script := fs\<rparr>)"
        using t(2) by (intro s5) (simp_all add: slots_def)
    qed (use good err kill in \<open>simp_all add: failure_guarded\<close>)
  qed
  let ?s3 = "seq (enter_state TOMBSTONE_WITH_BOTH_MARKERS) (seq (delete_tombstone S) ?s4)"
  have s3: "wp ?s3 Q ?E K t"
    if t: "cleaning S op v d0 new held t" "slots S op t (Some new) None (marker_intact S op) (\<lambda>x. x = Some o1) (marker_intact S op)" for t
  proof -
    let ?t = "t\<lparr>machine_state := TOMBSTONE_WITH_BOTH_MARKERS\<rparr>"
    have after: "cleaning S op v d0 new held u" "look u ?bm = look t ?bm" "look u ?cm = look t ?cm" "look u ?b = None"
      if u: "port_step {?c} ?t u" for u
      using cleaning_step [OF upd(1) [OF t(1)] u] port_step_look [OF u, of ?bm] port_step_look [OF u, of ?cm] port_step_look [OF u, of ?b] t(2)
      by (simp_all add: slots_def)
    have good: "?good u" if u: "port_step {?c} ?t u" for u
      using after [OF u] un [OF after(1) [OF u]] t(2) by (auto simp: slots_def intro!: conserved_tombstone)
    show ?thesis
      unfolding wp_seq [of "enter_state TOMBSTONE_WITH_BOTH_MARKERS"] wp_seq [of "delete_tombstone S"]
      unfolding enter_state_def [of TOMBSTONE_WITH_BOTH_MARKERS] wp_modify
    proof (rule wp_delete_tombstone [where op = op and v = v])
      fix u assume u: "port_step {?c} ?t u" "look u ?c = None"
      show "wp ?s4 Q ?E K u"
        using after [OF u(1)] u(2) un [OF after(1) [OF u(1)]] t(2) by (intro s4) (simp_all add: slots_def)
    next
      show "?E e u" if "failure e" "port_step {?c} ?t u" for e u by (rule err [OF that(1) good [OF that(2)]])
      show "K u" if "port_step {?c} ?t u" for u by (rule kill [OF good [OF that]])
    qed (use known [OF t(1)] in simp_all)
  qed
  let ?s2 = "seq (enter_state BACKUP_WITH_PREPARED_TOMBSTONE_MARKER) (seq (rename_backup_to_tombstone S) ?s3)"
  have s2: "wp ?s2 Q ?E K t"
    if t: "cleaning S op v d0 new held t" "slots S op t (Some new) (Some o1) (marker_intact S op) (\<lambda>x. x = None) (marker_intact S op)" for t
  proof -
    let ?t = "t\<lparr>machine_state := BACKUP_WITH_PREPARED_TOMBSTONE_MARKER\<rparr>"
    have good: "?good (t\<lparr>machine_state := m, script := fs\<rparr>)" for m fs
      using t upd [OF upd(1) [OF t(1)]] un [OF t(1)] by (auto simp: slots_def intro!: conserved_backup)
    show ?thesis
      unfolding wp_seq [of "enter_state BACKUP_WITH_PREPARED_TOMBSTONE_MARKER"] wp_seq [of "rename_backup_to_tombstone S"]
      unfolding enter_state_def [of BACKUP_WITH_PREPARED_TOMBSTONE_MARKER] wp_modify
    proof (rule wp_rename_to_tombstone [where op = op and v = v])
      fix x fs assume x: "look ?t ?b = Some x"
      have "cleaning S op v d0 new held (?t\<lparr>entries := put_entry ?b None (entries t), script := fs\<rparr>)"
        using cleaning_update(3) [OF upd(1) [OF t(1)], where n = "?b" and x = None and fs = fs] by simp
      from cleaning_update(3) [OF this, where n = "?c" and x = "Some x" and fs = fs]
      have "cleaning S op v d0 new held (?t\<lparr>entries := put_entry ?c (Some x) (put_entry ?b None (entries ?t)), script := fs\<rparr>)" by simp
      then show "wp ?s3 Q ?E K (?t\<lparr>entries := put_entry ?c (Some x) (put_entry ?b None (entries ?t)), script := fs\<rparr>)"
        using t(2) x by (intro s3) (simp_all add: slots_def)
    qed (use known [OF t(1)] good err kill in \<open>simp_all add: failure_guarded\<close>)
  qed
  have s1: "wp (seq (enter_state BACKUP_WITH_MARKER) (seq (prepare_tombstone_marker S) ?s2)) Q ?E K s"
  proof -
    let ?t = "s\<lparr>machine_state := BACKUP_WITH_MARKER\<rparr>"
    have k: "fs_operation_id ?t = Some op" "fs_marker_payload ?t = Some (marker_bytes op (target_name S))" using known [OF start] by simp_all
    have after: "cleaning S op v d0 new held u" "look u ?bm = look s ?bm" "look u ?c = None" "look u ?b = Some o1"
      if u: "port_step {?cm} ?t u" for u
      using cleaning_step [OF upd(1) [OF start] u] port_step_look [OF u, of ?bm] port_step_look [OF u, of ?c] port_step_look [OF u, of ?b] sl
      by (simp_all add: slots_def)
    have good: "?good u" if u: "port_step {?cm} ?t u" for u
      using after [OF u] un [OF after(1) [OF u]] sl by (auto simp: slots_def intro!: conserved_backup)
    show ?thesis
      unfolding wp_seq [of "enter_state BACKUP_WITH_MARKER"] wp_seq [of "prepare_tombstone_marker S"]
      unfolding enter_state_def [of BACKUP_WITH_MARKER] wp_modify
        prepare_tombstone_marker_def wp_bind [of "tombstone_marker_name S"] wp_names(4) [OF k(1)]
    proof (rule wp_create_marker [OF _ _ _ k(2)])
      fix u i assume u: "port_step {?cm} ?t u" "look u ?cm = Some (Regular i 384 1 (marker_bytes op (target_name S)))"
      show "wp ?s2 Q ?E K u"
        using after [OF u(1)] u(2) un [OF after(1) [OF u(1)]] sl by (intro s2) (auto simp: slots_def marker_intact_def)
    next
      show "?E e u" if "failure e" "port_step {?cm} ?t u" for e u by (rule err [OF that(1) good [OF that(2)]])
      show "K u" if "port_step {?cm} ?t u" for u by (rule kill [OF good [OF that]])
    qed
  qed
  show ?thesis
    unfolding remove_backup_def wp_catching by (rule s1)
qed


text \<open>Closing the stage raises only a failed stage cleanup.\<close>

definition staging_failure :: "'v site \<Rightarrow> file_error \<Rightarrow> bool" where
  "staging_failure S e \<longleftrightarrow> (\<exists>r. e = staging_error S r)"

definition preflight_failure :: "'v site \<Rightarrow> file_error \<Rightarrow> bool" where
  "preflight_failure S e \<longleftrightarrow> \<not> is_contract e \<or> staging_failure S e"

lemma preflight_simps [simp]:
  "preflight_failure S (staging_error S r)" "preflight_failure S Value_error" "preflight_failure S Lookup_failed" "preflight_failure S Os_error"
  "is_os_error e \<Longrightarrow> preflight_failure S e" "staging_failure S (staging_error S r)"
  by (auto simp: preflight_failure_def staging_failure_def elim: is_os_error.elims)

lemmas raises_preflight_calls = raises_calls [THEN raises_mono [OF _ preflight_simps(5)]]

lemma raises_preflight_identities:
  "raises (preflight_failure S) (directory_identity x)" "raises (preflight_failure S) (leaf_identity_of x)"
  "raises (preflight_failure S) (lookup_or_fail kvs k)"
  "preflight_failure S e \<Longrightarrow> raises (preflight_failure S) (require_leaf p i e)"
  unfolding directory_identity_def leaf_identity_of_def require_leaf_def lookup_or_fail_def
  by (auto split: node.splits option.splits intro!: raises_intros raises_preflight_calls)

lemma raises_preflight_validate: "raises (preflight_failure S) validate_owned_final_artifacts"
  unfolding validate_owned_final_artifacts_def Let_def
  by (intro raises_intros; (split option.split)?)
     (auto split: option.split intro!: raises_intros raises_preflight_calls raises_preflight_identities)

lemma raises_preflight_created: "raises (preflight_failure S) (created_leaves S stage leaves seen)"
  by (induction S stage leaves seen rule: created_leaves.induct)
     (auto split: option.split intro!: raises_intros raises_preflight_identities)

lemma raises_preflight_children: "raises (preflight_failure S) (require_exact_candidate_children S)"
  unfolding require_exact_candidate_children_def Let_def
  by (intro raises_intros raises_preflight_validate raises_preflight_created)
     (auto split: option.split bool.split intro!: raises_intros raises_preflight_identities)

lemma raises_filtered:
  assumes "raises P0 m" and "\<And>e. P0 e \<Longrightarrow> \<not> p e \<Longrightarrow> P e" and "\<And>e. raises P (h e)"
  shows "raises P (catching p m h)"
  unfolding raises_def wp_catching
proof
  fix s
  show "wp m (\<lambda>_ _. True) (\<lambda>e t. if p e then wp (h e) (\<lambda>_ _. True) (\<lambda>e _. P e) (\<lambda>_. True) t else P e) (\<lambda>_. True) s"
    by (rule wp_conseq [OF raises_wp [OF assms(1)]]) (auto simp: assms(2) raises_wp [OF assms(3)])
qed

lemma raises_plain_generation: "raises plain_error require_session_generation"
proof -
  have calls: "raises plain_error (os_stat p)" "raises plain_error (os_open p)" "raises plain_error (os_scandir p)" for p
    by (rule raises_calls [THEN raises_mono [OF _ failure_kinds(2)]], assumption)+
  have ids: "raises plain_error (directory_identity x)" "raises plain_error (leaf_identity_of x)" "raises plain_error (read_bounded x)" for x
    unfolding directory_identity_def leaf_identity_of_def read_bounded_def
    by (auto split: node.splits simp: failure_kinds intro!: raises_intros)
  show ?thesis
    unfolding require_session_generation_def require_descriptors_def
    by (intro raises_intros calls ids) (simp_all add: failure_kinds)
qed

lemma raises_staging_live: "raises (staging_failure S) (custody_assert_live S)"
  unfolding custody_assert_live_def
proof (rule raises_filtered)
  show "raises plain_error (bind (reads stage_custody) (\<lambda>held.
        seq (throw_if (custody_closed held \<or> custody_state held \<noteq> LIVE) Value_error) require_session_generation))"
    by (intro raises_intros raises_plain_generation) (simp add: failure_kinds)
qed (auto intro: raises_basic)

lemma raises_staging_close: "raises (staging_failure S) (stage_close S)"
proof -
  have discard: "raises (staging_failure S) (discard_exact_candidate S r)" for r
    unfolding discard_exact_candidate_def set_custody_state_def
  proof (intro raises_seq raises_bind raises_basic raises_staging_live)
    show "raises (staging_failure S) (catching (\<lambda>e. \<not> is_contract e) (require_exact_candidate_children S)
            (\<lambda>_. throw (staging_error S ''candidate_discard_preflight_failed'')))"
      by (rule raises_filtered [OF raises_preflight_children]) (auto simp: preflight_failure_def intro: raises_basic)
    show "raises (staging_failure S) (finally_do (catching (\<lambda>_. True) (seq remove_candidate (ret False)) (\<lambda>_. ret True))
              (modify (\<lambda>s. s\<lparr>stage_custody := (stage_custody s)\<lparr>descriptors_open := False, custody_closed := True, custody_state := CLOSED\<rparr>\<rparr>)))"
      by (auto simp: raises_def wp_finally wp_catching wp_modify wp_ret intro: wp_conseq [OF wp_true])
  qed simp
  show ?thesis
    unfolding stage_close_def custody_close_def when_do_def
    by (auto intro!: raises_intros discard split: if_split)
qed

section \<open>The whole publication\<close>

text \<open>What a publisher starts from.\<close>

definition ready :: "'v site \<Rightarrow> pystr \<Rightarrow> 'v \<Rightarrow> node option \<Rightarrow> node \<Rightarrow> 'v publisher \<Rightarrow> bool" where
  "ready S op v old new s \<longleftrightarrow> engaged S op v s \<and> fs_operation_id s = None \<and> fs_marker_payload s = None
     \<and> look s (target_name S) = old \<and> look s (stage_at S op) = Some new \<and> look s (stage_marker_at S op) \<noteq> None
     \<and> look s (backup_at S op) = None \<and> look s (backup_marker_at S op) = None
     \<and> look s (cleanup_at S op) = None \<and> look s (cleanup_marker_at S op) = None"

definition published_cleanly :: "'v site \<Rightarrow> pystr \<Rightarrow> node \<Rightarrow> dirents \<Rightarrow> bool" where
  "published_cleanly S op new d \<longleftrightarrow> map_of d (target_name S) = Some new
     \<and> (\<forall>n \<in> publication_names S op. n \<noteq> target_name S \<longrightarrow> map_of d n = None)"

definition staging_cleanup_error :: "file_error \<Rightarrow> bool" where
  "staging_cleanup_error e \<longleftrightarrow> (\<exists>x. e = Contract x \<and> error_code x = STAGING_CLEANUP_FAILED)"

lemma staging_failure_cleanup: "staging_failure S e \<Longrightarrow> staging_cleanup_error e \<and> \<not> published_error e"
proof -
  have "operation_id_ok (cp ''build-session'')" by code_simp
  then show "staging_failure S e \<Longrightarrow> staging_cleanup_error e \<and> \<not> published_error e"
    by (auto simp: staging_failure_def staging_error_def artifact_contract_error_def staging_cleanup_error_def published_error_def)
qed

lemma conserved_closing:
  assumes "only_at {stage_at S op, stage_marker_at S op} s t" and "conserved S op old new d0 (entries s)"
  shows "conserved S op old new d0 (entries t)" and "look t (target_name S) = look s (target_name S)"
proof -
  have l: "look t n = look s n" if "n \<noteq> stage_at S op" "n \<noteq> stage_marker_at S op" for n
    using assms(1) that by (simp add: only_at_def)
  have "untouched S op d0 (entries t)" if "untouched S op d0 (entries s)"
    unfolding untouched_def
  proof (intro allI impI)
    fix n assume "n \<notin> publication_names S op"
    moreover from this have "n \<noteq> stage_at S op" "n \<noteq> stage_marker_at S op" by auto
    ultimately show "look t n = map_of d0 n" using that l by (simp add: untouched_def)
  qed
  then show "conserved S op old new d0 (entries t)"
    using assms(2) by (simp add: conserved_defs l)
  show "look t (target_name S) = look s (target_name S)" by (simp add: l)
qed

lemma wp_stage_close:
  assumes "holds_stage S op s"
    and "\<And>t. only_at {stage_at S op, stage_marker_at S op} s t \<Longrightarrow> Q () t"
    and "\<And>e t. staging_failure S e \<Longrightarrow> only_at {stage_at S op, stage_marker_at S op} s t \<Longrightarrow> E e t"
    and "\<And>t. only_at {stage_at S op, stage_marker_at S op} s t \<Longrightarrow> K t"
  shows "wp (stage_close S) Q E K s"
  by (rule wp_keeps_raises [OF keeps_stage_close [of "{stage_at S op, stage_marker_at S op}"] raises_staging_close])
     (use assms in \<open>auto simp: stage_step_def holds_stage_def\<close>)

lemma wp_stage_close_closed:
  assumes "custody_closed (stage_custody s)" and "\<not> receiver_closed s" and "Q () (s\<lparr>receiver_closed := True\<rparr>)"
  shows "wp (stage_close S) Q E K s"
  using assms by (simp add: stage_close_def custody_close_def when_do_def wp_simps)

definition publication_result :: "'v site \<Rightarrow> pystr \<Rightarrow> 'v \<Rightarrow> node option \<Rightarrow> node \<Rightarrow> dirents \<Rightarrow> (file_error, unit) outcome \<Rightarrow> dirents \<Rightarrow> bool" where
  "publication_result S op v old new d0 r d \<longleftrightarrow> conserved S op old new d0 d \<and>
     (case r of
        Returned _ \<Rightarrow> published_cleanly S op new d \<and> (\<exists>files. verify_tree S new = Inr (files, v))
      | Raised e \<Rightarrow> (published_error e \<longrightarrow> map_of d (target_name S) = Some new)
          \<and> (map_of d (target_name S) = old \<or> published_error e \<or> rollback_error e \<or> staging_cleanup_error e)
      | Killed \<Rightarrow> True)"

lemma wp_publish:
  assumes start: "ready S op v old new s" "machine_state s = STAGE_VERIFIED"
    and name: "safe_basename (printable S) (target_name S)" "operation_id_ok operation"
  shows "wp (publish S operation clean)
     (\<lambda>_ t. publication_result S op v old new (entries s) (Returned ()) (entries t))
     (\<lambda>e t. publication_result S op v old new (entries s) (Raised e) (entries t))
     (\<lambda>t. publication_result S op v old new (entries s) Killed (entries t)) s"
proof -
  let ?d0 = "entries s"
  let ?Q = "\<lambda>_ t. publication_result S op v old new ?d0 (Returned ()) (entries t)"
  let ?E = "\<lambda>e t. publication_result S op v old new ?d0 (Raised e) (entries t)"
  let ?K = "\<lambda>t. publication_result S op v old new ?d0 Killed (entries t)"
  let ?QF = "\<lambda>x t. wp (stage_close S) (\<lambda>_. ?Q x) ?E ?K t"
  let ?EF = "\<lambda>e t. wp (stage_close S) (\<lambda>_. ?E e) ?E ?K t"
  have kill: "?K t" if "conserved S op old new ?d0 (entries t)" for t
    using that by (simp add: publication_result_def)
  have err: "?EF e t" if f: "failing S op old new ?d0 e t" for e t
  proof (rule wp_stage_close [where op = op])
    show "holds_stage S op t" using f by (simp add: failing_def)
    fix u assume u: "only_at {stage_at S op, stage_marker_at S op} t u"
    note c = conserved_closing [OF u, of old new ?d0]
    show "?E e u" using f c by (auto simp: failing_def publication_result_def)
    show "?K u" using f c by (auto simp: failing_def publication_result_def)
    show "?E e' u" if "staging_failure S e'" for e'
      using f c staging_failure_cleanup [OF that] by (auto simp: failing_def publication_result_def)
  qed
  have engaged: "engaged S op v s" using start by (simp add: ready_def)
  have un: "untouched S op ?d0 ?d0" by (simp add: untouched_def)
  have here: "conserved S op old new ?d0 ?d0"
    using start un by (intro conserved_clean) (simp_all add: ready_def)
  have quiet: "failure e \<Longrightarrow> ?EF e (s\<lparr>script := fs\<rparr>)" "?K (s\<lparr>script := fs\<rparr>)" for e fs
  proof -
    show "?K (s\<lparr>script := fs\<rparr>)" using here by (intro kill) simp
    show "?EF e (s\<lparr>script := fs\<rparr>)" if "failure e"
      using here start that engaged_holds [OF engaged]
      by (intro err failing_unmoved) (simp_all add: ready_def holds_stage_def)
  qed
  let ?had = "old \<noteq> None"
  let ?tail = "if \<not> ?had then enter_state NO_REMNANT else seq (enter_state PUBLISHED) (remove_backup S operation)"
  have tail: "wp ?tail ?QF ?EF ?K t"
    if t: "station S op v old ?d0 (Some new) t" "look t (stage_at S op) = None" "look t (stage_marker_at S op) = None"
      "custody_closed (stage_custody t)" "verify_tree S new = Inr (files, v)" for t files
  proof -
    have cl: "?QF () u" if "look u (target_name S) = Some new" "look u (stage_at S op) = None" "look u (stage_marker_at S op) = None"
        "look u (backup_at S op) = None" "look u (backup_marker_at S op) = None" "look u (cleanup_at S op) = None" "look u (cleanup_marker_at S op) = None"
        "untouched S op ?d0 (entries u)" "custody_closed (stage_custody u)" "\<not> receiver_closed u" for u
    proof (rule wp_stage_close_closed [OF that(9,10)])
      have "conserved S op old new ?d0 (entries u)" using that by (intro conserved_clean) simp_all
      then show "?Q () (u\<lparr>receiver_closed := True\<rparr>)"
        using that t(5) by (simp add: publication_result_def published_cleanly_def publication_names_def)
    qed
    show ?thesis
    proof (cases old)
      case None
      have "?QF () (t\<lparr>machine_state := NO_REMNANT\<rparr>)"
        using t None by (intro cl) (auto simp: station_def slots_def engaged_def)
      with None show ?thesis by (simp add: enter_state_def wp_modify)
    next
      case (Some o1)
      let ?u = "t\<lparr>machine_state := PUBLISHED\<rparr>"
      have "wp (remove_backup S operation) ?QF ?EF ?K ?u"
      proof (rule wp_remove_backup [OF _ _ name])
        show "cleaning S op v ?d0 new (stage_custody t) ?u"
          using t Some by (auto simp: cleaning_def station_def slots_def engaged_def knows_def)
        show "slots S op ?u (Some new) (Some o1) (marker_intact S op) (\<lambda>x. x = None) (\<lambda>x. x = None)"
          using t Some by (auto simp: station_def slots_def)
        show "?QF () w" if "cleaning S op v ?d0 new (stage_custody t) w"
            "slots S op w (Some new) None (\<lambda>x. x = None) (\<lambda>x. x = None) (\<lambda>x. x = None)" for w
          using that t(4) by (intro cl) (auto simp: cleaning_def slots_def engaged_def)
        show "?EF e w" if "failing S op (Some o1) new ?d0 e w" for e w
          using that Some by (intro err) simp
        show "?K w" if "conserved S op (Some o1) new ?d0 (entries w)" for w
          using that Some by (intro kill) simp
      qed
      with Some show ?thesis by (simp add: wp_seq enter_state_def wp_modify)
    qed
  qed
  let ?inner = "seq (move_stage_in S operation ?had) (seq (enter_state TARGET_RENAMED_UNCOMMITTED)
        (seq (commit_or_roll_back S operation ?had) ?tail))"
  have inner: "wp ?inner ?QF ?EF ?K t" if t: "station S op v old ?d0 None t" "look t (stage_at S op) = Some new" for t
    unfolding wp_seq [of "move_stage_in S operation ?had"] wp_seq [of "enter_state TARGET_RENAMED_UNCOMMITTED"]
      wp_seq [of "commit_or_roll_back S operation ?had"]
    unfolding enter_state_def [of TARGET_RENAMED_UNCOMMITTED] wp_modify
  proof (rule wp_move_stage_in [OF t name _ err kill])
    fix u assume u: "station S op v old ?d0 (Some new) u" "look u (stage_at S op) = None"
    have "station S op v old ?d0 (Some new) (u\<lparr>machine_state := TARGET_RENAMED_UNCOMMITTED\<rparr>)"
      by (rule station_update(2) [OF u(1) station_custody(1-3) [OF u(1)]])
    then show "wp (commit_or_roll_back S operation ?had) (\<lambda>_. wp ?tail ?QF ?EF ?K) ?EF ?K (u\<lparr>machine_state := TARGET_RENAMED_UNCOMMITTED\<rparr>)"
      using u(2) by (intro wp_commit_or_roll_back [OF _ _ name _ err kill] tail) simp_all
  qed
  have body: "wp (seq (when_do ?had (move_target_aside S operation clean)) ?inner) ?QF ?EF ?K (s\<lparr>script := fs\<rparr>)" for fs
  proof (cases old)
    case None
    have "station S op v old ?d0 None (s\<lparr>script := fs\<rparr>)"
      using start None un by (simp add: station_def ready_def engaged_def slots_def)
    then have "wp ?inner ?QF ?EF ?K (s\<lparr>script := fs\<rparr>)"
      using start by (intro inner) (simp_all add: ready_def)
    then show ?thesis
      unfolding wp_seq [of "when_do ?had (move_target_aside S operation clean)"]
      unfolding when_do_def using None by (simp add: wp_ret)
  next
    case (Some o1)
    have "wp (move_target_aside S operation clean) (\<lambda>_. wp ?inner ?QF ?EF ?K) ?EF ?K (s\<lparr>script := fs\<rparr>)"
    proof (rule wp_move_target_aside [where op = op and v = v and ?o1.0 = o1 and ?d0.0 = ?d0 and new = new])
      fix t assume t: "engaged S op v t" "knows S op t" "slots S op t None (Some o1) (marker_intact S op) (\<lambda>x. x = None) (\<lambda>x. x = None)"
        "untouched S op ?d0 (entries t)" "look t (stage_at S op) = look (s\<lparr>script := fs\<rparr>) (stage_at S op)"
      then show "wp ?inner ?QF ?EF ?K t"
        using start Some by (intro inner) (simp_all add: station_def ready_def)
    next
      show "?EF e t" if "failing S op (Some o1) new ?d0 e t" for e t using that Some by (intro err) simp
      show "?K t" if "conserved S op (Some o1) new ?d0 (entries t)" for t using that Some by (intro kill) simp
    qed (use start un Some name in \<open>auto simp: ready_def engaged_def slots_def\<close>)
    then show ?thesis
      unfolding wp_seq [of "when_do ?had (move_target_aside S operation clean)"]
      unfolding when_do_def using Some by simp
  qed
  have open': "\<not> receiver_closed s" "receiver_transferred s" using engaged by (simp_all add: engaged_def)
  have exists: "wp (target_exists S) (\<lambda>had. wp (seq (when_do had (move_target_aside S operation clean))
        (seq (move_stage_in S operation had) (seq (enter_state TARGET_RENAMED_UNCOMMITTED) (seq (commit_or_roll_back S operation had)
        (if \<not> had then enter_state NO_REMNANT else seq (enter_state PUBLISHED) (remove_backup S operation)))))) ?QF ?EF ?K) ?EF ?K (s\<lparr>script := fs\<rparr>)" for fs
    unfolding target_exists_def
  proof (rule wp_named_exists)
    fix gs
    have "(look (s\<lparr>script := fs\<rparr>) (target_name S) \<noteq> None) = ?had" using start by (simp add: ready_def)
    then show "wp (seq (when_do (look (s\<lparr>script := fs\<rparr>) (target_name S) \<noteq> None) (move_target_aside S operation clean))
        (seq (move_stage_in S operation (look (s\<lparr>script := fs\<rparr>) (target_name S) \<noteq> None)) (seq (enter_state TARGET_RENAMED_UNCOMMITTED)
        (seq (commit_or_roll_back S operation (look (s\<lparr>script := fs\<rparr>) (target_name S) \<noteq> None))
        (if \<not> (look (s\<lparr>script := fs\<rparr>) (target_name S) \<noteq> None) then enter_state NO_REMNANT else seq (enter_state PUBLISHED) (remove_backup S operation)))))) ?QF ?EF ?K
        ((s\<lparr>script := fs\<rparr>)\<lparr>script := gs\<rparr>)"
      using body by (simp only: script_twice)
    show "?EF Os_error ((s\<lparr>script := fs\<rparr>)\<lparr>script := gs\<rparr>)" using quiet(1) [OF failure_contract(6)] by (simp only: script_twice)
    show "?K ((s\<lparr>script := fs\<rparr>)\<lparr>script := gs\<rparr>)" using quiet(2) by (simp only: script_twice)
  qed
  show ?thesis
    unfolding publish_def wp_finally wp_seq [of "with_custody (custody_assert_live S)"] with_custody_open [OF open'] wp_bind [of "target_exists S"]
    by (rule wp_same [OF custody_live_quiet]) (use exists quiet in simp_all)
qed

end
