(* ===== verification/Publication_Fault_Free.thy ===== *)
theory Publication_Fault_Free
  imports Publication_Phases
begin

text \<open>
  Runs in which no system call fails, as equations: the calls and markers, the deletion of a complete
  tombstone, and the reading of the remnants of a directory.
\<close>

section \<open>Runs in which nothing fails\<close>

named_theorems fine_simps

lemma fine_calls [fine_simps]:
  assumes "script s = []"
  shows "wp (os_stat p) Q E K s = (case node_at (entries s) p of None \<Rightarrow> E File_not_found s | Some x \<Rightarrow> Q x s)"
    and "wp (os_open p) Q E K s = (case node_at (entries s) p of None \<Rightarrow> E File_not_found s | Some (Special i) \<Rightarrow> E Os_error s | Some x \<Rightarrow> Q x s)"
    and "wp (os_open_directory p) U E K s = (case node_at (entries s) p of None \<Rightarrow> E File_not_found s | Some (Directory i m c) \<Rightarrow> U () s | _ \<Rightarrow> E Os_error s)"
    and "wp open_parent U E K s = U () s"
    and "wp scan_parent L E K s = L (map fst (entries s)) s"
    and "wp (os_scandir p) L E K s = (case node_at (entries s) p of Some (Directory i m c) \<Rightarrow> L (map fst c) s | _ \<Rightarrow> E Os_error s)"
    and "wp os_fsync U E K s = U () s"
  unfolding os_stat_def os_open_def os_open_directory_def open_parent_def scan_parent_def os_scandir_def os_fsync_def
    wp_syscall_fine [OF assms]
  by (auto simp: wp_def split: option.splits node.splits)

lemma fine_removals [fine_simps]:
  assumes "script s = []"
  shows "node_at (entries s) p = Some x \<Longrightarrow> (\<And>i m c. x \<noteq> Directory i m c) \<Longrightarrow>
      wp (os_unlink p) Q E K s = Q () (s\<lparr>entries := put_at (entries s) p None\<rparr>)"
    and "node_at (entries s) p = Some (Directory i m []) \<Longrightarrow> wp (os_rmdir p) Q E K s = Q () (s\<lparr>entries := put_at (entries s) p None\<rparr>)"
    and "look s a = Some y \<Longrightarrow> look s b = None \<Longrightarrow> wp (os_rename a b) Q E K s = Q () (s\<lparr>entries := put_entry b (Some y) (put_entry a None (entries s))\<rparr>)"
  unfolding os_unlink_def os_rmdir_def os_rename_def wp_syscall_fine [OF assms]
  by (auto simp: wp_def split: option.splits node.splits)

lemma fine_write_all:
  assumes "script s = []"
  shows "write_all n bs s = (Returned (), if bs = [] then s else append_bytes n bs s)"
  using assms by (cases bs) (simp_all add: write_all.simps [of n] os_write_def syscall_def)

lemma fine_create_marker [fine_simps]:
  assumes "script s = []" and "look s n = None" and "fs_marker_payload s = Some payload" and "payload \<noteq> []"
  shows "wp (create_marker S n) Q E K s =
     Q () (s\<lparr>entries := AList.update n (Regular (next_inode s) 384 1 payload) (entries s), next_inode := Suc (next_inode s)\<rparr>)"
proof -
  let ?t = "s\<lparr>entries := AList.update n (Regular (next_inode s) 384 1 []) (entries s), next_inode := Suc (next_inode s)\<rparr>"
  have c: "wp (os_create n) Q' E' K' s = Q' () ?t" for Q' E' K'
    unfolding os_create_def wp_syscall_fine [OF assms(1)] using assms(2) by (simp add: wp_def put_entry_def)
  have w: "wp (write_all n payload) Q' E' K' ?t = Q' () (append_bytes n payload ?t)" for Q' E' K'
    using assms by (simp add: wp_def fine_write_all)
  have a: "append_bytes n payload ?t = s\<lparr>entries := AList.update n (Regular (next_inode s) 384 1 payload) (entries s), next_inode := Suc (next_inode s)\<rparr>"
    by (simp add: append_bytes_def put_entry_def update_conv')
  show ?thesis
    unfolding create_marker_def require_marker_payload_def
    by (simp add: wp_simps assms fine_simps c w a del: One_nat_def)
qed

lemma fine_verify_marker [fine_simps]:
  assumes "script s = []" and "look s n = Some x" and "fs_marker_payload s = Some payload" and "marker_exact payload x"
  shows "wp (verify_marker S n) Q E K s = Q () s"
  using assms by (cases x) (simp_all add: verify_marker_def require_marker_payload_def wp_simps fine_simps)

lemma fine_verify_named [fine_simps]:
  assumes "script s = []" and "look s n = Some x" and "verify_tree S x = Inr (files, v)"
  shows "fs_expected s = Some v \<Longrightarrow> wp (verify_named_artifact S n) Q E K s = Q files s"
    and "fs_expected s = None \<Longrightarrow> wp (verify_named_artifact S n) Q E K s = Q files (s\<lparr>fs_expected := Some v\<rparr>)"
  using assms by (simp_all add: verify_named_artifact_def load_and_verify_def wp_simps fine_simps)

lemma fine_named_exists [fine_simps]:
  assumes "script s = []"
  shows "wp (named_exists n) Q E K s = Q (look s n \<noteq> None) s"
  using assms by (simp add: named_exists_def wp_simps fine_simps split: option.split)

section \<open>Deleting a complete tombstone\<close>

text \<open>
  What a verified directory holds: exactly the leaves its manifest declares, each a regular file with
  one link, and the directories of those leaves.
\<close>

definition all_single :: "pystr list \<Rightarrow> dirents \<Rightarrow> bool" where
  "all_single leaves c \<longleftrightarrow> list_all (\<lambda>leaf. case map_of c leaf of Some x \<Rightarrow> single_regular x | None \<Rightarrow> False) leaves"

definition exact_directory :: "dirents \<Rightarrow> pystr \<times> pystr list \<Rightarrow> bool" where
  "exact_directory c = (\<lambda>(directory, leaves). case map_of c directory of
      Some (Directory j k cc) \<Rightarrow> set (map fst cc) = set leaves \<and> all_single leaves cc | _ \<Rightarrow> False)"

definition exact_tree :: "pystr list \<Rightarrow> node \<Rightarrow> bool" where
  "exact_tree files x = (case x of
      Directory i m c \<Rightarrow> (case declared_leaves files ([cp ''manifest.json''], []) of
          Some (leaves, nested) \<Rightarrow> set (map fst c) = set leaves \<union> set (map fst nested)
              \<and> all_single leaves c \<and> list_all (exact_directory c) nested
        | None \<Rightarrow> False)
    | _ \<Rightarrow> False)"

lemma single_not_directory: "single_regular x \<Longrightarrow> x \<noteq> Directory i m c"
  by auto

lemma keys_fold_delete: "map fst (fold AList.delete xs c) = filter (\<lambda>n. n \<notin> set xs) (map fst c)"
proof (induction xs arbitrary: c)
  case (Cons x xs)
  have "filter (\<lambda>n. n \<notin> set xs) (removeAll x (map fst c)) = filter (\<lambda>n. n \<notin> set (x # xs)) (map fst c)"
    by (auto intro!: filter_cong simp: removeAll_filter_not_eq)
  then show ?case by (simp add: Cons delete_keys)
qed simp

lemma fold_delete_all:
  assumes "set (map fst c) \<subseteq> set xs"
  shows "fold AList.delete xs c = []"
proof -
  have "map fst (fold AList.delete xs c) = []"
    unfolding keys_fold_delete using assms by (auto simp: filter_empty_conv)
  then show ?thesis by simp
qed

lemma map_of_fold_delete: "n \<notin> set xs \<Longrightarrow> map_of (fold AList.delete xs c) n = map_of c n"
  by (induction xs arbitrary: c) (simp_all add: delete_conv')

lemma fine_held [fine_simps]:
  assumes "script s = []" and "look s n = Some x" and "inode x = held"
  shows "wp (require_held_tombstone n held) Q E K s = Q () s"
  using assms by (simp add: require_held_tombstone_def wp_simps fine_simps)

lemma all_single_Cons:
  "all_single (leaf # leaves) c \<longleftrightarrow> (\<exists>x. map_of c leaf = Some x \<and> single_regular x) \<and> all_single leaves c"
  by (auto simp: all_single_def split: option.splits)

lemma all_single_delete: "leaf \<notin> set leaves \<Longrightarrow> all_single leaves (AList.delete leaf c) = all_single leaves c"
  unfolding all_single_def by (intro list.pred_cong) (auto simp: delete_conv')

lemma fine_unlink_leaf:
  assumes "script s = []" and "look s n = Some (Directory held m c)" and "node_at (entries s) p = Some x" and "single_regular x"
  shows "wp (unlink_leaf n held p) Q E K s = Q () (s\<lparr>entries := put_at (entries s) p None\<rparr>)"
proof -
  have "wp (os_unlink p) Q E K s = Q () (s\<lparr>entries := put_at (entries s) p None\<rparr>)"
    using assms single_not_directory by (intro fine_removals(1)) auto
  then show ?thesis using assms by (simp add: unlink_leaf_def wp_simps fine_simps)
qed

lemma fine_leaves:
  assumes "script s = []" and "look s n = Some (Directory held m c)" and "map_of c d = Some (Directory j k cc)"
    and "distinct xs" and "all_single xs cc"
  shows "wp (for_each (\<lambda>leaf. unlink_leaf n held [n, d, leaf]) xs) Q E K s =
     Q () (s\<lparr>entries := AList.update n (Directory held m (AList.update d (Directory j k (fold AList.delete xs cc)) c)) (entries s)\<rparr>)"
  using assms
proof (induction xs arbitrary: s c cc)
  case Nil
  then show ?case by (simp add: wp_simps update_triv)
next
  case (Cons leaf xs)
  obtain x where x: "map_of cc leaf = Some x" "single_regular x" using Cons.prems(5) by (auto simp: all_single_Cons)
  let ?c = "AList.update d (Directory j k (AList.delete leaf cc)) c"
  let ?t = "s\<lparr>entries := AList.update n (Directory held m ?c) (entries s)\<rparr>"
  have "wp (unlink_leaf n held [n, d, leaf]) Q' E' K' s = Q' () ?t" for Q' E' K'
    using Cons.prems x by (subst fine_unlink_leaf) (simp_all add: put_entry_def)
  moreover have "wp (for_each (\<lambda>leaf. unlink_leaf n held [n, d, leaf]) xs) Q E K ?t =
     Q () (?t\<lparr>entries := AList.update n (Directory held m (AList.update d (Directory j k (fold AList.delete xs (AList.delete leaf cc))) ?c)) (entries ?t)\<rparr>)"
    using Cons.prems by (intro Cons.IH) (simp_all add: update_conv' all_single_delete all_single_Cons)
  ultimately show ?case by (simp add: wp_simps)
qed

lemma fine_delete_directory:
  assumes "script s = []" and "look s n = Some (Directory held m c)" and "exact_directory c (d, leaves)"
  shows "wp (delete_directory n held (d, leaves)) Q E K s =
     Q () (s\<lparr>entries := AList.update n (Directory held m (AList.delete d c)) (entries s)\<rparr>)"
proof -
  obtain j k cc where cc: "map_of c d = Some (Directory j k cc)" "set (map fst cc) = set leaves" "all_single leaves cc"
    using assms(3) by (auto simp: exact_directory_def split: option.splits node.splits)
  let ?xs = "sort (remdups leaves)"
  have xs: "distinct ?xs" "all_single ?xs cc" "fold AList.delete ?xs cc = []"
    using cc by (auto simp: all_single_def list_all_iff intro!: fold_delete_all)
  let ?t = "s\<lparr>entries := AList.update n (Directory held m (AList.update d (Directory j k []) c)) (entries s)\<rparr>"
  have loop: "wp (for_each (\<lambda>leaf. unlink_leaf n held [n, d, leaf]) ?xs) Q' E' K' s = Q' () ?t" for Q' E' K'
    using fine_leaves [OF assms(1,2) cc(1) xs(1,2)] xs(3) by simp
  have t: "script ?t = []" "look ?t n = Some (Directory held m (AList.update d (Directory j k []) c))"
    "node_at (entries ?t) [n, d] = Some (Directory j k [])"
    using assms by (simp_all add: update_conv')
  have rm: "wp (os_rmdir [n, d]) Q' E' K' ?t = Q' () (s\<lparr>entries := AList.update n (Directory held m (AList.delete d c)) (entries s)\<rparr>)" for Q' E' K'
    unfolding fine_removals(2) [OF t(1,3)] by (simp add: update_conv' put_entry_def delete_update_same)
  show ?thesis
    unfolding delete_directory_def prod.case
    using assms cc t by (simp add: wp_simps fine_simps loop rm)
qed


lemma exact_directory_delete: "fst d' \<noteq> n \<Longrightarrow> exact_directory (AList.delete n c) d' = exact_directory c d'"
  by (cases d') (simp add: exact_directory_def delete_conv')

lemma fine_directories:
  assumes "script s = []" and "look s n = Some (Directory held m c)" and "distinct (map fst ds)" and "list_all (exact_directory c) ds"
  shows "wp (for_each (delete_directory n held) ds) Q E K s =
     Q () (s\<lparr>entries := AList.update n (Directory held m (fold AList.delete (map fst ds) c)) (entries s)\<rparr>)"
  using assms
proof (induction ds arbitrary: s c)
  case Nil
  then show ?case by (simp add: wp_simps update_triv)
next
  case (Cons d ds)
  obtain name leaves where d: "d = (name, leaves)" by (cases d)
  let ?t = "s\<lparr>entries := AList.update n (Directory held m (AList.delete name c)) (entries s)\<rparr>"
  have "wp (delete_directory n held d) Q' E' K' s = Q' () ?t" for Q' E' K'
    unfolding d using Cons.prems by (intro fine_delete_directory) (simp_all add: d)
  moreover have "list_all (exact_directory (AList.delete name c)) ds"
    using Cons.prems by (auto simp: list_all_iff d image_iff exact_directory_delete)
  then have "wp (for_each (delete_directory n held) ds) Q E K ?t =
     Q () (?t\<lparr>entries := AList.update n (Directory held m (fold AList.delete (map fst ds) (AList.delete name c))) (entries ?t)\<rparr>)"
    using Cons.prems by (intro Cons.IH) (simp_all add: update_conv')
  ultimately show ?case by (simp add: wp_simps d)
qed

lemma fine_root_leaves:
  assumes "script s = []" and "look s n = Some (Directory held m c)" and "distinct xs" and "all_single xs c"
  shows "wp (for_each (\<lambda>leaf. unlink_leaf n held [n, leaf]) xs) Q E K s =
     Q () (s\<lparr>entries := AList.update n (Directory held m (fold AList.delete xs c)) (entries s)\<rparr>)"
  using assms
proof (induction xs arbitrary: s c)
  case Nil
  then show ?case by (simp add: wp_simps update_triv)
next
  case (Cons leaf xs)
  obtain x where x: "map_of c leaf = Some x" "single_regular x" using Cons.prems(4) by (auto simp: all_single_Cons)
  let ?t = "s\<lparr>entries := AList.update n (Directory held m (AList.delete leaf c)) (entries s)\<rparr>"
  have "wp (unlink_leaf n held [n, leaf]) Q' E' K' s = Q' () ?t" for Q' E' K'
    using Cons.prems x by (subst fine_unlink_leaf) (simp_all add: put_entry_def)
  moreover have "wp (for_each (\<lambda>leaf. unlink_leaf n held [n, leaf]) xs) Q E K ?t =
     Q () (?t\<lparr>entries := AList.update n (Directory held m (fold AList.delete xs (AList.delete leaf c))) (entries ?t)\<rparr>)"
    using Cons.prems by (intro Cons.IH) (simp_all add: update_conv' all_single_delete all_single_Cons)
  ultimately show ?case by (simp add: wp_simps)
qed

lemma setdefault_append_distinct: "distinct (map fst d) \<Longrightarrow> distinct (map fst (setdefault_append d k v))"
proof -
  have keys: "fst ` set (setdefault_append d k v) = insert k (fst ` set d)" for d :: "('a \<times> 'b list) list"
  proof (induction d)
    case (Cons kv d)
    then show ?case by (cases kv) (simp add: insert_commute)
  qed simp
  show "distinct (map fst d) \<Longrightarrow> distinct (map fst (setdefault_append d k v))"
  proof (induction d)
    case (Cons kv d)
    obtain k' vs where kv: "kv = (k', vs)" by (cases kv)
    show ?case
      using Cons keys [of d] by (cases "k' = k") (auto simp: kv)
  qed simp
qed

lemma declared_distinct:
  "declared_leaves ps (leaves, nested) = Some (leaves', nested') \<Longrightarrow> distinct leaves \<Longrightarrow> distinct (map fst nested) \<Longrightarrow>
   distinct leaves' \<and> distinct (map fst nested')"
  by (induction ps "(leaves, nested)" arbitrary: leaves nested rule: declared_leaves.induct)
     (auto split: list.splits simp: setdefault_append_distinct)

lemma fine_delete_declared:
  assumes "script s = []" and "look s n = Some (Directory held m c)"
    and "declared_leaves files ([cp ''manifest.json''], []) = Some (leaves, nested)" and "exact_tree files (Directory held m c)"
  shows "wp (delete_declared n held (leaves, nested)) Q E K s = Q () (s\<lparr>entries := put_entry n None (entries s)\<rparr>)"
proof -
  have e: "set (map fst c) = set leaves \<union> set (map fst nested)" "all_single leaves c" "list_all (exact_directory c) nested"
    using assms(3,4) by (simp_all add: exact_tree_def)
  have d: "distinct leaves" "distinct (map fst nested)"
    using declared_distinct [OF assms(3)] by simp_all
  have disjoint: "leaf \<notin> set (map fst nested)" if "leaf \<in> set leaves" for leaf
  proof
    assume "leaf \<in> set (map fst nested)"
    then obtain ls where ls: "(leaf, ls) \<in> set nested" by auto
    from e(3) ls have "exact_directory c (leaf, ls)" by (auto simp: list_all_iff)
    then obtain j k cc where "map_of c leaf = Some (Directory j k cc)"
      by (auto simp: exact_directory_def split: option.splits node.splits)
    moreover from e(2) that have "case map_of c leaf of Some x \<Rightarrow> single_regular x | None \<Rightarrow> False"
      by (simp add: all_single_def list_all_iff)
    ultimately show False by simp
  qed
  let ?ds = "sort_key fst nested"
  let ?c = "fold AList.delete (map fst ?ds) c"
  have ds: "distinct (map fst ?ds)" "list_all (exact_directory c) ?ds"
    using d(2) e(3) by (simp_all add: list_all_iff distinct_map)
  have single: "all_single (sort leaves) ?c"
  proof -
    have "map_of ?c leaf = map_of c leaf" if "leaf \<in> set leaves" for leaf
      using disjoint [OF that] by (intro map_of_fold_delete) simp
    then show ?thesis using e(2) by (simp add: all_single_def list_all_iff)
  qed
  let ?t = "s\<lparr>entries := AList.update n (Directory held m ?c) (entries s)\<rparr>"
  have loop1: "wp (for_each (delete_directory n held) ?ds) Q' E' K' s = Q' () ?t" for Q' E' K'
    by (rule fine_directories [OF assms(1,2) ds])
  have empty: "fold AList.delete (sort leaves) ?c = []"
    using e(1) by (intro fold_delete_all) (auto simp: keys_fold_delete)
  let ?u = "s\<lparr>entries := AList.update n (Directory held m []) (entries s)\<rparr>"
  have loop2: "wp (for_each (\<lambda>leaf. unlink_leaf n held [n, leaf]) (sort leaves)) Q' E' K' ?t = Q' () ?u" for Q' E' K'
    using fine_root_leaves [of ?t n held m ?c "sort leaves" Q' E' K'] assms(1) d(1) single empty by (simp add: update_conv')
  have rm: "wp (os_rmdir [n]) Q' E' K' ?u = Q' () (s\<lparr>entries := put_entry n None (entries s)\<rparr>)" for Q' E' K'
    using fine_removals(2) [of ?u "[n]" held m Q' E' K'] assms(1) by (simp add: update_conv' put_entry_def delete_update_same)
  show ?thesis
    unfolding delete_declared_def prod.case
    using assms(1,2) e(1) by (simp add: wp_simps fine_simps loop1 loop2 rm update_conv')
qed

lemma fine_delete_tombstone:
  assumes fine: "script s = []" and known: "fs_operation_id s = Some op" "fs_expected s = Some v" "fs_marker_payload s = Some payload"
    and c: "look s (cleanup_at S op) = Some x" "verify_tree S x = Inr (files, v)" "exact_tree files x"
    and m: "look s (backup_marker_at S op) = Some bm" "marker_exact payload bm"
      "look s (cleanup_marker_at S op) = Some cm" "marker_exact payload cm"
  shows "wp (delete_tombstone S) Q E K s = Q () (s\<lparr>entries := put_entry (cleanup_at S op) None (entries s)\<rparr>)"
proof -
  obtain i mode entries' where x: "x = Directory i mode entries'"
    using c(3) by (cases x) (simp_all add: exact_tree_def)
  obtain leaves nested where d: "declared_leaves files ([cp ''manifest.json''], []) = Some (leaves, nested)"
    using c(3) x by (auto simp: exact_tree_def split: option.splits)
  have del: "wp (delete_declared (cleanup_at S op) i (leaves, nested)) Q' E' K' s =
     Q' () (s\<lparr>entries := put_entry (cleanup_at S op) None (entries s)\<rparr>)" for Q' E' K'
    using c x by (intro fine_delete_declared [OF fine _ d]) simp_all
  show ?thesis
    unfolding delete_tombstone_def delete_verified_def
    using fine known c m x by (simp add: wp_simps wp_names fine_simps d del)
qed


section \<open>Reading the remnants\<close>

lemma startswith_common: "py_startswith (a @ x) (a @ y) = py_startswith x y"
  by (induction a) simp_all

lemma cleanup_not_backup [simp]: "\<not> py_startswith (cleanup_prefix t @ x) (backup_prefix t)"
proof -
  have c: "cleanup_prefix t @ x = ([46] @ t @ cp ''.finproof-'') @ (cp ''cleanup-'' @ x)"
    by (simp add: cleanup_prefix_def cp_def)
  have b: "backup_prefix t = ([46] @ t @ cp ''.finproof-'') @ cp ''backup-''"
    by (simp add: backup_prefix_def cp_def)
  show ?thesis
    unfolding c b startswith_common by (simp add: cp_def)
qed

lemma shape_no_marker: "operation_shape op \<Longrightarrow> \<not> str_endswith op MARKER"
proof
  assume shape: "operation_shape op" and "str_endswith op MARKER"
  then obtain x where "rev op = rev MARKER @ x" by (auto simp: str_endswith_def py_startswith_iff)
  moreover have "46 \<in> set MARKER" by (simp add: MARKER_def cp_def)
  ultimately have "46 \<in> set (rev op)" by simp
  then have "46 \<in> set op" by simp
  with shape show False by (auto simp: operation_shape_def list_all_iff)
qed

lemma removesuffix_shape: "operation_shape op \<Longrightarrow> str_removesuffix op MARKER = op"
  by (simp add: str_removesuffix_def shape_no_marker)

lemma removesuffix_marker [simp]: "str_removesuffix (x @ MARKER) MARKER = x"
  by (simp add: str_removesuffix_def)

lemma remnant_operations:
  assumes "operation_shape op"
  shows "remnant_operation S (backup_at S op) = (backup_prefix (target_name S), op)"
    and "remnant_operation S (backup_marker_at S op) = (backup_prefix (target_name S), op)"
    and "remnant_operation S (cleanup_at S op) = (cleanup_prefix (target_name S), op)"
    and "remnant_operation S (cleanup_marker_at S op) = (cleanup_prefix (target_name S), op)"
  using removesuffix_shape [OF assms] by (simp_all add: remnant_operation_def str_removeprefix_def)

definition remnant_names :: "'v site \<Rightarrow> pystr \<Rightarrow> pystr set" where
  "remnant_names S op = {backup_at S op, backup_marker_at S op, cleanup_at S op, cleanup_marker_at S op}"

text \<open>Every remnant of the directory belongs to the operation.\<close>

definition sole_operation :: "'v site \<Rightarrow> pystr \<Rightarrow> dirents \<Rightarrow> bool" where
  "sole_operation S op d \<longleftrightarrow> operation_shape op \<and> (\<forall>n. is_remnant S n \<and> map_of d n \<noteq> None \<longrightarrow> n \<in> remnant_names S op)"

lemma remnant_names_are: "n \<in> remnant_names S op \<Longrightarrow> is_remnant S n"
  by (auto simp: remnant_names_def is_remnant_def)

lemma matching_remnants:
  assumes "sole_operation S op d"
  shows "set (filter (is_remnant S) (map fst d)) = {n \<in> remnant_names S op. map_of d n \<noteq> None}"
  using assms remnant_names_are by (auto simp: sole_operation_def map_of_eq_None_iff)

lemma distinct_singleton_list:
  assumes "distinct xs" "set xs = {a}"
  shows "xs = [a]"
proof (cases xs)
  case (Cons y ys)
  then have "y = a" and "set ys \<subseteq> {a}" and "a \<notin> set ys" using assms by auto
  then have "ys = []" by (cases ys) auto
  with Cons \<open>y = a\<close> show ?thesis by simp
qed (use assms in simp)

lemma remnant_choice:
  assumes sole: "sole_operation S op d"
  shows "(let matching = filter (is_remnant S) (map fst d); operations = remdups (map (snd \<circ> remnant_operation S) matching)
      in if \<not> list_all (remnant_name_ok S) matching then throw (remnant_error S ''foreign_publication_remnant'')
         else (case operations of
              [] \<Rightarrow> ret None
            | [operation] \<Rightarrow>
                (if set matching \<subseteq> set [backup_prefix (target_name S) @ operation, backup_prefix (target_name S) @ operation @ MARKER,
                      cleanup_prefix (target_name S) @ operation, cleanup_prefix (target_name S) @ operation @ MARKER]
                 then ret (Some operation) else throw (remnant_error S ''foreign_publication_remnant''))
            | _ \<Rightarrow> throw (remnant_error S ''ambiguous_publication_remnant'')))
    = (ret (if \<exists>n \<in> remnant_names S op. map_of d n \<noteq> None then Some op else None) :: (_, pystr option) publishing)"
proof -
  let ?m = "filter (is_remnant S) (map fst d)"
  let ?ops = "remdups (map (snd \<circ> remnant_operation S) ?m)"
  note m = matching_remnants [OF sole]
  have shape: "operation_shape op" using sole by (simp add: sole_operation_def)
  have each: "remnant_name_ok S n \<and> snd (remnant_operation S n) = op" if "n \<in> set ?m" for n
    using that unfolding m by (auto simp: remnant_names_def remnant_name_ok_def remnant_operations [OF shape] shape)
  have ok: "list_all (remnant_name_ok S) ?m" using each by (simp only: list_all_iff) blast
  have ops: "set ?ops \<subseteq> {op}" using each by auto
  have allowed: "set ?m \<subseteq> set [backup_prefix (target_name S) @ op, backup_prefix (target_name S) @ op @ MARKER,
                      cleanup_prefix (target_name S) @ op, cleanup_prefix (target_name S) @ op @ MARKER]"
    unfolding m by (auto simp: remnant_names_def)
  have list: "?ops = (if ?m = [] then [] else [op])"
  proof (cases "?m = []")
    case True then show ?thesis by (simp only: list.map remdups.simps simp_thms if_True)
  next
    case False
    have "distinct ?ops" by (rule distinct_remdups)
    moreover have "set ?ops = {op}" using ops False by (auto simp only: set_remdups set_map set_empty subset_singleton_iff image_is_empty)
    ultimately have "?ops = [op]" by (rule distinct_singleton_list)
    with False show ?thesis by (simp only: if_False)
  qed
  have present: "?m = [] \<longleftrightarrow> \<not> (\<exists>n \<in> remnant_names S op. map_of d n \<noteq> None)"
    unfolding set_empty [symmetric] m by blast
  show ?thesis
  proof (cases "?m = []")
    case True
    have "?ops = []" unfolding list using True by (rule if_P)
    have none: "\<not> (\<exists>n \<in> remnant_names S op. map_of d n \<noteq> None)" by (rule iffD1 [OF present True])
    show ?thesis
      unfolding Let_def \<open>?ops = []\<close> if_not_P [OF none] using ok by (simp only: not_True_eq_False if_False list.case)
  next
    case False
    have "?ops = [op]" unfolding list using False by (rule if_not_P)
    have some: "\<exists>n \<in> remnant_names S op. map_of d n \<noteq> None" using False present by argo
    show ?thesis
      unfolding Let_def \<open>?ops = [op]\<close> if_P [OF some] using ok allowed by (simp only: not_True_eq_False if_False list.case if_True)
  qed
qed

lemma fine_remnant_id:
  assumes "script s = []" and "sole_operation S op (entries s)"
  shows "wp (remnant_operation_id S) Q E K s =
     Q (if \<exists>n \<in> remnant_names S op. look s n \<noteq> None then Some op else None) s"
  unfolding remnant_operation_id_def wp_seq wp_bind fine_calls [OF assms(1)] remnant_choice [OF assms(2)] wp_ret ..

lemma wp_remnant_id:
  assumes "sole_operation S op (entries s)"
    and "\<And>fs. Q (if \<exists>n \<in> remnant_names S op. look s n \<noteq> None then Some op else None) (s\<lparr>script := fs\<rparr>)"
    and "\<And>fs. E Os_error (s\<lparr>script := fs\<rparr>)" "\<And>fs. K (s\<lparr>script := fs\<rparr>)"
  shows "wp (remnant_operation_id S) Q E K s"
  unfolding remnant_operation_id_def wp_seq wp_bind
proof (rule wp_open_parent)
  fix fs
  show "wp scan_parent (\<lambda>names. wp (let matching = filter (is_remnant S) names; operations = remdups (map (snd \<circ> remnant_operation S) matching)
      in if \<not> list_all (remnant_name_ok S) matching then throw (remnant_error S ''foreign_publication_remnant'')
         else (case operations of
              [] \<Rightarrow> ret None
            | [operation] \<Rightarrow>
                (if set matching \<subseteq> set [backup_prefix (target_name S) @ operation, backup_prefix (target_name S) @ operation @ MARKER,
                      cleanup_prefix (target_name S) @ operation, cleanup_prefix (target_name S) @ operation @ MARKER]
                 then ret (Some operation) else throw (remnant_error S ''foreign_publication_remnant''))
            | _ \<Rightarrow> throw (remnant_error S ''ambiguous_publication_remnant''))) Q E K) E K (s\<lparr>script := fs\<rparr>)"
    by (rule wp_scan_parent; unfold script_twice remnant_choice [OF assms(1)] wp_ret) (rule assms)+
qed (rule assms)+

lemma fine_names_known:
  assumes "knows S op s"
  shows "wp (backup_name S) Q E K s = Q (backup_at S op) s" "wp (backup_marker_name S) Q E K s = Q (backup_marker_at S op) s"
    and "wp (tombstone_name S) Q E K s = Q (cleanup_at S op) s" "wp (tombstone_marker_name S) Q E K s = Q (cleanup_marker_at S op) s"
  using assms by (simp_all add: knows_def wp_names)

definition short_marker :: "'v site \<Rightarrow> pystr \<Rightarrow> bool" where
  "short_marker S op \<longleftrightarrow> length (marker_bytes op (target_name S)) \<le> 4097"

lemma escape_length: "length (ascii_escape c) \<le> 12"
  by (simp add: ascii_escape_def json_escape_def hex4_def)

lemma ascii_string_length: "length (ascii_string s) \<le> 12 * length s + 2"
proof -
  have "length (concat (map ascii_escape s)) \<le> 12 * length s"
  proof (induction s)
    case (Cons c s)
    then show ?case using escape_length [of c] by simp
  qed simp
  then show ?thesis by (simp add: ascii_string_def)
qed

lemma marker_fits:
  assumes "operation_shape op" "safe_basename (printable S) (target_name S)"
  shows "short_marker S op"
proof -
  have "length op = 32" "length (target_name S) \<le> 128"
    using assms by (simp_all add: operation_shape_def safe_basename_def)
  then have "length (ascii_string op) \<le> 386" "length (ascii_string (target_name S)) \<le> 1538"
    using ascii_string_length [of op] ascii_string_length [of "target_name S"] by linarith+
  moreover have "length (ascii_string (cp ''artifact_contract_version'')) = 27" "length (ascii_string (cp ''1.0.0'')) = 7"
    "length (ascii_string (cp ''artifact_set_id'')) = 17" "length (ascii_string (cp ''finproof-data-artifacts/v1'')) = 28"
    "length (ascii_string (cp ''operation_id'')) = 14" "length (ascii_string (cp ''target_basename'')) = 17"
    by code_simp+
  ultimately show ?thesis
    unfolding short_marker_def marker_bytes_def by simp
qed
lemma marker_bytes_nonempty [simp]: "marker_bytes op t \<noteq> []"
  by (simp add: marker_bytes_def)

lemma intact_exact:
  assumes "marker_intact S op (Some m)" "short_marker S op"
  shows "marker_exact (marker_bytes op (target_name S)) m"
  using assms by (auto simp: marker_intact_def short_marker_def)

lemma fine_known_marker [fine_simps]:
  assumes "script s = []" "knows S op s" "short_marker S op" "marker_intact S op (look s n)"
  shows "wp (verify_marker S n) Q E K s = Q () s"
    and "wp (unlink_marker S n) Q E K s = Q () (s\<lparr>entries := put_entry n None (entries s)\<rparr>)"
proof -
  obtain i where i: "look s n = Some (Regular i 384 1 (marker_bytes op (target_name S)))"
    using assms(4) by (auto simp: marker_intact_def)
  then have m: "marker_exact (marker_bytes op (target_name S)) (Regular i 384 1 (marker_bytes op (target_name S)))"
    using assms by (intro intact_exact) (auto simp: marker_intact_def)
  have v: "wp (verify_marker S n) Q' E' K' s = Q' () s" for Q' E' K'
    by (rule fine_verify_marker [OF assms(1) i _ m]) (use assms in \<open>simp add: knows_def\<close>)
  show "wp (verify_marker S n) Q E K s = Q () s" by (rule v)
  show "wp (unlink_marker S n) Q E K s = Q () (s\<lparr>entries := put_entry n None (entries s)\<rparr>)"
    unfolding unlink_marker_def using assms(1) i
    by (simp add: wp_simps v fine_simps)
qed

section \<open>Classifying and resuming\<close>

definition generation :: "'v site \<Rightarrow> 'v \<Rightarrow> node \<Rightarrow> bool" where
  "generation S v x \<longleftrightarrow> (\<exists>files. verify_tree S x = Inr (files, v) \<and> exact_tree files x)"

lemma fine_generation [fine_simps]:
  assumes "script s = []" "look s n = Some x" "generation S v x" "fs_expected s = None \<or> fs_expected s = Some v"
  shows "wp (seq (verify_named_artifact S n) (ret ())) Q E K s = Q () (s\<lparr>fs_expected := Some v\<rparr>)"
proof -
  obtain files where f: "verify_tree S x = Inr (files, v)" using assms(3) by (auto simp: generation_def)
  show ?thesis
  proof (cases "fs_expected s = None")
    case True
    then show ?thesis by (simp add: wp_simps fine_verify_named(2) [OF assms(1,2) f])
  next
    case False
    with assms(4) have e: "fs_expected s = Some v" by simp
    then have "s\<lparr>fs_expected := Some v\<rparr> = s" by (metis (lifting) publisher.surjective publisher.update_convs(1))
    then show ?thesis by (simp add: wp_simps fine_verify_named(1) [OF assms(1,2) f e])
  qed
qed

end
