(* ===== verification/Publication_Recovery.thy ===== *)
theory Publication_Recovery
  imports Publication_Fault_Free
begin

text \<open>
  The recovery of owned remnants when nothing fails: how a remnant is classified, one lemma per cleanup
  step, the chain of steps from any of the five states, the restoration of an absent target, and the
  whole recovery.
\<close>

definition remnant_flags :: "'v site \<Rightarrow> pystr \<Rightarrow> dirents \<Rightarrow> bool \<times> bool \<times> bool \<times> bool" where
  "remnant_flags S op d =
     (map_of d (backup_at S op) \<noteq> None, map_of d (cleanup_at S op) \<noteq> None,
      map_of d (backup_marker_at S op) \<noteq> None, map_of d (cleanup_marker_at S op) \<noteq> None)"

definition sound_remnant :: "'v site \<Rightarrow> pystr \<Rightarrow> 'v \<Rightarrow> publication_state \<Rightarrow> dirents \<Rightarrow> bool" where
  "sound_remnant S op v st d \<longleftrightarrow> observed_state (remnant_flags S op d) = Some st
     \<and> (map_of d (backup_marker_at S op) \<noteq> None \<longrightarrow> marker_intact S op (map_of d (backup_marker_at S op)))
     \<and> (map_of d (cleanup_marker_at S op) \<noteq> None \<longrightarrow> marker_intact S op (map_of d (cleanup_marker_at S op)))
     \<and> (\<forall>x. map_of d (backup_at S op) = Some x \<longrightarrow> generation S v x)
     \<and> (\<forall>x. map_of d (cleanup_at S op) = Some x \<longrightarrow> generation S v x)"

lemma fine_when [fine_simps]: "wp (when_do b m) Q E K s = (if b then wp m Q E K s else Q () s)"
  by (simp add: when_do_def wp_simps)

lemma fine_classify:
  assumes fine: "script s = []" "knows S op s" "short_marker S op" and sound: "sound_remnant S op v st (entries s)"
    and e: "fs_expected s = None \<or> fs_expected s = Some v"
  shows "wp (classify_remnant S) Q E K s =
     Q st (if st \<in> {BOTH_MARKERS_ONLY, BACKUP_MARKER_ONLY} then s else s\<lparr>fs_expected := Some v\<rparr>)"
proof -
  note d = sound [unfolded sound_remnant_def]
  let ?b = "look s (backup_at S op) \<noteq> None" let ?c = "look s (cleanup_at S op) \<noteq> None"
  let ?bm = "look s (backup_marker_at S op) \<noteq> None" let ?cm = "look s (cleanup_marker_at S op) \<noteq> None"
  let ?e = "s\<lparr>fs_expected := Some v\<rparr>"
  note n = fine_names_known [OF fine(2)]
  have st: "observed_state (?b, ?c, ?bm, ?cm) = Some st" using d by (simp add: remnant_flags_def)
  have markers: "wp (when_do ?bm (verify_marker S (backup_marker_at S op))) Q' E' K' s = Q' () s"
    "wp (when_do ?cm (verify_marker S (cleanup_marker_at S op))) Q' E' K' s = Q' () s" for Q' E' K'
    using d by (simp_all add: fine_when fine_known_marker(1) [OF fine])
  have again: "?e\<lparr>fs_expected := Some v\<rparr> = ?e" by simp
  have backup: "wp (when_do ?b (seq (verify_named_artifact S (backup_at S op)) (ret ()))) Q' E' K' s = Q' () (if ?b then ?e else s)" for Q' E' K'
    using d by (auto simp: fine_when fine_generation [OF fine(1) _ _ e])
  have tomb: "wp (when_do ?c (seq (verify_named_artifact S (cleanup_at S op)) (ret ()))) Q' E' K' (if ?b then ?e else s)
      = Q' () (if ?b \<or> ?c then ?e else s)" for Q' E' K'
    using d fine(1) e by (auto simp: fine_when fine_generation again)
  have last: "(if ?b \<or> ?c then ?e else s) = (if st \<in> {BOTH_MARKERS_ONLY, BACKUP_MARKER_ONLY} then s else ?e)"
    using st by (cases ?b; cases ?c; cases ?bm; cases ?cm) auto
  have run: "wp (classify_remnant S) Q E K s = Q st (if ?b \<or> ?c then ?e else s)"
    unfolding classify_remnant_def wp_bind n fine_named_exists [OF fine(1)] st option.case
      wp_seq [of "when_do b m" for b m] markers backup tomb wp_ret ..
  show ?thesis unfolding run last ..
qed


section \<open>One step after another\<close>

definition remnant_is :: "'v site \<Rightarrow> pystr \<Rightarrow> 'v \<Rightarrow> publication_state \<Rightarrow> dirents \<Rightarrow> bool" where
  "remnant_is S op v st d \<longleftrightarrow>
     (if st = NO_REMNANT then (\<forall>n \<in> remnant_names S op. map_of d n = None) else sound_remnant S op v st d)"

definition resuming :: "'v site \<Rightarrow> pystr \<Rightarrow> 'v \<Rightarrow> dirents \<Rightarrow> publication_state \<Rightarrow> 'v publisher \<Rightarrow> bool" where
  "resuming S op v d0 st s \<longleftrightarrow> script s = [] \<and> knows S op s \<and> fs_expected s = Some v \<and> machine_state s = st
     \<and> remnant_is S op v st (entries s) \<and> (\<forall>n. n \<notin> remnant_names S op \<longrightarrow> look s n = map_of d0 n)"

lemma flags_known:
  "observed_state f = Some BACKUP_WITH_MARKER \<longleftrightarrow> f = (True, False, True, False)"
  "observed_state f = Some BACKUP_WITH_PREPARED_TOMBSTONE_MARKER \<longleftrightarrow> f = (True, False, True, True)"
  "observed_state f = Some TOMBSTONE_WITH_BOTH_MARKERS \<longleftrightarrow> f = (False, True, True, True)"
  "observed_state f = Some BOTH_MARKERS_ONLY \<longleftrightarrow> f = (False, False, True, True)"
  "observed_state f = Some BACKUP_MARKER_ONLY \<longleftrightarrow> f = (False, False, True, False)"
  by (cases f rule: observed_state.cases; simp)+

lemma fine_in_state_other [fine_simps]: "machine_state s \<noteq> from \<Longrightarrow> wp (in_state from m to) Q E K s = Q () s"
  by (simp add: in_state_def wp_simps when_do_def)

lemma fine_in_state: "machine_state s = from \<Longrightarrow> wp (in_state from m to) Q E K s = wp m (\<lambda>_ t. Q () (t\<lparr>machine_state := to\<rparr>)) E K s"
proof -
  have "wp (modify f) Q E K = (\<lambda>t. Q () (f t))" for f :: "'a publisher \<Rightarrow> 'a publisher"
    by (rule ext) (simp add: wp_modify)
  then show "machine_state s = from \<Longrightarrow> ?thesis"
    by (simp add: in_state_def wp_simps when_do_def enter_state_def)
qed

lemma names_in_remnants [simp]:
  "backup_at S op \<in> remnant_names S op" "backup_marker_at S op \<in> remnant_names S op"
  "cleanup_at S op \<in> remnant_names S op" "cleanup_marker_at S op \<in> remnant_names S op" "target_name S \<notin> remnant_names S op"
  by (simp_all add: remnant_names_def)

lemma unlike_remnant: "n \<notin> remnant_names S op \<Longrightarrow> m \<in> remnant_names S op \<Longrightarrow> n \<noteq> m \<and> m \<noteq> n"
  by blast

lemmas resuming_defs = resuming_def remnant_is_def sound_remnant_def remnant_flags_def flags_known

lemma marker_intact_new [simp]: "marker_intact S op (Some (Regular i 384 (Suc 0) (marker_bytes op (target_name S))))"
  by (simp add: marker_intact_def)

lemma fine_prepare:
  assumes "resuming S op v d0 BACKUP_WITH_MARKER s" "\<And>t. resuming S op v d0 BACKUP_WITH_PREPARED_TOMBSTONE_MARKER t \<Longrightarrow> Q () t"
  shows "wp (in_state BACKUP_WITH_MARKER (prepare_tombstone_marker S) BACKUP_WITH_PREPARED_TOMBSTONE_MARKER) Q E K s"
proof -
  have k: "knows S op s" "machine_state s = BACKUP_WITH_MARKER" using assms(1) by (simp_all add: resuming_def)
  have m: "script s = []" "look s (cleanup_marker_at S op) = None" "fs_marker_payload s = Some (marker_bytes op (target_name S))"
    using assms(1) by (simp_all add: resuming_defs knows_def)
  show ?thesis
    unfolding fine_in_state [OF k(2)] prepare_tombstone_marker_def wp_bind fine_names_known [OF k(1)]
      fine_create_marker [OF m marker_bytes_nonempty]
    using assms(1) by (intro assms(2)) (auto simp: resuming_defs knows_def update_conv' dest: unlike_remnant)
qed

lemma fine_aside:
  assumes "resuming S op v d0 BACKUP_WITH_PREPARED_TOMBSTONE_MARKER s" "short_marker S op"
    and "\<And>t. resuming S op v d0 TOMBSTONE_WITH_BOTH_MARKERS t \<Longrightarrow> Q () t"
  shows "wp (in_state BACKUP_WITH_PREPARED_TOMBSTONE_MARKER (rename_backup_to_tombstone S) TOMBSTONE_WITH_BOTH_MARKERS) Q E K s"
proof -
  have k: "knows S op s" "machine_state s = BACKUP_WITH_PREPARED_TOMBSTONE_MARKER" "script s = []" "fs_expected s = Some v"
    using assms(1) by (simp_all add: resuming_def)
  obtain x where x: "look s (backup_at S op) = Some x" "generation S v x" "look s (cleanup_at S op) = None"
    and m: "marker_intact S op (look s (backup_marker_at S op))" "marker_intact S op (look s (cleanup_marker_at S op))"
    using assms(1) by (auto simp: resuming_defs)
  obtain files where f: "verify_tree S x = Inr (files, v)" using x(2) by (auto simp: generation_def)
  have "wp (rename_backup_to_tombstone S) Q' E' K' s
      = Q' () (s\<lparr>entries := put_entry (cleanup_at S op) (Some x) (put_entry (backup_at S op) None (entries s))\<rparr>)" for Q' E' K'
    unfolding rename_backup_to_tombstone_def verify_backup_def
    by (simp add: wp_simps fine_names_known [OF k(1)] fine_known_marker(1) [OF k(3,1) assms(2)] m
        fine_verify_named(1) [OF k(3) x(1) f k(4)] fine_calls [OF k(3)] fine_removals(3) [OF k(3) x(1,3)])
  then show ?thesis
    unfolding fine_in_state [OF k(2)]
    using assms(1) x m by (simp, intro assms(3)) (auto simp: resuming_defs knows_def dest: unlike_remnant)
qed

lemma fine_delete:
  assumes "resuming S op v d0 TOMBSTONE_WITH_BOTH_MARKERS s" "short_marker S op"
    and "\<And>t. resuming S op v d0 BOTH_MARKERS_ONLY t \<Longrightarrow> Q () t"
  shows "wp (in_state TOMBSTONE_WITH_BOTH_MARKERS (delete_tombstone S) BOTH_MARKERS_ONLY) Q E K s"
proof -
  have k: "knows S op s" "machine_state s = TOMBSTONE_WITH_BOTH_MARKERS" "script s = []" "fs_expected s = Some v"
    "fs_operation_id s = Some op" "fs_marker_payload s = Some (marker_bytes op (target_name S))"
    using assms(1) by (simp_all add: resuming_def knows_def)
  obtain x where x: "look s (cleanup_at S op) = Some x" "generation S v x"
    and m: "marker_intact S op (look s (backup_marker_at S op))" "marker_intact S op (look s (cleanup_marker_at S op))"
    using assms(1) by (auto simp: resuming_defs)
  obtain bm cm where l: "look s (backup_marker_at S op) = Some bm" "look s (cleanup_marker_at S op) = Some cm"
    using m by (auto simp: marker_intact_def)
  obtain files where f: "verify_tree S x = Inr (files, v)" "exact_tree files x" using x(2) by (auto simp: generation_def)
  note run = fine_delete_tombstone [OF k(3,5,4,6) x(1) f l(1) intact_exact [OF _ assms(2)] l(2) intact_exact [OF _ assms(2)], folded l, OF m]
  show ?thesis
    unfolding fine_in_state [OF k(2)] run
    using assms(1) m by (intro assms(3)) (auto simp: resuming_defs knows_def dest: unlike_remnant)
qed


lemma fine_both_markers:
  assumes "resuming S op v d0 BOTH_MARKERS_ONLY s" "short_marker S op"
    and "\<And>t. resuming S op v d0 BACKUP_MARKER_ONLY t \<Longrightarrow> Q () t"
  shows "wp (in_state BOTH_MARKERS_ONLY (unlink_tombstone_marker S) BACKUP_MARKER_ONLY) Q E K s"
proof -
  have k: "knows S op s" "machine_state s = BOTH_MARKERS_ONLY" "script s = []"
    using assms(1) by (simp_all add: resuming_def)
  have m: "marker_intact S op (look s (cleanup_marker_at S op))" using assms(1) by (auto simp: resuming_defs)
  show ?thesis
    unfolding fine_in_state [OF k(2)] unlink_tombstone_marker_def wp_bind fine_names_known [OF k(1)]
      fine_known_marker(2) [OF k(3,1) assms(2) m]
    using assms(1) by (intro assms(3)) (auto simp: resuming_defs knows_def dest: unlike_remnant)
qed

lemma fine_last_marker:
  assumes "resuming S op v d0 BACKUP_MARKER_ONLY s" "short_marker S op"
    and "\<And>t. resuming S op v d0 NO_REMNANT t \<Longrightarrow> Q () t"
  shows "wp (in_state BACKUP_MARKER_ONLY (unlink_backup_marker S) NO_REMNANT) Q E K s"
proof -
  have k: "knows S op s" "machine_state s = BACKUP_MARKER_ONLY" "script s = []"
    using assms(1) by (simp_all add: resuming_def)
  have m: "marker_intact S op (look s (backup_marker_at S op))" using assms(1) by (auto simp: resuming_defs)
  show ?thesis
    unfolding fine_in_state [OF k(2)] unlink_backup_marker_def wp_bind fine_names_known [OF k(1)]
      fine_known_marker(2) [OF k(3,1) assms(2) m]
    using assms(1) by (intro assms(3)) (auto simp: resuming_defs knows_def remnant_names_def)
qed

text \<open>A cleanup resumes at any of its five states and runs through the ones after it.\<close>

lemma fine_resume_from:
  assumes "resuming S op v d0 st s" "short_marker S op"
    and st: "st \<in> {BACKUP_WITH_MARKER, BACKUP_WITH_PREPARED_TOMBSTONE_MARKER, TOMBSTONE_WITH_BOTH_MARKERS, BOTH_MARKERS_ONLY, BACKUP_MARKER_ONLY}"
    and Q: "\<And>t. resuming S op v d0 NO_REMNANT t \<Longrightarrow> Q () t"
  shows "wp (seq (in_state BACKUP_WITH_MARKER (prepare_tombstone_marker S) BACKUP_WITH_PREPARED_TOMBSTONE_MARKER)
     (seq (in_state BACKUP_WITH_PREPARED_TOMBSTONE_MARKER (rename_backup_to_tombstone S) TOMBSTONE_WITH_BOTH_MARKERS)
     (seq (in_state TOMBSTONE_WITH_BOTH_MARKERS (delete_tombstone S) BOTH_MARKERS_ONLY)
     (seq (in_state BOTH_MARKERS_ONLY (unlink_tombstone_marker S) BACKUP_MARKER_ONLY)
     (in_state BACKUP_MARKER_ONLY (unlink_backup_marker S) NO_REMNANT))))) Q E K s"
proof -
  let ?i1 = "in_state BACKUP_WITH_MARKER (prepare_tombstone_marker S) BACKUP_WITH_PREPARED_TOMBSTONE_MARKER"
  let ?i2 = "in_state BACKUP_WITH_PREPARED_TOMBSTONE_MARKER (rename_backup_to_tombstone S) TOMBSTONE_WITH_BOTH_MARKERS"
  let ?i3 = "in_state TOMBSTONE_WITH_BOTH_MARKERS (delete_tombstone S) BOTH_MARKERS_ONLY"
  let ?i4 = "in_state BOTH_MARKERS_ONLY (unlink_tombstone_marker S) BACKUP_MARKER_ONLY"
  let ?i5 = "in_state BACKUP_MARKER_ONLY (unlink_backup_marker S) NO_REMNANT"
  let ?in = "resuming S op v d0"
  note other = fine_in_state_other
  have at: "machine_state t = p" if "?in p t" for p t using that by (simp add: resuming_def)
  have i5: "wp ?i5 Q E K t" if "?in BACKUP_MARKER_ONLY t" for t
    using that assms(2) Q by (rule fine_last_marker [where Q = Q])
  have i4: "wp ?i4 (\<lambda>_. wp ?i5 Q E K) E K t" if "?in BOTH_MARKERS_ONLY t \<or> ?in BACKUP_MARKER_ONLY t" for t
    using that
  proof
    assume "?in BOTH_MARKERS_ONLY t" then show ?thesis by (rule fine_both_markers [OF _ assms(2) i5])
  next
    assume a: "?in BACKUP_MARKER_ONLY t" then show ?thesis using at [OF a] i5 [OF a] by (simp add: other)
  qed
  have i3: "wp ?i3 (\<lambda>_. wp ?i4 (\<lambda>_. wp ?i5 Q E K) E K) E K t"
    if "?in TOMBSTONE_WITH_BOTH_MARKERS t \<or> ?in BOTH_MARKERS_ONLY t \<or> ?in BACKUP_MARKER_ONLY t" for t
    using that
  proof
    assume "?in TOMBSTONE_WITH_BOTH_MARKERS t" then show ?thesis by (rule fine_delete [OF _ assms(2)]) (rule i4, simp)
  next
    assume a: "?in BOTH_MARKERS_ONLY t \<or> ?in BACKUP_MARKER_ONLY t"
    then have "machine_state t \<noteq> TOMBSTONE_WITH_BOTH_MARKERS" using at by force
    then show ?thesis using i4 [OF a] by (simp add: other)
  qed
  have i2: "wp ?i2 (\<lambda>_. wp ?i3 (\<lambda>_. wp ?i4 (\<lambda>_. wp ?i5 Q E K) E K) E K) E K t"
    if "?in BACKUP_WITH_PREPARED_TOMBSTONE_MARKER t \<or> ?in TOMBSTONE_WITH_BOTH_MARKERS t \<or> ?in BOTH_MARKERS_ONLY t \<or> ?in BACKUP_MARKER_ONLY t" for t
    using that
  proof
    assume "?in BACKUP_WITH_PREPARED_TOMBSTONE_MARKER t" then show ?thesis by (rule fine_aside [OF _ assms(2)]) (rule i3, simp)
  next
    assume a: "?in TOMBSTONE_WITH_BOTH_MARKERS t \<or> ?in BOTH_MARKERS_ONLY t \<or> ?in BACKUP_MARKER_ONLY t"
    then have "machine_state t \<noteq> BACKUP_WITH_PREPARED_TOMBSTONE_MARKER" using at by force
    then show ?thesis using i3 [OF a] by (simp add: other)
  qed
  have i1: "wp ?i1 (\<lambda>_. wp ?i2 (\<lambda>_. wp ?i3 (\<lambda>_. wp ?i4 (\<lambda>_. wp ?i5 Q E K) E K) E K) E K) E K s"
  proof (cases "st = BACKUP_WITH_MARKER")
    case True
    show ?thesis by (rule fine_prepare [OF assms(1) [unfolded True]]) (rule i2, simp)
  next
    case False
    with assms(1) st have "?in BACKUP_WITH_PREPARED_TOMBSTONE_MARKER s \<or> ?in TOMBSTONE_WITH_BOTH_MARKERS s \<or> ?in BOTH_MARKERS_ONLY s \<or> ?in BACKUP_MARKER_ONLY s"
      by auto
    moreover have "machine_state s \<noteq> BACKUP_WITH_MARKER" using False at [OF assms(1)] by simp
    ultimately show ?thesis using i2 by (simp add: other)
  qed
  show ?thesis unfolding wp_seq by (rule i1)
qed

lemma fine_resume:
  assumes "script s = []" "look s (target_name S) = Some x" "generation S v x" "fs_expected s = None \<or> fs_expected s = Some v"
    and "resuming S op v d0 st (s\<lparr>fs_expected := Some v\<rparr>)" "short_marker S op" and st: "st \<noteq> NO_REMNANT"
    and Q: "\<And>t. resuming S op v d0 NO_REMNANT t \<Longrightarrow> Q () t"
  shows "wp (resume_cleanup S) Q E K s"
proof -
  have flags: "observed_state (remnant_flags S op (entries s)) = Some st"
    using assms(5) st by (simp add: resuming_def remnant_is_def sound_remnant_def)
  have "st \<in> {BACKUP_WITH_MARKER, BACKUP_WITH_PREPARED_TOMBSTONE_MARKER, TOMBSTONE_WITH_BOTH_MARKERS, BOTH_MARKERS_ONLY, BACKUP_MARKER_ONLY}"
    using flags by (cases "remnant_flags S op (entries s)" rule: observed_state.cases) auto
  note run = fine_resume_from [where Q = Q, OF assms(5,6) this Q]
  show ?thesis
    unfolding resume_cleanup_def wp_seq [of "verify_target S"]
    unfolding verify_target_def fine_generation [OF assms(1-4)]
    by (rule run)
qed

text \<open>An absent target comes back from its backup.\<close>

lemma fine_verify_backup:
  assumes "script s = []" "knows S op s" "short_marker S op" "fs_expected s = Some v"
    and "look s (backup_at S op) = Some x" "generation S v x" "marker_intact S op (look s (backup_marker_at S op))"
  shows "wp (verify_backup S) Q E K s = Q () s"
proof -
  obtain files where f: "verify_tree S x = Inr (files, v)" using assms(6) by (auto simp: generation_def)
  show ?thesis
    unfolding verify_backup_def
    by (simp add: wp_simps fine_names_known [OF assms(2)] fine_known_marker(1) [OF assms(1-3,7)]
        fine_verify_named(1) [OF assms(1,5) f assms(4)])
qed

lemma fine_restore_backup:
  assumes "script s = []" "knows S op s" "short_marker S op" "fs_expected s = Some v"
    and "look s (backup_at S op) = Some x" "generation S v x" "marker_intact S op (look s (backup_marker_at S op))"
    and "look s (target_name S) = None"
  shows "wp (restore_backup_to_target S) Q E K s = Q () (s\<lparr>entries := put_entry (backup_marker_at S op) None
     (put_entry (target_name S) (Some x) (put_entry (backup_at S op) None (entries s)))\<rparr>)"
proof -
  let ?t = "s\<lparr>entries := put_entry (target_name S) (Some x) (put_entry (backup_at S op) None (entries s))\<rparr>"
  obtain files where f: "verify_tree S x = Inr (files, v)" using assms(6) by (auto simp: generation_def)
  have t: "script ?t = []" "knows S op ?t" "fs_expected ?t = Some v" "look ?t (target_name S) = Some x"
    "marker_intact S op (look ?t (backup_marker_at S op))"
    using assms by (simp_all add: knows_def)
  obtain bm where bm: "look ?t (backup_marker_at S op) = Some bm" "\<And>i m c. bm \<noteq> Directory i m c"
    using t(5) by (auto simp: marker_intact_def)
  have absent: "wp (os_stat [target_name S]) Q' E' K' s = E' File_not_found s" for Q' E' K'
    using fine_calls(1) [OF assms(1), of "[target_name S]" Q' E' K'] assms(8) by simp
  have unlink: "wp (os_unlink [backup_marker_at S op]) Q' E' K' ?t
      = Q' () (?t\<lparr>entries := put_entry (backup_marker_at S op) None (entries ?t)\<rparr>)" for Q' E' K'
    using fine_removals(1) [OF t(1), of "[backup_marker_at S op]" bm Q' E' K'] bm by simp
  note rules = fine_verify_backup [OF assms(1-7)] fine_calls(4) [OF assms(1)] absent fine_names_known [OF assms(2)]
    fine_removals(3) [OF assms(1,5,8)] fine_verify_named(1) [OF t(1,4) f t(3)] fine_names_known [OF t(2)]
    fine_known_marker(1) [OF t(1,2) assms(3) t(5)] fine_calls(4) [OF t(1)] unlink
  show ?thesis
    unfolding restore_backup_to_target_def verify_target_def
    by (simp add: wp_simps rules)
qed

lemma fine_restore_absent:
  assumes "resuming S op v d0 st s" "short_marker S op" "look s (target_name S) = None" "look s (backup_at S op) = Some x"
    and Q: "\<And>t. resuming S op v (put_entry (target_name S) (Some x) d0) NO_REMNANT t \<Longrightarrow> Q () t"
    and st: "st = BACKUP_WITH_MARKER \<or> st = BACKUP_WITH_PREPARED_TOMBSTONE_MARKER"
  shows "wp (restore_absent_target S operation) Q E K s"
proof -
  have k: "knows S op s" "machine_state s = st" "script s = []" "fs_expected s = Some v"
    using assms(1) by (simp_all add: resuming_def)
  have sound: "sound_remnant S op v st (entries s)" using assms(1) st by (auto simp: resuming_def remnant_is_def)
  then have m: "marker_intact S op (look s (backup_marker_at S op))" and g: "generation S v x" and c: "look s (cleanup_at S op) = None"
    and cm: "st = BACKUP_WITH_PREPARED_TOMBSTONE_MARKER \<Longrightarrow> marker_intact S op (look s (cleanup_marker_at S op))"
      "st = BACKUP_WITH_MARKER \<Longrightarrow> look s (cleanup_marker_at S op) = None"
    using st assms(4) by (auto simp: sound_remnant_def remnant_flags_def flags_known)
  let ?prepared = "st = BACKUP_WITH_PREPARED_TOMBSTONE_MARKER"
  define d1 where "d1 = (if ?prepared then put_entry (cleanup_marker_at S op) None (entries s) else entries s)"
  let ?s1 = "s\<lparr>entries := d1\<rparr>"
  have dropped: "wp (when_do ?prepared (unlink_tombstone_marker S)) Q' E' K' s = Q' () ?s1" for Q' E' K'
    using cm k by (simp add: d1_def fine_when unlink_tombstone_marker_def wp_bind fine_names_known [OF k(1)] fine_known_marker(2) [OF k(3,1) assms(2)])
  have d1: "map_of d1 n = (if n = cleanup_marker_at S op then None else look s n)" for n
    using cm st by (auto simp: d1_def)
  have s1: "script ?s1 = []" "knows S op ?s1" "fs_expected ?s1 = Some v" "look ?s1 (backup_at S op) = Some x"
    "marker_intact S op (look ?s1 (backup_marker_at S op))" "look ?s1 (target_name S) = None"
    using k m assms(3,4) by (simp_all add: knows_def d1)
  let ?d2 = "put_entry (backup_marker_at S op) None (put_entry (target_name S) (Some x) (put_entry (backup_at S op) None d1))"
  have state: "machine_state s \<in> {BACKUP_WITH_MARKER, BACKUP_WITH_PREPARED_TOMBSTONE_MARKER}" using k(2) st by simp
  note rules = fine_verify_backup [OF k(3,1) assms(2) k(4) assms(4) g m] fine_restore_backup [OF s1(1,2) assms(2) s1(3,4) g s1(5,6)]
  have "wp (restore_absent_target S operation) Q E K s = Q () ((?s1\<lparr>entries := ?d2\<rparr>)\<lparr>machine_state := NO_REMNANT\<rparr>)"
    unfolding restore_absent_target_def wp_bind wp_reads if_P [OF state]
    unfolding k(2) wp_seq rules dropped enter_state_def wp_modify by simp
  also have "\<dots>"
    using assms(1) c by (intro Q) (auto simp: resuming_def remnant_is_def knows_def d1 remnant_names_def)
  finally show ?thesis by simp
qed


section \<open>The whole recovery\<close>

text \<open>
  What a recovery can finish: no remnant, or one whose markers and directories are all complete, with
  a complete target or a backup that can take its place.
\<close>

definition recoverable :: "'v site \<Rightarrow> pystr \<Rightarrow> 'v \<Rightarrow> dirents \<Rightarrow> bool" where
  "recoverable S op v d \<longleftrightarrow>
     (\<forall>n \<in> remnant_names S op. map_of d n = None)
     \<or> (\<exists>st. sound_remnant S op v st d \<and>
          (case map_of d (target_name S) of Some x \<Rightarrow> generation S v x
           | None \<Rightarrow> st = BACKUP_WITH_MARKER \<or> st = BACKUP_WITH_PREPARED_TOMBSTONE_MARKER))"

definition recovered :: "'v site \<Rightarrow> pystr \<Rightarrow> dirents \<Rightarrow> dirents \<Rightarrow> bool" where
  "recovered S op d0 d \<longleftrightarrow> (\<forall>n \<in> remnant_names S op. map_of d n = None)
     \<and> (\<forall>n. n \<notin> remnant_names S op \<longrightarrow> map_of d n =
          (if n = target_name S \<and> map_of d0 n = None then map_of d0 (backup_at S op) else map_of d0 n))"

lemma observed_not_empty: "observed_state f \<noteq> Some NO_REMNANT" "observed_state f \<noteq> Some STAGE_VERIFIED"
  by (cases f rule: observed_state.cases; simp)+

lemma sound_some: "sound_remnant S op v st d \<Longrightarrow> st \<noteq> NO_REMNANT \<and> (\<exists>n \<in> remnant_names S op. map_of d n \<noteq> None)"
  by (cases "remnant_flags S op d" rule: observed_state.cases)
     (auto simp: sound_remnant_def remnant_flags_def remnant_names_def)

lemma fine_remnant_state:
  assumes "script s = []" "knows S op s" "short_marker S op" "sound_remnant S op v st (entries s)" "fs_expected s = None \<or> fs_expected s = Some v"
  shows "wp (remnant_state S) Q E K s = Q st (if st \<in> {BOTH_MARKERS_ONLY, BACKUP_MARKER_ONLY} then s else s\<lparr>fs_expected := Some v\<rparr>)"
  using assms(2) by (simp add: remnant_state_def wp_simps knows_def fine_classify [OF assms])

lemma fine_recover:
  assumes s: "script s = []" "knows S op s" "fs_expected s = None \<or> fs_expected s = Some v" "\<not> fs_closed s"
    and "short_marker S op" and sound: "sound_remnant S op v st (entries s)"
    and target: "case look s (target_name S) of Some x \<Rightarrow> generation S v x
        | None \<Rightarrow> st = BACKUP_WITH_MARKER \<or> st = BACKUP_WITH_PREPARED_TOMBSTONE_MARKER"
  shows "wp (recover S operation) (\<lambda>_ t. recovered S op (entries s) (entries t)) (\<lambda>_ _. False) (\<lambda>_. False) s"
proof -
  let ?E = "\<lambda>e. wp fs_close (\<lambda>_ _. False) (\<lambda>_ _. False) (\<lambda>_. False)"
  let ?Q = "\<lambda>_. wp fs_close (\<lambda>_ t. recovered S op (entries s) (entries t)) (\<lambda>_ _. False) (\<lambda>_. False)"
  let ?quick = "st \<in> {BOTH_MARKERS_ONLY, BACKUP_MARKER_ONLY}"
  define t where "t = (if ?quick then s else s\<lparr>fs_expected := Some v\<rparr>)\<lparr>machine_state := st\<rparr>"
  have st: "st \<noteq> NO_REMNANT" using sound_some [OF sound] by simp
  have t: "script t = []" "look t = look s" "fs_expected t = None \<or> fs_expected t = Some v"
    "resuming S op v (entries s) st (t\<lparr>fs_expected := Some v\<rparr>)" "\<not> ?quick \<Longrightarrow> resuming S op v (entries s) st t"
    using s sound st by (auto simp: t_def resuming_def remnant_is_def knows_def)
  have present: "wp (target_exists S) Q E K t = Q (look s (target_name S) \<noteq> None) t" for Q E K
    unfolding target_exists_def using fine_named_exists [OF t(1)] t(2) by simp
  have cont: "wp (if \<not> look s (target_name S) \<noteq> None then restore_absent_target S operation else resume_cleanup S) ?Q ?E (\<lambda>_. False) t"
  proof (cases "look s (target_name S)")
    case None
    with target have st': "st = BACKUP_WITH_MARKER \<or> st = BACKUP_WITH_PREPARED_TOMBSTONE_MARKER" by simp
    then obtain x where x: "look s (backup_at S op) = Some x"
      using sound by (auto simp: sound_remnant_def remnant_flags_def flags_known)
    have "wp (restore_absent_target S operation) ?Q ?E (\<lambda>_. False) t"
    proof (rule fine_restore_absent [OF t(5) assms(5) _ _ _ st'])
      show "\<not> ?quick" using st' by auto
      show "look t (target_name S) = None" "look t (backup_at S op) = Some x" using None x t(2) by simp_all
      fix u assume "resuming S op v (put_entry (target_name S) (Some x) (entries s)) NO_REMNANT u"
      then show "?Q () u"
        using None x by (auto simp: fs_close_def wp_modify recovered_def resuming_def remnant_is_def)
    qed
    with None show ?thesis by simp
  next
    case (Some x)
    have "wp (resume_cleanup S) ?Q ?E (\<lambda>_. False) t"
    proof (rule fine_resume [OF t(1) _ _ t(3,4) assms(5) st])
      show "look t (target_name S) = Some x" "generation S v x" using Some t(2) target by simp_all
      fix u assume "resuming S op v (entries s) NO_REMNANT u"
      then show "?Q () u"
        using Some by (auto simp: fs_close_def wp_modify recovered_def resuming_def remnant_is_def)
    qed
    with Some show ?thesis by simp
  qed
  show ?thesis
    unfolding recover_def wp_finally wp_seq wp_bind fs_assert_live_def wp_reads wp_throw_if if_not_P [OF s(4)]
      fine_remnant_state [OF s(1,2) assms(5) sound s(3)] enter_state_def wp_modify t_def [symmetric] present
    by (rule cont)
qed

lemma fine_recover_owned:
  assumes fine: "script s = []" and sole: "sole_operation S op (entries s)" and short: "short_marker S op"
    and ok: "recoverable S op v (entries s)"
  shows "wp (recover_owned_remnants S) (\<lambda>_ t. recovered S op (entries s) (entries t)) (\<lambda>_ _. False) (\<lambda>_. False) s"
proof -
  let ?s0 = "s\<lparr>fs_expected := None, fs_closed := False\<rparr>"
  have s0: "script ?s0 = []" "sole_operation S op (entries ?s0)" using fine sole by simp_all
  show ?thesis
  proof (cases "\<exists>n \<in> remnant_names S op. look s n \<noteq> None")
    case False
    then have none: "\<not> (\<exists>n \<in> remnant_names S op. look ?s0 n \<noteq> None)" by simp
    let ?s1 = "?s0\<lparr>fs_operation_id := None, fs_marker_payload := None\<rparr>"
    have s1: "script ?s1 = []" "sole_operation S op (entries ?s1)" "\<not> (\<exists>n \<in> remnant_names S op. look ?s1 n \<noteq> None)"
      using s0 none by simp_all
    have same: "recovered S op (entries s) (entries s)" using False by (auto simp: recovered_def)
    have first: "wp (for_recovery S) Q E K s = Q () ?s1" for Q E K
      unfolding for_recovery_def wp_seq wp_modify wp_bind fine_remnant_id [OF s0] if_not_P [OF none] by (simp add: wp_simps)
    have known: "fs_operation_id ?s1 = None" "(fs_operation_id ?s1 = None) = True" by simp_all
    have again: "?s1\<lparr>fs_operation_id := None\<rparr> = ?s1"
      using known(1) by (metis (lifting) publisher.surjective publisher.update_convs(2))
    have second: "wp (remnant_state S) Q E K ?s1 = Q NO_REMNANT ?s1" for Q E K
      unfolding remnant_state_def wp_bind wp_reads known(2) if_True fine_remnant_id [OF s1(1,2)] if_not_P [OF s1(3)]
        wp_seq wp_modify again if_P [OF refl] wp_ret ..
    show ?thesis
      unfolding recover_owned_remnants_def wp_seq wp_bind first second
      using same by (simp add: fs_close_def wp_modify)
  next
    case True
    then have some: "\<exists>n \<in> remnant_names S op. look ?s0 n \<noteq> None" by simp
    obtain st where st: "sound_remnant S op v st (entries s)" "case look s (target_name S) of Some x \<Rightarrow> generation S v x
        | None \<Rightarrow> st = BACKUP_WITH_MARKER \<or> st = BACKUP_WITH_PREPARED_TOMBSTONE_MARKER"
      using ok True by (auto simp: recoverable_def)
    let ?s1 = "?s0\<lparr>fs_operation_id := Some op, fs_marker_payload := Some (marker_bytes op (target_name S))\<rparr>"
    have first: "wp (for_recovery S) Q E K s = Q () ?s1" for Q E K
      unfolding for_recovery_def wp_seq wp_modify wp_bind fine_remnant_id [OF s0] if_P [OF some]
      by (simp add: wp_simps publication_marker_payload_def)
    have s1: "script ?s1 = []" "knows S op ?s1" "sound_remnant S op v st (entries ?s1)" "fs_expected ?s1 = None \<or> fs_expected ?s1 = Some v"
      using fine st by (simp_all add: knows_def)
    define u where "u = (if st \<in> {BOTH_MARKERS_ONLY, BACKUP_MARKER_ONLY} then ?s1 else ?s1\<lparr>fs_expected := Some v\<rparr>)\<lparr>machine_state := STAGE_VERIFIED\<rparr>"
    have u: "script u = []" "knows S op u" "fs_expected u = None \<or> fs_expected u = Some v" "\<not> fs_closed u" "entries u = entries s"
      using fine by (auto simp: u_def knows_def)
    have "wp (recover S (cp ''recover-published-artifacts'')) (\<lambda>_ t. recovered S op (entries u) (entries t)) (\<lambda>_ _. False) (\<lambda>_. False) u"
      using st by (intro fine_recover [OF u(1-4) short]) (simp_all add: u(5))
    then show ?thesis
      unfolding recover_owned_remnants_def wp_seq wp_bind first fine_remnant_state [OF s1(1,2) short s1(3,4)]
        if_not_P [OF conjunct1 [OF sound_some [OF st(1)]]] enter_state_def wp_modify u_def [symmetric] u(5) .
  qed
qed

end
