(* ===== verification/Publication_Refusals.thy ===== *)
theory Publication_Refusals
  imports Publication_Recovery
begin

text \<open>
  What a recovery does not accept: a damaged remnant stops it, whatever else fails, with the directory
  unchanged. Then the conditions under which an interrupted publication leaves a recoverable directory.
\<close>

section \<open>A damaged remnant is refused\<close>

text \<open>A marker that was not written out, or a tombstone that no longer verifies.\<close>

definition refused_remnant :: "'v site \<Rightarrow> pystr \<Rightarrow> dirents \<Rightarrow> bool" where
  "refused_remnant S op d \<longleftrightarrow>
     (\<exists>m. map_of d (backup_marker_at S op) = Some m \<and> \<not> marker_exact (marker_bytes op (target_name S)) m)
     \<or> (\<exists>m. map_of d (cleanup_marker_at S op) = Some m \<and> \<not> marker_exact (marker_bytes op (target_name S)) m)
     \<or> (\<exists>x. map_of d (cleanup_at S op) = Some x \<and> isl (verify_tree S x))"

definition looking :: "'v site \<Rightarrow> pystr \<Rightarrow> dirents \<Rightarrow> 'v publisher \<Rightarrow> bool" where
  "looking S op d s \<longleftrightarrow> knows S op s \<and> entries s = d"

lemma looking_updates [simp]:
  "looking S op d (s\<lparr>script := fs\<rparr>) = looking S op d s" "looking S op d (s\<lparr>fs_expected := e\<rparr>) = looking S op d s"
  "looking S op d (s\<lparr>machine_state := p\<rparr>) = looking S op d s" "looking S op d (s\<lparr>fs_closed := b\<rparr>) = looking S op d s"
  by (simp_all add: looking_def knows_def)

lemma look_exists:
  assumes "looking S op d s" "\<And>t. looking S op d t \<Longrightarrow> Q (map_of d n \<noteq> None) t" "\<And>t. looking S op d t \<Longrightarrow> E Os_error t" "\<And>t. looking S op d t \<Longrightarrow> K t"
  shows "wp (named_exists n) Q E K s"
proof -
  have "look s n = map_of d n" using assms(1) by (simp add: looking_def)
  with assms show ?thesis by (intro wp_named_exists) simp_all
qed

lemma look_marker:
  assumes "looking S op d s"
    and "\<And>t. looking S op d t \<Longrightarrow> \<exists>m. map_of d n = Some m \<and> marker_exact (marker_bytes op (target_name S)) m \<Longrightarrow> Q () t"
    and "\<And>e t. looking S op d t \<Longrightarrow> E e t" "\<And>t. looking S op d t \<Longrightarrow> K t"
  shows "wp (verify_marker S n) Q E K s"
  by (rule wp_verify_marker) (use assms in \<open>auto simp: looking_def knows_def\<close>)

lemma look_tree:
  assumes "looking S op d s"
    and "\<And>t. looking S op d t \<Longrightarrow> \<exists>x. map_of d n = Some x \<and> \<not> isl (verify_tree S x) \<Longrightarrow> Q () t"
    and "\<And>e t. looking S op d t \<Longrightarrow> E e t" "\<And>t. looking S op d t \<Longrightarrow> K t"
  shows "wp (seq (verify_named_artifact S n) (ret ())) Q E K s"
  unfolding verify_named_artifact_def load_and_verify_def wp_simps
proof (rule wp_stat, goal_cases)
  case (1 x fs)
  have l: "looking S op d (s\<lparr>script := fs\<rparr>)" using assms(1) by simp
  show ?case
  proof (cases "verify_tree S x")
    case (Inl e)
    then show ?thesis using assms(3) l by (simp add: wp_simps)
  next
    case (Inr p)
    obtain files v where p: "p = (files, v)" by (cases p)
    have "\<exists>x. map_of d n = Some x \<and> \<not> isl (verify_tree S x)" using 1 Inr assms(1) by (auto simp: looking_def)
    then have q: "Q () t" if "looking S op d t" for t using assms(2) that by blast
    show ?thesis using Inr p l assms(3) q by (cases "fs_expected s") (simp_all add: wp_simps)
  qed
qed (use assms in \<open>simp_all add: wp_simps\<close>)

lemma look_when:
  assumes "b \<Longrightarrow> wp m Q E K s" "\<not> b \<Longrightarrow> Q () s"
  shows "wp (when_do b m) Q E K s"
  using assms by (simp add: when_do_def wp_ret)

lemma refused_classify:
  assumes "looking S op d s" and refused: "refused_remnant S op d"
  shows "wp (classify_remnant S) (\<lambda>_ _. False) (\<lambda>_. looking S op d) (looking S op d) s"
proof -
  let ?K = "looking S op d" let ?E = "\<lambda>_. looking S op d"
  note n = fine_names_known [where S = S and op = op]
  have k: "looking S op d t \<Longrightarrow> knows S op t" for t by (simp add: looking_def)
  have verify: "wp (seq (when_do (map_of d (backup_marker_at S op) \<noteq> None) (verify_marker S (backup_marker_at S op)))
           (seq (when_do (map_of d (cleanup_marker_at S op) \<noteq> None) (verify_marker S (cleanup_marker_at S op)))
           (seq (when_do (map_of d (backup_at S op) \<noteq> None) (seq (verify_named_artifact S (backup_at S op)) (ret ())))
           (seq (when_do (map_of d (cleanup_at S op) \<noteq> None) (seq (verify_named_artifact S (cleanup_at S op)) (ret ())))
           (ret st))))) (\<lambda>_ _. False) ?E ?K t" if "looking S op d t" for st :: publication_state and t
    unfolding wp_seq [of "when_do b m" for b m]
    by (intro look_when look_marker [where op = op and d = d] look_tree [where op = op and d = d])
       (use that refused in \<open>auto simp: refused_remnant_def wp_ret\<close>)
  have choice: "wp (case observed_state f of None \<Rightarrow> throw (remnant_error S ''ambiguous_publication_remnant'')
       | Some st \<Rightarrow> (seq (when_do (map_of d (backup_marker_at S op) \<noteq> None) (verify_marker S (backup_marker_at S op)))
           (seq (when_do (map_of d (cleanup_marker_at S op) \<noteq> None) (verify_marker S (cleanup_marker_at S op)))
           (seq (when_do (map_of d (backup_at S op) \<noteq> None) (seq (verify_named_artifact S (backup_at S op)) (ret ())))
           (seq (when_do (map_of d (cleanup_at S op) \<noteq> None) (seq (verify_named_artifact S (cleanup_at S op)) (ret ())))
           (ret st)))))) (\<lambda>_ _. False) ?E ?K t" if "looking S op d t" for f t
    using verify [OF that] that by (cases "observed_state f") (simp_all add: wp_throw)
  show ?thesis
    unfolding classify_remnant_def wp_bind
    by (unfold n [OF k [OF assms(1)]], rule look_exists [OF assms(1)], unfold n [OF k], rule look_exists, assumption,
        unfold n [OF k], rule look_exists, assumption, unfold n [OF k], rule look_exists, assumption) (simp_all only: choice)
qed


lemma refused_state:
  assumes "looking S op d s" "refused_remnant S op d"
  shows "wp (remnant_state S) (\<lambda>_ _. False) (\<lambda>_. looking S op d) (looking S op d) s"
  using assms(1) refused_classify [OF assms] by (simp add: remnant_state_def wp_simps looking_def knows_def)

lemma refused_some: "refused_remnant S op d \<Longrightarrow> \<exists>n \<in> remnant_names S op. map_of d n \<noteq> None"
  by (auto simp: refused_remnant_def remnant_names_def)

lemma wp_recover_refused:
  assumes sole: "sole_operation S op (entries s)" and refused: "refused_remnant S op (entries s)"
  shows "wp (recover_owned_remnants S) (\<lambda>_ _. False) (\<lambda>_ t. entries t = entries s) (\<lambda>t. entries t = entries s) s"
proof -
  let ?d = "entries s"
  let ?K = "\<lambda>t. entries t = ?d" let ?E = "\<lambda>_ t. entries t = ?d"
  let ?s0 = "s\<lparr>fs_expected := None, fs_closed := False\<rparr>"
  have some: "\<exists>n \<in> remnant_names S op. look ?s0 n \<noteq> None" using refused_some [OF refused] by simp
  have state: "wp (remnant_state S) (\<lambda>_ _. False) ?E ?K t" if "looking S op ?d t" for t
    by (rule wp_conseq [OF refused_state [OF that refused]]) (auto simp: looking_def)
  have rest: "wp (bind (remnant_state S) (\<lambda>state. if state = NO_REMNANT then fs_close
       else seq (enter_state STAGE_VERIFIED) (recover S (cp ''recover-published-artifacts'')))) (\<lambda>_ _. False) ?E ?K t"
    if "looking S op ?d t" for t
    unfolding wp_bind by (rule wp_conseq [OF state [OF that]]) simp_all
  show ?thesis
    unfolding recover_owned_remnants_def wp_seq [of "for_recovery S"]
    unfolding for_recovery_def wp_seq wp_modify wp_bind [of "remnant_operation_id S"]
  proof (rule wp_remnant_id [where op = op], goal_cases)
    case (2 fs)
    show ?case
      unfolding if_P [OF some]
      by (simp add: publication_marker_payload_def wp_simps rest [unfolded wp_bind] looking_def knows_def)
  qed (use sole in simp_all)
qed

section \<open>Recovery after an interrupted publication\<close>

definition fresh_operation :: "'v site \<Rightarrow> pystr \<Rightarrow> dirents \<Rightarrow> bool" where
  "fresh_operation S op d \<longleftrightarrow> operation_shape op \<and> (\<forall>n. is_remnant S n \<longrightarrow> map_of d n = None)"

lemma startswith_shorter: "length s < length p \<Longrightarrow> \<not> py_startswith s p"
  by (auto simp: py_startswith_iff)

lemma not_remnants: "\<not> is_remnant S (target_name S)" "\<not> is_remnant S (stage_prefix (target_name S) @ x)"
proof -
  show "\<not> is_remnant S (target_name S)"
    by (simp add: is_remnant_def backup_prefix_def cleanup_prefix_def startswith_shorter)
  let ?a = "[46] @ target_name S @ cp ''.finproof-''"
  have p: "stage_prefix (target_name S) = ?a @ cp ''stage-''" "backup_prefix (target_name S) = ?a @ cp ''backup-''"
    "cleanup_prefix (target_name S) = ?a @ cp ''cleanup-''"
    by (simp_all add: stage_prefix_def backup_prefix_def cleanup_prefix_def cp_def)
  have "\<not> py_startswith (cp ''stage-'' @ x) (cp ''backup-'')" "\<not> py_startswith (cp ''stage-'' @ x) (cp ''cleanup-'')"
    by (simp_all add: cp_def)
  then show "\<not> is_remnant S (stage_prefix (target_name S) @ x)"
    unfolding is_remnant_def p append_assoc [of ?a] startswith_common by blast
qed

lemma fresh_sole:
  assumes "fresh_operation S op d0" "untouched S op d0 d"
  shows "sole_operation S op d"
  unfolding sole_operation_def
proof (intro conjI allI impI)
  show "operation_shape op" using assms(1) by (simp add: fresh_operation_def)
  fix n assume n: "is_remnant S n \<and> map_of d n \<noteq> None"
  have "n \<in> publication_names S op"
  proof (rule ccontr)
    assume "n \<notin> publication_names S op"
    then have "map_of d n = map_of d0 n" using assms(2) by (simp add: untouched_def)
    with n assms(1) show False by (auto simp: fresh_operation_def)
  qed
  with n not_remnants show "n \<in> remnant_names S op" by (auto simp: publication_names_def remnant_names_def)
qed

lemma closed_recoverable:
  assumes "closed_remnant S op old d" "no_loss S op old new d" "\<And>x. old = Some x \<Longrightarrow> generation S v x" "generation S v new"
  shows "recoverable S op v d"
proof -
  let ?t = "map_of d (target_name S)"
  have target: "generation S v x" if "?t = Some x" for x
    using assms(2-4) that by (auto simp: no_loss_def)
  have old: "generation S v x" if "Some x = old \<or> old = Some x" for x using assms(3) that by auto
  have at: "recoverable S op v d"
    if "sound_remnant S op v st d" "?t \<noteq> None \<or> st = BACKUP_WITH_MARKER" for st
    using that target unfolding recoverable_def by (auto split: option.split)
  note remnant = sound_remnant_def remnant_flags_def marker_intact_def
  from assms(1) consider "\<forall>n \<in> remnant_names S op. map_of d n = None"
    | "sound_remnant S op v BACKUP_WITH_MARKER d"
    | "sound_remnant S op v BACKUP_WITH_PREPARED_TOMBSTONE_MARKER d" "?t \<noteq> None"
    | "sound_remnant S op v TOMBSTONE_WITH_BOTH_MARKERS d" "?t \<noteq> None"
    | "sound_remnant S op v BOTH_MARKERS_ONLY d" "?t \<noteq> None"
    | "sound_remnant S op v BACKUP_MARKER_ONLY d" "?t \<noteq> None"
    unfolding closed_remnant_def Let_def
    by (cases "map_of d (cleanup_at S op)"; cases "map_of d (cleanup_marker_at S op)")
       (auto simp: remnant old remnant_names_def)
  then show ?thesis
    by cases (use at in \<open>auto simp: recoverable_def\<close>)
qed

end
