(* ===== verification/Publication_Success.thy ===== *)
theory Publication_Success
  imports Publication_Refusals
begin

text \<open>
  A publication in which nothing fails returns: the live stage, the operation read off it, the target
  moved aside, the commit and the removal of the backup.
\<close>

section \<open>The staged generation is live\<close>

definition live_stage :: "'v site \<Rightarrow> pystr \<Rightarrow> node \<Rightarrow> 'v publisher \<Rightarrow> bool" where
  "live_stage S op new s \<longleftrightarrow>
     (let held = stage_custody s; payload = marker_bytes op (target_name S) in
      stage_name held = stage_at S op \<and> marker_name held = stage_marker_at S op \<and> custody_target held = target_name S
      \<and> \<not> custody_closed held \<and> custody_state held = LIVE \<and> descriptors_open held
      \<and> (case new of
           Directory i m c \<Rightarrow> stage_identity held = (i, m) \<and> set (map fst c) = set (registered_stage_names held)
             \<and> (case map_of c (cp ''parquet'') of
                  Some (Directory j k leaves) \<Rightarrow> set (map fst leaves) = set (registered_parquet_names held)
                | _ \<Rightarrow> False)
         | _ \<Rightarrow> False)
      \<and> look s (stage_at S op) = Some new
      \<and> (\<exists>j. look s (stage_marker_at S op) = Some (Regular j 384 1 payload) \<and> marker_identity held = (j, 384, 1))
      \<and> marker_payload held = payload)"

lemma fine_custody_live:
  assumes fine: "script s = []" and live: "live_stage S op new s" and short: "short_marker S op"
  shows "wp (custody_assert_live S) Q E K s = Q () s"
proof -
  obtain i m c where new: "new = Directory i m c" using live by (cases new) (simp_all add: live_stage_def Let_def)
  obtain j k leaves where p: "map_of c (cp ''parquet'') = Some (Directory j k leaves)"
    using live new by (auto simp: live_stage_def Let_def split: option.splits node.splits)
  note l = live [unfolded live_stage_def Let_def new, simplified, unfolded p, simplified]
  show ?thesis
    using l p short unfolding short_marker_def custody_assert_live_def require_session_generation_def require_descriptors_def read_bounded_def
    by (auto simp: wp_simps fine_calls [OF fine] directory_identity_def leaf_identity_of_def)
qed

lemma fine_rename_stage:
  assumes fine: "script s = []" and live: "live_stage S op new s" and short: "short_marker S op" and "look s (target_name S) = None"
  shows "wp (custody_rename_stage_to_target S) Q E K s =
     Q () (s\<lparr>entries := put_entry (target_name S) (Some new) (put_entry (stage_at S op) None (entries s)),
             stage_custody := (stage_custody s)\<lparr>custody_state := TARGET_RENAMED\<rparr>\<rparr>)"
proof -
  have l: "stage_name (stage_custody s) = stage_at S op" "custody_target (stage_custody s) = target_name S" "look s (stage_at S op) = Some new"
    using live by (simp_all add: live_stage_def Let_def)
  show ?thesis
    unfolding custody_rename_stage_to_target_def set_custody_state_def wp_seq fine_custody_live [OF fine live short]
    by (simp add: wp_simps l fine_removals(3) [OF fine l(3) assms(4)])
qed

text \<open>After the rename the custody knows its directory at the target.\<close>

definition moved_stage :: "'v site \<Rightarrow> pystr \<Rightarrow> node \<Rightarrow> 'v publisher \<Rightarrow> bool" where
  "moved_stage S op new s \<longleftrightarrow>
     (let held = stage_custody s; payload = marker_bytes op (target_name S) in
      marker_name held = stage_marker_at S op \<and> custody_target held = target_name S
      \<and> \<not> custody_closed held \<and> custody_state held = TARGET_RENAMED
      \<and> (case new of Directory i m c \<Rightarrow> stage_identity held = (i, m) | _ \<Rightarrow> False)
      \<and> look s (target_name S) = Some new
      \<and> (\<exists>j. look s (stage_marker_at S op) = Some (Regular j 384 1 payload) \<and> marker_identity held = (j, 384, 1))
      \<and> marker_payload held = payload)"

lemma fine_commit:
  assumes fine: "script s = []" and moved: "moved_stage S op new s" and short: "short_marker S op"
  shows "wp (custody_commit S) Q E K s =
     Q () (s\<lparr>entries := put_entry (stage_marker_at S op) None (entries s),
             stage_custody := (stage_custody s)\<lparr>descriptors_open := False, custody_state := Custody_published, custody_closed := True\<rparr>\<rparr>)"
proof -
  obtain i m c where new: "new = Directory i m c" using moved by (cases new) (simp_all add: moved_stage_def Let_def)
  obtain j where j: "look s (stage_marker_at S op) = Some (Regular j 384 1 (marker_bytes op (target_name S)))"
    "marker_identity (stage_custody s) = (j, 384, 1)"
    using moved by (auto simp: moved_stage_def Let_def)
  note l = moved [unfolded moved_stage_def Let_def new, simplified]
  let ?t = "s\<lparr>entries := put_entry (stage_marker_at S op) None (entries s)\<rparr>"
  have unlink: "wp (os_unlink [stage_marker_at S op]) Q' E' K' s = Q' () ?t" for Q' E' K'
    using fine_removals(1) [OF fine, of "[stage_marker_at S op]" "Regular j 384 1 (marker_bytes op (target_name S))"] j by simp
  have renamed: "wp require_target_renamed Q' E' K' s = Q' (stage_custody s) s" for Q' E' K'
    unfolding require_target_renamed_def using l by (simp add: wp_simps fine_calls [OF fine] directory_identity_def)
  have free: "wp (syscall (ret ())) Q' E' K' u = Q' () u" if "script u = []" for Q' E' K' and u :: "'a publisher"
    using that by (simp add: wp_syscall_fine wp_ret)
  show ?thesis
    unfolding custody_commit_def finish_publication_transfer_def wp_seq wp_catching wp_bind renamed
    using l j fine short unfolding short_marker_def
    by (simp add: wp_simps fine_calls [OF fine] leaf_identity_of_def read_bounded_def unlink free)
qed


section \<open>The operation is read off the stage\<close>

definition sole_stage :: "'v site \<Rightarrow> pystr \<Rightarrow> dirents \<Rightarrow> bool" where
  "sole_stage S op d \<longleftrightarrow> operation_shape op \<and> map_of d (stage_at S op) \<noteq> None \<and> map_of d (stage_marker_at S op) \<noteq> None
     \<and> (\<forall>n. py_startswith n (stage_prefix (target_name S)) \<and> map_of d n \<noteq> None \<longrightarrow> n \<in> {stage_at S op, stage_marker_at S op})"

lemma stage_no_marker: "operation_shape op \<Longrightarrow> \<not> str_endswith (p @ op) MARKER"
proof
  assume shape: "operation_shape op" and ends: "str_endswith (p @ op) MARKER"
  have "rev op \<noteq> []" using shape by (auto simp: operation_shape_def)
  then obtain y ys where y: "rev op = y # ys" by (cases "rev op") simp_all
  have r: "rev MARKER = 114 # cp ''ekram.''" by (simp add: MARKER_def cp_def)
  have "y = 114" using ends unfolding str_endswith_def rev_append y r by simp
  moreover have "y \<in> set op" using y by (metis list.set_intros(1) set_rev)
  ultimately show False using shape by (auto simp: operation_shape_def list_all_iff)
qed

lemma fine_active_id:
  assumes fine: "script s = []" and sole: "sole_stage S op (entries s)"
  shows "wp (active_operation_id S) Q E K s = Q op s"
proof -
  let ?p = "stage_prefix (target_name S)"
  let ?names = "map fst (entries s)"
  let ?m = "filter (\<lambda>name. py_startswith name ?p \<and> str_endswith name MARKER) ?names"
  let ?ops = "remdups (map (\<lambda>name. str_removesuffix (str_removeprefix name ?p) MARKER) ?m)"
  let ?valid = "filter (\<lambda>operation. operation_shape operation \<and> ?p @ operation \<in> set ?names) ?ops"
  have shape: "operation_shape op" and here: "stage_at S op \<in> set ?names" "stage_marker_at S op \<in> set ?names"
    using sole by (auto simp: sole_stage_def map_of_eq_None_iff)
  have m: "set ?m = {stage_marker_at S op}"
  proof -
    have "n = stage_marker_at S op" if n: "n \<in> set ?names" "py_startswith n ?p" "str_endswith n MARKER" for n
    proof -
      have "map_of (entries s) n \<noteq> None" using n(1) by (simp add: map_of_eq_None_iff)
      then have "n \<in> {stage_at S op, stage_marker_at S op}" using sole n(2) by (simp add: sole_stage_def)
      then show ?thesis using n(3) stage_no_marker [OF shape] by auto
    qed
    then have "n = stage_marker_at S op" if "n \<in> set ?m" for n using that by (simp only: set_filter mem_Collect_eq)
    moreover have "str_endswith (stage_marker_at S op) MARKER" using endswith_append [of "?p @ op" MARKER] by simp
    then have "stage_marker_at S op \<in> set ?m" using here(2) by (simp only: set_filter mem_Collect_eq startswith_append simp_thms)
    ultimately show ?thesis by blast
  qed
  have "set ?ops = {op}" by (simp add: m del: set_filter)
  then have ops: "?ops = [op]" by (rule distinct_singleton_list [OF distinct_remdups])
  have valid: "?valid = [op]" unfolding ops using shape here(1) by simp
  show ?thesis
    unfolding active_operation_id_def wp_seq wp_bind fine_calls [OF fine] Let_def valid unfolding ops
    by (simp only: list.case refl if_True wp_ret)
qed

lemma fine_learn:
  assumes fine: "script s = []" and sole: "sole_stage S op (entries s)" and "fs_operation_id s = None" "short_marker S op"
    and m: "marker_intact S op (look s (stage_marker_at S op))"
  shows "wp (require_operation_id S) Q E K s = Q op (s\<lparr>fs_operation_id := Some op, fs_marker_payload := Some (marker_bytes op (target_name S))\<rparr>)"
proof -
  let ?t = "s\<lparr>fs_operation_id := Some op, fs_marker_payload := Some (marker_bytes op (target_name S))\<rparr>"
  have t: "script ?t = []" "knows S op ?t" "marker_intact S op (look ?t (stage_marker_at S op))"
    using fine m by (simp_all add: knows_def)
  note marker = fine_known_marker(1) [OF t(1,2) assms(4) t(3)]
  show ?thesis
    unfolding require_operation_id_def
    by (simp add: wp_simps assms(3) fine_active_id [OF fine sole] publication_marker_payload_def marker)
qed

section \<open>Moving the target aside\<close>

text \<open>What the publication starts from when nothing fails.\<close>

definition promising :: "'v site \<Rightarrow> pystr \<Rightarrow> 'v \<Rightarrow> node option \<Rightarrow> node \<Rightarrow> 'v publisher \<Rightarrow> bool" where
  "promising S op v old new s \<longleftrightarrow> ready S op v old new s \<and> live_stage S op new s \<and> sole_stage S op (entries s)
     \<and> generation S v new \<and> (\<forall>x. old = Some x \<longrightarrow> generation S v x)"

lemma fine_move_aside:
  assumes fine: "script s = []" and p: "promising S op v (Some x) new s" and clean: "clean" and short: "short_marker S op"
  shows "wp (move_target_aside S operation clean)
     (\<lambda>_ t. script t = [] \<and> live_stage S op new t \<and> fs_expected t = Some v \<and> look t (target_name S) = None
        \<and> \<not> receiver_closed t \<and> receiver_transferred t) (\<lambda>_ _. False) (\<lambda>_. False) s"
proof -
  have r: "ready S op v (Some x) new s" and live: "live_stage S op new s" and sole: "sole_stage S op (entries s)"
    and g: "generation S v x"
    using p by (simp_all add: promising_def)
  note l = r [unfolded ready_def engaged_def]
  obtain files where f: "verify_tree S x = Inr (files, v)" using g by (auto simp: generation_def)
  have m: "marker_intact S op (look s (stage_marker_at S op))" using live by (auto simp: live_stage_def Let_def)
  have recognised: "wp (recognize_target S) Q E K s = Q () s" for Q E K
    unfolding recognize_target_def verify_target_def using l by (simp add: wp_simps fine_verify_named(1) [OF fine _ f])
  let ?mb = "marker_bytes op (target_name S)"
  let ?s1 = "s\<lparr>fs_operation_id := Some op, fs_marker_payload := Some ?mb\<rparr>"
  have learnt: "wp (backup_marker_name S) Q E K s = Q (backup_marker_at S op) ?s1" for Q E K
    unfolding backup_marker_name_def backup_name_def wp_bind using l by (simp add: fine_learn [OF fine sole _ short m] wp_ret)
  have s1: "script ?s1 = []" "look ?s1 (backup_marker_at S op) = None" "fs_marker_payload ?s1 = Some ?mb"
    using fine l by simp_all
  define s2 where "s2 = ?s1\<lparr>entries := AList.update (backup_marker_at S op) (Regular (next_inode ?s1) 384 1 ?mb) (entries ?s1), next_inode := Suc (next_inode ?s1)\<rparr>"
  have created: "wp (create_marker S (backup_marker_at S op)) Q E K ?s1 = Q () s2" for Q E K
    unfolding s2_def by (rule fine_create_marker [OF s1 marker_bytes_nonempty])
  have s2: "script s2 = []" "knows S op s2" "look s2 (target_name S) = Some x" "look s2 (backup_at S op) = None"
    using fine l by (simp_all add: s2_def knows_def update_conv')
  let ?s3 = "s2\<lparr>entries := put_entry (backup_at S op) (Some x) (put_entry (target_name S) None (entries s2))\<rparr>"
  have moved: "wp (os_rename (target_name S) (backup_at S op)) Q E K s2 = Q () ?s3" for Q E K
    by (rule fine_removals(3) [OF s2(1,3,4)])
  have renamed: "wp (rename_target_to_backup S) Q E K s = Q () ?s3" for Q E K
    unfolding rename_target_to_backup_def
    by (simp add: wp_simps recognised learnt created moved fine_calls(4) [OF s2(1)] fine_names_known [OF s2(2)])
  let ?s4 = "?s3\<lparr>machine_state := BACKUP_VERIFIED\<rparr>"
  have s4: "script ?s4 = []" "knows S op ?s4" "fs_expected ?s4 = Some v" "look ?s4 (backup_at S op) = Some x"
      "marker_intact S op (look ?s4 (backup_marker_at S op))"
    using fine l by (simp_all add: s2_def knows_def update_conv')
  have verified: "wp (verify_backup S) Q E K ?s4 = Q () ?s4" for Q E K
    by (rule fine_verify_backup [OF s4(1,2) short s4(3,4) g s4(5)])
  have live4: "live_stage S op new ?s4"
    using live by (simp add: live_stage_def Let_def s2_def update_conv')
  have open4: "\<not> receiver_closed ?s4" "receiver_transferred ?s4" "look ?s4 (target_name S) = None"
    using l by (simp_all add: s2_def)
  have aside: "wp (seq (rename_target_to_backup S) (seq (enter_state BACKUP_VERIFIED) (verify_backup S))) Q E K s = Q () ?s4" for Q E K
    unfolding wp_seq renamed enter_state_def wp_modify by (rule verified)
  show ?thesis
    unfolding move_target_aside_def wp_seq [of "throw_if b e" for b e] wp_seq [of "recognize_target S"] wp_throw_if recognised wp_catching aside
    using clean s4(1,3) live4 open4 by simp
qed


section \<open>The publication returns\<close>

lemma wp_step_into:
  "machine_state s = from \<Longrightarrow> wp (seq m (seq (enter_state to) k)) Q E K s = wp (seq (in_state from m to) k) Q E K s"
proof -
  have k: "wp (seq (enter_state to) k) Q E K = (\<lambda>t. wp k Q E K (t\<lparr>machine_state := to\<rparr>))"
    by (rule ext) (simp add: wp_seq enter_state_def wp_modify)
  show "machine_state s = from \<Longrightarrow> ?thesis"
    unfolding wp_seq [of m] wp_seq [of "in_state a b c" for a b c] fine_in_state k ..
qed

lemma fine_remove_backup:
  assumes "resuming S op v d0 BACKUP_WITH_MARKER (s\<lparr>machine_state := BACKUP_WITH_MARKER\<rparr>)" and "short_marker S op"
  shows "wp (remove_backup S operation) (\<lambda>_ _. True) (\<lambda>_ _. False) (\<lambda>_. False) s"
proof -
  let ?k5 = "seq (unlink_backup_marker S) (enter_state NO_REMNANT)"
  let ?k4 = "seq (unlink_tombstone_marker S) (seq (enter_state BACKUP_MARKER_ONLY) ?k5)"
  let ?k3 = "seq (delete_tombstone S) (seq (enter_state BOTH_MARKERS_ONLY) ?k4)"
  let ?k2 = "seq (rename_backup_to_tombstone S) (seq (enter_state TOMBSTONE_WITH_BOTH_MARKERS) ?k3)"
  let ?k1 = "seq (prepare_tombstone_marker S) (seq (enter_state BACKUP_WITH_PREPARED_TOMBSTONE_MARKER) ?k2)"
  let ?in = "resuming S op v d0"
  have at: "machine_state t = p" if "?in p t" for p t using that by (simp add: resuming_def)
  have k5: "wp ?k5 (\<lambda>_ _. True) E (\<lambda>_. False) t" if "?in BACKUP_MARKER_ONLY t" for t E
  proof -
    have "wp (in_state BACKUP_MARKER_ONLY (unlink_backup_marker S) NO_REMNANT) (\<lambda>_ _. True) E (\<lambda>_. False) t"
      by (rule fine_last_marker [where Q = "\<lambda>_ _. True", OF that assms(2) TrueI])
    then show ?thesis unfolding fine_in_state [OF at [OF that]] wp_seq
      by (rule wp_conseq) (simp_all add: enter_state_def wp_modify)
  qed
  have k4: "wp ?k4 (\<lambda>_ _. True) E (\<lambda>_. False) t" if "?in BOTH_MARKERS_ONLY t" for t E
    unfolding wp_step_into [OF at [OF that]] unfolding wp_seq [of "in_state a b c" for a b c] by (rule fine_both_markers [OF that assms(2) k5])
  have k3: "wp ?k3 (\<lambda>_ _. True) E (\<lambda>_. False) t" if "?in TOMBSTONE_WITH_BOTH_MARKERS t" for t E
    unfolding wp_step_into [OF at [OF that]] unfolding wp_seq [of "in_state a b c" for a b c] by (rule fine_delete [OF that assms(2) k4])
  have k2: "wp ?k2 (\<lambda>_ _. True) E (\<lambda>_. False) t" if "?in BACKUP_WITH_PREPARED_TOMBSTONE_MARKER t" for t E
    unfolding wp_step_into [OF at [OF that]] unfolding wp_seq [of "in_state a b c" for a b c] by (rule fine_aside [OF that assms(2) k3])
  have k1: "wp ?k1 (\<lambda>_ _. True) E (\<lambda>_. False) t" if "?in BACKUP_WITH_MARKER t" for t E
    unfolding wp_step_into [OF at [OF that]] unfolding wp_seq [of "in_state a b c" for a b c] by (rule fine_prepare [OF that k2])
  show ?thesis
    unfolding remove_backup_def wp_catching wp_seq [of "enter_state BACKUP_WITH_MARKER"]
    unfolding enter_state_def [of BACKUP_WITH_MARKER] wp_modify
    by (rule k1 [OF assms(1)])
qed


lemma fine_stage_close:
  assumes "custody_state (stage_custody s) \<noteq> LIVE"
  shows "wp (stage_close S) (\<lambda>_ _. True) E K s"
  using assms by (simp add: stage_close_def custody_close_def when_do_def wp_simps)

lemma fine_publish:
  assumes fine: "script s = []" and p: "promising S op v old new s" and clean: "old \<noteq> None \<Longrightarrow> clean"
    and start: "machine_state s = STAGE_VERIFIED"
    and name: "safe_basename (printable S) (target_name S)" "operation_id_ok operation"
  shows "wp (publish S operation clean) (\<lambda>_ _. True) (\<lambda>_ _. False) (\<lambda>_. False) s"
proof -
  have r: "ready S op v old new s" and live: "live_stage S op new s"
    and gnew: "generation S v new" and gold: "old = Some x \<Longrightarrow> generation S v x" for x
    using p by (simp_all add: promising_def)
  have "operation_shape op" using p by (simp add: promising_def sole_stage_def)
  then have short: "short_marker S op" by (rule marker_fits [OF _ name(1)])
  obtain files where f: "verify_tree S new = Inr (files, v)" using gnew by (auto simp: generation_def)
  let ?E = "\<lambda>e. wp (stage_close S) (\<lambda>_ _. False) (\<lambda>_ _. False) (\<lambda>_. False)"
  let ?Q = "\<lambda>_. wp (stage_close S) (\<lambda>_ _. True) (\<lambda>_ _. False) (\<lambda>_. False)"
  let ?K = "\<lambda>_. False"
  let ?had = "old \<noteq> None"
  let ?tail = "if \<not> ?had then enter_state NO_REMNANT else seq (enter_state PUBLISHED) (remove_backup S operation)"
  let ?inner = "seq (move_stage_in S operation ?had) (seq (enter_state TARGET_RENAMED_UNCOMMITTED)
        (seq (commit_or_roll_back S operation ?had) ?tail))"
  have inner: "wp ?inner ?Q ?E ?K t"
    if t: "script t = []" "live_stage S op new t" "station S op v old d0 None t" for t d0
  proof -
    have e: "engaged S op v t" and un: "untouched S op d0 (entries t)" using t(3) by (simp_all add: station_def)
    have opened: "\<not> receiver_closed t" "receiver_transferred t" "fs_expected t = Some v" using e by (simp_all add: engaged_def)
    have absent: "look t (target_name S) = None" using t(3) by (auto simp: station_def slots_def split: option.splits)
    let ?u = "t\<lparr>entries := put_entry (target_name S) (Some new) (put_entry (stage_at S op) None (entries t)),
             stage_custody := (stage_custody t)\<lparr>custody_state := TARGET_RENAMED\<rparr>\<rparr>"
    let ?w = "?u\<lparr>machine_state := TARGET_RENAMED_UNCOMMITTED\<rparr>"
    let ?held = "(stage_custody ?w)\<lparr>descriptors_open := False, custody_state := Custody_published, custody_closed := True\<rparr>"
    let ?x = "?w\<lparr>entries := put_entry (stage_marker_at S op) None (entries ?w), stage_custody := ?held\<rparr>"
    have moved: "wp (move_stage_in S operation ?had) Q E K t = Q () ?u" for Q E K
      unfolding move_stage_in_def wp_catching with_custody_open [OF opened(1,2)] fine_rename_stage [OF t(1,2) short absent] ..
    have w: "script ?w = []" "look ?w (target_name S) = Some new" "fs_expected ?w = Some v" "moved_stage S op new ?w"
      "\<not> receiver_closed ?w" "receiver_transferred ?w"
      using t(1,2) opened by (auto simp: moved_stage_def live_stage_def Let_def split: node.splits)
    have verified: "wp (verify_target S) Q E K ?w = Q () ?w" for Q E K
      unfolding verify_target_def wp_seq fine_verify_named(1) [OF w(1,2) f w(3)] wp_ret ..
    have committed: "wp (commit_or_roll_back S operation ?had) Q E K ?w = Q () ?x" for Q E K
      unfolding commit_or_roll_back_def wp_catching wp_seq [of "verify_target S"] verified with_custody_open [OF w(5,6)] fine_commit [OF w(1,4) short] ..
    have "wp ?tail ?Q ?E ?K ?x"
    proof (cases old)
      case None
      then show ?thesis by (simp add: enter_state_def wp_modify fine_stage_close)
    next
      case (Some o1)
      let ?y = "?x\<lparr>machine_state := PUBLISHED\<rparr>"
      have st: "knows S op t" "slots S op t None (Some o1) (marker_intact S op) (\<lambda>x. x = None) (\<lambda>x. x = None)"
        using t(3) Some by (simp_all add: station_def)
      have "look t (backup_marker_at S op) \<noteq> None" using st(2) by (auto simp: slots_def marker_intact_def)
      then have res: "resuming S op v (entries ?y) BACKUP_WITH_MARKER (?y\<lparr>machine_state := BACKUP_WITH_MARKER\<rparr>)"
        using t(1) st opened gold [OF Some] by (auto simp: resuming_defs knows_def slots_def)
      have cl: "cleaning S op v (entries ?y) new ?held ?y"
        using e st(1) by (simp add: cleaning_def engaged_def knows_def untouched_def)
      have sl: "slots S op ?y (Some new) (Some o1) (marker_intact S op) (\<lambda>x. x = None) (\<lambda>x. x = None)"
        using st by (simp add: slots_def)
      have safe: "wp (remove_backup S operation) (\<lambda>_ z. custody_state (stage_custody z) \<noteq> LIVE) (\<lambda>_ _. True) (\<lambda>_. True) ?y"
        by (rule wp_remove_backup [OF cl sl name]) (simp_all add: cleaning_def)
      have "wp (remove_backup S operation) ?Q ?E ?K ?y"
        by (rule wp_conseq [OF wp_conj [OF fine_remove_backup [OF res short] safe]]) (simp_all add: fine_stage_close)
      with Some show ?thesis by (simp add: wp_seq enter_state_def wp_modify)
    qed
    then show ?thesis
      unfolding wp_seq [of "move_stage_in S operation ?had"] moved wp_seq [of "enter_state TARGET_RENAMED_UNCOMMITTED"]
        wp_seq [of "commit_or_roll_back S operation ?had"]
      unfolding enter_state_def [of TARGET_RENAMED_UNCOMMITTED] wp_modify committed .
  qed
  have eng: "engaged S op v s" using r by (simp add: ready_def)
  have opened: "\<not> receiver_closed s" "receiver_transferred s" using eng by (simp_all add: engaged_def)
  have had: "(look s (target_name S) \<noteq> None) = ?had" using r by (simp add: ready_def)
  have un: "untouched S op (entries s) (entries s)" by (simp add: untouched_def)
  have body: "wp (seq (when_do ?had (move_target_aside S operation clean)) ?inner) ?Q ?E ?K s"
  proof (cases old)
    case None
    have "station S op v old (entries s) None s" using r None un by (simp add: station_def ready_def slots_def)
    then have "wp ?inner ?Q ?E ?K s" by (rule inner [OF fine live])
    with None show ?thesis
      unfolding wp_seq [of "when_do ?had (move_target_aside S operation clean)"] unfolding when_do_def by (simp add: wp_ret)
  next
    case (Some o1)
    have p1: "promising S op v (Some o1) new s" and c: "clean" using p clean Some by simp_all
    let ?st = "\<lambda>t. station S op v old (entries s) None t"
    have safe: "wp (move_target_aside S operation clean) (\<lambda>_. ?st) (\<lambda>_ _. True) (\<lambda>_. True) s"
    proof (rule wp_move_target_aside [where op = op and v = v and ?o1.0 = o1 and ?d0.0 = "entries s" and new = new])
      fix t assume "engaged S op v t" "knows S op t" "slots S op t None (Some o1) (marker_intact S op) (\<lambda>x. x = None) (\<lambda>x. x = None)"
        "untouched S op (entries s) (entries t)"
      then show "?st t" using Some by (simp add: station_def)
    qed (use r un Some name start in \<open>auto simp: ready_def slots_def\<close>)
    have "wp (move_target_aside S operation clean) (\<lambda>_. wp ?inner ?Q ?E ?K) ?E ?K s"
      by (rule wp_conseq [OF wp_conj [OF fine_move_aside [OF fine p1 c short] safe]]) (use inner in auto)
    with Some show ?thesis
      unfolding wp_seq [of "when_do ?had (move_target_aside S operation clean)"] unfolding when_do_def by simp
  qed
  show ?thesis
    unfolding publish_def wp_finally wp_seq [of "with_custody (custody_assert_live S)"] with_custody_open [OF opened]
      fine_custody_live [OF fine live short] wp_bind [of "target_exists S"]
    unfolding target_exists_def fine_named_exists [OF fine] had
    by (rule body)
qed

end
