(* ===== verification/Artifact_Safety.thy ===== *)
theory Artifact_Safety
  imports Publication_Success
begin

text \<open>
  The guarantees of artifact publication, over \<open>publish\_verified\_stage\<close> and \<open>recover\_owned\_remnants\<close>,
  with an example that replaces a generation of two files.
\<close>

section \<open>The guarantees\<close>

lemma publish_start:
  assumes "ready S op v old new s"
  shows "publish_verified_stage S clean s = publish S (cp ''publish-artifacts'') clean (s\<lparr>machine_state := STAGE_VERIFIED\<rparr>)"
    and "ready S op v old new (s\<lparr>machine_state := STAGE_VERIFIED\<rparr>)"
  using assms by (simp_all add: publish_verified_stage_def enter_state_def seq_def bind_def modify_def ready_def engaged_def)

lemma publish_outcome:
  assumes "ready S op v old new s" and "safe_basename (printable S) (target_name S)"
  shows "publication_result S op v old new (entries s) (fst (publish_verified_stage S clean s)) (entries (snd (publish_verified_stage S clean s)))"
proof -
  let ?s = "s\<lparr>machine_state := STAGE_VERIFIED\<rparr>"
  note run = wp_publish [OF publish_start(2) [OF assms(1)] _ assms(2) operation_ids_ok(1), of clean]
  show ?thesis
    using run unfolding wp_run publish_start(1) [OF assms(1)]
    by (cases "fst (publish S (cp ''publish-artifacts'') clean ?s)") simp_all
qed


text \<open>
  C3. When no system call fails, the staged generation and the existing target verify as the expected
  one, and a clean build was asked for if a target exists, the publication returns: the target is the
  new generation, no stage, backup, tombstone or marker is left, and no other name has changed.
\<close>

theorem publication_succeeds:
  assumes "promising S op v old new s" and "script s = []" and "old \<noteq> None \<longrightarrow> clean" and "safe_basename (printable S) (target_name S)"
  shows "fst (publish_verified_stage S clean s) = Returned ()
    \<and> published_cleanly S op new (entries (snd (publish_verified_stage S clean s)))
    \<and> untouched S op (entries s) (entries (snd (publish_verified_stage S clean s)))"
proof -
  let ?s = "s\<lparr>machine_state := STAGE_VERIFIED\<rparr>"
  have r: "ready S op v old new s" using assms(1) by (simp add: promising_def)
  have p: "promising S op v old new ?s"
    using assms(1) publish_start(2) [OF r] by (simp add: promising_def live_stage_def)
  have "wp (publish S (cp ''publish-artifacts'') clean) (\<lambda>_ _. True) (\<lambda>_ _. False) (\<lambda>_. False) ?s"
    by (rule fine_publish [OF _ p _ _ assms(4) operation_ids_ok(1)]) (use assms in simp_all)
  then have "fst (publish_verified_stage S clean s) = Returned ()"
    unfolding wp_run publish_start(1) [OF r] by (auto split: outcome.splits)
  with publish_outcome [OF r assms(4), of clean] show ?thesis
    by (simp add: publication_result_def conserved_def)
qed

text \<open>
  C2. Recovery after a crash: after a publication was killed or failed at any point, under any faults,
  and left a closed remnant, the recovery of owned remnants (when nothing fails in it) returns with no
  remnant left, the target the old or the new generation, and every other name as before the publication.
\<close>

theorem interrupted_publication_recovers:
  assumes "ready S op v old new s" and "fresh_operation S op (entries s)" and "safe_basename (printable S) (target_name S)"
    and "\<forall>x. old = Some x \<longrightarrow> generation S v x" and "generation S v new"
    and "closed_remnant S op old (entries (snd (publish_verified_stage S clean s)))"
  shows "(let (r, u) = recover_owned_remnants S ((snd (publish_verified_stage S clean s))\<lparr>script := []\<rparr>) in
      r = Returned () \<and> (\<forall>n. is_remnant S n \<longrightarrow> look u n = None)
      \<and> (look u (target_name S) = old \<or> look u (target_name S) = Some new)
      \<and> (\<forall>n. n \<notin> publication_names S op \<longrightarrow> look u n = look s n))"
proof -
  define t where "t = snd (publish_verified_stage S clean s)"
  let ?t = "t\<lparr>script := []\<rparr>"
  have closed: "closed_remnant S op old (entries t)" using assms(6) by (simp add: t_def)
  have c: "conserved S op old new (entries s) (entries t)"
    using publish_outcome [OF assms(1,3), of clean] by (simp add: publication_result_def t_def)
  have un: "untouched S op (entries s) (entries t)" and loss: "no_loss S op old new (entries t)"
    using c by (simp_all add: conserved_def)
  have shape: "operation_shape op" using assms(2) by (simp add: fresh_operation_def)
  have sole: "sole_operation S op (entries ?t)" using fresh_sole [OF assms(2) un] by simp
  have "recoverable S op v (entries ?t)"
    using closed_recoverable [OF closed loss _ assms(5)] assms(4) by simp
  then have "wp (recover_owned_remnants S) (\<lambda>_ u. recovered S op (entries ?t) (entries u)) (\<lambda>_ _. False) (\<lambda>_. False) ?t"
    by (intro fine_recover_owned [OF _ sole marker_fits [OF shape assms(3)]]) simp_all
  moreover obtain r u where u: "recover_owned_remnants S ?t = (r, u)" by (cases "recover_owned_remnants S ?t")
  ultimately have r: "r = Returned ()" and d: "recovered S op (entries t) (entries u)"
    by (auto simp: wp_def split: outcome.splits)
  have "look u n = None" if n: "is_remnant S n" for n
  proof (cases "n \<in> remnant_names S op")
    case True with d show ?thesis by (simp add: recovered_def)
  next
    case False
    then have "map_of (entries t) n = None" using sole n by (auto simp: sole_operation_def)
    moreover have "n \<noteq> target_name S" using n not_remnants by auto
    ultimately show ?thesis using d False by (simp add: recovered_def)
  qed
  moreover have "look u (target_name S) = old \<or> look u (target_name S) = Some new"
  proof -
    have "look t (backup_at S op) = None \<or> look t (backup_at S op) = old"
      using closed by (auto simp: closed_remnant_def Let_def)
    then show ?thesis using d loss by (auto simp: recovered_def no_loss_def)
  qed
  moreover have "look u n = look s n" if "n \<notin> publication_names S op" for n
  proof -
    have "n \<notin> remnant_names S op" "n \<noteq> target_name S" using that by (auto simp: publication_names_def remnant_names_def)
    then show ?thesis using d un that by (simp add: recovered_def untouched_def)
  qed
  ultimately show ?thesis using u r by (simp add: t_def)
qed

text \<open>
  C4. A remnant with an incomplete marker, or a tombstone that no longer verifies, stops every recovery,
  whatever system calls fail: it does not return and leaves the directory as it was.
\<close>

theorem damaged_remnant_is_never_recovered:
  assumes "sole_operation S op (entries s)" and "refused_remnant S op (entries s)"
  shows "fst (recover_owned_remnants S s) \<noteq> Returned () \<and> entries (snd (recover_owned_remnants S s)) = entries s"
  using wp_recover_refused [OF assms] unfolding wp_run by (auto split: outcome.splits)

section \<open>A publication that replaces a generation\<close>

definition example_tree :: "nat \<Rightarrow> node" where
  "example_tree i = Directory i 448 [(cp ''manifest.json'', Regular (i + 1) 384 1 [i]),
     (cp ''parquet'', Directory (i + 2) 448 [(cp ''t'', Regular (i + 3) 384 1 [])])]"

definition example_files :: "pystr list" where
  "example_files = [cp ''parquet/t'']"

definition example_site :: "nat site" where
  "example_site = \<lparr>target_name = cp ''a'',
     verify_tree = (\<lambda>x. case x of
        Directory i m c \<Rightarrow> (if map fst c = [cp ''manifest.json'', cp ''parquet''] \<and> exact_tree example_files x then Inr (example_files, 7)
            else Inl \<lparr>error_code = MANIFEST_INVALID, error_operation = cp ''load-artifact-manifest'', error_target = None, error_published = False, error_context = []\<rparr>)
      | _ \<Rightarrow> Inl \<lparr>error_code = MANIFEST_INVALID, error_operation = cp ''load-artifact-manifest'', error_target = None, error_published = False, error_context = []\<rparr>),
     printable = (\<lambda>c. 32 \<le> c \<and> c < 127)\<rparr>"

definition example_op :: pystr where "example_op = replicate 32 48"

definition example_custody :: custody where
  "example_custody = \<lparr>custody_closed = False, custody_state = LIVE, descriptors_open = True,
     stage_name = stage_at example_site example_op, marker_name = stage_marker_at example_site example_op, custody_target = cp ''a'',
     stage_identity = (20, 448), marker_identity = (30, 384, 1), marker_payload = marker_bytes example_op (cp ''a''),
     registered_stage_names = [cp ''manifest.json'', cp ''parquet''], registered_parquet_names = [cp ''t''],
     leaf_objects = [\<lparr>leaf_name = cp ''t'', leaf_created = True, leaf_identity = Some (23, 384, 1)\<rparr>], database_leaf = None,
     final_leaf_identities = [(cp ''manifest.json'', (21, 384, 1))], reports_identity = None\<rparr>"

definition example_start :: "fault list \<Rightarrow> nat publisher" where
  "example_start fs = \<lparr>entries = [(cp ''a'', example_tree 10), (stage_at example_site example_op, example_tree 20),
      (stage_marker_at example_site example_op, Regular 30 384 1 (marker_bytes example_op (cp ''a'')))],
     script = fs, next_inode = 40, fs_expected = Some 7, fs_operation_id = None, fs_marker_payload = None, fs_closed = False,
     stage_custody = example_custody, receiver_closed = False, receiver_transferred = True, machine_state = NO_REMNANT\<rparr>"

lemma example_ready: "ready example_site example_op 7 (Some (example_tree 10)) (example_tree 20) (example_start fs)"
  unfolding ready_def engaged_def by (intro conjI) code_simp+

lemma example_name: "safe_basename (printable example_site) (target_name example_site)"
  by code_simp



lemma example_generation: "generation example_site 7 (example_tree 10)" "generation example_site 7 (example_tree 20)"
proof -
  have "verify_tree example_site (example_tree 10) = Inr (example_files, 7) \<and> exact_tree example_files (example_tree 10)" by code_simp
  then show "generation example_site 7 (example_tree 10)" by (auto simp: generation_def)
  have "verify_tree example_site (example_tree 20) = Inr (example_files, 7) \<and> exact_tree example_files (example_tree 20)" by code_simp
  then show "generation example_site 7 (example_tree 20)" by (auto simp: generation_def)
qed

lemma example_names: "map_of (entries (example_start fs)) n \<noteq> None \<Longrightarrow>
    n = target_name example_site \<or> n = stage_at example_site example_op \<or> n = stage_marker_at example_site example_op"
  by (auto simp: example_start_def example_site_def split: if_splits)

lemma example_shape: "operation_shape example_op"
  by code_simp

lemma example_fresh: "fresh_operation example_site example_op (entries (example_start fs))"
  unfolding fresh_operation_def using example_shape example_names not_remnants by metis

lemma example_sole: "sole_stage example_site example_op (entries (example_start fs))"
proof -
  have "\<not> py_startswith (target_name example_site) (stage_prefix (target_name example_site))"
    by (rule startswith_shorter) (simp add: stage_prefix_def)
  moreover have "look (example_start fs) (stage_at example_site example_op) \<noteq> None" "look (example_start fs) (stage_marker_at example_site example_op) \<noteq> None"
    using example_ready [of fs] by (simp_all add: ready_def)
  ultimately show ?thesis
    unfolding sole_stage_def using example_shape example_names [of fs] by blast
qed

lemma example_live: "live_stage example_site example_op (example_tree 20) (example_start fs)"
proof -
  have "look (example_start fs) (stage_marker_at example_site example_op) = Some (Regular 30 384 1 (marker_bytes example_op (target_name example_site)))"
    "marker_identity (stage_custody (example_start fs)) = (30, 384, 1)"
    by code_simp+
  moreover have "look (example_start fs) (stage_at example_site example_op) = Some (example_tree 20)"
    using example_ready [of fs] by (simp add: ready_def)
  moreover have "map fst [(cp ''manifest.json'', Regular (20 + 1) 384 1 [20]),
     (cp ''parquet'', Directory (20 + 2) 448 [(cp ''t'', Regular (20 + 3) 384 1 [])])] = [cp ''manifest.json'', cp ''parquet'']" by simp
  ultimately show ?thesis
    by (simp add: live_stage_def Let_def example_start_def example_custody_def example_tree_def example_site_def cp_def)
qed

lemma example_promising: "promising example_site example_op 7 (Some (example_tree 10)) (example_tree 20) (example_start fs)"
  unfolding promising_def using example_ready example_live example_sole example_generation by simp

theorem publication_succeeds_witness:
  "fst (publish_verified_stage example_site True (example_start [])) = Returned ()
    \<and> published_cleanly example_site example_op (example_tree 20) (entries (snd (publish_verified_stage example_site True (example_start []))))
    \<and> untouched example_site example_op (entries (example_start [])) (entries (snd (publish_verified_stage example_site True (example_start []))))"
  by (rule publication_succeeds [OF example_promising _ _ example_name]) (simp_all add: example_start_def)

definition stopped :: "nat publisher" where
  "stopped = snd (publish_verified_stage example_site True (example_start (replicate 24 Fine @ [Kills])))"

lemma example_stopped:
  "map (look stopped) [cp ''a'', backup_at example_site example_op, backup_marker_at example_site example_op, cleanup_at example_site example_op, cleanup_marker_at example_site example_op]
   = [None, Some (example_tree 10), Some (Regular 40 384 1 (marker_bytes example_op (cp ''a''))), None, None]"
  by code_simp

lemma example_stopped_closed: "closed_remnant example_site example_op (Some (example_tree 10)) (entries stopped)"
  using example_stopped by (simp add: closed_remnant_def marker_intact_def example_site_def)

theorem interrupted_publication_recovers_witness:
  "(let (r, u) = recover_owned_remnants example_site (stopped\<lparr>script := []\<rparr>) in
      r = Returned () \<and> (\<forall>n. is_remnant example_site n \<longrightarrow> look u n = None)
      \<and> (look u (target_name example_site) = Some (example_tree 10) \<or> look u (target_name example_site) = Some (example_tree 20))
      \<and> (\<forall>n. n \<notin> publication_names example_site example_op \<longrightarrow> look u n = look (example_start (replicate 24 Fine @ [Kills])) n))"
  unfolding stopped_def
  by (rule interrupted_publication_recovers [OF example_ready example_fresh example_name _ example_generation(2)])
     (use example_stopped_closed example_generation(1) in \<open>simp_all add: stopped_def\<close>)

text \<open>A tombstone whose deletion was interrupted: its \<open>parquet\<close> directory is gone, its manifest is not.\<close>

definition example_partial :: "fault list \<Rightarrow> nat publisher" where
  "example_partial fs = (example_start fs)\<lparr>entries := [(cp ''a'', example_tree 20),
      (backup_marker_at example_site example_op, Regular 40 384 1 (marker_bytes example_op (cp ''a''))),
      (cleanup_at example_site example_op, Directory 10 448 [(cp ''manifest.json'', Regular 11 384 1 [10])]),
      (cleanup_marker_at example_site example_op, Regular 41 384 1 (marker_bytes example_op (cp ''a'')))]\<rparr>"

lemma example_partial_refused:
  "sole_operation example_site example_op (entries (example_partial fs))" "refused_remnant example_site example_op (entries (example_partial fs))"
proof -
  have t: "target_name example_site = cp ''a''" by (simp add: example_site_def)
  have "n = cp ''a'' \<or> n \<in> remnant_names example_site example_op" if "look (example_partial fs) n \<noteq> None" for n
    using that by (auto simp: example_partial_def remnant_names_def split: if_splits)
  then show "sole_operation example_site example_op (entries (example_partial fs))"
    unfolding sole_operation_def using example_shape not_remnants(1) [of example_site] unfolding t by blast
  have "look (example_partial fs) (cleanup_at example_site example_op) = Some (Directory 10 448 [(cp ''manifest.json'', Regular 11 384 1 [10])])"
    "isl (verify_tree example_site (Directory 10 448 [(cp ''manifest.json'', Regular 11 384 1 [10])]))"
    by code_simp+
  then show "refused_remnant example_site example_op (entries (example_partial fs))"
    unfolding refused_remnant_def by blast
qed

theorem damaged_remnant_is_never_recovered_witness:
  "fst (recover_owned_remnants example_site (example_partial [])) \<noteq> Returned ()
   \<and> entries (snd (recover_owned_remnants example_site (example_partial []))) = entries (example_partial [])"
  by (rule damaged_remnant_is_never_recovered [OF example_partial_refused])

end
