(* ===== verification/Spec2Isabelle.thy ===== *)
theory Spec2Isabelle
  imports Pipeline Funds Publication Artifact_Safety
begin

text \<open>
  FinProof answers questions about Korean financial products deterministically: workbooks of product
  rows are normalized into records with complete lineage, a query plan is validated and compiled to
  SQL, the rows it returns pass through quality policies, and every number in the answer can be traced
  to a cell. This development models that core in the order in which data flows through it.

  \<^bold>\<open>Python.\<close> \<open>Prelude\<close> holds strings as lists of code points, exceptions as values of type
  \<open>'a result\<close>, \<open>strip\<close>, \<open>split\<close>, \<open>join\<close>, stable \<open>sorted\<close>, insertion-ordered
  dictionaries and \<open>traverse\<close> for a loop that may raise. \<open>Py_Decimal\<close> models \<open>decimal.Decimal\<close>
  (literals, exact comparison, context rounding), \<open>Py_Date\<close> models \<open>date\<close> and \<open>datetime\<close>
  with their day numbers, \<open>Scalar\<close> the dynamically typed values that rows and plans carry, with
  Python's equality, order and its \<open>TypeError\<close>, and \<open>Sha256\<close> the digest on 32-bit words.

  \<^bold>\<open>Source rows\<close> (\<open>Source\<close>; \<open>domain/source.py\<close>, \<open>locators.py\<close>, \<open>quality.py\<close>,
  \<open>values.py\<close>, \<open>normalization.py\<close>, \<open>normalization/value_factory.py\<close>): rows, cells, locators,
  issues whose identifier is a digest of their position, wrapped values, and the rule that a result has
  no record exactly when it holds a quarantined issue, as the locale \<open>quarantining_normalizer\<close>.

  \<^bold>\<open>Cell parsers\<close> (\<open>Parsers\<close>; \<open>normalization/numeric.py\<close>, \<open>temporal.py\<close>, \<open>text.py\<close>):
  every parser keeps the raw text and the locator of its cell and returns on every verified row, as the
  locale \<open>lineage_parser\<close>, interpreted for each parser.

  \<^bold>\<open>Product tables.\<close> \<open>Rating\<close> (\<open>registry/rating.py\<close>) models the rating scale. \<open>Bonds\<close>
  (\<open>domain/bonds.py\<close>, \<open>normalization/bonds.py\<close>) models sale lots and their projection to one
  instrument. \<open>Field_Tables\<close> gives the contract of a record that is a table of wrapped columns, the
  locale \<open>field_table\<close>; \<open>Listed\<close> (\<open>domain/domestic_listed.py\<close>, \<open>overseas_listed.py\<close> and
  their normalizers) and \<open>Funds\<close> (\<open>domain/public_funds.py\<close>,
  \<open>normalization/public_funds.py\<close>) interpret it for 98, 49 and 46 columns.

  \<^bold>\<open>Queries.\<close> \<open>Query_Plan\<close> (\<open>domain/query_plan.py\<close>, \<open>domain/execution.py\<close>),
  \<open>Query_Fields\<close> (\<open>registry/metric.py\<close>, \<open>query/fields.py\<close>), \<open>Entity\<close> (\<open>entity\<close>: index
  and both resolvers), \<open>Segments\<close> (\<open>query/semantic_validator.py\<close>, \<open>query/segmenter.py\<close>) and
  \<open>Query_Sql\<close> (\<open>query/ast.py\<close>, \<open>compiler.py\<close>, \<open>executor.py\<close>, \<open>reference.py\<close>,
  \<open>storage/repositories/products.py\<close>) take a validated plan to segments, to SQL text with bound
  parameters and to bounded result sets. Fuzzy scores, Unicode normalization and the database are
  arguments of the definitions that use them.

  \<^bold>\<open>Policies.\<close> \<open>Quality\<close> (\<open>quality/metric_policy.py\<close>, \<open>comparability.py\<close>,
  \<open>dual_lens.py\<close>, \<open>state.py\<close>, \<open>ties.py\<close>) and \<open>Pipeline\<close> (\<open>quality/pipeline.py\<close>) decide
  which rows and values count, rank them with ties, order, group and aggregate them. A fixed
  competition ranking is the locale \<open>competition_ranking\<close>; the two executors of segments share the
  locale \<open>segment_executor\<close>.

  \<^bold>\<open>Identity of artifacts.\<close> \<open>Canonical_Json\<close> (\<open>data/artifacts/hashing.py\<close>) models canonical
  values, the JSON printer and the bytes that are digested for schemas and tables; \<open>Json_Size\<close> bounds
  them; \<open>Artifact_Contract\<close> (\<open>data/artifacts/expected_contract.py\<close>) models the frozen contract of an
  artifact set, its comparison and the digests of reports and manifests.

  \<^bold>\<open>Publication of artifacts\<close> (\<open>data/artifacts/publication.py\<close>, \<open>errors.py\<close>, and of \<open>staging.py\<close>
  the custody of a staged generation). \<open>Fault_Monad\<close> models programs whose system calls may fail and
  whose process may be killed, with weakest preconditions; the locale \<open>stable_relation\<close> carries a
  relation between states through every program. \<open>Artifact_Files\<close> models the directory and its system
  calls, driven by a script of faults. \<open>Artifact_Publication\<close> models the filesystem port, the custody
  and the state machine, method by method; loading and verifying a directory is its parameter.
  \<open>Publication_Rules\<close>, \<open>Stage_Custody_Rules\<close>, \<open>Publication_Remnants\<close> and \<open>Publication_Phases\<close>
  prove the guarantees under arbitrary faults; \<open>Publication_Fault_Free\<close>, \<open>Publication_Recovery\<close>,
  \<open>Publication_Refusals\<close> and \<open>Publication_Success\<close> treat runs in which nothing fails;
  \<open>Artifact_Safety\<close> states the results.

  \<^bold>\<open>Answers.\<close> \<open>Evidence\<close> (\<open>domain/evidence.py\<close>, \<open>domain/answers.py\<close>, \<open>answer/safety.py\<close>,
  \<open>evidence/verifier.py\<close>) models evidence bundles, claims and the claim verifier. \<open>Fact_Pack\<close>
  (\<open>service/answer_service.py\<close> from the evidence on) models the signatures of claims and the prepared
  answer; the renderer and the evidence serializer are its arguments, since the verifier runs on
  whatever they produce.

  \<^bold>\<open>Service.\<close> \<open>Admission\<close> (\<open>service/limits.py\<close>) models deadlines and the semaphore as a transition
  system whose events are the code between two suspension points of the event loop, with the worker
  that outlives its request; its interface is the locale \<open>draining_system\<close>. \<open>Orchestrator\<close>
  (\<open>service/orchestrator.py\<close>) models one request from admission to its result; planner, database and
  wording provider are operations with a duration and an outcome, so that every timeout, error,
  cancellation, repair and retry is a branch. \<open>Publication\<close> (\<open>service/publication.py\<close>,
  \<open>api/models.py\<close>) models the response envelope and its bytes.

  \<^bold>\<open>What is shown.\<close> Normalizers return on every verified row, quarantine exactly the rows without an
  identity and keep text, position and type of every field; bond projection does not depend on the order
  of its lots and selects the best yield; segments only contain filters registered for their product;
  the SQL text never depends on filter literals and has one parameter per placeholder; entity resolution
  is conservative; ranks are competition ranks and selections never split ties; the pipeline accounts
  for every candidate row; sorting by one stable pass per key is the lexicographic order; digested bytes
  determine tables and manifests, and a build is accepted exactly when its contract equals the frozen
  one; whatever fails, publishing an artifact set loses neither the old nor the new generation, recovery
  completes what a crash left unless a marker or tombstone was left incomplete, and without failures the
  publication ends cleanly; a prepared answer contains only verified claims with their own signatures; a request ends with
  the safe result or an accepted answer, within its deadlines and with a bounded number of calls; no
  permit is lost or given out twice; the safe publication cannot fail. Below, across components, the
  state policy of the query engine agrees with the eligibility stored at build time except for one gap,
  an unknown suspension flag, and what the service publishes is grounded in evidence.

  \<^bold>\<open>Termination and bounds.\<close> All definitions are total HOL functions. Loops of the sources are
  recursions on their list; the batch loop of the repository is bounded by the candidate limit plus
  one and consumes the result set it is given; decimal results are rounded to the context precision
  that the source sets (28 by default, 38 in aggregation). Times are exact rationals; a run of the
  service has no loop, and a run of the admission without arrivals has at most four events per request.

  \<^bold>\<open>Not modelled.\<close> Reading and writing of workbooks, Parquet files, databases and reports, and the
  staging sessions before a generation is handed over (the rest of \<open>data/artifacts\<close>, \<open>data/xlsx_stream.py\<close>, \<open>data/holdings.py\<close>, \<open>data/source_manifest.py\<close>): input
  and output through libraries; the language-model client, its prompts and the planner around it
  (\<open>planner\<close>); the construction of evidence bundles and their storage (\<open>evidence/builder.py\<close>,
  \<open>evidence/serializer.py\<close>, \<open>storage/repositories/evidence.py\<close>) and the rendering of texts
  (\<open>answer/renderer.py\<close>), whose output the verifier checks; the trace of an executed plan in
  \<open>service/answer_service.py\<close>; the plan-only call and the shutdown of the orchestrator; the HTTP and
  command-line shells (\<open>api\<close>, \<open>cli\<close>, \<open>runtime\<close>); evaluation tooling; the YAML loader of the
  registries; and the retired attribute-grain models of \<open>domain/public_funds.py\<close>.
\<close>

section \<open>Eligibility at build time and at query time\<close>

text \<open>A stored field: the value and the quality status that the query engine reads back.\<close>

definition stored_field :: "raw_field_value list \<Rightarrow> string \<Rightarrow> scalar option \<Rightarrow> quality_status \<Rightarrow> bool" where
  "stored_field values f v q =
     (case field_item values (cp f) of None \<Rightarrow> False | Some r \<Rightarrow> rf_value r = v \<and> rf_quality_status r = quality_value q)"

text \<open>The row that the query engine hands to the state policy for a normalized product.\<close>

definition stored_listed :: "listed_product \<Rightarrow> policy_product \<Rightarrow> bool" where
  "stored_listed p prd =
     (case (map_of (lp_values p) ''sale_flag'', map_of (lp_values p) ''suspension_flag'',
            map_of (lp_values p) ''listing_date'', map_of (lp_values p) ''listing_end_date'') of
        (Some sale, Some susp, Some start, Some finish) \<Rightarrow>
          stored_field (pp_values prd) ''saleable'' (map_option SBool (bool_of sale)) (nv_quality_status sale) \<and>
          stored_field (pp_values prd) ''suspension_flag'' (map_option SBool (bool_of susp)) (nv_quality_status susp) \<and>
          stored_field (pp_values prd) ''listing_date'' (map_option SDate (date_of start)) (nv_quality_status start) \<and>
          stored_field (pp_values prd) ''listing_end_date'' (map_option SDate (date_of finish)) (nv_quality_status finish)
      | _ \<Rightarrow> False)"

definition stored_bond :: "bond_instrument \<Rightarrow> policy_product \<Rightarrow> bool" where
  "stored_bond b prd \<longleftrightarrow>
     stored_field (pp_values prd) ''issue_date'' (map_option SDate (nv_normalized_value (bi_issue_date b)))
       (nv_quality_status (bi_issue_date b)) \<and>
     stored_field (pp_values prd) ''maturity_date'' (map_option SDate (nv_normalized_value (bi_maturity_date b)))
       (nv_quality_status (bi_maturity_date b))"

lemma stored_field_value: "stored_field vs f v q \<Longrightarrow> field_value vs (cp f) = v"
  by (auto simp: stored_field_def field_value_def split: option.splits)

lemma stored_field_date: "stored_field vs f (map_option SDate d) q \<Longrightarrow> field_date vs (cp f) = d"
  by (cases d) (simp_all add: field_date_def stored_field_value)

lemma stored_field_open:
  "stored_field vs f (map_option SDate d) q \<Longrightarrow>
     (case field_item vs (cp f) of None \<Rightarrow> False
      | Some v \<Rightarrow> rf_value v = None \<and> rf_quality_status v \<in> set [cp ''missing_blank'', cp ''sentinel_max_date''])
     \<longleftrightarrow> d = None \<and> q \<in> {MISSING_BLANK, SENTINEL_MAX_DATE}"
  by (cases q) (auto simp: stored_field_def split: option.splits)

lemma evaluate_listed_stored:
  assumes "stored_field (pp_values prd) ''saleable'' (map_option SBool sale) q1"
    and "stored_field (pp_values prd) ''suspension_flag'' (map_option SBool susp) q2"
    and "stored_field (pp_values prd) ''listing_date'' (map_option SDate start) q3"
    and "stored_field (pp_values prd) ''listing_end_date'' (map_option SDate finish) q4"
  shows "se_eligible (evaluate_listed prd as_of) \<longleftrightarrow>
     sale = Some True \<and> susp \<noteq> Some True \<and> (\<exists>d. start = Some d \<and> d \<le> as_of) \<and>
     (case finish of Some d \<Rightarrow> as_of \<le> d | None \<Rightarrow> q4 \<in> {MISSING_BLANK, SENTINEL_MAX_DATE})"
  unfolding evaluate_listed_def Let_def state_evaluation.simps stored_field_value [OF assms(1)] stored_field_value [OF assms(2)]
    stored_field_date [OF assms(3)] stored_field_date [OF assms(4)] stored_field_open [OF assms(4)]
  by (cases start; cases finish; auto)

section \<open>Properties across components\<close>

text \<open>C29. The state policy agrees with the normalizer. A product that the domestic normalizer marks eligible is
  eligible for the policy and one it marks ineligible is not; whenever the suspension flag of the
  product is known, the policy's verdict is exactly the stored derivation.\<close>

theorem listed_policy_agrees:
  assumes "canonical_row ''PREF01N001'' DOMESTIC_FIELD_COLUMNS row" and "normalize_domestic_listed row as_of = Inr n"
    and "nr_record n = Some p" and "stored_listed p prd" and "is_domestic_listed (pp_product_type prd)"
  shows "\<exists>e susp. evaluate_state prd as_of = Inr e \<and> map_of (lp_values p) ''suspension_flag'' = Some susp \<and>
     (dv_value (lp_is_eligible_at_as_of p) = Some True \<longrightarrow> se_eligible e) \<and>
     (dv_value (lp_is_eligible_at_as_of p) = Some False \<longrightarrow> \<not> se_eligible e) \<and>
     (bool_of susp \<noteq> None \<longrightarrow> (se_eligible e \<longleftrightarrow> dv_value (lp_is_eligible_at_as_of p) = Some True))"
proof -
  from normalize_domestic_cases [OF assms(1), of as_of] assms(2,3) obtain sale susp start finish where
    f: "map_of (lp_values p) ''sale_flag'' = Some sale" "map_of (lp_values p) ''suspension_flag'' = Some susp"
      "map_of (lp_values p) ''listing_date'' = Some start" "map_of (lp_values p) ''listing_end_date'' = Some finish"
    and d: "lp_is_eligible_at_as_of p = derive_eligibility sale susp start finish as_of"
    by (auto split: if_splits)
  note stored = assms(4) [unfolded stored_listed_def f prod.case option.case]
  note e = evaluate_listed_stored [OF conjunct1 [OF stored] conjunct1 [OF conjunct2 [OF stored]]
      conjunct1 [OF conjunct2 [OF conjunct2 [OF stored]]] conjunct2 [OF conjunct2 [OF conjunct2 [OF stored]]], of as_of]
  have "evaluate_state prd as_of = Inr (evaluate_listed prd as_of)" using assms(5) by (simp add: evaluate_state_def)
  with f(2) show ?thesis
    by (intro exI [of _ "evaluate_listed prd as_of"] exI [of _ susp])
      (auto simp: d derive_eligibility_values e split: option.splits)
qed

text \<open>C30. A single gap. When the suspension flag of a product is unknown, the stored derivation is never true,
  yet the policy still declares the product eligible whenever it is on sale and within its listing
  period: the policy reads an unknown flag as not suspended.\<close>

theorem unknown_suspension_passes:
  assumes "stored_listed p prd" and "is_domestic_listed (pp_product_type prd)"
    and "map_of (lp_values p) ''sale_flag'' = Some sale" and "map_of (lp_values p) ''suspension_flag'' = Some susp"
    and "map_of (lp_values p) ''listing_date'' = Some start" and "map_of (lp_values p) ''listing_end_date'' = Some finish"
    and "bool_of susp = None"
  shows "dv_value (derive_eligibility sale susp start finish as_of) \<noteq> Some True \<and>
     (\<exists>e. evaluate_state prd as_of = Inr e \<and>
        (se_eligible e \<longleftrightarrow> bool_of sale = Some True \<and> (\<exists>d. date_of start = Some d \<and> d \<le> as_of) \<and>
           (case date_of finish of Some d \<Rightarrow> as_of \<le> d | None \<Rightarrow> nv_quality_status finish \<in> {MISSING_BLANK, SENTINEL_MAX_DATE})))"
proof -
  note stored = assms(1) [unfolded stored_listed_def assms(3-6) prod.case option.case]
  note e = evaluate_listed_stored [OF conjunct1 [OF stored] conjunct1 [OF conjunct2 [OF stored]]
      conjunct1 [OF conjunct2 [OF conjunct2 [OF stored]]] conjunct2 [OF conjunct2 [OF conjunct2 [OF stored]]], of as_of]
  have "evaluate_state prd as_of = Inr (evaluate_listed prd as_of)" using assms(2) by (simp add: evaluate_state_def)
  then show ?thesis unfolding derive_eligibility_values using e assms(7) by auto
qed

text \<open>The state policy agrees with the bond projection. For a projected bond instrument the policy's verdict
  is exactly the stored purchasability flag, and it warns exactly when the maturity date is unknown.\<close>

theorem bond_policy_agrees:
  assumes "project_bond_instrument lots as_of = Inr n" and "nr_record n = Some b" and "stored_bond b prd"
    and "pp_product_type prd = DOMESTIC_BOND"
  shows "\<exists>e. evaluate_state prd as_of = Inr e \<and> dv_value (bi_is_purchasable_at_as_of b) = Some (se_eligible e) \<and>
     (se_warnings e \<noteq> [] \<longleftrightarrow> nv_normalized_value (bi_maturity_date b) = None)"
proof -
  from project_bond_instrument_Inr [OF assms(1)] assms(2)
  have d: "bi_is_purchasable_at_as_of b = derive_purchaseability (bi_issue_date b) (bi_maturity_date b) as_of" by auto
  from assms(3) have "field_date (pp_values prd) (cp ''issue_date'') = nv_normalized_value (bi_issue_date b)"
    "field_date (pp_values prd) (cp ''maturity_date'') = nv_normalized_value (bi_maturity_date b)"
    by (auto simp: stored_bond_def stored_field_date)
  then show ?thesis
    using assms(4) by (auto simp: evaluate_state_def evaluate_bond_def d derive_purchaseability_def Let_def is_domestic_listed_def)
qed

section \<open>Concrete rows\<close>

definition stored_example :: "string list \<Rightarrow> (scalar option \<times> quality_status) list \<Rightarrow> raw_field_value list" where
  "stored_example fs vs = map (\<lambda>(f, v, q). \<lparr>rf_field_id = cp f, rf_value = v, rf_quality_status = quality_value q\<rparr>) (zip fs vs)"

definition listed_view :: "wrapped \<Rightarrow> wrapped \<Rightarrow> wrapped \<Rightarrow> wrapped \<Rightarrow> policy_product" where
  "listed_view sale susp start finish =
     \<lparr>pp_product_type = DOMESTIC_ETF, pp_product_id = cp ''KR7069500007'', pp_values =
        stored_example [''saleable'', ''suspension_flag'', ''listing_date'', ''listing_end_date'']
          [(map_option SBool (bool_of sale), nv_quality_status sale), (map_option SBool (bool_of susp), nv_quality_status susp),
           (map_option SDate (date_of start), nv_quality_status start), (map_option SDate (date_of finish), nv_quality_status finish)]\<rparr>"

lemma listed_view_stored:
  assumes "map_of (lp_values p) ''sale_flag'' = Some sale" and "map_of (lp_values p) ''suspension_flag'' = Some susp"
    and "map_of (lp_values p) ''listing_date'' = Some start" and "map_of (lp_values p) ''listing_end_date'' = Some finish"
  shows "stored_listed p (listed_view sale susp start finish)"
  by (simp add: stored_listed_def assms stored_field_def listed_view_def stored_example_def field_item_def)

theorem listed_policy_agrees_witness:
  "\<exists>n p prd e. normalize_domestic_listed domestic_example (Date 2026 8 22) = Inr n \<and> nr_record n = Some p \<and> stored_listed p prd \<and>
     evaluate_state prd (Date 2026 8 22) = Inr e \<and> (dv_value (lp_is_eligible_at_as_of p) = Some False \<longrightarrow> \<not> se_eligible e)"
proof -
  have "is_identifier (raw_of domestic_example (cp ''pd_itm_no''))" "listed_type_of (raw_of domestic_example (cp ''pd_grp_no'')) \<noteq> None"
    unfolding domestic_example_row(2,3) by code_simp+
  with normalize_domestic_cases [OF domestic_example_row(1), of "Date 2026 8 22"] obtain n p sale susp start finish where
    n: "normalize_domestic_listed domestic_example (Date 2026 8 22) = Inr n" "nr_record n = Some p"
    and f: "map_of (lp_values p) ''sale_flag'' = Some sale" "map_of (lp_values p) ''suspension_flag'' = Some susp"
      "map_of (lp_values p) ''listing_date'' = Some start" "map_of (lp_values p) ''listing_end_date'' = Some finish" by auto
  have "is_domestic_listed (pp_product_type (listed_view sale susp start finish))" by (simp add: listed_view_def is_domestic_listed_def)
  from listed_policy_agrees [OF domestic_example_row(1) n listed_view_stored [OF f] this] n listed_view_stored [OF f] show ?thesis by blast
qed

definition flag_example :: "string \<Rightarrow> cell_value option \<Rightarrow> quality_status \<Rightarrow> wrapped" where
  "flag_example raw v q =
     \<lparr>nv_raw_value = cp raw, nv_normalized_value = v, nv_quality_status = q, nv_rule_id = cp ''domestic_listed.example'',
      nv_rule_version = listed_rule_version,
      nv_source = locator_of domestic_example \<lparr>sc_column_name = cp ''pd_tr_yn'', sc_excel_column_number = 87,
        sc_excel_column_letter = cp ''CI'', sc_raw_value = cp raw, sc_applicable_date = None\<rparr>\<rparr>"

definition unknown_suspension_example :: listed_product where
  "unknown_suspension_example =
     (let sale = flag_example ''1'' (Some (VBool True)) VALID; susp = flag_example ''X'' None OUT_OF_DOMAIN;
          start = flag_example ''20200102'' (Some (VDate (Date 2020 1 2))) VALID; finish = flag_example '''' None MISSING_BLANK
      in \<lparr>lp_values = [(''sale_flag'', sale), (''suspension_flag'', susp), (''listing_date'', start), (''listing_end_date'', finish)],
          lp_is_eligible_at_as_of = derive_eligibility sale susp start finish (Date 2026 8 22)\<rparr>)"

theorem unknown_suspension_passes_witness:
  "\<exists>prd e. stored_listed unknown_suspension_example prd \<and> evaluate_state prd (Date 2026 8 22) = Inr e \<and> se_eligible e \<and>
     dv_value (lp_is_eligible_at_as_of unknown_suspension_example) \<noteq> Some True"
proof -
  let ?sale = "flag_example ''1'' (Some (VBool True)) VALID" and ?susp = "flag_example ''X'' None OUT_OF_DOMAIN"
  let ?start = "flag_example ''20200102'' (Some (VDate (Date 2020 1 2))) VALID" and ?finish = "flag_example '''' None MISSING_BLANK"
  let ?p = unknown_suspension_example
  have f: "map_of (lp_values ?p) ''sale_flag'' = Some ?sale" "map_of (lp_values ?p) ''suspension_flag'' = Some ?susp"
    "map_of (lp_values ?p) ''listing_date'' = Some ?start" "map_of (lp_values ?p) ''listing_end_date'' = Some ?finish"
    by (simp_all add: unknown_suspension_example_def Let_def)
  have t: "is_domestic_listed (pp_product_type (listed_view ?sale ?susp ?start ?finish))" by (simp add: listed_view_def is_domestic_listed_def)
  have s: "bool_of ?susp = None" "bool_of ?sale = Some True" "date_of ?start = Some (Date 2020 1 2)" "date_of ?finish = None"
    "nv_quality_status ?finish = MISSING_BLANK"
    by (simp_all add: flag_example_def bool_of_def date_of_def)
  have "Date 2020 1 2 \<le> Date 2026 8 22" by code_simp
  with unknown_suspension_passes [OF listed_view_stored [OF f] t f s(1), of "Date 2026 8 22"] s listed_view_stored [OF f]
  show ?thesis by (auto simp: unknown_suspension_example_def Let_def)
qed

theorem bond_policy_agrees_witness:
  "\<exists>n b prd e. project_bond_instrument sample_lots (Date 2026 8 22) = Inr n \<and> nr_record n = Some b \<and> stored_bond b prd \<and>
     evaluate_state prd (Date 2026 8 22) = Inr e \<and> dv_value (bi_is_purchasable_at_as_of b) = Some (se_eligible e)"
proof -
  obtain n where n: "project_bond_instrument sample_lots (Date 2026 8 22) = Inr n" using sample_projection_Inr by blast
  with project_bond_instrument_Inr obtain b where b: "nr_record n = Some b" by blast
  let ?prd = "\<lparr>pp_product_type = DOMESTIC_BOND, pp_product_id = cp ''KR6000001'', pp_values =
      stored_example [''issue_date'', ''maturity_date'']
        [(map_option SDate (nv_normalized_value (bi_issue_date b)), nv_quality_status (bi_issue_date b)),
         (map_option SDate (nv_normalized_value (bi_maturity_date b)), nv_quality_status (bi_maturity_date b))]\<rparr>"
  have st: "stored_bond b ?prd" by (simp add: stored_bond_def stored_field_def stored_example_def field_item_def)
  have "pp_product_type ?prd = DOMESTIC_BOND" by simp
  from bond_policy_agrees [OF n b st this] obtain e where
    "evaluate_state ?prd (Date 2026 8 22) = Inr e \<and> dv_value (bi_is_purchasable_at_as_of b) = Some (se_eligible e)" by blast
  with n b st show ?thesis by (intro exI conjI) (assumption, assumption, assumption, rule conjunct1, assumption, rule conjunct2)
qed

section \<open>The service publishes only grounded answers\<close>






end
